(* ===== verification/Go_Prelude.thy ===== *)
theory Go_Prelude
  imports Main "HOL-Library.Sublist" "HOL-Library.Char_ord" "HOL-Library.List_Lexorder"
    "HOL-Library.Word"
begin

text \<open>
  The part of Go's standard library that the dashboard's own code calls, as functions on byte
  strings, and the lemmas the components share.  A Go string is a sequence of bytes; here it is
  a \<^typ>\<open>string\<close>, whose characters are the 256 byte values.  \<open>trim_space\<close> recognises exactly
  the byte encodings of the code points of \<^verbatim>\<open>unicode.IsSpace\<close>.  Case mapping is modelled
  on the ASCII letters: bytes above 127 are left as they are, so a statement about \<open>to_lower\<close>,
  \<open>to_upper\<close> or \<open>equal_fold\<close> speaks about the program on strings whose letters are ASCII.
\<close>

named_theorems go_simps "equations of the Go string functions on their own results"

section \<open>Results\<close>

text \<open>A Go call that returns a value and an \<^verbatim>\<open>error\<close>: \<open>Inl\<close> is the error.\<close>

type_synonym 'a result = "string + 'a"

section \<open>Bytes and ASCII case\<close>

definition byte_val :: "char \<Rightarrow> nat" where
  "byte_val c = of_char c"

definition is_ascii :: "char \<Rightarrow> bool" where
  "is_ascii c \<longleftrightarrow> byte_val c < 128"

definition char_lower :: "char \<Rightarrow> char" where
  "char_lower c = (if 65 \<le> byte_val c \<and> byte_val c \<le> 90 then char_of (byte_val c + 32) else c)"

definition char_upper :: "char \<Rightarrow> char" where
  "char_upper c = (if 97 \<le> byte_val c \<and> byte_val c \<le> 122 then char_of (byte_val c - 32) else c)"

definition to_lower :: "string \<Rightarrow> string" where
  "to_lower s = map char_lower s"

definition to_upper :: "string \<Rightarrow> string" where
  "to_upper s = map char_upper s"

definition equal_fold :: "string \<Rightarrow> string \<Rightarrow> bool" where
  "equal_fold a b \<longleftrightarrow> to_lower a = to_lower b"

definition is_lower_alpha :: "char \<Rightarrow> bool" where
  "is_lower_alpha c \<longleftrightarrow> 97 \<le> byte_val c \<and> byte_val c \<le> 122"

definition is_upper_alpha :: "char \<Rightarrow> bool" where
  "is_upper_alpha c \<longleftrightarrow> 65 \<le> byte_val c \<and> byte_val c \<le> 90"

definition is_digit_char :: "char \<Rightarrow> bool" where
  "is_digit_char c \<longleftrightarrow> 48 \<le> byte_val c \<and> byte_val c \<le> 57"

lemma byte_val_less: "byte_val c < 256"
  by (cases c) (simp add: byte_val_def)

lemma byte_val_char_of [simp]: "n < 256 \<Longrightarrow> byte_val (char_of n) = n"
  by (simp add: byte_val_def)

lemma byte_val_eq_iff: "byte_val a = byte_val b \<longleftrightarrow> a = b"
  by (simp add: byte_val_def)

lemma char_lower_idem [simp, go_simps]: "char_lower (char_lower c) = char_lower c"
  by (simp add: char_lower_def)

lemma to_lower_idem [simp, go_simps]: "to_lower (to_lower s) = to_lower s"
  by (simp add: to_lower_def)

lemma length_to_lower [simp]: "length (to_lower s) = length s"
  by (simp add: to_lower_def)

lemma length_to_upper [simp]: "length (to_upper s) = length s"
  by (simp add: to_upper_def)

lemma to_lower_Nil [simp]: "to_lower [] = []"
  by (simp add: to_lower_def)

lemma to_lower_eq_Nil [simp]: "to_lower s = [] \<longleftrightarrow> s = []"
  by (simp add: to_lower_def)

lemma to_lower_append [simp]: "to_lower (a @ b) = to_lower a @ to_lower b"
  by (simp add: to_lower_def)

lemma equal_fold_refl [simp]: "equal_fold a a"
  by (simp add: equal_fold_def)

lemma equal_fold_sym: "equal_fold a b \<Longrightarrow> equal_fold b a"
  by (simp add: equal_fold_def)

lemma equal_fold_trans: "equal_fold a b \<Longrightarrow> equal_fold b c \<Longrightarrow> equal_fold a c"
  by (simp add: equal_fold_def)

lemma equal_fold_lower [simp]: "equal_fold (to_lower a) b \<longleftrightarrow> equal_fold a b"
  by (simp add: equal_fold_def)

section \<open>White space\<close>

text \<open>The byte encodings of the code points in Unicode's White\_Space property.\<close>

definition ascii_spaces :: "char list" where
  "ascii_spaces = [CHR 0x09, CHR 0x0A, CHR 0x0B, CHR 0x0C, CHR 0x0D, CHR '' '']"

definition wide_spaces :: "string list" where
  "wide_spaces =
     [[CHR 0xC2, CHR 0x85], [CHR 0xC2, CHR 0xA0], [CHR 0xE1, CHR 0x9A, CHR 0x80],
      [CHR 0xE2, CHR 0x80, CHR 0x80], [CHR 0xE2, CHR 0x80, CHR 0x81],
      [CHR 0xE2, CHR 0x80, CHR 0x82], [CHR 0xE2, CHR 0x80, CHR 0x83],
      [CHR 0xE2, CHR 0x80, CHR 0x84], [CHR 0xE2, CHR 0x80, CHR 0x85],
      [CHR 0xE2, CHR 0x80, CHR 0x86], [CHR 0xE2, CHR 0x80, CHR 0x87],
      [CHR 0xE2, CHR 0x80, CHR 0x88], [CHR 0xE2, CHR 0x80, CHR 0x89],
      [CHR 0xE2, CHR 0x80, CHR 0x8A], [CHR 0xE2, CHR 0x80, CHR 0xA8],
      [CHR 0xE2, CHR 0x80, CHR 0xA9], [CHR 0xE2, CHR 0x80, CHR 0xAF],
      [CHR 0xE2, CHR 0x81, CHR 0x9F], [CHR 0xE3, CHR 0x80, CHR 0x80]]"

definition space_runes :: "string list" where
  "space_runes = map (\<lambda>c. [c]) ascii_spaces @ wide_spaces"

text \<open>Remove members of \<open>ws\<close> from the front as long as there is one.\<close>

function strip_by :: "string list \<Rightarrow> string \<Rightarrow> string" where
  "strip_by ws s =
     (case find (\<lambda>w. w \<noteq> [] \<and> prefix w s) ws of
        None \<Rightarrow> s
      | Some w \<Rightarrow> strip_by ws (drop (length w) s))"
  by pat_completeness auto
termination
proof (relation "measure (\<lambda>(ws, s). length s)", goal_cases)
  case 1
  show ?case by simp
next
  case (2 ws s w)
  then have "w \<noteq> [] \<and> prefix w s" by (auto simp: find_Some_iff)
  then show ?case by (auto simp: prefix_def)
qed

declare strip_by.simps [simp del]

definition trim_left :: "string \<Rightarrow> string" where
  "trim_left s = strip_by space_runes s"

definition trim_right :: "string \<Rightarrow> string" where
  "trim_right s = rev (strip_by (map rev space_runes) (rev s))"

definition trim_space :: "string \<Rightarrow> string" where
  "trim_space s = trim_right (trim_left s)"

definition starts_clean :: "string \<Rightarrow> bool" where
  "starts_clean s \<longleftrightarrow> \<not> list_ex (\<lambda>w. prefix w s) space_runes"

definition ends_clean :: "string \<Rightarrow> bool" where
  "ends_clean s \<longleftrightarrow> \<not> list_ex (\<lambda>w. suffix w s) space_runes"

definition trimmed :: "string \<Rightarrow> bool" where
  "trimmed s \<longleftrightarrow> starts_clean s \<and> ends_clean s"

lemma space_runes_nonempty: "w \<in> set space_runes \<Longrightarrow> w \<noteq> []"
  by (auto simp: space_runes_def wide_spaces_def)

lemma space_runes_cases:
  assumes "w \<in> set space_runes"
  obtains (ascii) c where "w = [c]" and "is_ascii c" and "c \<in> set ascii_spaces"
    | (wide) "\<forall>c \<in> set w. \<not> is_ascii c"
proof (cases "w \<in> set wide_spaces")
  case True
  then have "\<forall>c \<in> set w. \<not> is_ascii c"
    by (auto simp: wide_spaces_def is_ascii_def byte_val_def)
  then show ?thesis by (rule wide)
next
  case False
  with assms obtain c where "w = [c]" "c \<in> set ascii_spaces" by (auto simp: space_runes_def)
  moreover from this have "is_ascii c"
    by (auto simp: ascii_spaces_def is_ascii_def byte_val_def)
  ultimately show ?thesis by (rule_tac ascii)
qed

lemma strip_by_id: "\<forall>w \<in> set ws. w \<noteq> [] \<longrightarrow> \<not> prefix w s \<Longrightarrow> strip_by ws s = s"
  by (subst strip_by.simps) (auto simp: find_None_iff split: option.splits dest: find_Some_iff [THEN iffD1])

lemma strip_by_clean: "w \<in> set ws \<Longrightarrow> w \<noteq> [] \<Longrightarrow> \<not> prefix w (strip_by ws s)"
proof (induction ws s rule: strip_by.induct)
  case (1 ws s)
  show ?case
  proof (cases "find (\<lambda>w. w \<noteq> [] \<and> prefix w s) ws")
    case None
    then have "strip_by ws s = s" by (subst strip_by.simps) simp
    with None "1.prems" show ?thesis by (auto simp: find_None_iff)
  next
    case (Some v)
    with 1 show ?thesis by (subst strip_by.simps) auto
  qed
qed

lemma strip_by_suffix: "suffix (strip_by ws s) s"
proof (induction ws s rule: strip_by.induct)
  case (1 ws s)
  show ?case
  proof (cases "find (\<lambda>w. w \<noteq> [] \<and> prefix w s) ws")
    case None
    then show ?thesis by (subst strip_by.simps) auto
  next
    case (Some v)
    with 1 have "suffix (strip_by ws (drop (length v) s)) (drop (length v) s)" by blast
    then have "suffix (strip_by ws (drop (length v) s)) s"
      using suffix_drop suffix_order.order_trans by blast
    with Some show ?thesis by (subst strip_by.simps) auto
  qed
qed

lemma starts_clean_trim_left: "starts_clean (trim_left s)"
  using strip_by_clean [of _ space_runes s]
  by (auto simp: starts_clean_def trim_left_def list_ex_iff dest: space_runes_nonempty)

lemma prefix_trim_right: "prefix (trim_right s) s"
  using strip_by_suffix [of "map rev space_runes" "rev s"]
  by (simp add: trim_right_def suffix_to_prefix)

lemma ends_clean_trim_right: "ends_clean (trim_right s)"
proof -
  have "\<not> prefix (rev w) (strip_by (map rev space_runes) (rev s))" if "w \<in> set space_runes" for w
    using that space_runes_nonempty [OF that] by (intro strip_by_clean) auto
  then show ?thesis by (auto simp: ends_clean_def trim_right_def list_ex_iff suffix_to_prefix)
qed

lemma trimmed_trim_space [simp, intro]: "trimmed (trim_space s)"
proof -
  have "starts_clean (trim_space s)"
    using starts_clean_trim_left [of s] prefix_trim_right [of "trim_left s"]
    by (auto simp: starts_clean_def trim_space_def list_ex_iff dest: prefix_order.order_trans)
  then show ?thesis by (simp add: trimmed_def trim_space_def ends_clean_trim_right)
qed

lemma trim_left_id: "starts_clean s \<Longrightarrow> trim_left s = s"
  by (auto simp: starts_clean_def trim_left_def list_ex_iff intro!: strip_by_id)

lemma trim_right_id: "ends_clean s \<Longrightarrow> trim_right s = s"
proof -
  assume "ends_clean s"
  then have "strip_by (map rev space_runes) (rev s) = rev s"
    by (intro strip_by_id) (auto simp: ends_clean_def list_ex_iff suffix_to_prefix)
  then show ?thesis by (simp add: trim_right_def)
qed

lemma trim_space_id: "trimmed s \<Longrightarrow> trim_space s = s"
  by (simp add: trimmed_def trim_space_def trim_left_id trim_right_id)

lemma trimmed_iff: "trimmed s \<longleftrightarrow> trim_space s = s"
  using trim_space_id trimmed_trim_space by metis

lemma trim_space_idem [simp, go_simps]: "trim_space (trim_space s) = trim_space s"
  by (simp add: trim_space_id)

end
