(* ===== verification/Go_Text.thy ===== *)
theory Go_Text
  imports Go_Prelude
begin

text \<open>
  Splitting, joining, decimal numbers and line scanning, as \<^verbatim>\<open>strings\<close>, \<^verbatim>\<open>strconv\<close> and
  \<^verbatim>\<open>bufio.Scanner\<close> define them, with the round-trip lemmas that the parsers and printers of
  the components use.
\<close>

section \<open>Prefixes, substrings, replacement\<close>

definition has_prefix :: "string \<Rightarrow> string \<Rightarrow> bool" where
  "has_prefix s p \<longleftrightarrow> prefix p s"

definition has_suffix :: "string \<Rightarrow> string \<Rightarrow> bool" where
  "has_suffix s p \<longleftrightarrow> suffix p s"

definition trim_prefix :: "string \<Rightarrow> string \<Rightarrow> string" where
  "trim_prefix s p = (if has_prefix s p then drop (length p) s else s)"

definition trim_suffix :: "string \<Rightarrow> string \<Rightarrow> string" where
  "trim_suffix s p = (if has_suffix s p then take (length s - length p) s else s)"

definition contains_str :: "string \<Rightarrow> string \<Rightarrow> bool" where
  "contains_str s t \<longleftrightarrow> sublist t s"

definition contains_any :: "string \<Rightarrow> string \<Rightarrow> bool" where
  "contains_any s cs \<longleftrightarrow> list_ex (\<lambda>c. c \<in> set cs) s"

text \<open>\<^verbatim>\<open>strings.ReplaceAll\<close> of a one-byte pattern, by a byte or by nothing.\<close>

definition replace_char :: "char \<Rightarrow> char \<Rightarrow> string \<Rightarrow> string" where
  "replace_char a b s = map (\<lambda>c. if c = a then b else c) s"

definition remove_char :: "char \<Rightarrow> string \<Rightarrow> string" where
  "remove_char a s = filter (\<lambda>c. c \<noteq> a) s"

text \<open>\<^verbatim>\<open>strings.TrimRight\<close>, \<^verbatim>\<open>strings.Trim\<close> with a set of bytes.\<close>

definition trim_right_set :: "string \<Rightarrow> string \<Rightarrow> string" where
  "trim_right_set s cs = rev (dropWhile (\<lambda>c. c \<in> set cs) (rev s))"

definition trim_set :: "string \<Rightarrow> string \<Rightarrow> string" where
  "trim_set s cs = trim_right_set (dropWhile (\<lambda>c. c \<in> set cs) s) cs"

definition first_nonempty :: "string list \<Rightarrow> string" where
  "first_nonempty xs = (case find (\<lambda>v. v \<noteq> []) xs of None \<Rightarrow> [] | Some v \<Rightarrow> v)"

lemma trim_prefix_append [simp]: "trim_prefix (p @ s) p = s"
  by (simp add: trim_prefix_def has_prefix_def)

lemma has_prefix_append [simp]: "has_prefix (p @ s) p"
  by (simp add: has_prefix_def)

lemma replace_char_notin: "b \<noteq> a \<Longrightarrow> a \<notin> set (replace_char a b s)"
  by (auto simp: replace_char_def)

lemma replace_char_keeps_out: "d \<noteq> b \<Longrightarrow> d \<notin> set s \<Longrightarrow> d \<notin> set (replace_char a b s)"
  by (auto simp: replace_char_def)

lemma replace_char_id: "a \<notin> set s \<Longrightarrow> replace_char a b s = s"
  by (auto simp: replace_char_def intro!: map_idI)

lemma set_trim_space: "set (trim_space s) \<subseteq> set s"
proof -
  have "set (trim_right (trim_left s)) \<subseteq> set (trim_left s)"
    by (rule set_mono_prefix) (rule prefix_trim_right)
  moreover have "set (trim_left s) \<subseteq> set s"
    unfolding trim_left_def by (rule set_mono_suffix) (rule strip_by_suffix)
  ultimately show ?thesis unfolding trim_space_def by blast
qed

section \<open>Split and join on one byte\<close>

fun split_on :: "char \<Rightarrow> string \<Rightarrow> string list" where
  "split_on c [] = [[]]"
| "split_on c (x # xs) =
     (if x = c then [] # split_on c xs
      else case split_on c xs of [] \<Rightarrow> [[x]] | y # ys \<Rightarrow> (x # y) # ys)"

text \<open>\<^verbatim>\<open>strings.SplitN(s, c, 2)\<close>.\<close>

definition split2 :: "char \<Rightarrow> string \<Rightarrow> string list" where
  "split2 c s =
     (if c \<in> set s then [takeWhile (\<lambda>x. x \<noteq> c) s, tl (dropWhile (\<lambda>x. x \<noteq> c) s)] else [s])"

fun join :: "string \<Rightarrow> string list \<Rightarrow> string" where
  "join sep [] = []"
| "join sep [x] = x"
| "join sep (x # y # ys) = x @ sep @ join sep (y # ys)"

lemma split_on_nonempty [simp]: "split_on c s \<noteq> []"
  by (induction s) (auto split: list.splits)

lemma split_on_notin: "c \<notin> set s \<Longrightarrow> split_on c s = [s]"
  by (induction s) auto

lemma split_on_append: "c \<notin> set a \<Longrightarrow> split_on c (a @ c # b) = a # split_on c b"
  by (induction a) auto

lemma split_on_join:
  "xs \<noteq> [] \<Longrightarrow> \<forall>x \<in> set xs. c \<notin> set x \<Longrightarrow> split_on c (join [c] xs) = xs"
  by (induction "[c]" xs rule: join.induct) (auto simp: split_on_notin split_on_append)

lemma split_on_parts: "x \<in> set (split_on c s) \<Longrightarrow> c \<notin> set x \<and> set x \<subseteq> set s"
  by (induction s arbitrary: x) (auto split: if_splits list.splits, fastforce+)

lemma join_split_on: "join [c] (split_on c s) = s"
proof (induction s)
  case Nil
  then show ?case by simp
next
  case (Cons x xs)
  obtain y ys where ys: "split_on c xs = y # ys" by (cases "split_on c xs") auto
  with Cons show ?case by (cases ys) auto
qed

lemma split_on_terminated:
  assumes "\<forall>x \<in> set xs. c \<notin> set x"
  shows "split_on c (concat (map (\<lambda>x. x @ [c]) xs)) = xs @ [[]]"
  using assms by (induction xs) (auto simp: split_on_append)

lemma split2_append: "c \<notin> set a \<Longrightarrow> split2 c (a @ c # b) = [a, b]"
proof -
  assume a: "c \<notin> set a"
  have "takeWhile (\<lambda>x. x \<noteq> c) (a @ c # b) = a" using a by (induction a) auto
  moreover have "dropWhile (\<lambda>x. x \<noteq> c) (a @ c # b) = c # b" using a by (induction a) auto
  ultimately show ?thesis by (simp add: split2_def)
qed

lemma split2_notin: "c \<notin> set s \<Longrightarrow> split2 c s = [s]"
  by (simp add: split2_def)

lemma split2_cases:
  obtains (one) "c \<notin> set s" "split2 c s = [s]"
    | (two) a b where "s = a @ c # b" "c \<notin> set a" "split2 c s = [a, b]"
proof (cases "c \<in> set s")
  case True
  then obtain a b where "s = a @ c # b" "c \<notin> set a" by (metis split_list_first)
  then show ?thesis using two split2_append by blast
next
  case False
  then show ?thesis using one split2_notin by blast
qed

section \<open>Decimal numbers\<close>

definition digit_char :: "nat \<Rightarrow> char" where
  "digit_char d = char_of (48 + d)"

fun show_nat :: "nat \<Rightarrow> string" where
  "show_nat n = (if n < 10 then [digit_char n] else show_nat (n div 10) @ [digit_char (n mod 10)])"

declare show_nat.simps [simp del]

definition itoa :: "int \<Rightarrow> string" where
  "itoa i = (if i < 0 then CHR ''-'' # show_nat (nat (- i)) else show_nat (nat i))"

definition digits_val :: "string \<Rightarrow> nat" where
  "digits_val s = foldl (\<lambda>a c. 10 * a + (byte_val c - 48)) 0 s"

definition parse_nat :: "string \<Rightarrow> nat option" where
  "parse_nat s = (if s \<noteq> [] \<and> list_all is_digit_char s then Some (digits_val s) else None)"

definition max_int64 :: int where "max_int64 = 9223372036854775807"

definition min_int64 :: int where "min_int64 = - 9223372036854775808"

definition in_int64 :: "int \<Rightarrow> bool" where
  "in_int64 i \<longleftrightarrow> min_int64 \<le> i \<and> i \<le> max_int64"

text \<open>\<^verbatim>\<open>strconv.Atoi\<close> and \<^verbatim>\<open>strconv.ParseInt(s, 10, 64)\<close>: an optional sign, then decimal
  digits, in the range of 64-bit integers.\<close>

definition atoi :: "string \<Rightarrow> int option" where
  "atoi s =
     (let (neg, ds) = (case s of
            [] \<Rightarrow> (False, s)
          | c # cs \<Rightarrow> if c = CHR ''-'' then (True, cs) else if c = CHR ''+'' then (False, cs) else (False, s))
      in case parse_nat ds of
           None \<Rightarrow> None
         | Some n \<Rightarrow> let i = (if neg then - int n else int n) in if in_int64 i then Some i else None)"

text \<open>The value that \<^verbatim>\<open>strconv.Atoi\<close> returns beside its error: zero for bad syntax, the nearest bound out of range.\<close>

definition atoi_value :: "string \<Rightarrow> int" where
  "atoi_value s =
     (let (neg, ds) = (case s of
            [] \<Rightarrow> (False, s)
          | c # cs \<Rightarrow> if c = CHR ''-'' then (True, cs) else if c = CHR ''+'' then (False, cs) else (False, s))
      in case parse_nat ds of
           None \<Rightarrow> 0
         | Some n \<Rightarrow> if neg then max min_int64 (- int n) else min max_int64 (int n))"

text \<open>\<^verbatim>\<open>strconv.ParseUint(s, 10, 64)\<close>.\<close>

definition parse_uint :: "string \<Rightarrow> nat option" where
  "parse_uint s =
     (case parse_nat s of None \<Rightarrow> None | Some n \<Rightarrow> if n < 2 ^ 64 then Some n else None)"

definition format_bool :: "bool \<Rightarrow> string" where
  "format_bool b = (if b then ''true'' else ''false'')"

lemma byte_val_digit_char: "d < 10 \<Longrightarrow> byte_val (digit_char d) = 48 + d"
  by (simp add: digit_char_def)

lemma is_digit_digit_char: "d < 10 \<Longrightarrow> is_digit_char (digit_char d)"
  by (simp add: is_digit_char_def byte_val_digit_char)

lemma show_nat_nonempty [simp]: "show_nat n \<noteq> []"
  by (subst show_nat.simps) simp

lemma show_nat_digits: "list_all is_digit_char (show_nat n)"
proof (induction n rule: show_nat.induct)
  case (1 n)
  then show ?case by (subst show_nat.simps) (simp add: is_digit_digit_char)
qed

lemma digits_val_snoc: "digits_val (s @ [c]) = 10 * digits_val s + (byte_val c - 48)"
  by (simp add: digits_val_def)

lemma digits_val_show_nat: "digits_val (show_nat n) = n"
proof (induction n rule: show_nat.induct)
  case (1 n)
  show ?case
  proof (cases "n < 10")
    case True
    then show ?thesis by (subst show_nat.simps) (simp add: digits_val_def byte_val_digit_char)
  next
    case False
    with 1 show ?thesis
      by (subst show_nat.simps) (simp add: digits_val_snoc byte_val_digit_char)
  qed
qed

lemma parse_nat_show_nat [simp]: "parse_nat (show_nat n) = Some n"
  by (simp add: parse_nat_def show_nat_digits digits_val_show_nat)

lemma is_digit_char_not_sign: "is_digit_char c \<Longrightarrow> c \<noteq> CHR ''-'' \<and> c \<noteq> CHR ''+''"
  by (auto simp: is_digit_char_def byte_val_def)

lemma show_nat_no_sign: "show_nat n = c # cs \<Longrightarrow> c \<noteq> CHR ''-'' \<and> c \<noteq> CHR ''+''"
  using show_nat_digits [of n] is_digit_char_not_sign by auto

lemma atoi_itoa [simp]: "in_int64 i \<Longrightarrow> atoi (itoa i) = Some i"
proof (cases "i < 0")
  case True
  moreover assume "in_int64 i"
  ultimately show ?thesis by (simp add: atoi_def itoa_def)
next
  case False
  assume i: "in_int64 i"
  obtain c cs where c: "show_nat (nat i) = c # cs" by (cases "show_nat (nat i)") auto
  with show_nat_no_sign have "c \<noteq> CHR ''-''" "c \<noteq> CHR ''+''" by auto
  with c have "atoi (show_nat (nat i)) = (case parse_nat (show_nat (nat i)) of None \<Rightarrow> None
      | Some n \<Rightarrow> if in_int64 (int n) then Some (int n) else None)"
    by (simp add: atoi_def Let_def split: option.split)
  with False i show ?thesis by (simp add: itoa_def)
qed

lemma itoa_nonempty [simp]: "itoa i \<noteq> []"
  by (simp add: itoa_def)

lemma itoa_chars: "c \<in> set (itoa i) \<Longrightarrow> is_digit_char c \<or> c = CHR ''-''"
  using show_nat_digits by (auto simp: itoa_def list_all_iff split: if_splits)

lemma itoa_ascii: "c \<in> set (itoa i) \<Longrightarrow> is_ascii c"
  using itoa_chars [of c i] by (auto simp: is_digit_char_def is_ascii_def byte_val_def)

lemma parse_nat_digits: "parse_nat s = Some n \<Longrightarrow> s \<noteq> [] \<and> hd s \<noteq> CHR ''-'' \<and> hd s \<noteq> CHR ''+''"
  by (cases s) (auto simp: parse_nat_def is_digit_char_def byte_val_def split: if_splits)

lemma atoi_value_nat: "parse_nat s = Some n \<Longrightarrow> atoi_value s = min max_int64 (int n)"
  using parse_nat_digits [of s n] by (cases s) (auto simp: atoi_value_def)

lemma atoi_in_int64: "atoi s = Some i \<Longrightarrow> in_int64 i"
  by (auto simp: atoi_def Let_def split: option.splits list.splits if_splits)

section \<open>Lines\<close>

definition newline :: char where "newline = CHR 0x0A"

definition carriage_return :: char where "carriage_return = CHR 0x0D"

definition tab :: char where "tab = CHR 0x09"

definition drop_cr :: "string \<Rightarrow> string" where
  "drop_cr l = (if l \<noteq> [] \<and> last l = carriage_return then butlast l else l)"

definition raw_lines :: "string \<Rightarrow> string list" where
  "raw_lines s = (let ls = split_on newline s in if last ls = [] then butlast ls else ls)"

text \<open>
  \<^verbatim>\<open>bufio.Scanner\<close> with \<^verbatim>\<open>ScanLines\<close> and its default buffer: the lines delivered, and whether
  it stopped with \<^verbatim>\<open>ErrTooLong\<close> at a line of 65536 bytes or more.
\<close>

definition scan_lines :: "string \<Rightarrow> string list \<times> bool" where
  "scan_lines s =
     (let ls = raw_lines s in
      (map drop_cr (takeWhile (\<lambda>l. length l < 65536) ls), list_ex (\<lambda>l. length l \<ge> 65536) ls))"

lemma raw_lines_terminated:
  "\<forall>x \<in> set xs. newline \<notin> set x \<Longrightarrow> raw_lines (concat (map (\<lambda>x. x @ [newline]) xs)) = xs"
  by (simp add: raw_lines_def split_on_terminated)

lemma drop_cr_id: "carriage_return \<notin> set l \<Longrightarrow> drop_cr l = l"
  by (auto simp: drop_cr_def) (metis last_in_set)

lemma scan_lines_terminated:
  assumes "\<forall>x \<in> set xs. newline \<notin> set x \<and> carriage_return \<notin> set x \<and> length x < 65536"
  shows "scan_lines (concat (map (\<lambda>x. x @ [newline]) xs)) = (xs, False)"
proof -
  have take: "takeWhile (\<lambda>l. length l < 65536) xs = xs"
    unfolding takeWhile_eq_all_conv using assms by blast
  have cr: "map drop_cr xs = xs"
    using assms by (intro map_idI) (simp add: drop_cr_id)
  have "raw_lines (concat (map (\<lambda>x. x @ [newline]) xs)) = xs"
    using assms by (simp add: raw_lines_terminated)
  then show ?thesis
    using assms unfolding scan_lines_def Let_def by (auto simp: take cr list_ex_iff)
qed

section \<open>Trimming around separators\<close>

lemma starts_clean_append:
  assumes "a \<noteq> []" and "starts_clean a" and "b = [] \<or> is_ascii (hd b)"
  shows "starts_clean (a @ b)"
proof -
  have "\<not> prefix w (a @ b)" if w: "w \<in> set space_runes" for w
  proof
    assume p: "prefix w (a @ b)"
    have na: "\<not> prefix w a" using assms(2) w by (auto simp: starts_clean_def list_ex_iff)
    with p obtain z where z: "w = a @ z" "z \<noteq> []" "prefix z b"
      by (metis append_Nil2 prefix_append prefix_order.refl)
    then have "b \<noteq> []" "hd z = hd b" by (auto simp: prefix_def)
    from w show False
    proof (cases rule: space_runes_cases)
      case (ascii c)
      with z assms(1) show False by (cases a) auto
    next
      case wide
      with z \<open>hd z = hd b\<close> \<open>b \<noteq> []\<close> assms(3) show False by (cases z) auto
    qed
  qed
  then show ?thesis by (auto simp: starts_clean_def list_ex_iff)
qed

lemma ends_clean_append:
  assumes "b \<noteq> []" and "ends_clean b" and "a = [] \<or> is_ascii (last a)"
  shows "ends_clean (a @ b)"
proof -
  have "\<not> suffix w (a @ b)" if w: "w \<in> set space_runes" for w
  proof
    assume p: "suffix w (a @ b)"
    have nb: "\<not> suffix w b" using assms(2) w by (auto simp: ends_clean_def list_ex_iff)
    with p obtain z where z: "w = z @ b" "z \<noteq> []" "suffix z a"
      by (metis append_Nil suffix_append suffix_order.refl)
    then have "a \<noteq> []" "last z = last a" by (auto simp: suffix_def)
    from w show False
    proof (cases rule: space_runes_cases)
      case (ascii c)
      with z assms(1) show False by (cases z) auto
    next
      case wide
      with z \<open>last z = last a\<close> \<open>a \<noteq> []\<close> assms(3) show False by (metis UnCI last_in_set set_append)
    qed
  qed
  then show ?thesis by (auto simp: ends_clean_def list_ex_iff)
qed

lemma starts_clean_Nil [simp]: "starts_clean []"
  using space_runes_nonempty by (auto simp: starts_clean_def list_ex_iff)

lemma ends_clean_Nil [simp]: "ends_clean []"
  using space_runes_nonempty by (auto simp: ends_clean_def list_ex_iff)

lemma trimmed_Nil [simp]: "trimmed []"
  by (simp add: trimmed_def)

lemma trim_space_Nil [simp]: "trim_space [] = []"
  by (simp add: trim_space_id)

lemma starts_clean_ascii:
  "is_ascii c \<Longrightarrow> c \<notin> set ascii_spaces \<Longrightarrow> starts_clean (c # s)"
proof -
  assume c: "is_ascii c" "c \<notin> set ascii_spaces"
  have "\<not> prefix w (c # s)" if w: "w \<in> set space_runes" for w
    using w
  proof (cases rule: space_runes_cases)
    case (ascii d)
    with c show ?thesis by (auto simp: prefix_def)
  next
    case wide
    with c space_runes_nonempty [OF w] show ?thesis by (cases w) auto
  qed
  then show ?thesis by (auto simp: starts_clean_def list_ex_iff)
qed

lemma ends_clean_ascii:
  "is_ascii c \<Longrightarrow> c \<notin> set ascii_spaces \<Longrightarrow> ends_clean (s @ [c])"
proof -
  assume c: "is_ascii c" "c \<notin> set ascii_spaces"
  have "\<not> suffix w (s @ [c])" if w: "w \<in> set space_runes" for w
    using w
  proof (cases rule: space_runes_cases)
    case (ascii d)
    with c show ?thesis by (auto simp: suffix_def)
  next
    case wide
    with c space_runes_nonempty [OF w] show ?thesis
      by (metis last_in_set last_snoc suffix_def last_appendR)
  qed
  then show ?thesis by (auto simp: ends_clean_def list_ex_iff)
qed

lemma trimmed_append:
  "a \<noteq> [] \<Longrightarrow> b \<noteq> [] \<Longrightarrow> trimmed a \<Longrightarrow> trimmed b \<Longrightarrow> is_ascii (hd b) \<Longrightarrow> is_ascii (last a) \<Longrightarrow>
   trimmed (a @ b)"
  by (simp add: trimmed_def starts_clean_append ends_clean_append)

text \<open>A string with no white space at all, byte by byte, is trimmed.\<close>

lemma trimmed_ascii:
  assumes "\<forall>c \<in> set s. is_ascii c \<and> c \<notin> set ascii_spaces"
  shows "trimmed s"
proof (cases s)
  case Nil
  then show ?thesis by simp
next
  case (Cons c cs)
  with assms have "starts_clean s" by (auto intro: starts_clean_ascii)
  moreover from Cons have "s = butlast s @ [last s]" by simp
  with assms have "ends_clean s"
    using ends_clean_ascii [of "last s" "butlast s"] by (metis last_in_set list.distinct(1) Cons)
  ultimately show ?thesis by (simp add: trimmed_def)
qed

lemma trimmed_itoa [simp]: "trimmed (itoa i)"
proof (rule trimmed_ascii, intro ballI conjI)
  fix c assume c: "c \<in> set (itoa i)"
  then show "is_ascii c" by (rule itoa_ascii)
  from c show "c \<notin> set ascii_spaces"
    using itoa_chars [OF c] by (auto simp: ascii_spaces_def is_digit_char_def byte_val_def)
qed

lemma trim_space_itoa [simp]: "trim_space (itoa i) = itoa i"
  by (simp add: trim_space_id)

section \<open>Words between white space\<close>

text \<open>\<^verbatim>\<open>strings.Fields\<close>.\<close>

function fields_acc :: "string \<Rightarrow> string \<Rightarrow> string list" where
  "fields_acc acc [] = (if acc = [] then [] else [rev acc])"
| "fields_acc acc (c # cs) =
     (case find (\<lambda>w. w \<noteq> [] \<and> prefix w (c # cs)) space_runes of
        Some w \<Rightarrow> (if acc = [] then [] else [rev acc]) @ fields_acc [] (drop (length w) (c # cs))
      | None \<Rightarrow> fields_acc (c # acc) cs)"
  by pat_completeness auto
termination
proof (relation "measure (\<lambda>(acc, s). length s)", goal_cases)
  case (3 acc c cs w)
  then have "w \<noteq> []" by (auto simp: find_Some_iff)
  then show ?case by (cases w) auto
qed auto

definition fields :: "string \<Rightarrow> string list" where
  "fields s = fields_acc [] s"

end
