(* ===== verification/Go_Codec.thy ===== *)
theory Go_Codec
  imports Go_Text
begin

text \<open>
  Byte encodings of \<^verbatim>\<open>encoding/hex\<close>, \<^verbatim>\<open>encoding/base64\<close> (\<^verbatim>\<open>RawStdEncoding\<close>) and
  \<^verbatim>\<open>encoding/base32\<close> (standard alphabet, no padding), over bit lists, with the locale \<open>codec\<close>
  for an encoder and its decoder and its interpretations on the two encodings the credential
  store reads back.
\<close>

section \<open>Bits\<close>

definition bits_val :: "bool list \<Rightarrow> nat" where
  "bits_val bs = foldl (\<lambda>a b. 2 * a + of_bool b) 0 bs"

primrec nat_bits :: "nat \<Rightarrow> nat \<Rightarrow> bool list" where
  "nat_bits 0 n = []"
| "nat_bits (Suc k) n = nat_bits k (n div 2) @ [odd n]"

definition byte_bits :: "char \<Rightarrow> bool list" where
  "byte_bits c = nat_bits 8 (byte_val c)"

function bits_bytes :: "bool list \<Rightarrow> string" where
  "bits_bytes bs = (if length bs < 8 then [] else char_of (bits_val (take 8 bs)) # bits_bytes (drop 8 bs))"
  by pat_completeness auto
termination by (relation "measure length") auto

declare bits_bytes.simps [simp del]

text \<open>Groups of \<open>k\<close> bits, the last one filled with zeros.\<close>

function chunks :: "nat \<Rightarrow> bool list \<Rightarrow> bool list list" where
  "chunks k bs =
     (if bs = [] \<or> k = 0 then []
      else (take k bs @ replicate (k - length bs) False) # chunks k (drop k bs))"
  by pat_completeness auto
termination by (relation "measure (\<lambda>(k, bs). length bs)") auto

declare chunks.simps [simp del]

lemma length_nat_bits [simp]: "length (nat_bits k n) = k"
  by (induction k arbitrary: n) auto

lemma bits_val_snoc: "bits_val (bs @ [b]) = 2 * bits_val bs + of_bool b"
  by (simp add: bits_val_def)

lemma bits_val_less: "bits_val bs < 2 ^ length bs"
proof (induction bs rule: rev_induct)
  case Nil
  then show ?case by (simp add: bits_val_def)
next
  case (snoc b bs)
  then show ?case by (cases b) (simp_all add: bits_val_snoc)
qed

lemma nat_bits_bits_val: "nat_bits (length bs) (bits_val bs) = bs"
proof (induction bs rule: rev_induct)
  case Nil
  then show ?case by simp
next
  case (snoc b bs)
  then show ?case by (cases b) (simp_all add: bits_val_snoc)
qed

lemma bits_val_nat_bits: "n < 2 ^ k \<Longrightarrow> bits_val (nat_bits k n) = n"
proof (induction k arbitrary: n)
  case 0
  then show ?case by (simp add: bits_val_def)
next
  case (Suc k)
  then have "n div 2 < 2 ^ k" by auto
  with Suc.IH show ?case by (auto simp: bits_val_snoc)
qed

lemma bits_bytes_byte_bits:
  assumes "length rest < 8"
  shows "bits_bytes (concat (map byte_bits bs) @ rest) = bs"
proof (induction bs)
  case Nil
  with assms show ?case by (subst bits_bytes.simps) simp
next
  case (Cons c cs)
  have "bits_val (byte_bits c) = byte_val c"
    unfolding byte_bits_def by (rule bits_val_nat_bits) (use byte_val_less [of c] in simp)
  moreover have "length (byte_bits c) = 8" by (simp add: byte_bits_def)
  ultimately show ?case
    using Cons by (subst bits_bytes.simps) (simp add: byte_val_def)
qed

lemma length_byte_bits: "length (concat (map byte_bits bs)) = 8 * length bs"
  by (induction bs) (simp_all add: byte_bits_def)

lemma chunks_length: "c \<in> set (chunks k bs) \<Longrightarrow> length c = k"
proof (induction k bs rule: chunks.induct)
  case (1 k bs)
  show ?case
  proof (cases "bs = [] \<or> k = 0")
    case True
    with "1.prems" show ?thesis by (subst (asm) chunks.simps) simp
  next
    case False
    with "1.prems" have "c = take k bs @ replicate (k - length bs) False \<or> c \<in> set (chunks k (drop k bs))"
      by (subst (asm) chunks.simps) auto
    with False "1.IH" show ?thesis by auto
  qed
qed

lemma concat_chunks: "0 < k \<Longrightarrow> \<exists>p < k. concat (chunks k bs) = bs @ replicate p False"
proof (induction k bs rule: chunks.induct)
  case (1 k bs)
  show ?case
  proof (cases "bs = []")
    case True
    with "1.prems" show ?thesis by (subst chunks.simps) auto
  next
    case False
    note bs = False
    with 1 obtain p where p: "p < k" "concat (chunks k (drop k bs)) = drop k bs @ replicate p False"
      by auto
    have e: "concat (chunks k bs) = (take k bs @ replicate (k - length bs) False) @ concat (chunks k (drop k bs))"
      using bs "1.prems" by (subst chunks.simps) simp
    show ?thesis
    proof (cases "length bs < k")
      case True
      then have "chunks k (drop k bs) = []" by (subst chunks.simps) simp
      with e True bs show ?thesis by (intro exI [of _ "k - length bs"]) auto
    next
      case False
      with e p show ?thesis by (intro exI [of _ p]) auto
    qed
  qed
qed

lemma concat_same_length: "\<forall>c \<in> set cs. length c = k \<Longrightarrow> length (concat cs) = k * length cs"
  by (induction cs) auto

section \<open>Alphabets\<close>

definition hex_alphabet :: string where
  "hex_alphabet = ''0123456789abcdef''"

definition base64_alphabet :: string where
  "base64_alphabet = ''ABCDEFGHIJKLMNOPQRSTUVWXYZabcdefghijklmnopqrstuvwxyz0123456789+/''"

definition base32_alphabet :: string where
  "base32_alphabet = ''ABCDEFGHIJKLMNOPQRSTUVWXYZ234567''"

definition encode_with :: "nat \<Rightarrow> string \<Rightarrow> string \<Rightarrow> string" where
  "encode_with k alphabet bs =
     map (\<lambda>c. alphabet ! bits_val c) (chunks k (concat (map byte_bits bs)))"

fun index_of :: "char list \<Rightarrow> char \<Rightarrow> nat option" where
  "index_of [] c = None"
| "index_of (x # xs) c = (if x = c then Some 0 else map_option Suc (index_of xs c))"

fun sextets :: "string \<Rightarrow> string \<Rightarrow> nat list option" where
  "sextets alphabet [] = Some []"
| "sextets alphabet (c # cs) =
     (case index_of alphabet c of
        None \<Rightarrow> None
      | Some v \<Rightarrow> map_option ((#) v) (sextets alphabet cs))"

text \<open>The decoders drop line breaks before they look at the characters.\<close>

definition strip_newlines :: "string \<Rightarrow> string" where
  "strip_newlines s = filter (\<lambda>c. c \<noteq> newline \<and> c \<noteq> carriage_return) s"

definition hex_encode :: "string \<Rightarrow> string" where
  "hex_encode bs = encode_with 4 hex_alphabet bs"

definition base64_encode :: "string \<Rightarrow> string" where
  "base64_encode bs = encode_with 6 base64_alphabet bs"

definition base64_decode :: "string \<Rightarrow> string option" where
  "base64_decode s =
     (let t = strip_newlines s in
      case sextets base64_alphabet t of
        None \<Rightarrow> None
      | Some vs \<Rightarrow>
          if length t mod 4 = 1 then None
          else Some (bits_bytes (concat (map (nat_bits 6) vs))))"

definition base32_encode :: "string \<Rightarrow> string" where
  "base32_encode bs = encode_with 5 base32_alphabet bs"

text \<open>
  Without padding, a last group of 2, 4, 5 or 7 characters carries 1, 2, 3 or 4 bytes; Go's
  decoder drops a last group of 1, 3 or 6 characters without an error.
\<close>

definition base32_bytes :: "nat \<Rightarrow> nat" where
  "base32_bytes n =
     5 * (n div 8) +
     (let r = n mod 8 in
      if r = 2 then 1 else if r = 4 then 2 else if r = 5 then 3 else if r = 7 then 4 else 0)"

definition base32_decode :: "string \<Rightarrow> string option" where
  "base32_decode s =
     (let t = strip_newlines s in
      case sextets base32_alphabet t of
        None \<Rightarrow> None
      | Some vs \<Rightarrow> Some (take (base32_bytes (length t)) (bits_bytes (concat (map (nat_bits 5) vs)))))"

lemma index_of_nth: "distinct xs \<Longrightarrow> i < length xs \<Longrightarrow> index_of xs (xs ! i) = Some i"
proof (induction xs arbitrary: i)
  case (Cons x xs)
  then show ?case by (cases i) auto
qed simp

lemma sextets_nth:
  "distinct alphabet \<Longrightarrow> \<forall>v \<in> set vs. v < length alphabet \<Longrightarrow>
   sextets alphabet (map ((!) alphabet) vs) = Some vs"
  by (induction vs) (auto simp: index_of_nth)

lemma encode_with_set:
  assumes "length alphabet = 2 ^ k"
  shows "set (encode_with k alphabet bs) \<subseteq> set alphabet"
proof -
  have "bits_val c < length alphabet" if "c \<in> set (chunks k (concat (map byte_bits bs)))" for c
    using chunks_length [OF that] bits_val_less [of c] assms by simp
  then show ?thesis by (auto simp: encode_with_def)
qed

lemma sextets_encode_with:
  assumes "distinct alphabet" and "length alphabet = 2 ^ k"
  shows "sextets alphabet (encode_with k alphabet bs)
       = Some (map bits_val (chunks k (concat (map byte_bits bs))))"
proof -
  let ?vs = "map bits_val (chunks k (concat (map byte_bits bs)))"
  have "\<forall>v \<in> set ?vs. v < length alphabet"
    using chunks_length bits_val_less assms(2) by fastforce
  with assms(1) have "sextets alphabet (map ((!) alphabet) ?vs) = Some ?vs" by (rule sextets_nth)
  then show ?thesis by (simp add: encode_with_def comp_def)
qed

lemma decoded_bits:
  assumes "0 < k"
  shows "\<exists>p < k. concat (map (nat_bits k) (map bits_val (chunks k (concat (map byte_bits bs)))))
             = concat (map byte_bits bs) @ replicate p False
          \<and> k * length (encode_with k alphabet bs) = 8 * length bs + p"
proof -
  let ?cs = "chunks k (concat (map byte_bits bs))"
  obtain p where p: "p < k" "concat ?cs = concat (map byte_bits bs) @ replicate p False"
    using concat_chunks [OF assms] by blast
  have "map (nat_bits k) (map bits_val ?cs) = ?cs"
    unfolding map_map comp_def
    by (rule map_idI) (metis chunks_length nat_bits_bits_val)
  moreover have "length (concat ?cs) = k * length ?cs"
    by (rule concat_same_length) (simp add: chunks_length)
  then have "k * length ?cs = 8 * length bs + p"
    using p(2) by (simp add: length_byte_bits)
  ultimately show ?thesis using p by (intro exI [of _ p]) (simp add: encode_with_def)
qed

lemma alphabet64: "distinct base64_alphabet" "length base64_alphabet = 2 ^ 6"
  "newline \<notin> set base64_alphabet" "carriage_return \<notin> set base64_alphabet"
  by (simp_all add: base64_alphabet_def newline_def carriage_return_def)

lemma alphabet32: "distinct base32_alphabet" "length base32_alphabet = 2 ^ 5"
  "newline \<notin> set base32_alphabet" "carriage_return \<notin> set base32_alphabet"
  by (simp_all add: base32_alphabet_def newline_def carriage_return_def)

lemma alphabet16: "distinct hex_alphabet" "length hex_alphabet = 2 ^ 4"
  by (simp_all add: hex_alphabet_def)

lemma strip_newlines_id:
  "newline \<notin> set s \<Longrightarrow> carriage_return \<notin> set s \<Longrightarrow> strip_newlines s = s"
  by (auto simp: strip_newlines_def intro: filter_True)

lemma base64_quantum: "6 * m = 8 * n + p \<Longrightarrow> p < 6 \<Longrightarrow> m mod 4 \<noteq> (1::nat)"
  by presburger

lemma base32_quantum:
  assumes "5 * m = 8 * n + p" and "p < 5"
  shows "base32_bytes m = n"
proof -
  define q r where "q = m div 8" and "r = m mod 8"
  have m: "m = 8 * q + r" and r: "r < 8" by (simp_all add: q_def r_def)
  have e: "5 * m = 5 * r + 8 * (5 * q)" by (simp add: m)
  have "n = 5 * m div 8" "p = 5 * m mod 8" using assms by simp_all
  moreover have "5 * m mod 8 = 5 * r mod 8" unfolding e by (rule mod_mult_self2)
  moreover have "5 * m div 8 = 5 * q + 5 * r div 8" unfolding e by simp
  ultimately have n: "n = 5 * q + 5 * r div 8" and p: "5 * r mod 8 < 5" using assms(2) by simp_all
  from r have "r \<in> {0, 1, 2, 3, 4, 5, 6, 7}" by auto
  then show ?thesis using p unfolding base32_bytes_def Let_def q_def [symmetric] r_def [symmetric] n by auto
qed

lemma base64_decode_encode: "base64_decode (base64_encode bs) = Some bs"
proof -
  let ?e = "encode_with 6 base64_alphabet bs"
  let ?vs = "map bits_val (chunks 6 (concat (map byte_bits bs)))"
  have s: "strip_newlines ?e = ?e"
    using encode_with_set [OF alphabet64(2), of bs] alphabet64 by (intro strip_newlines_id) auto
  obtain p where p: "p < 6"
      "concat (map (nat_bits 6) ?vs) = concat (map byte_bits bs) @ replicate p False"
      "6 * length ?e = 8 * length bs + p"
    using decoded_bits [of 6 bs base64_alphabet] by auto
  have "length ?e mod 4 \<noteq> 1" using p(3,1) by (rule base64_quantum)
  moreover have "bits_bytes (concat (map (nat_bits 6) ?vs)) = bs"
    using p(1) by (simp only: p(2)) (rule bits_bytes_byte_bits, simp)
  ultimately show ?thesis
    unfolding base64_encode_def base64_decode_def Let_def s
    by (simp only: sextets_encode_with [OF alphabet64(1,2)] option.simps if_False)
qed

lemma base32_decode_encode: "base32_decode (base32_encode bs) = Some bs"
proof -
  let ?e = "encode_with 5 base32_alphabet bs"
  let ?vs = "map bits_val (chunks 5 (concat (map byte_bits bs)))"
  have s: "strip_newlines ?e = ?e"
    using encode_with_set [OF alphabet32(2), of bs] alphabet32 by (intro strip_newlines_id) auto
  obtain p where p: "p < 5"
      "concat (map (nat_bits 5) ?vs) = concat (map byte_bits bs) @ replicate p False"
      "5 * length ?e = 8 * length bs + p"
    using decoded_bits [of 5 bs base32_alphabet] by auto
  have "base32_bytes (length ?e) = length bs"
    using p(3,1) by (rule base32_quantum)
  moreover have "bits_bytes (concat (map (nat_bits 5) ?vs)) = bs"
    using p(1) by (simp only: p(2)) (rule bits_bytes_byte_bits, simp)
  ultimately show ?thesis
    unfolding base32_encode_def base32_decode_def Let_def s
    by (simp only: sextets_encode_with [OF alphabet32(1,2)] option.simps) simp
qed

section \<open>The interface of an encoding\<close>

locale codec =
  fixes enc :: "string \<Rightarrow> string"
    and dec :: "string \<Rightarrow> string option"
  assumes dec_enc: "dec (enc x) = Some x"
begin

lemma enc_inject: "enc x = enc y \<longleftrightarrow> x = y"
  by (metis dec_enc option.inject)

end

interpretation b64: codec base64_encode base64_decode
  by unfold_locales (rule base64_decode_encode)

interpretation b32: codec base32_encode base32_decode
  by unfold_locales (rule base32_decode_encode)

lemma base64_encode_Nil: "base64_encode bs = [] \<longleftrightarrow> bs = []"
proof -
  have "base64_encode [] = []" by (simp add: base64_encode_def encode_with_def chunks.simps)
  then show ?thesis using b64.enc_inject by metis
qed

lemma length_hex_encode: "length (hex_encode bs) = 2 * length bs"
  using decoded_bits [of 4 bs hex_alphabet] unfolding hex_encode_def by auto

lemma hex_encode_set: "set (hex_encode bs) \<subseteq> set hex_alphabet"
  unfolding hex_encode_def by (rule encode_with_set) (simp add: alphabet16)

end
