(* ===== verification/Go_Runtime.thy ===== *)
theory Go_Runtime
  imports Complex_Main Go_Codec
begin

text \<open>
  The environment of the dashboard's code: the library functions taken as parameters (hashes,
  message authentication codes and the decimal format of floating-point numbers), JSON values as
  \<^verbatim>\<open>encoding/json\<close> decodes them into \<^verbatim>\<open>any\<close>, requests and replies of \<^verbatim>\<open>net/http\<close>, files that
  hold JSON, and the locale of a transition system with an invariant.
\<close>

section \<open>Library functions taken as parameters\<close>

record golib =
  sha256 :: "string \<Rightarrow> string"
  hmac_sha256 :: "string \<Rightarrow> string \<Rightarrow> string"
  hmac_sha1 :: "string \<Rightarrow> string \<Rightarrow> string"
  format_float :: "rat \<Rightarrow> string"

text \<open>What the code relies on of the hash functions: the sizes of their results.\<close>

definition hash_sizes :: "golib \<Rightarrow> bool" where
  "hash_sizes G \<longleftrightarrow>
     (\<forall>m. length (sha256 G m) = 32) \<and> (\<forall>k m. length (hmac_sha256 G k m) = 32) \<and>
     (\<forall>k m. length (hmac_sha1 G k m) = 20)"

text \<open>A concrete instance, for evaluation: constant-size folds of the message.\<close>

definition sample_digest :: "nat \<Rightarrow> string \<Rightarrow> string" where
  "sample_digest n m = replicate n (char_of (foldl (\<lambda>a c. (31 * a + byte_val c + 7) mod 256) 0 m))"

definition sample_golib :: golib where
  "sample_golib =
     \<lparr>sha256 = (\<lambda>m. sample_digest 32 m),
      hmac_sha256 = (\<lambda>k m. sample_digest 32 (k @ m)),
      hmac_sha1 = (\<lambda>k m. sample_digest 20 (k @ m)),
      format_float = (\<lambda>r. itoa \<lfloor>r\<rfloor>)\<rparr>"

lemma sample_golib_sizes: "hash_sizes sample_golib"
  by (simp add: hash_sizes_def sample_golib_def sample_digest_def)

section \<open>JSON values\<close>

datatype json =
  JNull
| JBool bool
| JNum rat
| JStr string
| JArr "json list"
| JObj "(string \<times> json) list"

text \<open>\<^verbatim>\<open>fmt.Sprint\<close> of a decoded value; the keys of a map are printed in order.\<close>

fun sprint :: "golib \<Rightarrow> json \<Rightarrow> string" where
  "sprint G JNull = ''<nil>''"
| "sprint G (JBool b) = format_bool b"
| "sprint G (JNum r) = format_float G r"
| "sprint G (JStr s) = s"
| "sprint G (JArr xs) = ''['' @ join '' '' (map (sprint G) xs) @ '']''"
| "sprint G (JObj kvs) =
     ''map['' @ join '' '' (map snd (sort_key fst (map (\<lambda>(k, v). (k, k @ '':'' @ sprint G v)) kvs))) @ '']''"

type_synonym jobject = "(string \<times> json) list"

text \<open>Indexing a map with a missing key gives nil.\<close>

definition field :: "jobject \<Rightarrow> string \<Rightarrow> json" where
  "field r k = (case map_of r k of None \<Rightarrow> JNull | Some v \<Rightarrow> v)"

definition as_bool :: "json \<Rightarrow> bool" where
  "as_bool v = (case v of JBool b \<Rightarrow> b | _ \<Rightarrow> False)"

definition as_array :: "json \<Rightarrow> json list" where
  "as_array v = (case v of JArr xs \<Rightarrow> xs | _ \<Rightarrow> [])"

definition as_object :: "json \<Rightarrow> jobject" where
  "as_object v = (case v of JObj kvs \<Rightarrow> kvs | _ \<Rightarrow> [])"

definition objects :: "json list \<Rightarrow> jobject list" where
  "objects xs = map as_object (filter (\<lambda>v. case v of JObj _ \<Rightarrow> True | _ \<Rightarrow> False) xs)"

text \<open>The conversion \<^verbatim>\<open>int64(f)\<close> of a floating-point number drops its fraction.\<close>

definition trunc_rat :: "rat \<Rightarrow> int" where
  "trunc_rat r = (if 0 \<le> r then \<lfloor>r\<rfloor> else \<lceil>r\<rceil>)"

text \<open>Assignment to a key of a map.\<close>

fun put_field :: "string \<Rightarrow> json \<Rightarrow> jobject \<Rightarrow> jobject" where
  "put_field k v [] = [(k, v)]"
| "put_field k v ((k', v') # r) = (if k = k' then (k, v) # r else (k', v') # put_field k v r)"

lemma field_put_field [simp]: "field (put_field k v r) k' = (if k' = k then v else field r k')"
  by (induction r) (auto simp: field_def split: option.splits if_splits)

section \<open>Requests and replies\<close>

record principal =
  pUsername :: string
  pRole :: string

record http_request =
  verb :: string
  header :: "string \<Rightarrow> string"
  query :: "string \<Rightarrow> string"
  url_path :: string
  remote_host :: string
  actor :: "principal option"

type_synonym reply = "nat \<times> json"

definition error_reply :: "nat \<Rightarrow> string \<Rightarrow> reply" where
  "error_reply code msg = (code, JObj [(''error'', JStr msg)])"

definition is_error :: "reply \<Rightarrow> bool" where
  "is_error r \<longleftrightarrow> fst r \<ge> 400"

lemma is_error_error_reply [simp]: "is_error (error_reply c m) \<longleftrightarrow> c \<ge> 400"
  by (simp add: is_error_def error_reply_def)

lemma fst_error_reply [simp]: "fst (error_reply c m) = c"
  by (simp add: error_reply_def)

lemma error_reply_eq_iff [simp]: "error_reply c m = error_reply c' m' \<longleftrightarrow> c = c' \<and> m = m'"
  by (auto simp: error_reply_def)

section \<open>Early returns\<close>

text \<open>
  The body of a handler is a sequence of calls, each of which may end the request with a reply.
  \<open>attempt m f\<close> runs \<open>m\<close> and stops at its reply or goes on with its value; \<open>finish\<close> gives the
  reply of a request that ended early together with the unchanged state.
\<close>

definition attempt :: "'e + 'a \<Rightarrow> ('a \<Rightarrow> 'e + 'b) \<Rightarrow> 'e + 'b" where
  "attempt m f = (case m of Inl e \<Rightarrow> Inl e | Inr x \<Rightarrow> f x)"

definition check :: "bool \<Rightarrow> 'e \<Rightarrow> 'e + unit" where
  "check b e = (if b then Inr () else Inl e)"

definition some_or :: "'e \<Rightarrow> 'a option \<Rightarrow> 'e + 'a" where
  "some_or e x = (case x of None \<Rightarrow> Inl e | Some y \<Rightarrow> Inr y)"

definition or_reply :: "nat \<Rightarrow> 'a result \<Rightarrow> reply + 'a" where
  "or_reply code m = (case m of Inl err \<Rightarrow> Inl (error_reply code err) | Inr x \<Rightarrow> Inr x)"

definition or_message :: "'e \<Rightarrow> 'a result \<Rightarrow> 'e + 'a" where
  "or_message e m = (case m of Inl _ \<Rightarrow> Inl e | Inr x \<Rightarrow> Inr x)"

definition finish :: "'s \<Rightarrow> reply + reply \<times> 's \<Rightarrow> reply \<times> 's" where
  "finish d m = (case m of Inl rep \<Rightarrow> (rep, d) | Inr out \<Rightarrow> out)"

named_theorems early_return "what it means that a sequence of calls ended early or went through"

lemma attempt_Inr [early_return]: "attempt m f = Inr y \<longleftrightarrow> (\<exists>x. m = Inr x \<and> f x = Inr y)"
  by (simp add: attempt_def split: sum.splits)

lemma attempt_Inl [early_return]:
  "attempt m f = Inl e \<longleftrightarrow> m = Inl e \<or> (\<exists>x. m = Inr x \<and> f x = Inl e)"
  by (auto simp: attempt_def split: sum.splits)

lemma check_Inr [early_return]: "check b e = Inr x \<longleftrightarrow> b"
  by (simp add: check_def)

lemma check_Inl [early_return]: "check b e = Inl e' \<longleftrightarrow> \<not> b \<and> e' = e"
  by (auto simp: check_def)

lemma some_or_Inr [early_return]: "some_or e x = Inr y \<longleftrightarrow> x = Some y"
  by (simp add: some_or_def split: option.splits)

lemma some_or_Inl [early_return]: "some_or e x = Inl e' \<longleftrightarrow> x = None \<and> e' = e"
  by (auto simp: some_or_def split: option.splits)

lemma or_reply_Inr [early_return]: "or_reply c m = Inr x \<longleftrightarrow> m = Inr x"
  by (simp add: or_reply_def split: sum.splits)

lemma or_reply_Inl [early_return]: "or_reply c m = Inl e \<longleftrightarrow> (\<exists>err. m = Inl err \<and> e = error_reply c err)"
  by (auto simp: or_reply_def split: sum.splits)

lemma or_message_Inr [early_return]: "or_message e m = Inr x \<longleftrightarrow> m = Inr x"
  by (simp add: or_message_def split: sum.splits)

lemma or_message_Inl [early_return]: "or_message e m = Inl e' \<longleftrightarrow> (\<exists>err. m = Inl err) \<and> e' = e"
  by (auto simp: or_message_def split: sum.splits)

lemma finish_eq: "finish d m = (rep, d') \<longleftrightarrow> m = Inl rep \<and> d' = d \<or> m = Inr (rep, d')"
  by (auto simp: finish_def split: sum.splits)

lemma attempt_simps [simp]: "attempt (Inr x) f = f x" "attempt (Inl e) f = Inl e"
  by (simp_all add: attempt_def)

lemma early_return_simps [simp]:
  "check True e = Inr ()" "check False e = Inl e" "some_or e (Some y) = Inr y" "some_or e None = Inl e"
  "or_reply c (Inr x) = Inr x" "or_reply c (Inl err) = Inl (error_reply c err)"
  "or_message e (Inr x) = Inr x" "or_message e (Inl err) = Inl e"
  "finish d (Inl rep) = (rep, d)" "finish d (Inr out) = out"
  by (simp_all add: check_def some_or_def or_reply_def or_message_def finish_def)

section \<open>Files read back as JSON\<close>

datatype 'a json_file = Absent | Malformed | Decoded 'a

section \<open>Text formats\<close>

text \<open>
  What the code that saves a value promises to the code that loads it: what is printed of a well-formed
  value is read back as a well-formed value with the same view.  In a canonical format the text
  depends on the view only.
\<close>

locale text_format =
  fixes print :: "'a \<Rightarrow> string"
    and parse :: "string \<Rightarrow> 'a result"
    and view :: "'a \<Rightarrow> 'v"
    and wf :: "'a \<Rightarrow> bool"
  assumes parse_print: "wf x \<Longrightarrow> \<exists>y. parse (print x) = Inr y \<and> view y = view x \<and> wf y"
begin

lemma print_determines:
  assumes "wf x" and "wf y" and "print x = print y"
  shows "view x = view y"
  using parse_print [OF assms(1)] parse_print [OF assms(2)] assms(3) by auto

text \<open>Saving and loading any number of times changes nothing.\<close>

lemma cycles_keep_view:
  assumes "wf x"
  shows "wf (((\<lambda>z. projr (parse (print z))) ^^ n) x) \<and> view (((\<lambda>z. projr (parse (print z))) ^^ n) x) = view x"
  using assms
proof (induction n)
  case (Suc n)
  then obtain y where "parse (print (((\<lambda>z. projr (parse (print z))) ^^ n) x)) = Inr y" "view y = view x" "wf y"
    using parse_print by metis
  then show ?case by simp
qed simp

end

locale canonical_format = text_format +
  assumes print_view: "wf x \<Longrightarrow> wf y \<Longrightarrow> view x = view y \<Longrightarrow> print x = print y"
begin

lemma print_stable:
  assumes "wf x" and "parse (print x) = Inr y"
  shows "print y = print x"
proof -
  from parse_print [OF assms(1)] assms(2) have "view y = view x" and "wf y" by auto
  then show ?thesis using print_view [OF _ assms(1)] by blast
qed

end

section \<open>Transition systems\<close>

inductive reachable :: "('s \<Rightarrow> bool) \<Rightarrow> ('s \<Rightarrow> 's \<Rightarrow> bool) \<Rightarrow> 's \<Rightarrow> bool"
  for init :: "'s \<Rightarrow> bool" and step :: "'s \<Rightarrow> 's \<Rightarrow> bool" where
  reach_init: "init s \<Longrightarrow> reachable init step s"
| reach_step: "reachable init step s \<Longrightarrow> step s t \<Longrightarrow> reachable init step t"

locale invariant_system =
  fixes init :: "'s \<Rightarrow> bool"
    and step :: "'s \<Rightarrow> 's \<Rightarrow> bool"
    and inv :: "'s \<Rightarrow> bool"
  assumes inv_init: "init s \<Longrightarrow> inv s"
    and inv_step: "inv s \<Longrightarrow> step s t \<Longrightarrow> inv t"
begin

lemma inv_reachable: "reachable init step s \<Longrightarrow> inv s"
  by (induction rule: reachable.induct) (auto intro: inv_init inv_step)

lemma inv_rtranclp: "step\<^sup>*\<^sup>* s t \<Longrightarrow> inv s \<Longrightarrow> inv t"
  by (induction rule: rtranclp_induct) (auto intro: inv_step)

end

end
