(* ===== verification/Credentials.thy ===== *)
theory Credentials
  imports Go_Runtime
begin

text \<open>
  Passwords, tokens and one-time codes: \<^verbatim>\<open>dashboard/auth_accounts.go\<close> (\<^verbatim>\<open>pbkdf2SHA256\<close> to
  \<^verbatim>\<open>validateOwnerPassword\<close>), \<^verbatim>\<open>tokenHash\<close> of \<^verbatim>\<open>main.go\<close> and the TOTP check of
  \<^verbatim>\<open>control_plane.go\<close>.  The loops are proved equal to the formulas of the standards they
  implement: PBKDF2 as the exclusive or of iterated MACs, the TOTP code as a 31-bit number modulo
  a million.  \<^verbatim>\<open>hmac.Equal\<close> compares contents.
\<close>

unbundle bit_operations_syntax

section \<open>Users\<close>

record dashboardUser =
  uUsername :: string
  uRole :: string
  uPasswordHash :: string
  uPasswordSalt :: string
  uPasswordIterations :: int
  uTokenHash :: string
  uTOTPSecret :: string
  uEnabled :: bool

definition passwordIterations :: int where "passwordIterations = 210000"

definition passwordKeyBytes :: int where "passwordKeyBytes = 32"

section \<open>Password hashing\<close>

text \<open>The low bytes of a number, most significant first: \<^verbatim>\<open>binary.BigEndian\<close>.\<close>

definition be_bytes :: "nat \<Rightarrow> nat \<Rightarrow> string" where
  "be_bytes k n = map (\<lambda>i. char_of (n div 256 ^ (k - 1 - i) mod 256)) [0..<k]"

definition xor_byte :: "char \<Rightarrow> char \<Rightarrow> char" where
  "xor_byte a b = char_of (byte_val a XOR byte_val b)"

definition xor_bytes :: "string \<Rightarrow> string \<Rightarrow> string" where
  "xor_bytes t u = map2 xor_byte t u"

text \<open>The inner loop, with the remaining number of rounds.\<close>

primrec pbkdf2_rounds :: "golib \<Rightarrow> string \<Rightarrow> nat \<Rightarrow> string \<Rightarrow> string \<Rightarrow> string" where
  "pbkdf2_rounds G password 0 u t = t"
| "pbkdf2_rounds G password (Suc n) u t =
     (let u' = hmac_sha256 G password u in pbkdf2_rounds G password n u' (xor_bytes t u'))"

definition pbkdf2_block :: "golib \<Rightarrow> string \<Rightarrow> string \<Rightarrow> int \<Rightarrow> nat \<Rightarrow> string" where
  "pbkdf2_block G password salt iterations block =
     (let u = hmac_sha256 G password (salt @ be_bytes 4 (block mod 2 ^ 32))
      in pbkdf2_rounds G password (nat (iterations - 1)) u u)"

definition pbkdf2SHA256 :: "golib \<Rightarrow> string \<Rightarrow> string \<Rightarrow> int \<Rightarrow> int \<Rightarrow> string" where
  "pbkdf2SHA256 G password salt iterations keyLength =
     (if iterations < 1 \<or> keyLength < 1 then []
      else let blocks = nat ((keyLength + 32 - 1) div 32)
           in take (nat keyLength)
                (concat (map (pbkdf2_block G password salt iterations) [1..<Suc blocks])))"

definition newPasswordCredentials :: "golib \<Rightarrow> string option \<Rightarrow> string \<Rightarrow> (string \<times> string \<times> int) option" where
  "newPasswordCredentials G random password =
     (case random of
        None \<Rightarrow> None
      | Some saltBytes \<Rightarrow>
          let key = pbkdf2SHA256 G password saltBytes passwordIterations passwordKeyBytes
          in Some (base64_encode key, base64_encode saltBytes, passwordIterations))"

definition verifyPassword :: "golib \<Rightarrow> dashboardUser \<Rightarrow> string \<Rightarrow> bool" where
  "verifyPassword G user password =
     (if uPasswordHash user = [] \<or> uPasswordSalt user = [] then False
      else case base64_decode (uPasswordSalt user) of
        None \<Rightarrow> False
      | Some salt \<Rightarrow>
          (case base64_decode (uPasswordHash user) of
             None \<Rightarrow> False
           | Some expected \<Rightarrow>
               if expected = [] then False
               else if uPasswordIterations user < 50000 then False
               else pbkdf2SHA256 G password salt (uPasswordIterations user) (int (length expected)) = expected))"

definition tokenHash :: "golib \<Rightarrow> string \<Rightarrow> string" where
  "tokenHash G token = hex_encode (sha256 G token)"

definition verifyUserCredential :: "golib \<Rightarrow> dashboardUser \<Rightarrow> string \<Rightarrow> bool" where
  "verifyUserCredential G user provided =
     (if uPasswordHash user \<noteq> [] then verifyPassword G user provided
      else if uTokenHash user \<noteq> [] then tokenHash G provided = to_lower (uTokenHash user)
      else False)"

section \<open>Rules for names and passwords\<close>

text \<open>The loop reads code points; a code point above 127 starts with a byte above 127, so the
  first one refused is found on bytes as well.\<close>

definition username_char :: "char \<Rightarrow> bool" where
  "username_char c \<longleftrightarrow> is_lower_alpha c \<or> is_upper_alpha c \<or> is_digit_char c \<or>
     c = CHR ''_'' \<or> c = CHR ''-'' \<or> c = CHR ''.''"

definition validateOwnerUsername :: "string \<Rightarrow> unit result" where
  "validateOwnerUsername username =
     (if length username < 3 \<or> length username > 32
      then Inl ''Username must contain 3 to 32 characters''
      else if \<not> list_all username_char username
      then Inl ''Username may contain only letters, numbers, periods, underscores, and hyphens''
      else Inr ())"

definition validateOwnerPassword :: "string \<Rightarrow> string \<Rightarrow> unit result" where
  "validateOwnerPassword username password =
     (if length password < 12 then Inl ''Password must contain at least 12 characters''
      else if length password > 256 then Inl ''Password must contain no more than 256 characters''
      else if equal_fold username password then Inl ''Password cannot match the username''
      else Inr ())"

section \<open>One-time codes\<close>

definition normalizeTOTPSecret :: "string \<Rightarrow> string" where
  "normalizeTOTPSecret secret =
     remove_char (CHR ''-'') (remove_char (CHR '' '') (to_upper (trim_space secret)))"

text \<open>Go's division of integers rounds towards zero.\<close>

definition go_div :: "int \<Rightarrow> int \<Rightarrow> int" where
  "go_div a b = (if a < 0 then - ((- a) div b) else a div b)"

definition pad_zero :: "nat \<Rightarrow> string \<Rightarrow> string" where
  "pad_zero k s = replicate (k - length s) (CHR ''0'') @ s"

definition totp_number :: "string \<Rightarrow> nat" where
  "totp_number mac =
     (let truncate = byte_val (last mac) AND 15
      in push_bit 24 (byte_val (mac ! truncate) AND 127) OR
         push_bit 16 (byte_val (mac ! (truncate + 1))) OR
         push_bit 8 (byte_val (mac ! (truncate + 2))) OR
         byte_val (mac ! (truncate + 3)))"

definition totp_expected :: "golib \<Rightarrow> string \<Rightarrow> int \<Rightarrow> string" where
  "totp_expected G key counter =
     pad_zero 6 (show_nat (totp_number (hmac_sha1 G key (be_bytes 8 (nat (counter mod 2 ^ 64)))) mod 1000000))"

definition validTOTP :: "golib \<Rightarrow> string \<Rightarrow> string \<Rightarrow> int \<Rightarrow> bool" where
  "validTOTP G secret0 code0 now =
     (let secret = normalizeTOTPSecret secret0;
          code = trim_space code0
      in if secret = [] then True
         else if length code \<noteq> 6 then False
         else case base32_decode secret of
           None \<Rightarrow> False
         | Some key \<Rightarrow>
             let counter = go_div now 30
             in list_ex (\<lambda>offset. totp_expected G key (counter + offset) = code) [-1, 0, 1])"

section \<open>The standards\<close>

text \<open>Byte \<open>k\<close> of a PBKDF2 key (RFC 8018, section 5.2): the exclusive or of that byte over the
  first \<open>c\<close> iterates of the MAC on the salt followed by the block's number.\<close>

definition pbkdf2_key_byte :: "golib \<Rightarrow> string \<Rightarrow> string \<Rightarrow> nat \<Rightarrow> nat \<Rightarrow> nat" where
  "pbkdf2_key_byte G password salt c k =
     foldr (XOR)
       (map (\<lambda>j. byte_val (((hmac_sha256 G password ^^ j) (salt @ be_bytes 4 (k div 32 + 1))) ! (k mod 32)))
         [1..<Suc c]) 0"

text \<open>The code at Unix time \<open>t\<close> (RFC 4226, section 5.3, and RFC 6238 with a step of 30 seconds).\<close>

definition be_val :: "string \<Rightarrow> nat" where
  "be_val s = foldl (\<lambda>a c. 256 * a + byte_val c) 0 s"

definition totp_reference :: "golib \<Rightarrow> string \<Rightarrow> int \<Rightarrow> string" where
  "totp_reference G key t =
     (let mac = hmac_sha1 G key (be_bytes 8 (nat (t div 30)));
          offset = byte_val (last mac) mod 16
      in pad_zero 6 (show_nat (be_val (take 4 (drop offset mac)) mod 2 ^ 31 mod 1000000)))"

section \<open>Lemmas\<close>

lemma xor_byte_val [simp]: "byte_val (xor_byte a b) = byte_val a XOR byte_val b"
proof -
  have "take_bit 8 (byte_val c) = byte_val c" for c
    using byte_val_less [of c] by (simp add: take_bit_eq_mod)
  then have "take_bit 8 (byte_val a XOR byte_val b) = byte_val a XOR byte_val b"
    by (simp add: take_bit_xor)
  then have "byte_val a XOR byte_val b < 2 ^ 8" by (metis take_bit_nat_less_exp)
  then show ?thesis by (simp add: xor_byte_def)
qed

lemma length_xor_bytes [simp]: "length (xor_bytes t u) = min (length t) (length u)"
  by (simp add: xor_bytes_def)

lemma foldr_xor_init: "foldr (XOR) xs (a XOR b) = b XOR foldr (XOR) xs (a::nat)"
  by (induction xs) (simp_all add: ac_simps)

lemma foldr_xor_zero: "foldr (XOR) xs (b::nat) = b XOR foldr (XOR) xs 0"
  using foldr_xor_init [of xs 0 b] by simp

lemma upt_Suc_shift:
  "map f [Suc 0..<Suc (Suc n)] = f (Suc 0) # map (\<lambda>j. f (Suc j)) [Suc 0..<Suc n]"
  by (simp add: upt_conv_Cons map_Suc_upt [symmetric] del: upt_Suc)

lemma length_pbkdf2_rounds:
  "hash_sizes G \<Longrightarrow> length t = 32 \<Longrightarrow> length (pbkdf2_rounds G p n u t) = 32"
  by (induction n arbitrary: u t) (simp_all add: Let_def hash_sizes_def)

lemma nth_pbkdf2_rounds:
  assumes "hash_sizes G" and "length t = 32" and "i < 32"
  shows "byte_val (pbkdf2_rounds G p n u t ! i) =
    foldr (XOR) (map (\<lambda>j. byte_val ((hmac_sha256 G p ^^ j) u ! i)) [1..<Suc n]) (byte_val (t ! i))"
  using assms(2)
proof (induction n arbitrary: u t)
  case (Suc n)
  let ?u = "hmac_sha256 G p u"
  have u: "length ?u = 32" using assms(1) by (simp add: hash_sizes_def)
  have "byte_val (pbkdf2_rounds G p (Suc n) u t ! i) =
      foldr (XOR) (map (\<lambda>j. byte_val ((hmac_sha256 G p ^^ j) ?u ! i)) [1..<Suc n])
        (byte_val (t ! i) XOR byte_val (?u ! i))"
    using Suc.IH [of "xor_bytes t ?u" ?u] Suc.prems u assms(3) by (simp add: Let_def xor_bytes_def)
  also have "\<dots> = byte_val (?u ! i) XOR
      foldr (XOR) (map (\<lambda>j. byte_val ((hmac_sha256 G p ^^ Suc j) u ! i)) [1..<Suc n]) (byte_val (t ! i))"
    by (simp add: foldr_xor_init funpow_swap1)
  finally show ?case by (simp add: upt_Suc_shift del: upt_Suc)
qed simp

lemma nth_concat_blocks:
  assumes "\<forall>x \<in> set xs. length x = m" and "0 < m" and "k < m * length xs"
  shows "concat xs ! k = xs ! (k div m) ! (k mod m)"
  using assms
proof (induction xs arbitrary: k)
  case (Cons x xs)
  show ?case
  proof (cases "k < m")
    case True
    then show ?thesis using Cons.prems by (simp add: nth_append)
  next
    case False
    then have "concat xs ! (k - m) = xs ! ((k - m) div m) ! ((k - m) mod m)"
      using Cons.prems by (intro Cons.IH) auto
    moreover have "k div m = Suc ((k - m) div m)" "k mod m = (k - m) mod m"
      using False Cons.prems by (simp_all add: le_div_geq le_mod_geq)
    ultimately show ?thesis using False Cons.prems by (simp add: nth_append)
  qed
qed simp

lemma length_pbkdf2_block: "hash_sizes G \<Longrightarrow> length (pbkdf2_block G p s c b) = 32"
  by (simp add: pbkdf2_block_def Let_def length_pbkdf2_rounds hash_sizes_def)

lemma nth_pbkdf2_block:
  assumes "hash_sizes G" and "1 \<le> c" and "k div 32 + 1 < 2 ^ 32"
  shows "byte_val (pbkdf2_block G p s c (k div 32 + 1) ! (k mod 32)) = pbkdf2_key_byte G p s (nat c) k"
proof -
  let ?h = "hmac_sha256 G p" and ?m = "s @ be_bytes 4 (k div 32 + 1)" and ?i = "k mod 32"
  obtain n where n: "nat c = Suc n" using assms(2) by (cases "nat c") auto
  then have c1: "nat (c - 1) = n" by simp
  have "length (?h ?m) = 32" using assms(1) by (simp add: hash_sizes_def)
  then have "byte_val (pbkdf2_block G p s c (k div 32 + 1) ! ?i) =
      foldr (XOR) (map (\<lambda>j. byte_val ((?h ^^ j) (?h ?m) ! ?i)) [1..<Suc n]) (byte_val (?h ?m ! ?i))"
    using assms by (simp add: pbkdf2_block_def Let_def nth_pbkdf2_rounds c1 del: upt_Suc)
  also have "\<dots> = byte_val (?h ?m ! ?i) XOR
      foldr (XOR) (map (\<lambda>j. byte_val ((?h ^^ Suc j) ?m ! ?i)) [1..<Suc n]) 0"
    by (subst foldr_xor_zero) (simp add: funpow_swap1 del: upt_Suc)
  finally show ?thesis by (simp add: pbkdf2_key_byte_def n upt_Suc_shift del: upt_Suc)
qed

lemma length_pbkdf2:
  assumes "hash_sizes G" and "1 \<le> c" and "1 \<le> n"
  shows "length (pbkdf2SHA256 G p s c n) = nat n"
proof -
  let ?bs = "map (pbkdf2_block G p s c) [1..<Suc (nat ((n + 31) div 32))]"
  have "length (concat ?bs) = 32 * nat ((n + 31) div 32)"
    using concat_same_length [of ?bs 32] by (simp add: length_pbkdf2_block assms(1) del: upt_Suc)
  moreover have "nat n \<le> 32 * nat ((n + 31) div 32)" using assms(3) by linarith
  ultimately show ?thesis using assms by (simp add: pbkdf2SHA256_def Let_def add.commute del: upt_Suc)
qed

lemma or_disjoint_nat: "b < 2 ^ k \<Longrightarrow> push_bit k a OR b = a * 2 ^ k + (b::nat)"
proof -
  assume b: "b < 2 ^ k"
  have "push_bit k a AND b = 0"
  proof (rule bit_eqI)
    fix n
    show "bit (push_bit k a AND b) n \<longleftrightarrow> bit (0::nat) n"
    proof (cases "k \<le> n")
      case True
      then have "b < 2 ^ n" using b by (meson less_le_trans one_le_numeral power_increasing)
      then show ?thesis by (simp add: bit_simps bit_iff_odd [of b])
    qed (simp add: bit_simps)
  qed
  then show ?thesis by (simp add: disjunctive_add_eq_or [symmetric] push_bit_eq_mult)
qed

lemma and_127: "b AND 127 = b mod (128::nat)" and and_15: "b AND 15 = b mod (16::nat)"
proof -
  have "b AND mask 7 = b mod 2 ^ 7" "b AND mask 4 = b mod 2 ^ 4"
    by (simp_all add: take_bit_eq_mask [symmetric] take_bit_eq_mod)
  then show "b AND 127 = b mod 128" "b AND 15 = b mod 16" by (simp_all add: mask_eq_exp_minus_1)
qed

lemma mod_split: "r < m \<Longrightarrow> (b * m + r) mod (m * k) = b mod k * m + (r::nat)"
  by (simp add: mod_mult2_eq)

lemma totp_number_eq:
  assumes "length mac = 20"
  shows "totp_number mac = be_val (take 4 (drop (byte_val (last mac) mod 16) mac)) mod 2 ^ 31"
proof -
  define o' where "o' = byte_val (last mac) mod 16"
  have "o' < 16" by (simp add: o'_def)
  then have o': "o' + 3 < length mac" using assms by simp
  then have four: "take 4 (drop o' mac) = [mac ! o', mac ! (o' + 1), mac ! (o' + 2), mac ! (o' + 3)]"
    by (simp add: numeral_eq_Suc Cons_nth_drop_Suc [symmetric])
  let ?b = "\<lambda>i. byte_val (mac ! (o' + i))"
  have less: "?b i < 256" for i by (rule byte_val_less)
  let ?r = "?b 1 * 2 ^ 16 + (?b 2 * 2 ^ 8 + ?b 3)"
  have r: "?b 2 * 2 ^ 8 + ?b 3 < 2 ^ 16" "?r < 2 ^ 24"
    using less [of 1] less [of 2] less [of 3] by simp_all
  have "totp_number mac = ?b 0 mod 128 * 2 ^ 24 + ?r"
    using r less [of 3]
    by (simp add: totp_number_def Let_def and_15 and_127 o'_def [symmetric] or_disjoint_nat)
  also have "\<dots> = (?b 0 * 2 ^ 24 + ?r) mod (2 ^ 24 * 128)"
    by (rule mod_split [OF r(2), symmetric])
  also have "?b 0 * 2 ^ 24 + ?r = be_val (take 4 (drop o' mac))"
    by (simp add: four be_val_def)
  finally show ?thesis by (simp add: o'_def)
qed

lemma length_show_nat: "n < 10 ^ k \<Longrightarrow> 0 < k \<Longrightarrow> length (show_nat n) \<le> k"
proof (induction k arbitrary: n)
  case (Suc k)
  show ?case
  proof (cases "n < 10")
    case False
    then have "n div 10 < 10 ^ k" "0 < k" using Suc.prems by (auto intro: gr0I)
    then have "length (show_nat (n div 10)) \<le> k" by (rule Suc.IH)
    with False show ?thesis by (simp add: show_nat.simps [of n])
  qed (simp add: show_nat.simps [of n])
qed simp

lemma trimmed_digits: "list_all is_digit_char s \<Longrightarrow> trimmed s"
  by (rule trimmed_ascii)
    (auto simp: list_all_iff is_digit_char_def is_ascii_def ascii_spaces_def byte_val_def)

lemma totp_code_shape:
  "length (pad_zero 6 (show_nat (n mod 1000000))) = 6"
  "trim_space (pad_zero 6 (show_nat (n mod 1000000))) = pad_zero 6 (show_nat (n mod 1000000))"
proof -
  have "length (show_nat (n mod 1000000)) \<le> 6" by (rule length_show_nat) auto
  then show "length (pad_zero 6 (show_nat (n mod 1000000))) = 6" by (simp add: pad_zero_def)
  show "trim_space (pad_zero 6 (show_nat (n mod 1000000))) = pad_zero 6 (show_nat (n mod 1000000))"
    by (intro trim_space_id trimmed_digits)
      (use show_nat_digits in \<open>auto simp: pad_zero_def list_all_iff is_digit_char_def byte_val_def\<close>)
qed

lemma totp_expected_eq:
  assumes "hash_sizes G" and "0 \<le> c" and "c < 2 ^ 64"
  shows "totp_expected G key c = totp_reference G key (30 * c)"
  using assms by (simp add: totp_expected_def totp_reference_def Let_def totp_number_eq hash_sizes_def)

lemma new_credentials_verify:
  assumes "hash_sizes G" and "newPasswordCredentials G (Some salt) pw = Some (h, sl, it)" and "salt \<noteq> []"
    and "uPasswordHash u = h" and "uPasswordSalt u = sl" and "uPasswordIterations u = it"
  shows "verifyPassword G u pw \<and>
    (verifyPassword G u pw' \<longleftrightarrow>
       pbkdf2SHA256 G pw' salt passwordIterations passwordKeyBytes =
       pbkdf2SHA256 G pw salt passwordIterations passwordKeyBytes)"
proof -
  have len: "length (pbkdf2SHA256 G q salt passwordIterations passwordKeyBytes) = 32" for q
    using length_pbkdf2 [OF assms(1), of passwordIterations passwordKeyBytes]
    by (simp add: passwordIterations_def passwordKeyBytes_def)
  then have "pbkdf2SHA256 G pw salt passwordIterations passwordKeyBytes \<noteq> []"
    by (metis length_0_conv zero_neq_numeral)
  moreover have "uPasswordHash u = base64_encode (pbkdf2SHA256 G pw salt passwordIterations passwordKeyBytes)"
    "uPasswordSalt u = base64_encode salt" "uPasswordIterations u = passwordIterations"
    using assms by (simp_all add: newPasswordCredentials_def Let_def)
  ultimately show ?thesis
    using assms(3) len [of pw]
    by (simp add: verifyPassword_def base64_decode_encode base64_encode_Nil passwordIterations_def
        passwordKeyBytes_def)
qed

section \<open>Properties\<close>

text \<open>C22: The password hash is PBKDF2 with HMAC-SHA256 as the standard defines it: for every
  iteration count and every key length up to the standard's limit, the result has that length and
  each of its bytes is the exclusive or of that byte of all the iterated MACs of its block.\<close>

theorem pbkdf2_is_standard:
  assumes "hash_sizes G" and "1 \<le> c" and "1 \<le> n" and "n \<le> 32 * (2 ^ 32 - 1)"
  shows "length (pbkdf2SHA256 G p s c n) = nat n \<and>
    (\<forall>k < nat n. byte_val (pbkdf2SHA256 G p s c n ! k) = pbkdf2_key_byte G p s (nat c) k)"
proof (intro conjI allI impI)
  show "length (pbkdf2SHA256 G p s c n) = nat n" by (rule length_pbkdf2 [OF assms(1-3)])
next
  fix k
  assume k: "k < nat n"
  let ?bs = "map (pbkdf2_block G p s c) [1..<Suc (nat ((n + 31) div 32))]"
  have le: "k < 32 * length ?bs" using k by simp linarith
  have d: "k div 32 < nat ((n + 31) div 32)" using k by linarith
  then have "pbkdf2SHA256 G p s c n ! k = ?bs ! (k div 32) ! (k mod 32)"
    using k assms nth_concat_blocks [of ?bs 32 k] le
    by (simp add: pbkdf2SHA256_def Let_def length_pbkdf2_block add.commute del: upt_Suc)
  also have "?bs ! (k div 32) = pbkdf2_block G p s c (k div 32 + 1)"
    using d by (simp del: upt_Suc)
  finally have eq: "pbkdf2SHA256 G p s c n ! k = pbkdf2_block G p s c (k div 32 + 1) ! (k mod 32)" .
  have "k div 32 + 1 < 2 ^ 32" using k assms(4) by simp
  then show "byte_val (pbkdf2SHA256 G p s c n ! k) = pbkdf2_key_byte G p s (nat c) k"
    unfolding eq by (rule nth_pbkdf2_block [OF assms(1,2)])
qed

theorem pbkdf2_is_standard_witness:
  "byte_val (pbkdf2SHA256 sample_golib ''pw'' ''salt'' 3 40 ! 35) =
   pbkdf2_key_byte sample_golib ''pw'' ''salt'' 3 35"
  using pbkdf2_is_standard [OF sample_golib_sizes, of 3 40 "''pw''" "''salt''"] by simp

text \<open>Stored credentials verify exactly the passwords with the stored key: an account whose
  hash, salt and iteration count come from \<^verbatim>\<open>newPasswordCredentials\<close> accepts the password they were
  made of, and accepts another password only if PBKDF2 maps both to the same key.\<close>

theorem stored_credentials_verify:
  assumes "hash_sizes G" and "newPasswordCredentials G (Some salt) pw = Some (h, sl, it)" and "salt \<noteq> []"
    and "uPasswordHash u = h" and "uPasswordSalt u = sl" and "uPasswordIterations u = it"
  shows "verifyPassword G u pw \<and>
    (verifyPassword G u pw' \<longleftrightarrow>
       pbkdf2SHA256 G pw' salt passwordIterations passwordKeyBytes =
       pbkdf2SHA256 G pw salt passwordIterations passwordKeyBytes)"
  using new_credentials_verify [OF assms] .

definition sampleUser :: dashboardUser where
  "sampleUser =
     \<lparr>uUsername = ''Ninja'', uRole = ''owner'',
      uPasswordHash = base64_encode (pbkdf2SHA256 sample_golib ''correct horse'' ''0123'' passwordIterations passwordKeyBytes),
      uPasswordSalt = base64_encode ''0123'', uPasswordIterations = passwordIterations,
      uTokenHash = [], uTOTPSecret = [], uEnabled = True\<rparr>"

theorem stored_credentials_verify_witness: "verifyPassword sample_golib sampleUser ''correct horse''"
  using stored_credentials_verify [OF sample_golib_sizes, of "''0123''" "''correct horse''"
      "uPasswordHash sampleUser" "uPasswordSalt sampleUser" passwordIterations sampleUser]
  by (simp add: newPasswordCredentials_def sampleUser_def)

text \<open>C23: The second factor is TOTP: for a secret that decodes to a key, a code is accepted at
  time \<open>now\<close> exactly when it is the standard's six-digit code of the key for the current
  30-second step, the step before or the step after.\<close>

theorem totp_accepts_three_steps:
  assumes "hash_sizes G" and "normalizeTOTPSecret secret \<noteq> []"
    and "base32_decode (normalizeTOTPSecret secret) = Some key" and "30 \<le> now" and "now < 2 ^ 63"
  shows "validTOTP G secret code now \<longleftrightarrow>
    trim_space code \<in> {totp_reference G key (now - 30), totp_reference G key now,
                        totp_reference G key (now + 30)}"
proof -
  have step: "totp_expected G key (go_div now 30 + o') = totp_reference G key (now + 30 * o')"
    if "o' \<in> {-1, 0, 1}" for o'
  proof -
    have c: "go_div now 30 + o' = (now + 30 * o') div 30" using assms(4) by (simp add: go_div_def)
    moreover have "0 \<le> (now + 30 * o') div 30" "(now + 30 * o') div 30 < 2 ^ 64"
      using assms(4,5) that by auto
    ultimately have "totp_expected G key (go_div now 30 + o') =
        totp_reference G key (30 * ((now + 30 * o') div 30))"
      using totp_expected_eq [OF assms(1)] by (simp add: add.commute)
    then show ?thesis by (simp add: totp_reference_def)
  qed
  have "length (totp_reference G key t) = 6" for t
    unfolding totp_reference_def Let_def by (rule totp_code_shape)
  then show ?thesis
    using assms(2,3) step [of "-1"] step [of 0] step [of 1]
    by (auto simp: validTOTP_def Let_def)
qed

theorem totp_accepts_three_steps_witness:
  "validTOTP sample_golib ''gezd gnbv'' (totp_reference sample_golib (the (base32_decode ''GEZDGNBV'')) 1000) 1020"
proof -
  have n: "normalizeTOTPSecret ''gezd gnbv'' = ''GEZDGNBV''" by code_simp
  have k: "base32_decode ''GEZDGNBV'' = Some (the (base32_decode ''GEZDGNBV''))"
    by code_simp
  have "totp_reference sample_golib key 1000 = totp_reference sample_golib key (1020 - 30)" for key
    by (simp add: totp_reference_def)
  then show ?thesis
    using totp_accepts_three_steps [OF sample_golib_sizes, of "''gezd gnbv''"
        "the (base32_decode ''GEZDGNBV'')" 1020] n k
      totp_code_shape(2)
    by (simp add: totp_reference_def Let_def)
qed

end
