(* ===== verification/Ledger.thy ===== *)
theory Ledger
  imports Go_Runtime
begin

text \<open>
  The SQLite ledger of \<^verbatim>\<open>dashboard/storage_sqlite.go\<close>: a record with one list of rows per table,
  and one function per method, with the SQL statement of the method as its effect on the rows.
  A nil or closed database is \<open>dbOpen = False\<close>: then every statement fails with
  \<^verbatim>\<open>ledger unavailable\<close> and changes nothing.  Rows are kept in insertion order; where a statement
  orders by a column and takes the first row, rows with equal values keep the table's order.
  \<^verbatim>\<open>access_json\<close> is kept decoded, since the code writes it with \<^verbatim>\<open>json.Marshal\<close> of a map and reads
  it with \<^verbatim>\<open>json.Unmarshal\<close> into one.  Every read of the clock is an argument.
\<close>

named_theorems ledger_defs "definitions of the ledger's methods"

section \<open>Tables\<close>

record session_row =
  ses_token_hash :: string
  ses_username :: string
  ses_role :: string
  ses_created_at :: int
  ses_expires_at :: int
  ses_last_seen :: int
  ses_totp_verified :: bool

record transferTicket =
  tkID :: string
  tkPort :: int
  tkDestination :: string
  tkSourceIP :: string
  tkXUID :: string
  tkPlayerName :: string
  tkSourceServer :: string
  tkExpiresAt :: int
  tkCreatedAt :: int

record transfer_row =
  tr_id :: string
  tr_ticket_id :: string
  tr_xuid :: string
  tr_player_name :: string
  tr_source_server :: string
  tr_destination :: string
  tr_source_ip :: string
  tr_proxy_port :: int
  tr_state :: string
  tr_requested_at :: int
  tr_updated_at :: int
  tr_proxy_connected_at :: "int option"
  tr_arrived_at :: "int option"
  tr_failure_reason :: "string option"

record profile_row =
  pr_xuid :: string
  pr_gamertag :: string
  pr_first_seen :: int
  pr_last_seen :: int
  pr_current_server :: string
  pr_network_role :: string
  pr_access :: "(string \<times> bool) list"
  pr_network_banned :: bool
  pr_notes :: string

record audit_row =
  au_ts :: int
  au_actor :: string
  au_role :: string
  au_action :: string
  au_result :: string
  au_remote_ip :: string
  au_details :: json

record policy_row =
  po_ts :: int
  po_actor :: string
  po_content :: string
  po_content_hash :: string
  po_result :: string
  po_active :: bool

record metric_row =
  me_ts :: int
  me_scope :: string
  me_server_id :: string
  me_name :: string
  me_value :: rat

record alert_row =
  al_ts :: int
  al_rule_name :: string
  al_severity :: string
  al_server_id :: string
  al_message :: string
  al_state :: string

record firewall_row =
  fw_ts :: int
  fw_ip :: string
  fw_risk :: int
  fw_ban_level :: int
  fw_banned_until :: int
  fw_reason :: string

record ledger =
  dbOpen :: bool
  sessions :: "session_row list"
  transfers :: "transfer_row list"
  profileRows :: "profile_row list"
  auditLog :: "audit_row list"
  policies :: "policy_row list"
  metricSamples :: "metric_row list"
  alertRows :: "alert_row list"
  firewallRows :: "firewall_row list"

definition emptyLedger :: ledger where
  "emptyLedger =
     \<lparr>dbOpen = True, sessions = [], transfers = [], profileRows = [], auditLog = [],
      policies = [], metricSamples = [], alertRows = [], firewallRows = []\<rparr>"

section \<open>Statements\<close>

definition exec :: "ledger \<Rightarrow> (ledger \<Rightarrow> ledger) \<Rightarrow> ledger result" where
  "exec l statement = (if dbOpen l then Inr (statement l) else Inl ''ledger unavailable'')"

text \<open>A statement whose error the caller drops.\<close>

definition exec_ignored :: "ledger \<Rightarrow> (ledger \<Rightarrow> ledger) \<Rightarrow> ledger" where
  "exec_ignored l statement = (case exec l statement of Inl _ \<Rightarrow> l | Inr l' \<Rightarrow> l')"

definition querySelect :: "ledger \<Rightarrow> (ledger \<Rightarrow> 'r list) \<Rightarrow> 'r list result" where
  "querySelect l statement = (if dbOpen l then Inr (statement l) else Inl ''ledger unavailable'')"

definition query_ignored :: "ledger \<Rightarrow> (ledger \<Rightarrow> 'r list) \<Rightarrow> 'r list" where
  "query_ignored l statement = (case querySelect l statement of Inl _ \<Rightarrow> [] | Inr rs \<Rightarrow> rs)"

definition order_desc :: "('r \<Rightarrow> int) \<Rightarrow> 'r list \<Rightarrow> 'r list" where
  "order_desc f rs = sort_key (\<lambda>r. - f r) rs"

definition update_where :: "('r \<Rightarrow> bool) \<Rightarrow> ('r \<Rightarrow> 'r) \<Rightarrow> 'r list \<Rightarrow> 'r list" where
  "update_where p f rs = map (\<lambda>r. if p r then f r else r) rs"

definition delete_where :: "('r \<Rightarrow> bool) \<Rightarrow> 'r list \<Rightarrow> 'r list" where
  "delete_where p rs = filter (\<lambda>r. \<not> p r) rs"

section \<open>Audit, policies, metrics, alerts\<close>

definition recordAudit ::
  "ledger \<Rightarrow> int \<Rightarrow> string \<Rightarrow> string \<Rightarrow> string \<Rightarrow> string \<Rightarrow> string \<Rightarrow> json \<Rightarrow> ledger" where
  [ledger_defs]: "recordAudit l ts act role action result remoteIP details =
     exec_ignored l (auditLog_update (\<lambda>rs. rs @
       [\<lparr>au_ts = ts, au_actor = act, au_role = role, au_action = action, au_result = result,
         au_remote_ip = remoteIP, au_details = details\<rparr>]))"

definition recordPolicy ::
  "ledger \<Rightarrow> int \<Rightarrow> string \<Rightarrow> string \<Rightarrow> string \<Rightarrow> string \<Rightarrow> bool \<Rightarrow> ledger" where
  [ledger_defs]: "recordPolicy l ts act content hash result active =
     (let l1 = (if active
                then exec_ignored l (policies_update (update_where po_active (po_active_update (\<lambda>_. False))))
                else l)
      in exec_ignored l1 (policies_update (\<lambda>rs. rs @
           [\<lparr>po_ts = ts, po_actor = act, po_content = content, po_content_hash = hash,
             po_result = result, po_active = active\<rparr>])))"

definition recordMetric :: "ledger \<Rightarrow> int \<Rightarrow> string \<Rightarrow> string \<Rightarrow> string \<Rightarrow> rat \<Rightarrow> ledger" where
  [ledger_defs]: "recordMetric l ts scope serverID name value =
     exec_ignored l (metricSamples_update (\<lambda>rs. rs @
       [\<lparr>me_ts = ts, me_scope = scope, me_server_id = serverID, me_name = name, me_value = value\<rparr>]))"

definition metricHistory :: "ledger \<Rightarrow> string \<Rightarrow> string \<Rightarrow> int \<Rightarrow> int \<Rightarrow> metric_row list" where
  [ledger_defs]: "metricHistory l name serverID since limit0 =
     (let limit = (if limit0 < 1 then 1000 else limit0);
          limit = (if limit > 10000 then 10000 else limit)
      in query_ignored l (\<lambda>l. take (nat limit) (sort_key me_ts
           (filter (\<lambda>r. me_name r = name \<and> me_ts r \<ge> since \<and>
                        (serverID = [] \<or> me_server_id r = serverID)) (metricSamples l)))))"

definition pruneMetrics :: "ledger \<Rightarrow> int \<Rightarrow> ledger" where
  [ledger_defs]: "pruneMetrics l before =
     exec_ignored l (metricSamples_update (delete_where (\<lambda>r. me_ts r < before)))"

definition recordAlert :: "ledger \<Rightarrow> int \<Rightarrow> string \<Rightarrow> string \<Rightarrow> string \<Rightarrow> string \<Rightarrow> ledger" where
  [ledger_defs]: "recordAlert l now rule severity serverID message =
     exec_ignored l (alertRows_update (\<lambda>rs. rs @
       [\<lparr>al_ts = now, al_rule_name = rule, al_severity = severity, al_server_id = serverID,
         al_message = message, al_state = ''open''\<rparr>]))"

definition alerts :: "ledger \<Rightarrow> int \<Rightarrow> alert_row list" where
  [ledger_defs]: "alerts l limit0 =
     (let limit = (if limit0 < 1 then 200 else limit0)
      in query_ignored l (\<lambda>l. take (nat limit) (order_desc al_ts (alertRows l))))"

section \<open>Dashboard sessions\<close>

definition createSession ::
  "ledger \<Rightarrow> int \<Rightarrow> string \<Rightarrow> string \<Rightarrow> string \<Rightarrow> int \<Rightarrow> bool \<Rightarrow> ledger result" where
  [ledger_defs]: "createSession l now hash user role expiresAt totp =
     exec l (sessions_update (\<lambda>rs. delete_where (\<lambda>r. ses_token_hash r = hash) rs @
       [\<lparr>ses_token_hash = hash, ses_username = user, ses_role = role, ses_created_at = now,
         ses_expires_at = expiresAt, ses_last_seen = now, ses_totp_verified = totp\<rparr>]))"

definition session :: "ledger \<Rightarrow> int \<Rightarrow> string \<Rightarrow> principal option \<times> ledger" where
  [ledger_defs]: "session l now hash =
     (case querySelect l (\<lambda>l. take 1 (filter (\<lambda>r. ses_token_hash r = hash) (sessions l))) of
        Inl _ \<Rightarrow> (None, l)
      | Inr [] \<Rightarrow> (None, l)
      | Inr (r # _) \<Rightarrow>
          if ses_expires_at r \<le> now
          then (None, exec_ignored l (sessions_update (delete_where (\<lambda>r. ses_token_hash r = hash))))
          else (Some \<lparr>pUsername = ses_username r, pRole = ses_role r\<rparr>,
                exec_ignored l (sessions_update
                  (update_where (\<lambda>r. ses_token_hash r = hash) (ses_last_seen_update (\<lambda>_. now))))))"

definition deleteSession :: "ledger \<Rightarrow> string \<Rightarrow> ledger" where
  [ledger_defs]: "deleteSession l hash =
     exec_ignored l (sessions_update (delete_where (\<lambda>r. ses_token_hash r = hash)))"

definition revokeUserSessions :: "ledger \<Rightarrow> string \<Rightarrow> ledger" where
  [ledger_defs]: "revokeUserSessions l user =
     exec_ignored l (sessions_update
       (delete_where (\<lambda>r. to_lower (ses_username r) = to_lower user)))"

definition cleanupSessions :: "ledger \<Rightarrow> int \<Rightarrow> ledger" where
  [ledger_defs]: "cleanupSessions l now =
     exec_ignored l (sessions_update (delete_where (\<lambda>r. ses_expires_at r < now)))"

definition clearSessions :: "ledger \<Rightarrow> ledger" where
  [ledger_defs]: "clearSessions l = exec_ignored l (sessions_update (\<lambda>_. []))"

section \<open>Player profiles\<close>

definition newProfile :: "string \<Rightarrow> string \<Rightarrow> string \<Rightarrow> int \<Rightarrow> profile_row" where
  "newProfile xuid gamertag serverID ts =
     \<lparr>pr_xuid = xuid, pr_gamertag = gamertag, pr_first_seen = ts, pr_last_seen = ts,
      pr_current_server = serverID, pr_network_role = ''member'', pr_access = [],
      pr_network_banned = False, pr_notes = []\<rparr>"

definition upsertProfile :: "ledger \<Rightarrow> string \<Rightarrow> string \<Rightarrow> string \<Rightarrow> int \<Rightarrow> ledger" where
  [ledger_defs]: "upsertProfile l xuid gamertag serverID ts =
     (if xuid = [] then l
      else exec_ignored l (profileRows_update (\<lambda>rs.
        if list_ex (\<lambda>r. pr_xuid r = xuid) rs
        then update_where (\<lambda>r. pr_xuid r = xuid)
               (\<lambda>r. r\<lparr>pr_gamertag := gamertag, pr_last_seen := ts, pr_current_server := serverID\<rparr>) rs
        else rs @ [newProfile xuid gamertag serverID ts])))"

definition selectProfile :: "ledger \<Rightarrow> string \<Rightarrow> profile_row option" where
  "selectProfile l xuid =
     (case querySelect l (\<lambda>l. take 1 (filter (\<lambda>r. pr_xuid r = xuid) (profileRows l))) of
        Inr (r # _) \<Rightarrow> Some r
      | _ \<Rightarrow> None)"

definition profileIdentity ::
  "ledger \<Rightarrow> string \<Rightarrow> string \<times> bool \<times> (string \<times> bool) list \<times> string" where
  [ledger_defs]: "profileIdentity l xuid =
     (if trim_space xuid = [] then (''member'', False, [], [])
      else case selectProfile l xuid of
        None \<Rightarrow> (''member'', False, [], [])
      | Some r \<Rightarrow>
          (if pr_network_role r = [] then ''member'' else pr_network_role r,
           pr_network_banned r, pr_access r, pr_notes r))"

definition profileAccess :: "ledger \<Rightarrow> string \<Rightarrow> string \<Rightarrow> bool \<times> string" where
  [ledger_defs]: "profileAccess l xuid destination =
     (if xuid = [] then (True, [])
      else case selectProfile l xuid of
        None \<Rightarrow> (True, [])
      | Some r \<Rightarrow>
          if pr_network_banned r then (False, ''Player is banned from the Ninj-OS network'')
          else if map_of (pr_access r) destination = Some False
          then (False, ''Player does not have access to destination '' @ destination)
          else (True, []))"

definition profiles :: "ledger \<Rightarrow> int \<Rightarrow> profile_row list" where
  [ledger_defs]: "profiles l limit0 =
     (let limit = (if limit0 < 1 then 500 else limit0);
          limit = (if limit > 10000 then 10000 else limit)
      in query_ignored l (\<lambda>l. take (nat limit) (order_desc pr_last_seen (profileRows l))))"

definition updateProfileAccess ::
  "ledger \<Rightarrow> string \<Rightarrow> string \<Rightarrow> bool \<Rightarrow> (string \<times> bool) list \<Rightarrow> string \<Rightarrow> ledger result" where
  [ledger_defs]: "updateProfileAccess l xuid role banned access notes =
     exec l (profileRows_update (update_where (\<lambda>r. pr_xuid r = xuid)
       (\<lambda>r. r\<lparr>pr_network_role := role, pr_network_banned := banned, pr_access := access,
              pr_notes := notes\<rparr>)))"

section \<open>Transfer transactions\<close>

definition ticketRow :: "transferTicket \<Rightarrow> transfer_row" where
  "ticketRow t =
     \<lparr>tr_id = tkID t, tr_ticket_id = tkID t, tr_xuid = tkXUID t, tr_player_name = tkPlayerName t,
      tr_source_server = tkSourceServer t, tr_destination = tkDestination t,
      tr_source_ip = tkSourceIP t, tr_proxy_port = tkPort t, tr_state = ''ticketed'',
      tr_requested_at = tkCreatedAt t, tr_updated_at = tkCreatedAt t,
      tr_proxy_connected_at = None, tr_arrived_at = None, tr_failure_reason = None\<rparr>"

definition createTransfer :: "ledger \<Rightarrow> transferTicket \<Rightarrow> ledger" where
  [ledger_defs]: "createTransfer l t =
     exec_ignored l (transfers_update (\<lambda>rs.
       delete_where (\<lambda>r. tr_id r = tkID t \<or> tr_ticket_id r = tkID t) rs @ [ticketRow t]))"

definition updateTransfer :: "ledger \<Rightarrow> int \<Rightarrow> string \<Rightarrow> string \<Rightarrow> string \<Rightarrow> int \<Rightarrow> ledger" where
  [ledger_defs]: "updateTransfer l now ticketID state failure timestamp0 =
     (let timestamp = (if timestamp0 = 0 then now else timestamp0) in
      if state = ''proxy_connected'' then
        exec_ignored l (transfers_update (update_where
          (\<lambda>r. tr_ticket_id r = ticketID \<and> tr_state r = ''ticketed'')
          (\<lambda>r. r\<lparr>tr_state := state, tr_updated_at := timestamp,
                 tr_proxy_connected_at := Some timestamp, tr_failure_reason := Some failure\<rparr>)))
      else if state = ''arrived'' then
        exec_ignored l (transfers_update (update_where
          (\<lambda>r. tr_ticket_id r = ticketID)
          (\<lambda>r. r\<lparr>tr_state := state, tr_updated_at := timestamp,
                 tr_arrived_at := Some timestamp, tr_failure_reason := Some failure\<rparr>)))
      else
        exec_ignored l (transfers_update (update_where
          (\<lambda>r. tr_ticket_id r = ticketID)
          (\<lambda>r. r\<lparr>tr_state := state, tr_updated_at := timestamp, tr_failure_reason := Some failure\<rparr>))))"

definition openTransfer :: "transfer_row \<Rightarrow> bool" where
  "openTransfer r \<longleftrightarrow> tr_state r \<in> {''ticketed'', ''proxy_connected''}"

definition transferWindow :: int where
  "transferWindow = 5 * 60 * 1000"

definition arrivalCandidates :: "ledger \<Rightarrow> string \<Rightarrow> string \<Rightarrow> int \<Rightarrow> transfer_row list" where
  "arrivalCandidates l xuid serverID timestamp =
     take 1 (order_desc tr_requested_at (filter (\<lambda>r. tr_xuid r = xuid \<and> tr_destination r = serverID \<and>
       openTransfer r \<and> tr_requested_at r \<ge> timestamp - transferWindow) (transfers l)))"

definition confirmArrival :: "ledger \<Rightarrow> string \<Rightarrow> string \<Rightarrow> int \<Rightarrow> ledger" where
  [ledger_defs]: "confirmArrival l xuid serverID timestamp =
     (if xuid = [] \<or> serverID = [] then l
      else exec_ignored l (\<lambda>l. transfers_update (update_where
        (\<lambda>r. tr_id r \<in> set (map tr_id (arrivalCandidates l xuid serverID timestamp)))
        (\<lambda>r. r\<lparr>tr_state := ''arrived'', tr_updated_at := timestamp,
               tr_arrived_at := Some timestamp\<rparr>)) l))"

definition expireTransfers :: "ledger \<Rightarrow> int \<Rightarrow> ledger" where
  [ledger_defs]: "expireTransfers l now =
     exec_ignored l (transfers_update (update_where
       (\<lambda>r. openTransfer r \<and> tr_requested_at r < now - transferWindow)
       (\<lambda>r. r\<lparr>tr_state := ''expired'', tr_updated_at := now,
              tr_failure_reason := Some ''arrival not confirmed before transaction timeout''\<rparr>)))"

definition recentTransfers :: "ledger \<Rightarrow> int \<Rightarrow> transfer_row list" where
  [ledger_defs]: "recentTransfers l limit0 =
     (let limit = (if limit0 < 1 then 100 else limit0);
          limit = (if limit > 5000 then 5000 else limit)
      in query_ignored l (\<lambda>l. take (nat limit) (order_desc tr_requested_at (transfers l))))"

section \<open>Firewall snapshots\<close>

definition firewallRow :: "golib \<Rightarrow> int \<Rightarrow> jobject \<Rightarrow> firewall_row" where
  "firewallRow G ts row =
     \<lparr>fw_ts = ts, fw_ip = sprint G (field row ''ip''), fw_risk = atoi_value (sprint G (field row ''risk'')),
      fw_ban_level = atoi_value (sprint G (field row ''banLevel'')),
      fw_banned_until = atoi_value (sprint G (field row ''bannedUntil'')), fw_reason = sprint G (field row ''reason'')\<rparr>"

definition firewallSnapshot :: "golib \<Rightarrow> ledger \<Rightarrow> int \<Rightarrow> jobject list \<Rightarrow> ledger" where
  "firewallSnapshot G l ts rows =
     foldl (\<lambda>l row. exec_ignored l (firewallRows_update (\<lambda>rs. rs @ [firewallRow G ts row]))) l rows"

lemma firewallSnapshot_eq:
  "firewallSnapshot G l ts rows = (if dbOpen l then l\<lparr>firewallRows := firewallRows l @ map (firewallRow G ts) rows\<rparr> else l)"
  unfolding firewallSnapshot_def by (induction rows arbitrary: l) (auto simp: exec_ignored_def exec_def)

section \<open>The ledger's invariant\<close>

definition ledger_wf :: "ledger \<Rightarrow> bool" where
  "ledger_wf l \<longleftrightarrow>
     distinct (map ses_token_hash (sessions l)) \<and>
     distinct (map tr_id (transfers l)) \<and>
     list_all (\<lambda>r. tr_ticket_id r = tr_id r) (transfers l) \<and>
     distinct (map pr_xuid (profileRows l)) \<and>
     list_all (\<lambda>r. pr_xuid r \<noteq> []) (profileRows l) \<and>
     length (filter po_active (policies l)) \<le> 1"

text \<open>The calls of the ledger's methods that write, as steps.\<close>

inductive ledger_step :: "ledger \<Rightarrow> ledger \<Rightarrow> bool" where
  audit: "ledger_step l (recordAudit l ts act role action result ip details)"
| policy: "ledger_step l (recordPolicy l ts act content hash result active)"
| metric: "ledger_step l (recordMetric l ts scope server name value)"
| prune: "ledger_step l (pruneMetrics l before)"
| alert: "ledger_step l (recordAlert l now rule severity server message)"
| create_session: "createSession l now hash user role expires totp = Inr l' \<Longrightarrow> ledger_step l l'"
| read_session: "ledger_step l (snd (session l now hash))"
| delete_session: "ledger_step l (deleteSession l hash)"
| revoke: "ledger_step l (revokeUserSessions l user)"
| cleanup: "ledger_step l (cleanupSessions l now)"
| clear: "ledger_step l (clearSessions l)"
| upsert: "ledger_step l (upsertProfile l xuid gamertag server ts)"
| profile_access: "updateProfileAccess l xuid role banned access notes = Inr l' \<Longrightarrow> ledger_step l l'"
| create_transfer: "ledger_step l (createTransfer l t)"
| update_transfer: "ledger_step l (updateTransfer l now tid state failure ts)"
| confirm: "ledger_step l (confirmArrival l xuid server ts)"
| expire: "ledger_step l (expireTransfers l now)"
| firewall: "ledger_step l (firewallSnapshot G l ts rows)"

subsection \<open>Statements on rows\<close>

lemma map_update_where:
  "(\<And>r. g (f r) = g r) \<Longrightarrow> map g (update_where p f rs) = map g rs"
  by (simp add: update_where_def)

lemma list_all_update_where:
  "list_all q rs \<Longrightarrow> (\<And>r. q r \<Longrightarrow> p r \<Longrightarrow> q (f r)) \<Longrightarrow> list_all q (update_where p f rs)"
  by (auto simp: update_where_def list_all_iff)

lemma distinct_map_delete_where: "distinct (map g rs) \<Longrightarrow> distinct (map g (delete_where p rs))"
  by (simp add: delete_where_def distinct_map_filter)

lemma list_all_delete_where: "list_all q rs \<Longrightarrow> list_all q (delete_where p rs)"
  by (auto simp: delete_where_def list_all_iff)

lemma find_update_where:
  "(\<And>r. q (f r) = q r) \<Longrightarrow>
   find q (update_where p f rs) = map_option (\<lambda>r. if p r then f r else r) (find q rs)"
  by (induction rs) (auto simp: update_where_def)

lemma find_delete_where_other: "(\<And>r. q r \<Longrightarrow> \<not> p r) \<Longrightarrow> find q (delete_where p rs) = find q rs"
  by (induction rs) (auto simp: delete_where_def)

lemma find_delete_where_same: "(\<And>r. q r \<Longrightarrow> p r) \<Longrightarrow> find q (delete_where p rs) = None"
  by (induction rs) (auto simp: delete_where_def)

lemma find_append: "find q (xs @ ys) = (case find q xs of None \<Rightarrow> find q ys | Some r \<Rightarrow> Some r)"
  by (induction xs) auto

lemma take1_filter: "take (Suc 0) (filter q rs) = (case find q rs of None \<Rightarrow> [] | Some r \<Rightarrow> [r])"
  by (induction rs) auto

lemma find_key_unique:
  "distinct (map g rs) \<Longrightarrow> r \<in> set rs \<Longrightarrow> g r = k \<Longrightarrow> find (\<lambda>r. g r = k) rs = Some r"
  by (induction rs) auto

lemma delete_where_key_distinct:
  assumes "distinct (map g rs)" and "\<And>r. g r = k \<Longrightarrow> p r" and "g new = k"
  shows "distinct (map g (delete_where p rs @ [new]))"
  using assms by (auto simp: delete_where_def distinct_map_filter)

lemma exec_Inr_iff: "exec l f = Inr l' \<longleftrightarrow> dbOpen l \<and> l' = f l"
  by (auto simp: exec_def)

lemma exec_ignored_eq: "exec_ignored l f = (if dbOpen l then f l else l)"
  by (simp add: exec_ignored_def exec_def)

lemma selectProfile_eq:
  "selectProfile l x = (if dbOpen l then find (\<lambda>r. pr_xuid r = x) (profileRows l) else None)"
  by (auto simp: selectProfile_def querySelect_def take1_filter split: option.splits)

lemmas ledger_calls = ledger_defs exec_Inr_iff exec_ignored_eq

subsection \<open>Every call keeps the invariant\<close>

lemma ledger_wf_policy: "ledger_wf l \<Longrightarrow> ledger_wf (recordPolicy l ts act c h res active)"
proof -
  assume wf: "ledger_wf l"
  have none: "filter po_active (update_where po_active (po_active_update (\<lambda>_. False)) rs) = []" for rs
    by (auto simp: update_where_def filter_empty_conv)
  from wf show ?thesis by (simp add: ledger_wf_def ledger_calls Let_def none)
qed

lemma ledger_wf_session: "ledger_wf l \<Longrightarrow> ledger_wf (snd (session l now hash))"
  by (auto simp: ledger_wf_def ledger_calls querySelect_def distinct_map_delete_where map_update_where
        split: list.splits)

lemma ledger_wf_upsert: "ledger_wf l \<Longrightarrow> ledger_wf (upsertProfile l x g s ts)"
  by (auto simp: ledger_wf_def ledger_calls map_update_where newProfile_def list_ex_iff
        intro!: list_all_update_where)

lemma ledger_wf_create_transfer: "ledger_wf l \<Longrightarrow> ledger_wf (createTransfer l t)"
proof -
  assume wf: "ledger_wf l"
  then have "distinct (map tr_id (delete_where (\<lambda>r. tr_id r = tkID t \<or> tr_ticket_id r = tkID t)
      (transfers l) @ [ticketRow t]))"
    by (intro delete_where_key_distinct) (auto simp: ledger_wf_def ticketRow_def)
  with wf show ?thesis
    by (simp add: ledger_wf_def ledger_calls list_all_delete_where ticketRow_def)
qed

lemma ledger_wf_update_transfer: "ledger_wf l \<Longrightarrow> ledger_wf (updateTransfer l now i s f ts)"
  by (auto simp: ledger_wf_def ledger_calls Let_def map_update_where intro!: list_all_update_where)

lemma ledger_wf_confirm: "ledger_wf l \<Longrightarrow> ledger_wf (confirmArrival l x s ts)"
  by (auto simp: ledger_wf_def ledger_calls map_update_where intro!: list_all_update_where)

lemma ledger_wf_expire: "ledger_wf l \<Longrightarrow> ledger_wf (expireTransfers l now)"
  by (auto simp: ledger_wf_def ledger_calls map_update_where intro!: list_all_update_where)

lemma ledger_wf_profile_access:
  "ledger_wf l \<Longrightarrow> updateProfileAccess l x r b a n = Inr l' \<Longrightarrow> ledger_wf l'"
  by (auto simp: ledger_wf_def ledger_calls map_update_where intro!: list_all_update_where)

lemma ledger_wf_create_session:
  "ledger_wf l \<Longrightarrow> createSession l now h u r e t = Inr l' \<Longrightarrow> ledger_wf l'"
  by (auto simp: ledger_wf_def ledger_calls delete_where_def distinct_map_filter)

lemma ledger_wf_step:
  assumes "ledger_wf l" and "ledger_step l l'"
  shows "ledger_wf l'"
  using assms(2,1)
proof (induction rule: ledger_step.induct)
  case policy
  then show ?case by (rule ledger_wf_policy)
next
  case create_session
  then show ?case by (blast intro: ledger_wf_create_session)
next
  case read_session
  then show ?case by (rule ledger_wf_session)
next
  case upsert
  then show ?case by (rule ledger_wf_upsert)
next
  case profile_access
  then show ?case by (blast intro: ledger_wf_profile_access)
next
  case create_transfer
  then show ?case by (rule ledger_wf_create_transfer)
next
  case update_transfer
  then show ?case by (rule ledger_wf_update_transfer)
next
  case confirm
  then show ?case by (rule ledger_wf_confirm)
next
  case expire
  then show ?case by (rule ledger_wf_expire)
next
  case firewall
  then show ?case by (simp add: ledger_wf_def firewallSnapshot_eq)
qed (simp_all add: ledger_wf_def ledger_calls distinct_map_delete_where)

lemma ledger_wf_empty: "ledger_wf emptyLedger"
  by (simp add: emptyLedger_def ledger_wf_def)

interpretation ledger_sys: invariant_system "\<lambda>l. l = emptyLedger" ledger_step ledger_wf
proof unfold_locales
  show "l = emptyLedger \<Longrightarrow> ledger_wf l" for l by (simp add: ledger_wf_empty)
  show "ledger_wf l \<Longrightarrow> ledger_step l l' \<Longrightarrow> ledger_wf l'" for l l' by (rule ledger_wf_step)
qed

text \<open>The end of a ban is lost in the firewall history: the snapshot prints each number of the gateway's state and
  parses the text as an integer, so a number that is printed with an exponent, as every time in milliseconds
  is, is stored as zero.\<close>

theorem snapshot_loses_large_numbers:
  assumes "dbOpen l" and "field row ''bannedUntil'' = JNum r" and "CHR ''e'' \<in> set (format_float G r)"
    and "hd (format_float G r) \<notin> {CHR ''+'', CHR ''-''}"
  shows "\<exists>f. firewallRows (firewallSnapshot G l ts [row]) = firewallRows l @ [f] \<and> fw_banned_until f = 0"
proof -
  have "\<not> is_digit_char (CHR ''e'')" by code_simp
  then have "parse_nat (format_float G r) = None" using assms(3) by (auto simp: parse_nat_def list_all_iff)
  then have "atoi_value (format_float G r) = 0"
    using assms(4) by (cases "format_float G r") (auto simp: atoi_value_def)
  with assms(1,2) show ?thesis by (simp add: firewallSnapshot_eq firewallRow_def)
qed

theorem snapshot_loses_large_numbers_witness:
  "\<exists>G f. firewallRows (firewallSnapshot G emptyLedger 17 [[(''bannedUntil'', JNum 1700000000000)]]) = [f] \<and> fw_banned_until f = 0"
proof -
  let ?G = "sample_golib\<lparr>format_float := (\<lambda>r. if r = 1700000000000 then ''1.7e+12'' else [])\<rparr>"
  have "dbOpen emptyLedger" "field [(''bannedUntil'', JNum 1700000000000)] ''bannedUntil'' = JNum 1700000000000"
    by (simp_all add: emptyLedger_def field_def)
  from snapshot_loses_large_numbers [OF this, of ?G 17] show ?thesis by (auto simp: emptyLedger_def)
qed

end
