(* ===== verification/Sessions.thy ===== *)
theory Sessions
  imports Ledger
begin

text \<open>
  What the rest of the dashboard relies on of the session table: the locale \<open>session_store\<close>
  states the laws of creating, reading, deleting, revoking and clearing sessions over an abstract
  view (token hash to user, role and expiry), its lemmas are what login, logout and the account
  handlers need, and the interpretation \<open>db_sessions\<close> proves the laws for the SQL statements of
  the ledger.
\<close>

section \<open>Abstract view\<close>

definition session_view :: "ledger \<Rightarrow> string \<Rightarrow> (string \<times> string \<times> int) option" where
  "session_view l h =
     (if dbOpen l
      then map_option (\<lambda>r. (ses_username r, ses_role r, ses_expires_at r))
             (find (\<lambda>r. ses_token_hash r = h) (sessions l))
      else None)"

section \<open>The interface\<close>

locale session_store =
  fixes inv :: "'l \<Rightarrow> bool"
    and view :: "'l \<Rightarrow> string \<Rightarrow> (string \<times> string \<times> int) option"
    and create :: "'l \<Rightarrow> int \<Rightarrow> string \<Rightarrow> string \<Rightarrow> string \<Rightarrow> int \<Rightarrow> bool \<Rightarrow> 'l result"
    and lookup :: "'l \<Rightarrow> int \<Rightarrow> string \<Rightarrow> principal option \<times> 'l"
    and delete :: "'l \<Rightarrow> string \<Rightarrow> 'l"
    and revoke :: "'l \<Rightarrow> string \<Rightarrow> 'l"
    and clear :: "'l \<Rightarrow> 'l"
  assumes view_create: "create l now h u r e t = Inr l' \<Longrightarrow> view l' = (view l)(h \<mapsto> (u, r, e))"
    and lookup_result: "fst (lookup l now h) =
      (case view l h of
         None \<Rightarrow> None
       | Some (u, r, e) \<Rightarrow> if e \<le> now then None else Some \<lparr>pUsername = u, pRole = r\<rparr>)"
    and view_lookup: "view (snd (lookup l now h)) =
      (case view l h of
         None \<Rightarrow> view l
       | Some (u, r, e) \<Rightarrow> if e \<le> now then (view l)(h := None) else view l)"
    and view_delete: "view (delete l h) = (view l)(h := None)"
    and view_revoke: "inv l \<Longrightarrow> view (revoke l u) h =
      (case view l h of
         None \<Rightarrow> None
       | Some (v, r, e) \<Rightarrow> if equal_fold v u then None else Some (v, r, e))"
    and view_clear: "view (clear l) = Map.empty"
begin

lemma lookup_created:
  "create l now h u r e t = Inr l' \<Longrightarrow> now' < e \<Longrightarrow>
   fst (lookup l' now' h) = Some \<lparr>pUsername = u, pRole = r\<rparr>"
  by (simp add: lookup_result view_create)

lemma lookup_created_expired:
  "create l now h u r e t = Inr l' \<Longrightarrow> e \<le> now' \<Longrightarrow> fst (lookup l' now' h) = None"
  by (simp add: lookup_result view_create)

lemma lookup_created_other:
  "create l now h u r e t = Inr l' \<Longrightarrow> h' \<noteq> h \<Longrightarrow> fst (lookup l' now' h') = fst (lookup l now' h')"
  by (simp add: lookup_result view_create)

lemma lookup_deleted: "fst (lookup (delete l h) now h) = None"
  by (simp add: lookup_result view_delete)

lemma lookup_revoked:
  "inv l \<Longrightarrow> fst (lookup (revoke l u) now h) = Some p \<Longrightarrow> \<not> equal_fold (pUsername p) u"
  by (auto simp: lookup_result view_revoke split: option.splits prod.splits if_splits)

lemma lookup_revoked_other:
  "inv l \<Longrightarrow> fst (lookup l now h) = Some p \<Longrightarrow> \<not> equal_fold (pUsername p) u \<Longrightarrow>
   fst (lookup (revoke l u) now h) = Some p"
  by (auto simp: lookup_result view_revoke split: option.splits prod.splits if_splits)

lemma lookup_cleared: "fst (lookup (clear l) now h) = None"
  by (simp add: lookup_result view_clear)

text \<open>Clearing and then creating leaves exactly the one session just created.\<close>

lemma lookup_clear_create:
  assumes "create (clear l) now h u r e t = Inr l'"
  shows "fst (lookup l' now' k) =
    (if k = h \<and> now' < e then Some \<lparr>pUsername = u, pRole = r\<rparr> else None)"
  using view_create [OF assms] by (auto simp: lookup_result view_clear)

text \<open>A read never makes a session appear or changes whom another token stands for.\<close>

lemma lookup_lookup:
  "fst (lookup (snd (lookup l now h)) now' k) = Some p \<Longrightarrow> fst (lookup l now' k) = Some p"
  by (auto simp: lookup_result view_lookup split: option.splits prod.splits if_splits)

end

section \<open>The ledger provides it\<close>

lemma find_eq_None: "find q rs = None \<longleftrightarrow> (\<forall>r \<in> set rs. \<not> q r)"
  by (auto simp: find_None_iff)

lemma map_key_inj: "distinct (map g rs) \<Longrightarrow> r \<in> set rs \<Longrightarrow> r' \<in> set rs \<Longrightarrow> g r' = g r \<Longrightarrow> r' = r"
  by (auto simp: distinct_map dest: inj_onD)

lemma session_view_create:
  "createSession l now h u r e t = Inr l' \<Longrightarrow> session_view l' = (session_view l)(h \<mapsto> (u, r, e))"
proof
  fix k
  assume "createSession l now h u r e t = Inr l'"
  then show "session_view l' k = ((session_view l)(h \<mapsto> (u, r, e))) k"
    by (cases "k = h")
      (auto simp: session_view_def ledger_calls find_append find_delete_where_same
        find_delete_where_other split: option.splits)
qed

lemma session_unfold:
  "session l now h =
     (case (if dbOpen l then find (\<lambda>r. ses_token_hash r = h) (sessions l) else None) of
        None \<Rightarrow> (None, l)
      | Some r \<Rightarrow>
          if ses_expires_at r \<le> now
          then (None, deleteSession l h)
          else (Some \<lparr>pUsername = ses_username r, pRole = ses_role r\<rparr>,
                l\<lparr>sessions := update_where (\<lambda>r. ses_token_hash r = h)
                     (ses_last_seen_update (\<lambda>_. now)) (sessions l)\<rparr>))"
  by (auto simp: ledger_calls querySelect_def take1_filter split: option.splits)

lemma session_view_delete: "session_view (deleteSession l h) = (session_view l)(h := None)"
proof
  fix k
  show "session_view (deleteSession l h) k = ((session_view l)(h := None)) k"
    by (cases "k = h")
      (auto simp: session_view_def ledger_calls find_delete_where_same find_delete_where_other)
qed

lemma session_view_touch:
  "session_view (l\<lparr>sessions := update_where p (ses_last_seen_update f) (sessions l)\<rparr>) = session_view l"
  by (rule ext) (auto simp: session_view_def find_update_where option.map_comp comp_def
      intro!: option.map_cong)

lemma session_view_revoke:
  assumes "ledger_wf l"
  shows "session_view (revokeUserSessions l u) h =
    (case session_view l h of
       None \<Rightarrow> None
     | Some (v, r, e) \<Rightarrow> if equal_fold v u then None else Some (v, r, e))"
proof (cases "dbOpen l")
  case True
  let ?key = "\<lambda>r. ses_token_hash r = h" and ?p = "\<lambda>r. to_lower (ses_username r) = to_lower u"
  have d: "distinct (map ses_token_hash (sessions l))" using assms by (simp add: ledger_wf_def)
  show ?thesis
  proof (cases "find ?key (sessions l)")
    case None
    then have "find ?key (delete_where ?p (sessions l)) = None"
      by (auto simp: find_eq_None delete_where_def)
    with None True show ?thesis by (simp add: session_view_def ledger_calls)
  next
    case (Some r)
    then have r: "r \<in> set (sessions l)" "ses_token_hash r = h" by (auto simp: find_Some_iff)
    have "find ?key (delete_where ?p (sessions l)) = (if ?p r then None else Some r)"
    proof (cases "?p r")
      case True
      have "\<not> ?key r'" if "r' \<in> set (delete_where ?p (sessions l))" for r'
      proof
        assume "?key r'"
        with that r d have "r' = r" by (auto simp: delete_where_def dest: map_key_inj)
        with that True show False by (simp add: delete_where_def)
      qed
      with True show ?thesis by (simp add: find_eq_None)
    next
      case False
      with r have "r \<in> set (delete_where ?p (sessions l))" by (simp add: delete_where_def)
      with False r(2) d show ?thesis
        by (simp add: find_key_unique distinct_map_delete_where)
    qed
    with Some True show ?thesis by (simp add: session_view_def ledger_calls equal_fold_def)
  qed
next
  case False
  then show ?thesis by (simp add: session_view_def ledger_calls)
qed

interpretation db_sessions: session_store ledger_wf session_view createSession session
  deleteSession revokeUserSessions clearSessions
proof unfold_locales
  show "createSession l now h u r e t = Inr l' \<Longrightarrow> session_view l' = (session_view l)(h \<mapsto> (u, r, e))"
    for l now h u r e t l' by (rule session_view_create)
  show "fst (session l now h) =
      (case session_view l h of None \<Rightarrow> None
       | Some (u, r, e) \<Rightarrow> if e \<le> now then None else Some \<lparr>pUsername = u, pRole = r\<rparr>)" for l now h
    by (auto simp: session_unfold session_view_def split: option.splits)
  show "session_view (snd (session l now h)) =
      (case session_view l h of None \<Rightarrow> session_view l
       | Some (u, r, e) \<Rightarrow> if e \<le> now then (session_view l)(h := None) else session_view l)" for l now h
    by (auto simp: session_unfold session_view_delete session_view_touch session_view_def [of l h]
        split: option.splits)
  show "session_view (deleteSession l h) = (session_view l)(h := None)" for l h
    by (rule session_view_delete)
  show "ledger_wf l \<Longrightarrow> session_view (revokeUserSessions l u) h =
      (case session_view l h of None \<Rightarrow> None
       | Some (v, r, e) \<Rightarrow> if equal_fold v u then None else Some (v, r, e))" for l u h
    by (rule session_view_revoke)
  show "session_view (clearSessions l) = Map.empty" for l
    by (rule ext) (simp add: session_view_def ledger_calls)
qed

section \<open>Frames\<close>

text \<open>Only the session methods touch what a token stands for.\<close>

lemma session_view_cong:
  "dbOpen l' = dbOpen l \<Longrightarrow> sessions l' = sessions l \<Longrightarrow> session_view l' = session_view l"
  by (rule ext) (simp add: session_view_def)

lemma session_fst_cong: "session_view l' = session_view l \<Longrightarrow> fst (session l' now h) = fst (session l now h)"
  by (simp add: db_sessions.lookup_result)

lemma recordAudit_sessions [simp]:
  "session_view (recordAudit l ts a r act res ip d) = session_view l"
  "dbOpen (recordAudit l ts a r act res ip d) = dbOpen l"
  by (rule session_view_cong, auto simp: ledger_calls)

end
