(* ===== verification/Transfers.thy ===== *)
theory Transfers
  imports Sessions
begin

text \<open>
  The life of a transfer transaction in the ledger and the policy kept in player profiles.
  \<open>transfer_step\<close> is the relation of the calls that the dashboard makes on
  \<^verbatim>\<open>transfer_transactions\<close> after a ticket is issued (\<^verbatim>\<open>transferTransactionLoop\<close>,
  \<^verbatim>\<open>removeTicketsForStaticPorts\<close>, \<^verbatim>\<open>recordPresenceProfiles\<close>); \<open>stage\<close> orders the states.
\<close>

section \<open>Steps and stages\<close>

definition stage :: "string \<Rightarrow> nat" where
  "stage s = (if s = ''ticketed'' then 0 else if s = ''proxy_connected'' then 1 else 2)"

definition transfer_state :: "ledger \<Rightarrow> string \<Rightarrow> string option" where
  "transfer_state l i = map_option tr_state (find (\<lambda>r. tr_id r = i) (transfers l))"

inductive transfer_step :: "ledger \<Rightarrow> ledger \<Rightarrow> bool" where
  issued: "transfer_state l (tkID t) = None \<Longrightarrow> transfer_step l (createTransfer l t)"
| connected: "transfer_step l (updateTransfer l now tid ''proxy_connected'' failure ts)"
| failed: "transfer_step l (updateTransfer l now tid ''failed'' failure ts)"
| arrived: "transfer_step l (confirmArrival l xuid server ts)"
| expired: "transfer_step l (expireTransfers l now)"

text \<open>The same without the explicit failure of a ticket whose port became a static route.\<close>

inductive settle_step :: "ledger \<Rightarrow> ledger \<Rightarrow> bool" where
  s_issued: "transfer_state l (tkID t) = None \<Longrightarrow> settle_step l (createTransfer l t)"
| s_connected: "settle_step l (updateTransfer l now tid ''proxy_connected'' failure ts)"
| s_arrived: "settle_step l (confirmArrival l xuid server ts)"
| s_expired: "settle_step l (expireTransfers l now)"

lemma transfer_state_update_where:
  assumes "\<And>r. tr_id (f r) = tr_id r"
  shows "transfer_state (transfers_update (update_where p f) l) i =
    map_option (\<lambda>r. if p r then tr_state (f r) else tr_state r)
      (find (\<lambda>r. tr_id r = i) (transfers l))"
  using find_update_where [where q = "\<lambda>r. tr_id r = i", of f p "transfers l"] assms
  by (simp add: transfer_state_def option.map_comp comp_def if_distrib [of tr_state])

lemma transfer_state_create_other:
  "i \<noteq> tkID t \<Longrightarrow> list_all (\<lambda>r. tr_ticket_id r = tr_id r) (transfers l) \<Longrightarrow>
   transfer_state (createTransfer l t) i = transfer_state l i"
proof -
  assume i: "i \<noteq> tkID t" and tid: "list_all (\<lambda>r. tr_ticket_id r = tr_id r) (transfers l)"
  have "delete_where (\<lambda>r. tr_id r = tkID t \<or> tr_ticket_id r = tkID t) (transfers l)
      = delete_where (\<lambda>r. tr_id r = tkID t) (transfers l)"
    using tid by (auto simp: delete_where_def list_all_iff intro!: filter_cong)
  with i show ?thesis
    by (auto simp: transfer_state_def ledger_calls find_append find_delete_where_other ticketRow_def
        split: option.splits)
qed

lemma stage_simps [simp]:
  "stage ''ticketed'' = 0" "stage ''proxy_connected'' = 1" "stage ''arrived'' = 2"
  "stage ''expired'' = 2" "stage ''failed'' = 2" "stage s \<le> 2"
  by (auto simp: stage_def)

text \<open>An arrival is confirmed only for a row that is still open.\<close>

lemma arrivalCandidates_open:
  assumes "ledger_wf l" and "r \<in> set (transfers l)"
    and "tr_id r \<in> set (map tr_id (arrivalCandidates l xuid server ts))"
  shows "openTransfer r"
proof -
  from assms(3) obtain c where c: "c \<in> set (arrivalCandidates l xuid server ts)" "tr_id c = tr_id r"
    by auto
  then have "c \<in> set (transfers l)" "openTransfer c"
    by (auto simp: arrivalCandidates_def order_desc_def dest!: in_set_takeD)
  moreover from this assms(1,2) c(2) have "c = r"
    by (auto simp: ledger_wf_def dest: map_key_inj)
  ultimately show ?thesis by simp
qed

lemma openTransfer_stage: "openTransfer r \<longleftrightarrow> stage (tr_state r) < 2"
  by (auto simp: openTransfer_def stage_def)

lemma transfer_step_wf: "transfer_step l l' \<Longrightarrow> ledger_wf l \<Longrightarrow> ledger_wf l'"
  by (induction rule: transfer_step.induct) (auto intro: ledger_wf_step ledger_step.intros)

lemma settle_is_transfer: "settle_step l l' \<Longrightarrow> transfer_step l l'"
  by (induction rule: settle_step.induct) (auto intro: transfer_step.intros)

lemma transfer_state_updateTransfer:
  "transfer_state (updateTransfer l now tid s f ts) i =
     map_option (\<lambda>r. if dbOpen l \<and> tr_ticket_id r = tid \<and> (s = ''proxy_connected'' \<longrightarrow> tr_state r = ''ticketed'')
                     then s else tr_state r) (find (\<lambda>r. tr_id r = i) (transfers l))"
proof (cases "dbOpen l")
  case True
  then show ?thesis
    by (simp add: updateTransfer_def Let_def exec_ignored_eq transfer_state_update_where cong: if_cong)
next
  case False
  then show ?thesis by (simp add: updateTransfer_def Let_def exec_ignored_eq transfer_state_def)
qed

lemma transfer_state_confirm:
  "transfer_state (confirmArrival l x srv ts) i =
     map_option (\<lambda>r. if x \<noteq> [] \<and> srv \<noteq> [] \<and> dbOpen l \<and>
                        tr_id r \<in> set (map tr_id (arrivalCandidates l x srv ts))
                     then ''arrived'' else tr_state r) (find (\<lambda>r. tr_id r = i) (transfers l))"
proof (cases "x \<noteq> [] \<and> srv \<noteq> [] \<and> dbOpen l")
  case True
  then show ?thesis
    by (simp add: confirmArrival_def exec_ignored_eq transfer_state_update_where del: set_map cong: if_cong)
next
  case False
  then show ?thesis by (auto simp: confirmArrival_def exec_ignored_eq transfer_state_def)
qed

lemma transfer_state_expire:
  "transfer_state (expireTransfers l now) i =
     map_option (\<lambda>r. if dbOpen l \<and> openTransfer r \<and> tr_requested_at r < now - transferWindow
                     then ''expired'' else tr_state r) (find (\<lambda>r. tr_id r = i) (transfers l))"
proof (cases "dbOpen l")
  case True
  then show ?thesis by (simp add: expireTransfers_def exec_ignored_eq transfer_state_update_where cong: if_cong)
next
  case False
  then show ?thesis by (simp add: expireTransfers_def exec_ignored_eq transfer_state_def)
qed

lemmas transfer_states = transfer_state_updateTransfer transfer_state_confirm transfer_state_expire

lemma transfer_state_SomeD:
  "transfer_state l i = Some s \<Longrightarrow>
   \<exists>r \<in> set (transfers l). find (\<lambda>r. tr_id r = i) (transfers l) = Some r \<and> tr_id r = i \<and> tr_state r = s"
  by (auto simp: transfer_state_def find_Some_iff)

lemma settle_step_progress:
  assumes "settle_step l l'" and "ledger_wf l" and "transfer_state l i = Some s"
  shows "\<exists>s'. transfer_state l' i = Some s' \<and> stage s \<le> stage s' \<and> (stage s = 2 \<longrightarrow> s' = s)"
  using assms
proof (induction rule: settle_step.induct)
  case (s_issued l t)
  then have "i \<noteq> tkID t" by auto
  with s_issued show ?case by (simp add: transfer_state_create_other ledger_wf_def)
next
  case (s_connected l now tid failure ts)
  then obtain r where "find (\<lambda>r. tr_id r = i) (transfers l) = Some r" "tr_state r = s"
    using transfer_state_SomeD by blast
  then show ?case by (auto simp: transfer_states)
next
  case (s_arrived l xuid server ts)
  then obtain r where r: "r \<in> set (transfers l)" "find (\<lambda>r. tr_id r = i) (transfers l) = Some r"
    "tr_state r = s" using transfer_state_SomeD by blast
  show ?case
  proof (cases "tr_id r \<in> set (map tr_id (arrivalCandidates l xuid server ts))")
    case True
    with s_arrived.prems r(1) have "openTransfer r" by (intro arrivalCandidates_open)
    with r show ?thesis by (auto simp: transfer_states openTransfer_stage)
  next
    case False
    with r show ?thesis by (auto simp: transfer_states)
  qed
next
  case (s_expired l now)
  then obtain r where "find (\<lambda>r. tr_id r = i) (transfers l) = Some r" "tr_state r = s"
    using transfer_state_SomeD by blast
  then show ?case by (auto simp: transfer_states openTransfer_stage)
qed

lemma transfer_step_progress:
  assumes "transfer_step l l'" and "ledger_wf l" and "transfer_state l i = Some s"
  shows "\<exists>s'. transfer_state l' i = Some s' \<and> stage s \<le> stage s'"
  using assms
proof (induction rule: transfer_step.induct)
  case (failed l now tid failure ts)
  then obtain r where "find (\<lambda>r. tr_id r = i) (transfers l) = Some r" "tr_state r = s"
    using transfer_state_SomeD by blast
  then show ?case by (auto simp: transfer_states)
qed (use settle_step_progress settle_step.intros in blast)+

lemma transfer_steps_progress:
  assumes "transfer_step\<^sup>*\<^sup>* l l'" and "ledger_wf l" and "transfer_state l i = Some s"
  shows "ledger_wf l' \<and> (\<exists>s'. transfer_state l' i = Some s' \<and> stage s \<le> stage s')"
  using assms
proof (induction rule: rtranclp_induct)
  case (step l1 l2)
  then obtain s1 where "ledger_wf l1" "transfer_state l1 i = Some s1" "stage s \<le> stage s1" by auto
  with step.hyps(2) show ?case
    using transfer_step_progress transfer_step_wf order_trans by meson
qed auto

lemma settle_steps_final:
  assumes "settle_step\<^sup>*\<^sup>* l l'" and "ledger_wf l" and "transfer_state l i = Some s" and "stage s = 2"
  shows "ledger_wf l' \<and> transfer_state l' i = Some s"
  using assms
proof (induction rule: rtranclp_induct)
  case (step l1 l2)
  then have "ledger_wf l1" "transfer_state l1 i = Some s" by auto
  with step.hyps(2) \<open>stage s = 2\<close> show ?case
    using settle_step_progress settle_is_transfer transfer_step_wf by metis
qed auto

section \<open>Properties\<close>

definition sampleTicket :: transferTicket where
  "sampleTicket =
     \<lparr>tkID = ''0a1b'', tkPort = 25572, tkDestination = ''zoo'', tkSourceIP = ''10.0.0.9'',
      tkXUID = ''2535'', tkPlayerName = ''Alex'', tkSourceServer = ''kingdom'',
      tkExpiresAt = 21000, tkCreatedAt = 1000\<rparr>"

definition sampleLedger :: ledger where
  "sampleLedger = createTransfer emptyLedger sampleTicket"

text \<open>C6: However the calls that move transfers are interleaved, from a well-formed ledger the
  state of a transaction never goes back: it stays in the table, and its stage (ticketed, then
  proxy\_connected, then one of the final states) never decreases.\<close>

theorem transfer_never_goes_back:
  assumes "ledger_wf l" and "transfer_step\<^sup>*\<^sup>* l l'" and "transfer_state l i = Some s"
  shows "\<exists>s'. transfer_state l' i = Some s' \<and> stage s \<le> stage s'"
  using transfer_steps_progress [OF assms(2,1,3)] by blast

lemma sampleLedger_wf: "ledger_wf sampleLedger"
  unfolding sampleLedger_def by (intro ledger_wf_create_transfer ledger_wf_empty)

lemma sampleLedger_state: "transfer_state sampleLedger ''0a1b'' = Some ''ticketed''"
  by code_simp

lemma sampleLedger_connect:
  "transfer_state (updateTransfer sampleLedger 5000 ''0a1b'' ''proxy_connected'' '''' 5000) ''0a1b''
     = Some ''proxy_connected''"
  by code_simp

theorem transfer_never_goes_back_witness:
  "\<exists>s'. transfer_state
     (expireTransfers (updateTransfer sampleLedger 5000 ''0a1b'' ''proxy_connected'' '''' 5000) 400000)
     ''0a1b'' = Some s' \<and> 1 \<le> stage s'"
proof -
  let ?l1 = "updateTransfer sampleLedger 5000 ''0a1b'' ''proxy_connected'' '''' 5000"
  have "ledger_wf ?l1" using sampleLedger_wf by (rule ledger_wf_update_transfer)
  moreover have "transfer_step\<^sup>*\<^sup>* ?l1 (expireTransfers ?l1 400000)"
    by (intro r_into_rtranclp transfer_step.expired)
  ultimately show ?thesis
    using transfer_never_goes_back [OF _ _ sampleLedger_connect] by simp
qed

text \<open>Confirmation, expiry and late connection events never change a transaction that has
  reached a final state; in particular an arrived transfer is never reported as expired.\<close>

theorem settled_transfer_is_final:
  assumes "ledger_wf l" and "settle_step\<^sup>*\<^sup>* l l'" and "transfer_state l i = Some s" and "stage s = 2"
  shows "transfer_state l' i = Some s"
  using settle_steps_final [OF assms(2,1,3,4)] by blast

lemma sampleLedger_arrived:
  "transfer_state (confirmArrival sampleLedger ''2535'' ''zoo'' 6000) ''0a1b'' = Some ''arrived''"
  by code_simp

theorem settled_transfer_is_final_witness:
  "transfer_state (expireTransfers (confirmArrival sampleLedger ''2535'' ''zoo'' 6000) 900000) ''0a1b''
     = Some ''arrived''"
proof -
  let ?l1 = "confirmArrival sampleLedger ''2535'' ''zoo'' 6000"
  have "ledger_wf ?l1" using sampleLedger_wf by (rule ledger_wf_confirm)
  moreover have "settle_step\<^sup>*\<^sup>* ?l1 (expireTransfers ?l1 900000)"
    by (intro r_into_rtranclp settle_step.s_expired)
  ultimately show ?thesis
    using settled_transfer_is_final [OF _ _ sampleLedger_arrived] by simp
qed

lemma upsert_keeps_policy:
  "profileIdentity (upsertProfile l xuid gamertag server ts) y = profileIdentity l y \<and>
   profileAccess (upsertProfile l xuid gamertag server ts) y dest = profileAccess l y dest"
proof (cases "xuid = [] \<or> \<not> dbOpen l")
  case True
  then show ?thesis by (auto simp: upsertProfile_def exec_ignored_eq)
next
  case False
  let ?l = "upsertProfile l xuid gamertag server ts"
  show ?thesis
  proof (cases "find (\<lambda>r. pr_xuid r = y) (profileRows l)")
    case None
    then have "selectProfile ?l y \<in> {None, Some (newProfile y gamertag server ts)}"
      using False by (auto simp: selectProfile_eq upsertProfile_def exec_ignored_eq find_append
          find_update_where newProfile_def)
    with None False show ?thesis
      by (auto simp: profileIdentity_def profileAccess_def newProfile_def selectProfile_eq [of l])
  next
    case (Some r)
    then have "r \<in> set (profileRows l)" "pr_xuid r = y" by (auto simp: find_Some_iff)
    with Some have "selectProfile ?l y = Some (if y = xuid
        then r\<lparr>pr_gamertag := gamertag, pr_last_seen := ts, pr_current_server := server\<rparr> else r)"
      using False by (auto simp: selectProfile_eq upsertProfile_def exec_ignored_eq find_append
          find_update_where list_ex_iff)
    with Some False show ?thesis
      by (auto simp: profileIdentity_def profileAccess_def selectProfile_eq [of l])
  qed
qed

text \<open>A presence report never changes what the network's policy says of any player: role, ban,
  access list and notes read back the same, and so does the decision on every destination.\<close>

theorem presence_keeps_policy:
  "profileIdentity (upsertProfile l xuid gamertag server ts) y = profileIdentity l y \<and>
   profileAccess (upsertProfile l xuid gamertag server ts) y dest = profileAccess l y dest"
  by (rule upsert_keeps_policy)

text \<open>A ban or an access rule stored for a known player is what the next decision uses: the
  identity reads back the stored role, ban, access and notes, a banned player may go nowhere, and
  a player who is not banned may go exactly where the access list does not say false.\<close>

theorem stored_policy_decides:
  assumes "selectProfile l xuid \<noteq> None" and "trim_space xuid \<noteq> []"
    and "updateProfileAccess l xuid role banned access notes = Inr l'"
  shows "profileIdentity l' xuid = (if role = [] then ''member'' else role, banned, access, notes) \<and>
    (fst (profileAccess l' xuid dest) \<longleftrightarrow> \<not> banned \<and> map_of access dest \<noteq> Some False)"
proof -
  have x: "xuid \<noteq> []" using assms(2) by auto
  obtain r where r: "find (\<lambda>r. pr_xuid r = xuid) (profileRows l) = Some r" and d: "dbOpen l"
    using assms(1) by (auto simp: selectProfile_eq split: if_splits)
  then have "pr_xuid r = xuid" by (auto simp: find_Some_iff)
  with r d assms(3) have "selectProfile l' xuid = Some (r\<lparr>pr_network_role := role,
      pr_network_banned := banned, pr_access := access, pr_notes := notes\<rparr>)"
    by (auto simp: selectProfile_eq updateProfileAccess_def exec_Inr_iff find_update_where)
  with x assms(2) show ?thesis
    by (simp add: profileIdentity_def profileAccess_def)
qed

definition bannedLedger :: ledger where
  "bannedLedger = (case updateProfileAccess (upsertProfile emptyLedger ''2535'' ''Alex'' ''zoo'' 5) ''2535''
     ''member'' True [(''zoo'', False)] ''griefing'' of Inr l \<Rightarrow> l | Inl _ \<Rightarrow> emptyLedger)"

theorem stored_policy_decides_witness:
  "profileIdentity bannedLedger ''2535'' = (''member'', True, [(''zoo'', False)], ''griefing'') \<and>
   \<not> fst (profileAccess bannedLedger ''2535'' ''creative'')"
proof -
  let ?l = "upsertProfile emptyLedger ''2535'' ''Alex'' ''zoo'' 5"
  have "selectProfile ?l ''2535'' \<noteq> None" "trim_space ''2535'' \<noteq> []" by code_simp+
  moreover have "updateProfileAccess ?l ''2535'' ''member'' True [(''zoo'', False)] ''griefing''
      = Inr bannedLedger"
    by (simp add: bannedLedger_def updateProfileAccess_def exec_def upsertProfile_def exec_ignored_eq
        emptyLedger_def)
  ultimately show ?thesis
    using stored_policy_decides [of ?l "''2535''" "''member''" True "[(''zoo'', False)]" "''griefing''"
        bannedLedger "''creative''"] by simp
qed

text \<open>A policy stored for a player the ledger has never seen is lost: the call succeeds, and
  the player is still a member who may go everywhere, now and after joining for the first time.\<close>

theorem policy_for_unknown_player_is_lost:
  assumes "dbOpen l" and "selectProfile l xuid = None"
  shows "updateProfileAccess l xuid role banned access notes = Inr l \<and>
    fst (profileAccess (upsertProfile l xuid gamertag server ts) xuid dest)"
proof -
  have none: "find (\<lambda>r. pr_xuid r = xuid) (profileRows l) = None"
    using assms by (simp add: selectProfile_eq)
  then have "update_where (\<lambda>r. pr_xuid r = xuid) f (profileRows l) = profileRows l" for f
    by (auto simp: update_where_def find_eq_None intro!: map_idI)
  then have "updateProfileAccess l xuid role banned access notes = Inr l"
    using assms(1) by (simp add: updateProfileAccess_def exec_def)
  moreover have "fst (profileAccess (upsertProfile l xuid gamertag server ts) xuid dest)"
    using assms(2) upsert_keeps_policy [of l xuid gamertag server ts xuid dest]
    by (simp add: profileAccess_def)
  ultimately show ?thesis by simp
qed

theorem policy_for_unknown_player_is_lost_witness:
  "updateProfileAccess emptyLedger ''2535'' ''member'' True [] [] = Inr emptyLedger \<and>
   fst (profileAccess (upsertProfile emptyLedger ''2535'' ''Alex'' ''zoo'' 5) ''2535'' ''zoo'')"
  using policy_for_unknown_player_is_lost [of emptyLedger "''2535''" "''member''" True "[]" "[]"
      "''Alex''" "''zoo''" 5 "''zoo''"]
  by (simp add: emptyLedger_def selectProfile_eq)

text \<open>Confirming an arrival settles exactly one transaction: among the open transactions of
  that player to that server requested in the last five minutes, the one requested last; every
  other row is left as it is.\<close>

lemma arrival_settles_latest_request:
  assumes "ledger_wf l" and "dbOpen l" and "xuid \<noteq> []" and "server \<noteq> []"
    and "r \<in> set (transfers l)" and "tr_xuid r = xuid" and "tr_destination r = server"
    and "openTransfer r" and "tr_requested_at r \<ge> ts - transferWindow"
  shows "\<exists>c \<in> set (transfers l).
    tr_xuid c = xuid \<and> tr_destination c = server \<and> openTransfer c \<and>
    (\<forall>q \<in> set (transfers l). tr_xuid q = xuid \<and> tr_destination q = server \<and> openTransfer q \<and>
       tr_requested_at q \<ge> ts - transferWindow \<longrightarrow> tr_requested_at q \<le> tr_requested_at c) \<and>
    transfers (confirmArrival l xuid server ts) =
      map (\<lambda>q. if q = c then q\<lparr>tr_state := ''arrived'', tr_updated_at := ts, tr_arrived_at := Some ts\<rparr>
               else q) (transfers l)"
proof -
  let ?p = "\<lambda>r. tr_xuid r = xuid \<and> tr_destination r = server \<and>
       openTransfer r \<and> tr_requested_at r \<ge> ts - transferWindow"
  let ?rs = "order_desc tr_requested_at (filter ?p (transfers l))"
  have r: "r \<in> set ?rs" using assms by (simp add: order_desc_def)
  then obtain c cs where c: "?rs = c # cs" by (cases ?rs) auto
  have "sorted (map (\<lambda>r. - tr_requested_at r) ?rs)" by (simp add: order_desc_def)
  with c have "\<forall>q \<in> set ?rs. tr_requested_at q \<le> tr_requested_at c" by auto
  then have le: "\<forall>q \<in> set (transfers l). ?p q \<longrightarrow> tr_requested_at q \<le> tr_requested_at c"
    by (simp add: order_desc_def)
  have "c \<in> set ?rs" using c by simp
  then have in_l: "c \<in> set (transfers l)" and pc: "?p c" by (auto simp: order_desc_def)
  have "arrivalCandidates l xuid server ts = [c]" using c by (simp add: arrivalCandidates_def)
  then have "transfers (confirmArrival l xuid server ts) =
      update_where (\<lambda>q. tr_id q = tr_id c)
        (\<lambda>q. q\<lparr>tr_state := ''arrived'', tr_updated_at := ts, tr_arrived_at := Some ts\<rparr>) (transfers l)"
    using assms(2-4) by (simp add: confirmArrival_def exec_ignored_eq)
  also have "\<dots> = map (\<lambda>q. if q = c then q\<lparr>tr_state := ''arrived'', tr_updated_at := ts,
      tr_arrived_at := Some ts\<rparr> else q) (transfers l)"
    using assms(1) in_l by (auto simp: update_where_def ledger_wf_def dest: map_key_inj)
  finally show ?thesis using in_l pc le by blast
qed

lemma arrival_settles_latest_request_witness:
  "\<exists>c \<in> set (transfers sampleLedger). transfers (confirmArrival sampleLedger ''2535'' ''zoo'' 6000) =
      map (\<lambda>q. if q = c then q\<lparr>tr_state := ''arrived'', tr_updated_at := 6000, tr_arrived_at := Some 6000\<rparr>
               else q) (transfers sampleLedger)"
proof -
  have "dbOpen sampleLedger" "ticketRow sampleTicket \<in> set (transfers sampleLedger)"
    by (simp_all add: sampleLedger_def createTransfer_def exec_ignored_eq emptyLedger_def)
  moreover have "tr_xuid (ticketRow sampleTicket) = ''2535''"
    "tr_destination (ticketRow sampleTicket) = ''zoo''" "openTransfer (ticketRow sampleTicket)"
    "tr_requested_at (ticketRow sampleTicket) \<ge> 6000 - transferWindow"
    by code_simp+
  ultimately show ?thesis
    using arrival_settles_latest_request [OF sampleLedger_wf, of "''2535''" "''zoo''"
        "ticketRow sampleTicket" 6000] by auto
qed

text \<open>The transaction loop rereads the session core's event log from its start, so it repeats
  connection events: the first one counts, and any repetition changes nothing.\<close>

lemma repeated_connection_is_ignored:
  "updateTransfer (updateTransfer l now tid ''proxy_connected'' f ts) now' tid ''proxy_connected'' f' ts'
     = updateTransfer l now tid ''proxy_connected'' f ts"
  by (auto simp: updateTransfer_def Let_def exec_ignored_eq update_where_def)



end
