(* ===== verification/Dashboard.thy ===== *)
theory Dashboard
  imports Credentials Transfers
begin

text \<open>
  The state of the dashboard process (\<^verbatim>\<open>type dashboard struct\<close> of \<^verbatim>\<open>dashboard/main.go\<close>, with the
  files it owns as fields), what it reads from its host, and the helpers every handler calls: the
  audit trail, the event log, the command queue of the gateway, roles and the caller of a request.

  A handler is a function from the host, the request and the state to a reply and a new state.
  The host's readings are indexed by their order in one call: \<open>clock h n\<close> is the \<open>n\<close>-th reading of
  the clock in milliseconds, \<open>random h n\<close> the \<open>n\<close>-th draw of random bytes (\<open>None\<close> when the source
  fails), \<open>diskOK h n\<close> whether the \<open>n\<close>-th write whose error is checked succeeds, \<open>logFull h f\<close>
  whether log \<open>f\<close> has reached its size limit.  Log writes whose errors the code drops are taken to
  succeed.  A mutex that a handler holds is what makes its part of the function one step.
\<close>

section \<open>The host\<close>

record host =
  clock :: "nat \<Rightarrow> int"
  random :: "nat \<Rightarrow> string option"
  diskOK :: "nat \<Rightarrow> bool"
  logFull :: "string \<Rightarrow> bool"
  getenv :: "string \<Rightarrow> string"

definition env :: "host \<Rightarrow> string \<Rightarrow> string \<Rightarrow> string" where
  "env h name fallback = (if getenv h name \<noteq> [] then getenv h name else fallback)"

section \<open>The state\<close>

record dashboardUsersFile =
  ufVersion :: int
  ufSetupComplete :: bool
  ufUsers :: "dashboardUser list"

record identityGrant =
  igGrantID :: string
  igSessionID :: string
  igServerID :: string
  igUsername :: string
  igXUID :: string
  igUUID :: string
  igOriginalIP :: string
  igDeviceOS :: string
  igClientVersion :: string
  igProtocolVersion :: int
  igRole :: string
  igOperator :: bool
  igPermissions :: "string list"
  igCreatedAt :: int
  igExpiresAt :: int
  igConsumedAt :: int

text \<open>A log file and the one it was rotated to.\<close>

record jsonl =
  jlCurrent :: "json list"
  jlRotated :: "json list"

record dashboard =
  port :: string
  token :: string
  secret :: string
  recoveryToken :: string
  setupCode :: string
  sessionCoreToken :: string
  sessionTTL :: int
  transferHost :: string
  transferPortStart :: int
  transferPortEnd :: int
  transferTTL :: int
  transferRequireIP :: bool
  managedPublicPorts :: "int list"
  presenceTTL :: int
  replaySeen :: "(string \<times> int) list"
  identityGrants :: "(string \<times> identityGrant) list"
  db :: ledger
  usersFile :: "dashboardUsersFile json_file"
  setupCodeFile :: "string option"
  companionSecretsFile :: "string option"
  gatewayConfigFile :: "string option"
  ticketsFile :: "string option"
  stateFiles :: "string \<Rightarrow> json json_file"
  auditFile :: jsonl
  eventsFile :: jsonl
  transfersFile :: jsonl
  commandsLog :: string
  runtimeDir :: string
  configPath :: string
  unifiedFile :: "string option"
  runtimeFiles :: "string \<Rightarrow> string option"
  scheduled :: "(int \<times> string) list"
  gameplayFile :: jsonl
  packetNames :: "(string \<times> string) list"

type_synonym handler = "host \<Rightarrow> http_request \<Rightarrow> dashboard \<Rightarrow> reply \<times> dashboard"

section \<open>Logs\<close>

definition appendJSONL :: "bool \<Rightarrow> json \<Rightarrow> jsonl \<Rightarrow> jsonl" where
  "appendJSONL full value f =
     (let f1 = (if full then f\<lparr>jlRotated := jlCurrent f, jlCurrent := []\<rparr> else f)
      in f1\<lparr>jlCurrent := jlCurrent f1 @ [value]\<rparr>)"

definition jint :: "int \<Rightarrow> json" where
  "jint i = JNum (of_int i)"

text \<open>The audit trail, at the clock reading \<open>ts\<close>.\<close>

definition appendAudit ::
  "host \<Rightarrow> int \<Rightarrow> http_request \<Rightarrow> principal \<Rightarrow> string \<Rightarrow> string \<Rightarrow> json \<Rightarrow> dashboard \<Rightarrow> dashboard" where
  "appendAudit h timestamp r who action result details d =
     d\<lparr>auditFile := appendJSONL (logFull h ''audit.jsonl'')
         (JObj [(''timestamp'', jint timestamp), (''actor'', JStr (pUsername who)),
                (''role'', JStr (pRole who)), (''action'', JStr action), (''result'', JStr result),
                (''remoteIp'', JStr (remote_host r)), (''details'', details)]) (auditFile d),
       db := recordAudit (db d) timestamp (pUsername who) (pRole who) action result (remote_host r) details\<rparr>"

definition appendEvent :: "host \<Rightarrow> jobject \<Rightarrow> dashboard \<Rightarrow> dashboard" where
  "appendEvent h value d =
     d\<lparr>eventsFile := appendJSONL (logFull h ''events.jsonl'') (JObj value) (eventsFile d)\<rparr>"

section \<open>The gateway's command queue\<close>

definition sanitizeCommand :: "string \<Rightarrow> string" where
  "sanitizeCommand value =
     trim_space (replace_char carriage_return (CHR '' '')
       (replace_char newline (CHR '' '') (replace_char (CHR ''|'') (CHR '' '') value)))"

definition queueCommand :: "bool \<Rightarrow> int \<Rightarrow> string \<Rightarrow> string \<Rightarrow> string \<Rightarrow> dashboard \<Rightarrow> dashboard result" where
  "queueCommand ok now command argument argument2 d =
     (if ok
      then Inr (d\<lparr>commandsLog := commandsLog d @ itoa now @ ''|'' @ sanitizeCommand command @ ''|'' @
             sanitizeCommand argument @ ''|'' @ sanitizeCommand argument2 @ [newline]\<rparr>)
      else Inl ''write commands.log'')"

section \<open>Callers\<close>

definition roleRank :: "string \<Rightarrow> int" where
  "roleRank role =
     (let r = to_lower role
      in if r = ''owner'' then 50
         else if r = ''admin'' then 40
         else if r = ''operator'' then 30
         else if r = ''moderator'' then 20
         else if r = ''viewer'' then 10
         else 0)"

definition principalFromRequest :: "http_request \<Rightarrow> principal" where
  "principalFromRequest r =
     (case actor r of Some p \<Rightarrow> p | None \<Rightarrow> \<lparr>pUsername = ''unknown'', pRole = ''unknown''\<rparr>)"

definition jprincipal :: "principal \<Rightarrow> json" where
  "jprincipal p = JObj [(''username'', JStr (pUsername p)), (''role'', JStr (pRole p))]"

text \<open>Thirty-two random bytes in hexadecimal; sixteen for the id of a ticket or grant.\<close>

definition randomSessionToken :: "string option \<Rightarrow> string option" where
  "randomSessionToken draw = map_option hex_encode draw"

section \<open>Operator commands\<close>

record controlBody =
  cbCommand :: string
  cbArgument :: string
  cbArgument2 :: string

definition controlCommands :: "string list" where
  "controlCommands = [''maintenance'', ''drain'', ''ban'', ''unban'', ''backend'', ''routing'',
     ''reload'', ''topology_restart'', ''service_restart'', ''risk_reset'']"

definition handleControl :: "controlBody option \<Rightarrow> handler" where
  "handleControl decoded h r d =
     (if verb r \<noteq> ''POST'' then (error_reply 405 ''Method not allowed'', d)
      else case decoded of
        None \<Rightarrow> (error_reply 400 ''Invalid JSON'', d)
      | Some body \<Rightarrow>
          if cbCommand body \<notin> set controlCommands then (error_reply 400 ''Unsupported command'', d)
          else
            let who = principalFromRequest r in
            (case queueCommand (diskOK h 0) (clock h 0) (cbCommand body) (cbArgument body) (cbArgument2 body) d of
               Inl err \<Rightarrow>
                 (error_reply 500 err,
                  appendAudit h (clock h 1) r who (''control.'' @ cbCommand body) ''failed''
                    (JObj [(''error'', JStr err)]) d)
             | Inr d1 \<Rightarrow>
                 let d2 = appendEvent h
                       [(''timestamp'', jint (clock h 1)), (''type'', JStr ''dashboard.command''),
                        (''severity'', JStr ''info''),
                        (''message'', JStr (trim_space (cbCommand body @ '' '' @ cbArgument body @ '' '' @ cbArgument2 body))),
                        (''actor'', JStr (pUsername who))] d1;
                     d3 = appendAudit h (clock h 2) r who (''control.'' @ cbCommand body) ''queued''
                       (JObj [(''argument'', JStr (cbArgument body)), (''argument2'', JStr (cbArgument2 body))]) d2
                 in ((202, JObj [(''queued'', JBool True)]), d3)))"

section \<open>Frames\<close>

lemma appendAudit_simps [simp]:
  "usersFile (appendAudit h t r p a res det d) = usersFile d"
  "setupCode (appendAudit h t r p a res det d) = setupCode d"
  "setupCodeFile (appendAudit h t r p a res det d) = setupCodeFile d"
  "token (appendAudit h t r p a res det d) = token d"
  "recoveryToken (appendAudit h t r p a res det d) = recoveryToken d"
  "sessionTTL (appendAudit h t r p a res det d) = sessionTTL d"
  "identityGrants (appendAudit h t r p a res det d) = identityGrants d"
  "gatewayConfigFile (appendAudit h t r p a res det d) = gatewayConfigFile d"
  "ticketsFile (appendAudit h t r p a res det d) = ticketsFile d"
  "managedPublicPorts (appendAudit h t r p a res det d) = managedPublicPorts d"
  "commandsLog (appendAudit h t r p a res det d) = commandsLog d"
  "session_view (db (appendAudit h t r p a res det d)) = session_view (db d)"
  "dbOpen (db (appendAudit h t r p a res det d)) = dbOpen (db d)"
  by (simp_all add: appendAudit_def)

lemma appendEvent_simps [simp]:
  "usersFile (appendEvent h v d) = usersFile d"
  "identityGrants (appendEvent h v d) = identityGrants d"
  "gatewayConfigFile (appendEvent h v d) = gatewayConfigFile d"
  "ticketsFile (appendEvent h v d) = ticketsFile d"
  "managedPublicPorts (appendEvent h v d) = managedPublicPorts d"
  "commandsLog (appendEvent h v d) = commandsLog d"
  "db (appendEvent h v d) = db d"
  by (simp_all add: appendEvent_def)

lemma ledger_wf_recordAudit [simp]: "ledger_wf (recordAudit l ts a r act res ip det) \<longleftrightarrow> ledger_wf l"
  by (simp add: recordAudit_def exec_ignored_eq ledger_wf_def)

lemma ledger_wf_appendAudit [simp]:
  "ledger_wf (db (appendAudit h t r p a res det d)) \<longleftrightarrow> ledger_wf (db d)"
  by (simp add: appendAudit_def)

section \<open>Properties\<close>

lemma sanitizeCommand_set:
  assumes "c \<in> set (sanitizeCommand v)"
  shows "c \<noteq> CHR ''|'' \<and> c \<noteq> newline \<and> c \<noteq> carriage_return"
proof -
  have "c \<in> set (replace_char carriage_return (CHR '' '')
       (replace_char newline (CHR '' '') (replace_char (CHR ''|'') (CHR '' '') v)))"
    using assms set_trim_space unfolding sanitizeCommand_def by blast
  then show ?thesis
    by (auto simp: replace_char_def newline_def carriage_return_def split: if_splits)
qed

lemma itoa_no_bar: "CHR ''|'' \<notin> set (itoa i)" "newline \<notin> set (itoa i)"
  by (auto dest!: itoa_chars simp: is_digit_char_def byte_val_def newline_def)

text \<open>No argument can forge a command of the gateway: whatever the strings, a queued command
  appends one line to \<^verbatim>\<open>commands.log\<close>, and splitting that line at its separators gives back the
  time and the three sanitized fields.\<close>

theorem queued_command_is_one_line:
  assumes "queueCommand ok now c a b d = Inr d'"
  shows "\<exists>line. commandsLog d' = commandsLog d @ line @ [newline] \<and> newline \<notin> set line \<and>
    split_on (CHR ''|'') line = [itoa now, sanitizeCommand c, sanitizeCommand a, sanitizeCommand b]"
proof -
  let ?parts = "[itoa now, sanitizeCommand c, sanitizeCommand a, sanitizeCommand b]"
  let ?line = "join ''|'' ?parts"
  have "\<forall>p \<in> set ?parts. CHR ''|'' \<notin> set p" and "newline \<notin> set ?line"
    using sanitizeCommand_set itoa_no_bar by (auto simp: newline_def)
  then have "split_on (CHR ''|'') ?line = ?parts"
    using split_on_join [of ?parts "CHR ''|''"] by simp
  with \<open>newline \<notin> set ?line\<close> assms show ?thesis
    by (intro exI [of _ ?line]) (auto simp: queueCommand_def split: if_splits)
qed

definition emptyDashboard :: dashboard where
  "emptyDashboard =
     \<lparr>port = ''25571'', token = [], secret = ''CHANGE_ME_NOW'', recoveryToken = [], setupCode = [],
      sessionCoreToken = [], sessionTTL = 28800000, transferHost = ''185.83.152.144'',
      transferPortStart = 25600, transferPortEnd = 25619, transferTTL = 20000,
      transferRequireIP = True, managedPublicPorts = [], presenceTTL = 120000, replaySeen = [],
      identityGrants = [], db = emptyLedger, usersFile = Absent, setupCodeFile = None,
      companionSecretsFile = None, gatewayConfigFile = None, ticketsFile = None,
      stateFiles = (\<lambda>_. Absent), auditFile = \<lparr>jlCurrent = [], jlRotated = []\<rparr>,
      eventsFile = \<lparr>jlCurrent = [], jlRotated = []\<rparr>, transfersFile = \<lparr>jlCurrent = [], jlRotated = []\<rparr>,
      commandsLog = [], runtimeDir = ''runtime'', configPath = ''config/edge-fabric.ini'', unifiedFile = None,
      runtimeFiles = (\<lambda>_. None), scheduled = [], gameplayFile = \<lparr>jlCurrent = [], jlRotated = []\<rparr>,
      packetNames = []\<rparr>"

theorem queued_command_is_one_line_witness:
  "\<exists>line d'. queueCommand True 17 ''ban'' ''10.0.0.1|x'' [] emptyDashboard = Inr d' \<and>
     commandsLog d' = line @ [newline] \<and> length (split_on (CHR ''|'') line) = 4"
proof -
  obtain d' where d': "queueCommand True 17 ''ban'' ''10.0.0.1|x'' [] emptyDashboard = Inr d'"
    by (simp add: queueCommand_def)
  then show ?thesis
    using queued_command_is_one_line [OF d'] by (fastforce simp: emptyDashboard_def)
qed

text \<open>An operator command reaches the gateway only if it is on the list of control commands:
  whatever the body, a request that changes the command queue named one of them.\<close>

lemma control_queues_listed_commands:
  assumes "handleControl decoded h r d = (rep, d')" and "commandsLog d' \<noteq> commandsLog d"
  shows "\<exists>body. decoded = Some body \<and> cbCommand body \<in> set controlCommands \<and>
    verb r = ''POST'' \<and> fst rep = 202 \<and>
    queueCommand True (clock h 0) (cbCommand body) (cbArgument body) (cbArgument2 body) d =
      Inr (d\<lparr>commandsLog := commandsLog d'\<rparr>)"
proof (cases "queueCommand (diskOK h 0) (clock h 0) (cbCommand (the decoded)) (cbArgument (the decoded))
    (cbArgument2 (the decoded)) d")
  case (Inr d1)
  then show ?thesis
    using assms by (auto simp: handleControl_def Let_def queueCommand_def split: option.splits if_splits)
qed (use assms in \<open>auto simp: handleControl_def Let_def split: option.splits if_splits\<close>)

definition sampleHost :: host where
  "sampleHost =
     \<lparr>clock = (\<lambda>n. 1700000000000 + int n), random = (\<lambda>n. Some ''0123456789abcdef''),
      diskOK = (\<lambda>_. True), logFull = (\<lambda>_. False), getenv = (\<lambda>_. [])\<rparr>"

definition postRequest :: http_request where
  "postRequest =
     \<lparr>verb = ''POST'', header = (\<lambda>_. []), query = (\<lambda>_. []), url_path = ''/'',
      remote_host = ''10.0.0.9'', actor = None\<rparr>"

lemma control_queues_listed_commands_witness:
  "\<exists>body. cbCommand body \<in> set controlCommands \<and>
     commandsLog (snd (handleControl (Some body) sampleHost postRequest emptyDashboard)) \<noteq> []"
proof -
  let ?b = "\<lparr>cbCommand = ''drain'', cbArgument = ''on'', cbArgument2 = []\<rparr>"
  let ?res = "handleControl (Some ?b) sampleHost postRequest emptyDashboard"
  have ne: "commandsLog (snd ?res) \<noteq> commandsLog emptyDashboard"
    by (simp add: handleControl_def postRequest_def controlCommands_def sampleHost_def
        queueCommand_def Let_def)
  then have "cbCommand ?b \<in> set controlCommands"
    using control_queues_listed_commands [of "Some ?b" sampleHost postRequest emptyDashboard
        "fst ?res" "snd ?res"] by auto
  with ne show ?thesis by (intro exI [of _ ?b]) (simp add: emptyDashboard_def)
qed

end
