(* ===== verification/Accounts.thy ===== *)
theory Accounts
  imports Dashboard "HOL-Library.AList" "HOL-Library.Product_Lexorder"
begin

text \<open>
  Dashboard accounts: \<^verbatim>\<open>dashboard/auth_accounts.go\<close> from \<^verbatim>\<open>loadUsersFile\<close> on.  The users file, the
  first-run setup with its single-use code, the synchronisation of startup tokens, the owner's own
  account and the users API, each handler with all its branches.  \<^verbatim>\<open>log.Fatalf\<close> ends the process:
  the two start-up functions return \<open>None\<close> there.  The decoded body of a request is an argument,
  \<open>None\<close> when \<^verbatim>\<open>json.Decode\<close> fails.
\<close>

section \<open>The users file\<close>

definition dashboardUsersVersion :: int where "dashboardUsersVersion = 2"

definition loadUsersFile :: "dashboard \<Rightarrow> dashboardUsersFile" where
  "loadUsersFile d =
     (case usersFile d of
        Decoded payload \<Rightarrow>
          if ufVersion payload < dashboardUsersVersion
          then payload\<lparr>ufSetupComplete := ufUsers payload \<noteq> [], ufVersion := dashboardUsersVersion\<rparr>
          else payload
      | _ \<Rightarrow> \<lparr>ufVersion = dashboardUsersVersion, ufSetupComplete = False, ufUsers = []\<rparr>)"

definition saveUsersFile :: "bool \<Rightarrow> dashboardUsersFile \<Rightarrow> dashboard \<Rightarrow> dashboard result" where
  "saveUsersFile ok payload d =
     (if ok then Inr (d\<lparr>usersFile := Decoded (payload\<lparr>ufVersion := dashboardUsersVersion\<rparr>)\<rparr>)
      else Inl ''write dashboard-users.json'')"

definition users :: "dashboard \<Rightarrow> dashboardUser list" where
  "users d = ufUsers (loadUsersFile d)"

definition isOwner :: "dashboardUser \<Rightarrow> bool" where
  "isOwner u \<longleftrightarrow> equal_fold (uRole u) ''owner''"

definition setupRequired :: "dashboard \<Rightarrow> bool" where
  "setupRequired d =
     (let payload = loadUsersFile d
      in if \<not> ufSetupComplete payload then True
         else \<not> list_ex (\<lambda>u. uEnabled u \<and> isOwner u) (ufUsers payload))"

section \<open>Start-up\<close>

definition setupCodeFromFile :: "string option \<Rightarrow> string" where
  "setupCodeFromFile file =
     (case file of
        None \<Rightarrow> []
      | Some contents \<Rightarrow>
          (case find (\<lambda>raw. has_prefix (trim_space raw) ''Setup code:'') (split_on newline contents) of
             None \<Rightarrow> []
           | Some raw \<Rightarrow> trim_space (trim_prefix (trim_space raw) ''Setup code:'')))"

definition setupFileText :: "string \<Rightarrow> string \<Rightarrow> string \<Rightarrow> string" where
  "setupFileText publicHost prt code =
     ''Ninj-OS Proxie first-run owner setup'' @ [newline] @
     ''Dashboard: http://'' @ publicHost @ '':'' @ prt @ [newline] @
     ''Setup code: '' @ code @ [newline] @ [newline] @
     ''Open the dashboard, create the owner username and password, and enter this single-use setup code.'' @ [newline] @
     ''This file is deleted automatically after setup succeeds.'' @ [newline]"

definition ensureFirstRunSetup :: "host \<Rightarrow> dashboard \<Rightarrow> dashboard option" where
  "ensureFirstRunSetup h d =
     (if \<not> setupRequired d then Some (d\<lparr>setupCode := [], setupCodeFile := None\<rparr>)
      else
        let code1 = trim_space (getenv h ''DASHBOARD_SETUP_CODE'');
            code2 = (if length code1 < 16 then setupCodeFromFile (setupCodeFile d) else code1)
        in case (if length code2 < 16 then randomSessionToken (random h 0) else Some code2) of
             None \<Rightarrow> None
           | Some code \<Rightarrow>
               if diskOK h 0
               then Some (d\<lparr>setupCode := code,
                      setupCodeFile := Some (setupFileText (env h ''DASHBOARD_PUBLIC_HOST'' ''127.0.0.1'') (port d) code)\<rparr>)
               else None)"

definition tokenUser :: "golib \<Rightarrow> string \<Rightarrow> string \<Rightarrow> string \<Rightarrow> dashboardUser" where
  "tokenUser G name role tok =
     \<lparr>uUsername = name, uRole = role, uPasswordHash = [], uPasswordSalt = [],
      uPasswordIterations = 0, uTokenHash = tokenHash G tok, uTOTPSecret = [], uEnabled = True\<rparr>"

text \<open>The companion secrets kept from the file, and the file written from them.\<close>

definition keepSecret :: "(string \<times> string) list \<Rightarrow> string \<Rightarrow> (string \<times> string) list" where
  "keepSecret secrets raw =
     (let line = trim_space raw in
      if line = [] \<or> has_prefix line ''#'' then secrets
      else case split2 (CHR ''='') line of
        [k, v] \<Rightarrow>
          let key = trim_space k
          in if key \<noteq> [] \<and> key \<noteq> ''default'' then AList.update key (trim_space v) secrets else secrets
      | _ \<Rightarrow> secrets)"

definition keptSecrets :: "string option \<Rightarrow> (string \<times> string) list" where
  "keptSecrets file =
     (case file of
        None \<Rightarrow> []
      | Some contents \<Rightarrow> foldl keepSecret [] (split_on newline contents))"

definition secretsText :: "string \<Rightarrow> (string \<times> string) list \<Rightarrow> string" where
  "secretsText dflt secrets =
     ''# server_id=shared_secret'' @ [newline] @ ''# Use a unique secret per backend when possible.'' @ [newline] @
     (if dflt \<noteq> [] then ''default='' @ dflt @ [newline] else []) @
     concat (map (\<lambda>key. key @ ''='' @ the (map_of secrets key) @ [newline]) (sort (map fst secrets)))"

definition ensureSecurityFiles :: "golib \<Rightarrow> host \<Rightarrow> dashboard \<Rightarrow> dashboard option" where
  "ensureSecurityFiles G h d =
     (let payload = loadUsersFile d;
          legacy = ufUsers payload = [] \<and> getenv h ''NINJOS_ENABLE_LEGACY_OWNER_TOKEN'' = ''1'' \<and> token d \<noteq> [];
          name = trim_space (env h ''DASHBOARD_OWNER_USERNAME'' ''owner'');
          name = (if name = [] then ''owner'' else name);
          payload = (if legacy
                     then payload\<lparr>ufUsers := ufUsers payload @ [tokenUser G name ''owner'' (token d)],
                                  ufSetupComplete := True\<rparr>
                     else payload);
          synced = map (\<lambda>u. if \<not> isOwner u then u
                            else (if uPasswordHash u = [] \<and> token d \<noteq> []
                                  then u\<lparr>uTokenHash := tokenHash G (token d)\<rparr> else u)
                                 \<lparr>uTOTPSecret := normalizeTOTPSecret (getenv h ''DASHBOARD_TOTP_SECRET'')\<rparr>)
                     (ufUsers payload);
          operatorToken = trim_space (getenv h ''DASHBOARD_OPERATOR_TOKEN'');
          readonlyToken = trim_space (getenv h ''DASHBOARD_READONLY_TOKEN'');
          managed = (if readonlyToken \<noteq> [] then [(''observer'', tokenUser G ''observer'' ''viewer'' readonlyToken)] else []) @
                    (if operatorToken \<noteq> [] then [(''operator'', tokenUser G ''operator'' ''operator'' operatorToken)] else []);
          kept = filter (\<lambda>u. to_lower (trim_space (uUsername u)) \<notin> set (map fst managed)) synced
      in case saveUsersFile (diskOK h 0) (payload\<lparr>ufUsers := kept @ map snd managed\<rparr>) d of
           Inl _ \<Rightarrow> None
         | Inr d1 \<Rightarrow>
             Some (d1\<lparr>companionSecretsFile :=
               Some (secretsText (secret d) (keptSecrets (companionSecretsFile d)))\<rparr>))"

section \<open>Owner setup\<close>

definition handleSetupStatus :: handler where
  "handleSetupStatus h r d =
     (if verb r \<noteq> ''GET'' then (error_reply 405 ''Method not allowed'', d)
      else ((200, JObj [(''setupRequired'', JBool (setupRequired d)), (''minimumPasswordLength'', jint 12),
                        (''setupFile'', JStr ''FIRST_RUN_SETUP.txt'')]), d))"

text \<open>The draw is of thirty-two random bytes; \<open>now\<close> is read for the expiry and \<open>now'\<close> by the ledger.\<close>

definition createBrowserSession ::
  "golib \<Rightarrow> string option \<Rightarrow> int \<Rightarrow> int \<Rightarrow> string \<Rightarrow> string \<Rightarrow> bool \<Rightarrow> dashboard
     \<Rightarrow> (string \<times> int \<times> dashboard) result" where
  "createBrowserSession G draw now now' username role totp d =
     (case randomSessionToken draw of
        None \<Rightarrow> Inl ''random source failed''
      | Some tok \<Rightarrow>
          let expires = now + sessionTTL d in
          (case createSession (db d) now' (tokenHash G tok) username role expires totp of
             Inl err \<Rightarrow> Inl err
           | Inr l \<Rightarrow> Inr (tok, expires, d\<lparr>db := l\<rparr>)))"

definition sessionReply :: "nat \<Rightarrow> string \<Rightarrow> int \<Rightarrow> principal \<Rightarrow> jobject \<Rightarrow> reply" where
  "sessionReply status tok expires who extra =
     (status, JObj ([(''token'', JStr tok), (''expiresAt'', jint expires), (''principal'', jprincipal who)] @ extra))"

record setupBody =
  sbSetupCode :: string
  sbUsername :: string
  sbPassword :: string

text \<open>The end of the two calls that replace the owner's login: a session for the owner.\<close>

definition openOwnerSession ::
  "golib \<Rightarrow> nat \<Rightarrow> string \<Rightarrow> string \<Rightarrow> string \<Rightarrow> bool \<Rightarrow> handler" where
  "openOwnerSession G status failure action username totp h r d =
     (let who = \<lparr>pUsername = username, pRole = ''owner''\<rparr> in
      case createBrowserSession G (random h 1) (clock h 0) (clock h 1) username ''owner'' totp d of
        Inl _ \<Rightarrow> (error_reply 500 failure, d)
      | Inr (tok, expires, d') \<Rightarrow>
          (sessionReply status tok expires who [],
           appendAudit h (clock h 2) r who action ''success'' JNull d'))"

definition handleOwnerSetup :: "golib \<Rightarrow> setupBody option \<Rightarrow> handler" where
  "handleOwnerSetup G decoded h r d = finish d (
     attempt (check (verb r = ''POST'') (error_reply 405 ''Method not allowed'')) (\<lambda>_.
     attempt (some_or (error_reply 400 ''Invalid JSON'') decoded) (\<lambda>body.
     let username = trim_space (sbUsername body) in
     attempt (or_reply 400 (validateOwnerUsername username)) (\<lambda>_.
     attempt (or_reply 400 (validateOwnerPassword username (sbPassword body))) (\<lambda>_.
     attempt (check (setupRequired d) (error_reply 409 ''Owner setup is already complete'')) (\<lambda>_.
     attempt (check (\<not> (setupCode d = [] \<or> tokenHash G (sbSetupCode body) \<noteq> tokenHash G (setupCode d)))
       (error_reply 401 ''Invalid first-run setup code'')) (\<lambda>_.
     attempt (some_or (error_reply 500 ''Unable to secure owner password'')
       (newPasswordCredentials G (random h 0) (sbPassword body))) (\<lambda>(passwordHash, passwordSalt, iterations).
     let payload = loadUsersFile d;
         others = filter (\<lambda>u. \<not> isOwner u) (ufUsers payload);
         owner = \<lparr>uUsername = username, uRole = ''owner'', uPasswordHash = passwordHash,
                  uPasswordSalt = passwordSalt, uPasswordIterations = iterations, uTokenHash = [],
                  uTOTPSecret = normalizeTOTPSecret (getenv h ''DASHBOARD_TOTP_SECRET''), uEnabled = True\<rparr> in
     attempt (or_message (error_reply 500 ''Unable to save owner account'')
       (saveUsersFile (diskOK h 0) (payload\<lparr>ufSetupComplete := True, ufUsers := others @ [owner]\<rparr>) d)) (\<lambda>d1.
     Inr (openOwnerSession G 201 ''Owner created, but browser session could not be created'' ''owner.setup''
       username False h r
       (d1\<lparr>setupCode := [], setupCodeFile := None, db := clearSessions (db d1)\<rparr>)))))))))))"

section \<open>The owner's account\<close>

record ownerBody =
  obCurrentPassword :: string
  obUsername :: string
  obPassword :: string

fun find_index :: "('a \<Rightarrow> bool) \<Rightarrow> 'a list \<Rightarrow> nat option" where
  "find_index p [] = None"
| "find_index p (x # xs) = (if p x then Some 0 else map_option Suc (find_index p xs))"

definition updateOwnerAccount :: "golib \<Rightarrow> ownerBody option \<Rightarrow> handler" where
  "updateOwnerAccount G decoded h r d = finish d (
     attempt (some_or (error_reply 400 ''Invalid JSON'') decoded) (\<lambda>body.
     let username = trim_space (obUsername body) in
     attempt (or_reply 400 (validateOwnerUsername username)) (\<lambda>_.
     attempt (or_reply 400 (validateOwnerPassword username (obPassword body))) (\<lambda>_.
     let payload = loadUsersFile d in
     attempt (some_or (error_reply 409 ''Owner account is missing; use recovery setup'')
       (find_index (\<lambda>u. uEnabled u \<and> isOwner u) (ufUsers payload))) (\<lambda>ownerIndex.
     let owner = ufUsers payload ! ownerIndex in
     attempt (check (\<not> (pUsername (principalFromRequest r) \<noteq> ''recovery'' \<and>
                        \<not> verifyUserCredential G owner (obCurrentPassword body)))
       (error_reply 401 ''Current password is incorrect'')) (\<lambda>_.
     attempt (some_or (error_reply 500 ''Unable to secure owner password'')
       (newPasswordCredentials G (random h 0) (obPassword body))) (\<lambda>(passwordHash, passwordSalt, iterations).
     let owner = owner\<lparr>uUsername := username, uPasswordHash := passwordHash, uPasswordSalt := passwordSalt,
                       uPasswordIterations := iterations, uTokenHash := []\<rparr> in
     attempt (or_message (error_reply 500 ''Unable to update owner account'')
       (saveUsersFile (diskOK h 0)
         (payload\<lparr>ufUsers := (ufUsers payload)[ownerIndex := owner], ufSetupComplete := True\<rparr>) d)) (\<lambda>d1.
     Inr (openOwnerSession G 200 ''Account updated, but browser session could not be created''
       ''owner.credentials.update'' username (uTOTPSecret owner \<noteq> []) h r
       (d1\<lparr>db := clearSessions (db d1)\<rparr>))))))))))"

definition handleOwnerAccount :: "golib \<Rightarrow> ownerBody option \<Rightarrow> handler" where
  "handleOwnerAccount G decoded h r d =
     (let who = principalFromRequest r in
      if verb r = ''GET''
      then ((200, JObj [(''username'', JStr (pUsername who)), (''role'', JStr (pRole who))]), d)
      else if verb r = ''PUT'' then updateOwnerAccount G decoded h r d
      else (error_reply 405 ''Method not allowed'', d))"

section \<open>The users API\<close>

record dashboardUserRequest =
  rqUsername :: string
  rqPassword :: string
  rqRole :: string
  rqEnabled :: "bool option"

definition normalizeDashboardRole :: "string \<Rightarrow> string result" where
  "normalizeDashboardRole role0 =
     (let role = to_lower (trim_space role0)
      in if role \<in> {''admin'', ''operator'', ''viewer''} then Inr role
         else Inl ''Role must be admin, operator, or viewer'')"

definition managedDashboardUser :: "dashboardUser \<Rightarrow> bool" where
  "managedDashboardUser u \<longleftrightarrow> uPasswordHash u = [] \<and> uTokenHash u \<noteq> []"

definition publicDashboardUser :: "dashboardUser \<Rightarrow> json" where
  "publicDashboardUser u =
     JObj [(''username'', JStr (uUsername u)), (''role'', JStr (to_lower (uRole u))),
           (''enabled'', JBool (uEnabled u)), (''managed'', JBool (managedDashboardUser u)),
           (''authentication'', JStr (if managedDashboardUser u then ''startup token'' else ''password'')),
           (''totpEnabled'', JBool (uTOTPSecret u \<noteq> []))]"

definition findDashboardUser :: "dashboardUser list \<Rightarrow> string \<Rightarrow> nat option" where
  "findDashboardUser us username =
     find_index (\<lambda>u. equal_fold (trim_space (uUsername u)) (trim_space username)) us"

definition userOrder :: "dashboardUser \<Rightarrow> nat \<times> string" where
  "userOrder u = (if to_lower (uRole u) = ''owner'' then 0 else 1, to_lower (uUsername u))"

definition listDashboardUsers :: "dashboard \<Rightarrow> reply" where
  "listDashboardUsers d =
     (200, JObj [(''users'', JArr (map publicDashboardUser (sort_key userOrder (users d)))),
                 (''roles'', JArr [JStr ''admin'', JStr ''operator'', JStr ''viewer''])])"

definition createDashboardUser :: "golib \<Rightarrow> dashboardUserRequest option \<Rightarrow> handler" where
  "createDashboardUser G decoded h r d = finish d (
     attempt (some_or (error_reply 400 ''Invalid JSON'') decoded) (\<lambda>body.
     let username = trim_space (rqUsername body) in
     attempt (or_reply 400 (validateOwnerUsername username)) (\<lambda>_.
     attempt (or_reply 400 (normalizeDashboardRole (rqRole body))) (\<lambda>role.
     attempt (or_reply 400 (validateOwnerPassword username (rqPassword body))) (\<lambda>_.
     attempt (some_or (error_reply 500 ''Unable to secure account password'')
       (newPasswordCredentials G (random h 0) (rqPassword body))) (\<lambda>(hash, salt, iterations).
     let payload = loadUsersFile d in
     attempt (check (findDashboardUser (ufUsers payload) username = None)
       (error_reply 409 ''A dashboard account with that username already exists'')) (\<lambda>_.
     let user = \<lparr>uUsername = username, uRole = role, uPasswordHash = hash, uPasswordSalt = salt,
                 uPasswordIterations = iterations, uTokenHash = [], uTOTPSecret = [], uEnabled = True\<rparr> in
     attempt (or_message (error_reply 500 ''Unable to save dashboard account'')
       (saveUsersFile (diskOK h 0) (payload\<lparr>ufUsers := ufUsers payload @ [user]\<rparr>) d)) (\<lambda>d1.
     Inr ((201, publicDashboardUser user),
          appendAudit h (clock h 0) r (principalFromRequest r) ''dashboard.user.create'' ''success''
            (JObj [(''username'', JStr (uUsername user)), (''role'', JStr (uRole user))]) d1)))))))))"

definition resetPassword :: "golib \<Rightarrow> string option \<Rightarrow> string \<Rightarrow> dashboardUser \<Rightarrow> dashboardUser option" where
  "resetPassword G draw password user =
     (if password = [] then Some user
      else map_option (\<lambda>(hash, salt, iterations).
             user\<lparr>uPasswordHash := hash, uPasswordSalt := salt, uPasswordIterations := iterations,
                  uTokenHash := []\<rparr>) (newPasswordCredentials G draw password))"

definition updateDashboardUser :: "golib \<Rightarrow> dashboardUserRequest option \<Rightarrow> handler" where
  "updateDashboardUser G decoded h r d = finish d (
     attempt (some_or (error_reply 400 ''Invalid JSON'') decoded) (\<lambda>body.
     let username = trim_space (rqUsername body) in
     attempt (or_reply 400 (normalizeDashboardRole (rqRole body))) (\<lambda>role.
     attempt (or_reply 400 (if rqPassword body \<noteq> [] then validateOwnerPassword username (rqPassword body)
                            else Inr ())) (\<lambda>_.
     let payload = loadUsersFile d in
     attempt (some_or (error_reply 404 ''Dashboard account was not found'')
       (findDashboardUser (ufUsers payload) username)) (\<lambda>index.
     let user = ufUsers payload ! index in
     attempt (check (\<not> isOwner user) (error_reply 409 ''Use Owner Account to change the owner login'')) (\<lambda>_.
     attempt (check (\<not> managedDashboardUser user)
       (error_reply 409 ''Startup-token accounts are managed through environment configuration'')) (\<lambda>_.
     let user1 = user\<lparr>uRole := role,
                      uEnabled := (case rqEnabled body of None \<Rightarrow> uEnabled user | Some b \<Rightarrow> b)\<rparr> in
     attempt (some_or (error_reply 500 ''Unable to secure account password'')
       (resetPassword G (random h 0) (rqPassword body) user1)) (\<lambda>user2.
     attempt (or_message (error_reply 500 ''Unable to update dashboard account'')
       (saveUsersFile (diskOK h 0) (payload\<lparr>ufUsers := (ufUsers payload)[index := user2]\<rparr>) d)) (\<lambda>d1.
     let d2 = d1\<lparr>db := revokeUserSessions (db d1) (uUsername user2)\<rparr> in
     Inr ((200, publicDashboardUser user2),
          appendAudit h (clock h 0) r (principalFromRequest r) ''dashboard.user.update'' ''success''
            (JObj [(''username'', JStr (uUsername user2)), (''role'', JStr (uRole user2)),
                   (''enabled'', JBool (uEnabled user2)),
                   (''passwordReset'', JBool (rqPassword body \<noteq> []))]) d2))))))))))"

definition deleteDashboardUser :: "dashboardUserRequest option \<Rightarrow> handler" where
  "deleteDashboardUser decoded h r d = finish d (
     attempt (some_or (error_reply 400 ''Invalid JSON'') decoded) (\<lambda>body.
     let payload = loadUsersFile d in
     attempt (some_or (error_reply 404 ''Dashboard account was not found'')
       (findDashboardUser (ufUsers payload) (trim_space (rqUsername body)))) (\<lambda>index.
     let user = ufUsers payload ! index in
     attempt (check (\<not> (isOwner user \<or> managedDashboardUser user))
       (error_reply 409 ''This account cannot be removed here'')) (\<lambda>_.
     attempt (or_message (error_reply 500 ''Unable to remove dashboard account'')
       (saveUsersFile (diskOK h 0)
         (payload\<lparr>ufUsers := take index (ufUsers payload) @ drop (index + 1) (ufUsers payload)\<rparr>) d)) (\<lambda>d1.
     let d2 = d1\<lparr>db := revokeUserSessions (db d1) (uUsername user)\<rparr> in
     Inr ((200, JObj [(''deleted'', JBool True), (''username'', JStr (uUsername user))]),
          appendAudit h (clock h 0) r (principalFromRequest r) ''dashboard.user.delete'' ''success''
            (JObj [(''username'', JStr (uUsername user)), (''role'', JStr (uRole user))]) d2))))))"

definition handleDashboardUsers :: "golib \<Rightarrow> dashboardUserRequest option \<Rightarrow> handler" where
  "handleDashboardUsers G decoded h r d =
     (if verb r = ''GET'' then (listDashboardUsers d, d)
      else if verb r = ''POST'' then createDashboardUser G decoded h r d
      else if verb r = ''PUT'' then updateDashboardUser G decoded h r d
      else if verb r = ''DELETE'' then deleteDashboardUser decoded h r d
      else (error_reply 405 ''Method not allowed'', d))"

section \<open>Lemmas on the users file\<close>

lemma users_simps [simp]:
  "users (d\<lparr>db := l\<rparr>) = users d"
  "users (d\<lparr>setupCode := c\<rparr>) = users d"
  "users (d\<lparr>setupCodeFile := f\<rparr>) = users d"
  "users (appendAudit h t r p a res det d) = users d"
  by (simp_all add: users_def loadUsersFile_def)

lemma setupRequired_simps [simp]:
  "setupRequired (d\<lparr>db := l\<rparr>) = setupRequired d"
  "setupRequired (d\<lparr>setupCode := c\<rparr>) = setupRequired d"
  "setupRequired (d\<lparr>setupCodeFile := f\<rparr>) = setupRequired d"
  "setupRequired (appendAudit h t r p a res det d) = setupRequired d"
  by (simp_all add: setupRequired_def loadUsersFile_def)

lemma saveUsersFile_Inr:
  assumes "saveUsersFile ok payload d = Inr d'"
  shows "ok" "d' = d\<lparr>usersFile := Decoded (payload\<lparr>ufVersion := dashboardUsersVersion\<rparr>)\<rparr>"
    "users d' = ufUsers payload" "db d' = db d"
    "loadUsersFile d' = payload\<lparr>ufVersion := dashboardUsersVersion\<rparr>"
  using assms by (auto simp: saveUsersFile_def users_def loadUsersFile_def split: if_splits)

lemma saveUsersFile_users:
  "saveUsersFile ok payload d = Inr d' \<Longrightarrow> users d' = ufUsers payload \<and> db d' = db d"
  by (simp add: saveUsersFile_Inr)

lemma find_index_None: "find_index p xs = None \<longleftrightarrow> (\<forall>x \<in> set xs. \<not> p x)"
  by (induction xs) auto

lemma find_index_Some: "find_index p xs = Some i \<Longrightarrow> i < length xs \<and> p (xs ! i)"
  by (induction xs arbitrary: i) (auto split: if_splits)

definition userKey :: "dashboardUser \<Rightarrow> string" where
  "userKey u = to_lower (trim_space (uUsername u))"

definition accounts_wf :: "dashboard \<Rightarrow> bool" where
  "accounts_wf d \<longleftrightarrow> distinct (map userKey (users d))"

definition protectedUser :: "dashboardUser \<Rightarrow> bool" where
  "protectedUser u \<longleftrightarrow> isOwner u \<or> managedDashboardUser u"

lemma findDashboardUser_None:
  "findDashboardUser us n = None \<longleftrightarrow> to_lower (trim_space n) \<notin> set (map userKey us)"
  by (force simp: findDashboardUser_def find_index_None equal_fold_def userKey_def)

lemma findDashboardUser_trim [simp]: "findDashboardUser us (trim_space n) = findDashboardUser us n"
  by (simp add: findDashboardUser_def trim_space_idem)

lemma findDashboardUser_Some: "findDashboardUser us n = Some i \<Longrightarrow> i < length us"
  by (auto simp: findDashboardUser_def dest: find_index_Some)

lemma drop_nth_eq: "i < length xs \<Longrightarrow> take i xs @ xs ! i # drop (Suc i) xs = xs"
  by (simp add: id_take_nth_drop [symmetric])

lemma filter_delete_nth:
  assumes "i < length xs" and "\<not> p (xs ! i)"
  shows "filter p (take i xs @ drop (Suc i) xs) = filter p xs"
proof -
  have "filter p xs = filter p (take i xs @ xs ! i # drop (Suc i) xs)"
    using assms(1) by (simp add: drop_nth_eq)
  with assms(2) show ?thesis by simp
qed

lemma filter_update_nth:
  assumes "i < length xs" and "\<not> p (xs ! i)" and "\<not> p y"
  shows "filter p (xs[i := y]) = filter p xs"
  using assms filter_delete_nth [of i xs p] by (simp add: upd_conv_take_nth_drop)

lemma distinct_delete_nth:
  assumes "distinct xs" and "i < length xs"
  shows "distinct (take i xs @ drop (Suc i) xs)"
proof -
  have "distinct (take i xs @ xs ! i # drop (Suc i) xs)" using assms by (simp add: drop_nth_eq)
  then show ?thesis by simp
qed

lemma normalizeDashboardRole_Inr:
  assumes "normalizeDashboardRole r = Inr role"
  shows "\<not> equal_fold role ''owner''"
proof -
  have "role \<in> {''admin'', ''operator'', ''viewer''}"
    using assms by (auto simp: normalizeDashboardRole_def Let_def split: if_splits)
  moreover have "\<not> equal_fold ''admin'' ''owner''" "\<not> equal_fold ''operator'' ''owner''"
    "\<not> equal_fold ''viewer'' ''owner''" by code_simp+
  ultimately show ?thesis by auto
qed

lemma resetPassword_Some:
  assumes "resetPassword G draw pw (user\<lparr>uRole := role, uEnabled := e\<rparr>) = Some user'"
    and "\<not> equal_fold role ''owner''" and "\<not> managedDashboardUser user"
  shows "\<not> protectedUser user' \<and> uUsername user' = uUsername user"
  using assms
  by (auto simp: resetPassword_def managedDashboardUser_def protectedUser_def isOwner_def split: if_splits)

text \<open>What each call of the users API can do: fail and leave everything as it was, or one change.\<close>


lemma createDashboardUser_failed:
  "createDashboardUser G decoded h r d = (rep, d') \<Longrightarrow> is_error rep \<Longrightarrow> d' = d"
  by (auto simp: createDashboardUser_def finish_eq early_return Let_def is_error_def)



lemma createDashboardUser_done:
  assumes "createDashboardUser G decoded h r d = (rep, d')" and "\<not> is_error rep"
  shows "\<exists>user. users d' = users d @ [user] \<and> \<not> protectedUser user \<and>
    userKey user \<notin> set (map userKey (users d))"
  using assms unfolding createDashboardUser_def finish_eq
  by (auto simp: early_return Let_def users_def [of d, symmetric] findDashboardUser_None userKey_def
      protectedUser_def managedDashboardUser_def isOwner_def
      dest!: saveUsersFile_Inr(3) normalizeDashboardRole_Inr)

lemma updateDashboardUser_failed:
  "updateDashboardUser G decoded h r d = (rep, d') \<Longrightarrow> is_error rep \<Longrightarrow> d' = d"
  by (auto simp: updateDashboardUser_def finish_eq early_return Let_def is_error_def)

lemma updateDashboardUser_done:
  assumes "updateDashboardUser G decoded h r d = (rep, d')" and "\<not> is_error rep"
  shows "\<exists>index user. findDashboardUser (users d) (rqUsername (the decoded)) = Some index \<and>
    index < length (users d) \<and> \<not> protectedUser (users d ! index) \<and>
    users d' = (users d)[index := user] \<and> \<not> protectedUser user \<and>
    uUsername user = uUsername (users d ! index) \<and>
    session_view (db d') = session_view (revokeUserSessions (db d) (uUsername (users d ! index)))"
  using assms unfolding updateDashboardUser_def finish_eq
  apply (elim disjE conjE)
   apply (fastforce simp: early_return Let_def is_error_def)
  apply (clarsimp simp: early_return Let_def users_def [of d, symmetric])
  apply (frule findDashboardUser_Some)
  apply (drule saveUsersFile_users normalizeDashboardRole_Inr)+
  apply (drule (2) resetPassword_Some)
  subgoal for body role index user d1
    by (intro exI [of _ index] conjI exI [of _ user]) (auto simp: protectedUser_def)
  done

lemma deleteDashboardUser_failed:
  "deleteDashboardUser decoded h r d = (rep, d') \<Longrightarrow> is_error rep \<Longrightarrow> d' = d"
  by (auto simp: deleteDashboardUser_def finish_eq early_return Let_def is_error_def)

lemma deleteDashboardUser_done:
  assumes "deleteDashboardUser decoded h r d = (rep, d')" and "\<not> is_error rep"
  shows "\<exists>index. findDashboardUser (users d) (rqUsername (the decoded)) = Some index \<and>
    index < length (users d) \<and> \<not> protectedUser (users d ! index) \<and>
    users d' = take index (users d) @ drop (Suc index) (users d) \<and>
    session_view (db d') = session_view (revokeUserSessions (db d) (uUsername (users d ! index)))"
  using assms unfolding deleteDashboardUser_def finish_eq
  by (auto simp: early_return Let_def users_def [of d, symmetric] protectedUser_def
      dest!: saveUsersFile_users dest: findDashboardUser_Some)

section \<open>Properties of the users API\<close>

lemma handleDashboardUsers_cases:
  assumes "handleDashboardUsers G decoded h r d = (rep, d')"
  shows "d' = d \<or>
    (\<exists>user. users d' = users d @ [user] \<and> \<not> protectedUser user \<and> userKey user \<notin> set (map userKey (users d))) \<or>
    (\<exists>i user. i < length (users d) \<and> \<not> protectedUser (users d ! i) \<and> users d' = (users d)[i := user] \<and>
       \<not> protectedUser user \<and> uUsername user = uUsername (users d ! i)) \<or>
    (\<exists>i. i < length (users d) \<and> \<not> protectedUser (users d ! i) \<and>
       users d' = take i (users d) @ drop (Suc i) (users d))"
proof (cases "is_error rep")
  case True
  then have "d' = d"
    using assms createDashboardUser_failed updateDashboardUser_failed deleteDashboardUser_failed
    by (auto simp: handleDashboardUsers_def split: if_splits)
  then show ?thesis by simp
next
  case ok: False
  consider "d' = d" | "createDashboardUser G decoded h r d = (rep, d')"
    | "updateDashboardUser G decoded h r d = (rep, d')" | "deleteDashboardUser decoded h r d = (rep, d')"
    using assms by (auto simp: handleDashboardUsers_def split: if_splits)
  then show ?thesis
  proof cases
    case 2
    then show ?thesis using createDashboardUser_done ok by blast
  next
    case 3
    then show ?thesis using updateDashboardUser_done ok by blast
  next
    case 4
    then show ?thesis using deleteDashboardUser_done ok by blast
  qed simp
qed

text \<open>C4: The users API cannot touch the owner's account nor the startup-token accounts: after any
  request, whatever its method, body and outcome, the list of these accounts with all their fields
  is what it was before; in particular no request can make an owner.\<close>

theorem users_api_keeps_protected_accounts:
  "filter protectedUser (users (snd (handleDashboardUsers G decoded h r d))) = filter protectedUser (users d)"
proof -
  obtain rep d' where "handleDashboardUsers G decoded h r d = (rep, d')" by fastforce
  with handleDashboardUsers_cases [OF this] show ?thesis
    using filter_update_nth [of _ "users d" protectedUser] filter_delete_nth [of _ "users d" protectedUser]
    by auto
qed

text \<open>C29: The users API keeps account names unique up to letter case and surrounding white space.\<close>

theorem users_api_keeps_names_unique:
  assumes "accounts_wf d"
  shows "accounts_wf (snd (handleDashboardUsers G decoded h r d))"
proof -
  obtain rep d' where eq: "handleDashboardUsers G decoded h r d = (rep, d')" by fastforce
  have upd: "map userKey ((users d)[i := u]) = map userKey (users d)"
    if "uUsername u = uUsername (users d ! i)" for i u
    using that by (cases "i < length (users d)") (auto simp: map_update userKey_def list_update_beyond
        intro: list_update_same_conv [THEN iffD2])
  have del: "distinct (map userKey (take i (users d) @ drop (Suc i) (users d)))" if "i < length (users d)" for i
    using distinct_delete_nth [of "map userKey (users d)" i] that assms
    by (simp add: accounts_wf_def take_map drop_map)
  show ?thesis
    using handleDashboardUsers_cases [OF eq] assms upd del eq by (auto simp: accounts_wf_def)
qed

text \<open>C30: An account that is changed or removed through the users API is logged out: after a
  successful update or removal, no session token stands for the account the request named.\<close>

theorem changed_account_is_logged_out:
  assumes "ledger_wf (db d)" and "handleDashboardUsers G (Some body) h r d = (rep, d')" and "fst rep = 200"
    and "verb r \<in> {''PUT'', ''DELETE''}" and "findDashboardUser (users d) (rqUsername body) = Some i"
    and "fst (session (db d') t k) = Some p"
  shows "\<not> equal_fold (pUsername p) (uUsername (users d ! i))"
proof -
  have ok: "\<not> is_error rep" using assms(3) by (simp add: is_error_def)
  have "updateDashboardUser G (Some body) h r d = (rep, d') \<or> deleteDashboardUser (Some body) h r d = (rep, d')"
    using assms(2,4) by (auto simp: handleDashboardUsers_def)
  then have "session_view (db d') = session_view (revokeUserSessions (db d) (uUsername (users d ! i)))"
    using updateDashboardUser_done [OF _ ok] deleteDashboardUser_done [OF _ ok] assms(5) by fastforce
  then have "fst (session (revokeUserSessions (db d) (uUsername (users d ! i))) t k) = Some p"
    using assms(6) session_fst_cong by metis
  then show ?thesis by (rule db_sessions.lookup_revoked [OF assms(1)])
qed

definition plainUser :: "string \<Rightarrow> string \<Rightarrow> dashboardUser" where
  "plainUser name role =
     \<lparr>uUsername = name, uRole = role, uPasswordHash = ''aGFzaA'', uPasswordSalt = ''c2FsdA'',
      uPasswordIterations = 210000, uTokenHash = [], uTOTPSecret = [], uEnabled = True\<rparr>"

definition sampleDashboard :: dashboard where
  "sampleDashboard = emptyDashboard\<lparr>
     usersFile := Decoded \<lparr>ufVersion = 2, ufSetupComplete = True,
       ufUsers = [plainUser ''Ninja'' ''owner'', plainUser ''bob'' ''operator'']\<rparr>,
     db := emptyLedger\<lparr>sessions :=
       [\<lparr>ses_token_hash = ''h1'', ses_username = ''Ninja'', ses_role = ''owner'', ses_created_at = 1,
         ses_expires_at = 90, ses_last_seen = 1, ses_totp_verified = False\<rparr>,
        \<lparr>ses_token_hash = ''h2'', ses_username = ''bob'', ses_role = ''operator'', ses_created_at = 1,
         ses_expires_at = 90, ses_last_seen = 1, ses_totp_verified = False\<rparr>]\<rparr>\<rparr>"

definition bobRequest :: dashboardUserRequest where
  "bobRequest = \<lparr>rqUsername = '' BOB '', rqPassword = [], rqRole = ''viewer'', rqEnabled = None\<rparr>"

lemma sampleDashboard_wf: "ledger_wf (db sampleDashboard)" "accounts_wf sampleDashboard"
  by code_simp+

theorem users_api_keeps_names_unique_witness:
  "accounts_wf (snd (handleDashboardUsers sample_golib (Some bobRequest) sampleHost
     (postRequest\<lparr>verb := ''PUT''\<rparr>) sampleDashboard))"
  by (rule users_api_keeps_names_unique [OF sampleDashboard_wf(2)])

theorem changed_account_is_logged_out_witness:
  "\<exists>rep d'. handleDashboardUsers sample_golib (Some bobRequest) sampleHost
       (postRequest\<lparr>verb := ''DELETE''\<rparr>) sampleDashboard = (rep, d') \<and> fst rep = 200 \<and>
     fst (session (db d') 50 ''h1'') = Some \<lparr>pUsername = ''Ninja'', pRole = ''owner''\<rparr> \<and>
     \<not> equal_fold ''Ninja'' (uUsername (users sampleDashboard ! 1))"
proof -
  let ?r = "postRequest\<lparr>verb := ''DELETE''\<rparr>"
  let ?out = "handleDashboardUsers sample_golib (Some bobRequest) sampleHost ?r sampleDashboard"
  have i: "findDashboardUser (users sampleDashboard) (rqUsername bobRequest) = Some 1"
    and u: "\<not> isOwner (users sampleDashboard ! 1)" "\<not> managedDashboardUser (users sampleDashboard ! 1)"
      "uUsername (users sampleDashboard ! 1) = ''bob''"
    and p: "fst (session (revokeUserSessions (db sampleDashboard) ''bob'') 50 ''h1'') =
      Some \<lparr>pUsername = ''Ninja'', pRole = ''owner''\<rparr>"
    by code_simp+
  have st: "fst (fst ?out) = 200"
    and v: "session_view (db (snd ?out)) = session_view (revokeUserSessions (db sampleDashboard) ''bob'')"
    using i u by (simp_all add: handleDashboardUsers_def deleteDashboardUser_def Let_def
        users_def [symmetric] saveUsersFile_def sampleHost_def)
  have eq: "?out = (fst ?out, snd ?out)" by simp
  have ses: "fst (session (db (snd ?out)) 50 ''h1'') = Some \<lparr>pUsername = ''Ninja'', pRole = ''owner''\<rparr>"
    using p session_fst_cong [OF v] by simp
  have m: "verb ?r \<in> {''PUT'', ''DELETE''}" by simp
  show ?thesis
    using changed_account_is_logged_out [OF sampleDashboard_wf(1) eq st m i ses] eq st ses
    by (metis principal.select_convs(1))
qed

section \<open>Properties of setup\<close>

lemma createBrowserSession_Inr:
  assumes "createBrowserSession G draw now now' u role totp d = Inr (tok, expires, d')"
  shows "draw = Some b \<Longrightarrow> tok = hex_encode b" "expires = now + sessionTTL d"
    "d' = d\<lparr>db := db d'\<rparr>" "createSession (db d) now' (tokenHash G tok) u role expires totp = Inr (db d')"
  using assms
  by (auto simp: createBrowserSession_def randomSessionToken_def Let_def split: option.splits sum.splits)

lemma openOwnerSession_frame:
  assumes "openOwnerSession G status failure action u totp h r d = (rep, d')"
  shows "users d' = users d" "setupRequired d' = setupRequired d" "setupCode d' = setupCode d"
    "usersFile d' = usersFile d"
proof -
  let ?w = "\<lparr>pUsername = u, pRole = ''owner''\<rparr>"
  have "d' = d \<or> (\<exists>l. d' = appendAudit h (clock h 2) r ?w action ''success'' JNull (d\<lparr>db := l\<rparr>))"
  proof (cases "createBrowserSession G (random h 1) (clock h 0) (clock h 1) u ''owner'' totp d")
    case (Inr x)
    obtain tok expires d1 where x: "x = (tok, expires, d1)" by (cases x)
    have "d1 = d\<lparr>db := db d1\<rparr>" using createBrowserSession_Inr(3) Inr x by blast
    with Inr x assms show ?thesis by (auto simp: openOwnerSession_def Let_def intro: exI [of _ "db d1"])
  qed (use assms in \<open>simp add: openOwnerSession_def Let_def\<close>)
  then show "users d' = users d" "setupRequired d' = setupRequired d" "setupCode d' = setupCode d"
    "usersFile d' = usersFile d" by auto
qed

text \<open>After it succeeds on a ledger whose sessions were cleared, the one it returns is the only one.\<close>

lemma openOwnerSession_only:
  assumes "openOwnerSession G status failure action u totp h r (d\<lparr>db := clearSessions l\<rparr>) = (rep, d')"
    and "\<not> is_error rep"
  obtains tok expires where
    "rep = sessionReply status tok expires \<lparr>pUsername = u, pRole = ''owner''\<rparr> []"
    "expires = clock h 0 + sessionTTL d"
    "\<And>t k. fst (session (db d') t k) =
      (if k = tokenHash G tok \<and> t < expires then Some \<lparr>pUsername = u, pRole = ''owner''\<rparr> else None)"
proof -
  from assms obtain tok expires d1 where
    c: "createBrowserSession G (random h 1) (clock h 0) (clock h 1) u ''owner'' totp (d\<lparr>db := clearSessions l\<rparr>)
        = Inr (tok, expires, d1)" and
    rep: "rep = sessionReply status tok expires \<lparr>pUsername = u, pRole = ''owner''\<rparr> []" and
    d': "session_view (db d') = session_view (db d1)"
    by (auto simp: openOwnerSession_def Let_def is_error_def split: sum.splits prod.splits)
  have "createSession (clearSessions l) (clock h 1) (tokenHash G tok) u ''owner'' expires totp = Inr (db d1)"
    using createBrowserSession_Inr(4) [OF c] by simp
  note only = db_sessions.lookup_clear_create [OF this]
  show thesis
  proof (rule that [OF rep])
    show "expires = clock h 0 + sessionTTL d" using createBrowserSession_Inr(2) [OF c] by simp
    show "fst (session (db d') t k) =
      (if k = tokenHash G tok \<and> t < expires then Some \<lparr>pUsername = u, pRole = ''owner''\<rparr> else None)" for t k
      using only session_fst_cong [OF d'] by simp
  qed
qed

lemma handleOwnerSetup_cases:
  assumes "handleOwnerSetup G decoded h r d = (rep, d')"
  shows "d' = d \<and> is_error rep \<or>
    (\<exists>body hash salt it d1. decoded = Some body \<and> setupRequired d \<and> setupCode d \<noteq> [] \<and>
      tokenHash G (sbSetupCode body) = tokenHash G (setupCode d) \<and>
      newPasswordCredentials G (random h 0) (sbPassword body) = Some (hash, salt, it) \<and>
      users d1 = filter (\<lambda>u. \<not> isOwner u) (users d) @
        [\<lparr>uUsername = trim_space (sbUsername body), uRole = ''owner'', uPasswordHash = hash,
          uPasswordSalt = salt, uPasswordIterations = it, uTokenHash = [],
          uTOTPSecret = normalizeTOTPSecret (getenv h ''DASHBOARD_TOTP_SECRET''), uEnabled = True\<rparr>] \<and>
      ufSetupComplete (loadUsersFile d1) \<and>
      openOwnerSession G 201 ''Owner created, but browser session could not be created'' ''owner.setup''
        (trim_space (sbUsername body)) False h r
        (d1\<lparr>setupCode := [], setupCodeFile := None, db := clearSessions (db d)\<rparr>) = (rep, d'))"
  using assms unfolding handleOwnerSetup_def finish_eq
  apply (elim disjE conjE)
   apply (force simp: early_return Let_def is_error_def)
  apply (rule disjI2)
  apply (clarsimp simp: early_return Let_def users_def [of d, symmetric])
  apply (frule saveUsersFile_Inr(3), frule saveUsersFile_Inr(4), drule saveUsersFile_Inr(5))
  subgoal for body hash salt it d1
    by (intro exI [of _ d1]) simp
  done

lemma updateOwnerAccount_cases:
  assumes "updateOwnerAccount G decoded h r d = (rep, d')"
  shows "d' = d \<and> is_error rep \<or>
    (\<exists>body hash salt it i owner d1. decoded = Some body \<and> i < length (users d) \<and> uEnabled (users d ! i) \<and>
      isOwner (users d ! i) \<and>
      (pUsername (principalFromRequest r) = ''recovery'' \<or>
       verifyUserCredential G (users d ! i) (obCurrentPassword body)) \<and>
      newPasswordCredentials G (random h 0) (obPassword body) = Some (hash, salt, it) \<and>
      owner = (users d ! i)\<lparr>uUsername := trim_space (obUsername body), uPasswordHash := hash,
        uPasswordSalt := salt, uPasswordIterations := it, uTokenHash := []\<rparr> \<and>
      users d1 = (users d)[i := owner] \<and> sessionTTL d1 = sessionTTL d \<and>
      openOwnerSession G 200 ''Account updated, but browser session could not be created''
        ''owner.credentials.update'' (trim_space (obUsername body)) (uTOTPSecret owner \<noteq> []) h r
        (d1\<lparr>db := clearSessions (db d)\<rparr>) = (rep, d'))"
  using assms unfolding updateOwnerAccount_def finish_eq
  apply (elim disjE conjE)
   apply (force simp: early_return Let_def is_error_def)
  apply (rule disjI2)
  apply (clarsimp simp: early_return Let_def users_def [of d, symmetric])
  apply (frule saveUsersFile_Inr(2), frule saveUsersFile_Inr(3), frule saveUsersFile_Inr(4))
  apply (drule find_index_Some)
  subgoal for body i hash salt it d1
    by (rule exI [of _ i], intro conjI; (simp; fail)?) (rule exI [of _ d1], auto)
  done

text \<open>C5: First-run setup happens once: after a setup that succeeded, no setup is required, the
  setup code is gone, and every further setup request fails and changes nothing.\<close>

theorem setup_happens_once:
  assumes "handleOwnerSetup G decoded h r d = (rep, d')" and "fst rep = 201"
  shows "\<not> setupRequired d' \<and> setupCode d' = [] \<and>
    snd (handleOwnerSetup G' decoded' h' r' d') = d' \<and> is_error (fst (handleOwnerSetup G' decoded' h' r' d'))"
proof -
  have ok: "\<not> is_error rep" using assms(2) by (simp add: is_error_def)
  obtain u d1 v where "users d1 = filter (\<lambda>u. \<not> isOwner u) (users d) @ [u]" "uEnabled u" "isOwner u"
    "ufSetupComplete (loadUsersFile d1)" and
    s: "openOwnerSession G 201 ''Owner created, but browser session could not be created'' ''owner.setup'' v
        False h r (d1\<lparr>setupCode := [], setupCodeFile := None, db := clearSessions (db d)\<rparr>) = (rep, d')"
    using handleOwnerSetup_cases [OF assms(1)] ok by (auto simp: isOwner_def)
  then have "\<not> setupRequired d1" by (simp add: setupRequired_def users_def)
  then have closed: "\<not> setupRequired d'" "setupCode d' = []"
    using openOwnerSession_frame [OF s] by simp_all
  moreover have "snd (handleOwnerSetup G' decoded' h' r' d') = d' \<and> is_error (fst (handleOwnerSetup G' decoded' h' r' d'))"
    using handleOwnerSetup_cases [of G' decoded' h' r' d' "fst (handleOwnerSetup G' decoded' h' r' d')"
        "snd (handleOwnerSetup G' decoded' h' r' d')"] closed by auto
  ultimately show ?thesis by simp
qed

text \<open>The owner's login can be set up only with the setup code: a setup request that changes
  anything came while a setup was required, with a code whose hash is that of the stored code, and
  it leaves every account that is not an owner as it was.\<close>

theorem setup_needs_the_code:
  assumes "handleOwnerSetup G decoded h r d = (rep, d')" and "d' \<noteq> d"
  shows "setupRequired d \<and> setupCode d \<noteq> [] \<and>
    (\<exists>body. decoded = Some body \<and> tokenHash G (sbSetupCode body) = tokenHash G (setupCode d)) \<and>
    filter (\<lambda>u. \<not> isOwner u) (users d') = filter (\<lambda>u. \<not> isOwner u) (users d)"
proof -
  obtain body u d1 v where b: "decoded = Some body" "setupRequired d" "setupCode d \<noteq> []"
    "tokenHash G (sbSetupCode body) = tokenHash G (setupCode d)" and
    u: "users d1 = filter (\<lambda>u. \<not> isOwner u) (users d) @ [u]" "isOwner u" and
    s: "openOwnerSession G 201 ''Owner created, but browser session could not be created'' ''owner.setup'' v
        False h r (d1\<lparr>setupCode := [], setupCodeFile := None, db := clearSessions (db d)\<rparr>) = (rep, d')"
    using handleOwnerSetup_cases [OF assms(1)] assms(2) by (auto simp: isOwner_def)
  show ?thesis using b u openOwnerSession_frame(1) [OF s] by simp
qed

text \<open>Only the owner can replace the owner's login: an account request that changes anything
  was made by a recovery session or with the owner's current credential, it changes one enabled
  owner account and no other, and if it succeeds the session it returns is the only one left.\<close>

theorem owner_update_is_authorised:
  assumes "handleOwnerAccount G decoded h r d = (rep, d')" and "d' \<noteq> d"
  shows "\<exists>body i owner. decoded = Some body \<and> i < length (users d) \<and> uEnabled (users d ! i) \<and>
    isOwner (users d ! i) \<and> users d' = (users d)[i := owner] \<and> uRole owner = uRole (users d ! i) \<and>
    (pUsername (principalFromRequest r) = ''recovery'' \<or>
     verifyUserCredential G (users d ! i) (obCurrentPassword body)) \<and>
    (fst rep = 200 \<longrightarrow> (\<exists>tok expires.
       rep = sessionReply 200 tok expires \<lparr>pUsername = trim_space (obUsername body), pRole = ''owner''\<rparr> [] \<and>
       (\<forall>t k. fst (session (db d') t k) =
         (if k = tokenHash G tok \<and> t < expires
          then Some \<lparr>pUsername = trim_space (obUsername body), pRole = ''owner''\<rparr> else None))))"
proof -
  have "updateOwnerAccount G decoded h r d = (rep, d')"
    using assms by (auto simp: handleOwnerAccount_def Let_def split: if_splits)
  from updateOwnerAccount_cases [OF this] assms(2)
  obtain body hash salt it i owner d1 where b: "decoded = Some body" "i < length (users d)"
    "uEnabled (users d ! i)" "isOwner (users d ! i)" "users d1 = (users d)[i := owner]"
    "pUsername (principalFromRequest r) = ''recovery'' \<or>
     verifyUserCredential G (users d ! i) (obCurrentPassword body)" and
    o: "owner = (users d ! i)\<lparr>uUsername := trim_space (obUsername body), uPasswordHash := hash,
        uPasswordSalt := salt, uPasswordIterations := it, uTokenHash := []\<rparr>" and
    s: "openOwnerSession G 200 ''Account updated, but browser session could not be created''
        ''owner.credentials.update'' (trim_space (obUsername body)) (uTOTPSecret owner \<noteq> []) h r
        (d1\<lparr>db := clearSessions (db d)\<rparr>) = (rep, d')"
    by blast
  have "users d' = (users d)[i := owner]" using openOwnerSession_frame(1) [OF s] b by simp
  moreover have "\<exists>tok expires.
       rep = sessionReply 200 tok expires \<lparr>pUsername = trim_space (obUsername body), pRole = ''owner''\<rparr> [] \<and>
       (\<forall>t k. fst (session (db d') t k) =
         (if k = tokenHash G tok \<and> t < expires
          then Some \<lparr>pUsername = trim_space (obUsername body), pRole = ''owner''\<rparr> else None))"
    if ok: "fst rep = 200"
  proof -
    have "\<not> is_error rep" using ok by (simp add: is_error_def)
    then obtain tok expires where
      "rep = sessionReply 200 tok expires \<lparr>pUsername = trim_space (obUsername body), pRole = ''owner''\<rparr> []"
      "\<And>t k. fst (session (db d') t k) = (if k = tokenHash G tok \<and> t < expires
        then Some \<lparr>pUsername = trim_space (obUsername body), pRole = ''owner''\<rparr> else None)"
      by (rule openOwnerSession_only [OF s]) (rule that)
    then show ?thesis by (intro exI [of _ tok] exI [of _ expires]) simp
  qed
  moreover have "uRole owner = uRole (users d ! i)" using o by simp
  ultimately show ?thesis using b by blast
qed

definition freshDashboard :: dashboard where
  "freshDashboard = emptyDashboard\<lparr>setupCode := ''0123456789abcdef''\<rparr>"

definition setupRequest :: setupBody where
  "setupRequest =
     \<lparr>sbSetupCode = ''0123456789abcdef'', sbUsername = ''Ninja'', sbPassword = ''correct horse battery''\<rparr>"

lemma openOwnerSession_status:
  "randomSessionToken (random h 1) \<noteq> None \<Longrightarrow> dbOpen (db d) \<Longrightarrow>
   fst (fst (openOwnerSession G status failure action u totp h r d)) = status"
  by (auto simp: openOwnerSession_def createBrowserSession_def createSession_def exec_def Let_def
      sessionReply_def)

lemma freshSetup_status:
  "fst (fst (handleOwnerSetup sample_golib (Some setupRequest) sampleHost postRequest freshDashboard)) = 201"
proof -
  have v: "validateOwnerUsername (trim_space (sbUsername setupRequest)) = Inr ()"
    "validateOwnerPassword (trim_space (sbUsername setupRequest)) (sbPassword setupRequest) = Inr ()"
    "setupRequired freshDashboard"
    by code_simp+
  have c: "sbSetupCode setupRequest = setupCode freshDashboard" "setupCode freshDashboard \<noteq> []"
    by (simp_all add: setupRequest_def freshDashboard_def)
  show ?thesis
    using v c by (simp add: handleOwnerSetup_def Let_def newPasswordCredentials_def postRequest_def
        saveUsersFile_def openOwnerSession_status sampleHost_def randomSessionToken_def freshDashboard_def
        emptyDashboard_def clearSessions_def exec_ignored_eq emptyLedger_def)
qed

theorem setup_happens_once_witness:
  "\<not> setupRequired (snd (handleOwnerSetup sample_golib (Some setupRequest) sampleHost postRequest freshDashboard))"
  using setup_happens_once [OF prod.collapse [symmetric] freshSetup_status] by simp

lemma freshSetup_changes:
  "snd (handleOwnerSetup sample_golib (Some setupRequest) sampleHost postRequest freshDashboard) \<noteq> freshDashboard"
proof
  assume same: "snd (handleOwnerSetup sample_golib (Some setupRequest) sampleHost postRequest freshDashboard)
      = freshDashboard"
  have ne: "setupCode freshDashboard \<noteq> []" by (simp add: freshDashboard_def)
  have "\<not> is_error (fst (handleOwnerSetup sample_golib (Some setupRequest) sampleHost postRequest freshDashboard))"
    using freshSetup_status by (simp add: is_error_def)
  with handleOwnerSetup_cases [OF prod.collapse [symmetric]]
  obtain d1 v where s: "openOwnerSession sample_golib 201 ''Owner created, but browser session could not be created''
      ''owner.setup'' v False sampleHost postRequest
      (d1\<lparr>setupCode := [], setupCodeFile := None, db := clearSessions (db freshDashboard)\<rparr>) =
      (fst (handleOwnerSetup sample_golib (Some setupRequest) sampleHost postRequest freshDashboard),
       snd (handleOwnerSetup sample_golib (Some setupRequest) sampleHost postRequest freshDashboard))"
    by blast
  then show False using openOwnerSession_frame(3) [OF s] same ne by simp
qed

theorem setup_needs_the_code_witness:
  "setupRequired freshDashboard \<and> filter (\<lambda>u. \<not> isOwner u)
     (users (snd (handleOwnerSetup sample_golib (Some setupRequest) sampleHost postRequest freshDashboard))) = []"
proof -
  have "users freshDashboard = []" by (simp add: freshDashboard_def emptyDashboard_def users_def loadUsersFile_def)
  then show ?thesis
    using setup_needs_the_code [OF prod.collapse [symmetric] freshSetup_changes] by simp
qed

definition recoveryRequest :: http_request where
  "recoveryRequest = postRequest\<lparr>verb := ''PUT'', actor := Some \<lparr>pUsername = ''recovery'', pRole = ''owner''\<rparr>\<rparr>"

definition ownerRequest :: ownerBody where
  "ownerRequest = \<lparr>obCurrentPassword = [], obUsername = ''Kay'', obPassword = ''correct horse battery''\<rparr>"

theorem owner_update_is_authorised_witness:
  "\<exists>rep d' owner. handleOwnerAccount sample_golib (Some ownerRequest) sampleHost recoveryRequest sampleDashboard
     = (rep, d') \<and> fst rep = 200 \<and> users d' = (users sampleDashboard)[0 := owner]"
proof -
  let ?out = "handleOwnerAccount sample_golib (Some ownerRequest) sampleHost recoveryRequest sampleDashboard"
  have v: "validateOwnerUsername (trim_space (obUsername ownerRequest)) = Inr ()"
    "validateOwnerPassword (trim_space (obUsername ownerRequest)) (obPassword ownerRequest) = Inr ()"
    "find_index (\<lambda>u. uEnabled u \<and> isOwner u) (users sampleDashboard) = Some 0"
    "\<not> isOwner (users sampleDashboard ! 1)" "length (users sampleDashboard) = 2"
    "uUsername (users sampleDashboard ! 0) = ''Ninja''" "trim_space (obUsername ownerRequest) = ''Kay''"
    by code_simp+
  have st: "fst (fst ?out) = 200"
    using v by (simp add: handleOwnerAccount_def updateOwnerAccount_def Let_def newPasswordCredentials_def
        recoveryRequest_def principalFromRequest_def saveUsersFile_def openOwnerSession_status sampleHost_def
        randomSessionToken_def clearSessions_def exec_ignored_eq users_def [symmetric] sampleDashboard_def
        emptyLedger_def)
  have frame: "users (snd (openOwnerSession G s f a u t h r d)) = users d" for G s f a u t h r d
    by (rule openOwnerSession_frame(1) [OF prod.collapse [symmetric]])
  have "uUsername (users (snd ?out) ! 0) = ''Kay''"
    using v by (simp add: handleOwnerAccount_def updateOwnerAccount_def Let_def newPasswordCredentials_def
        recoveryRequest_def principalFromRequest_def saveUsersFile_def frame sampleHost_def
        users_def [symmetric] saveUsersFile_Inr(3)) (simp add: users_def loadUsersFile_def dashboardUsersVersion_def)
  with v(6) have ne: "snd ?out \<noteq> sampleDashboard" by force
  from owner_update_is_authorised [OF prod.collapse [symmetric] ne] obtain i owner where
    i: "i < 2" "isOwner (users sampleDashboard ! i)" "users (snd ?out) = (users sampleDashboard)[i := owner]"
    using v(5) by auto
  then have "i = 0" using v(4) by (cases i) (auto simp: less_Suc_eq numeral_2_eq_2)
  with i st show ?thesis by (metis prod.collapse)
qed

section \<open>The setup code across restarts\<close>

lemma trim_left_space: "trim_left (CHR '' '' # s) = trim_left s"
proof -
  have "find (\<lambda>w. w \<noteq> [] \<and> prefix w (CHR '' '' # s)) space_runes = Some '' ''"
    by (simp add: space_runes_def ascii_spaces_def)
  then show ?thesis unfolding trim_left_def by (subst strip_by.simps) simp
qed

lemma trim_space_first:
  assumes "is_ascii c" and "c \<notin> set ascii_spaces" and "has_prefix (trim_space (c # s)) (a # p)"
  shows "a = c"
proof -
  have "prefix (trim_space (c # s)) (c # s)"
    using prefix_trim_right [of "c # s"] trim_left_id [OF starts_clean_ascii [OF assms(1,2)]]
    by (simp add: trim_space_def)
  with assms(3) show ?thesis by (auto simp: has_prefix_def prefix_def)
qed

lemma setupCodeFromFile_setupFileText:
  assumes "newline \<notin> set publicHost" and "newline \<notin> set prt" and "newline \<notin> set code"
    and "trimmed code" and "code \<noteq> []"
  shows "setupCodeFromFile (Some (setupFileText publicHost prt code)) = code"
proof -
  let ?l1 = "''Ninj-OS Proxie first-run owner setup''"
  let ?l2 = "''Dashboard: http://'' @ publicHost @ '':'' @ prt"
  let ?l3 = "''Setup code: '' @ code"
  obtain rest where txt': "setupFileText publicHost prt code = ?l1 @ newline # ?l2 @ newline # ?l3 @ newline # rest"
    by (simp add: setupFileText_def)
  have nl: "newline \<notin> set ?l1" "newline \<notin> set ?l2" "newline \<notin> set ?l3"
    using assms by (auto simp: newline_def)
  have ls: "split_on newline (setupFileText publicHost prt code) = ?l1 # ?l2 # ?l3 # split_on newline rest"
    unfolding txt' by (simp only: split_on_append [OF nl(1)] split_on_append [OF nl(2)] split_on_append [OF nl(3)])
  have clean: "is_ascii (CHR ''N'')" "is_ascii (CHR ''D'')" "is_ascii (CHR ''S'')"
    "CHR ''N'' \<notin> set ascii_spaces" "CHR ''D'' \<notin> set ascii_spaces" "CHR ''S'' \<notin> set ascii_spaces"
    by code_simp+
  have no: "\<not> has_prefix (trim_space ?l1) ''Setup code:''" "\<not> has_prefix (trim_space ?l2) ''Setup code:''"
    by (auto dest!: trim_space_first [OF clean(1,4)] trim_space_first [OF clean(2,5)])
  have sp: "is_ascii (CHR '' '')" by code_simp
  have "ends_clean ?l3"
    using ends_clean_append [of code "''Setup code: ''"] assms(4,5) sp by (simp add: trimmed_def)
  moreover have "starts_clean ?l3" using starts_clean_ascii [OF clean(3,6)] by simp
  ultimately have t3: "trim_space ?l3 = ''Setup code:'' @ '' '' @ code" by (simp add: trim_space_id trimmed_def)
  have "trim_space ('' '' @ code) = code"
    using trim_left_space [of code] assms(4) by (simp add: trim_space_def trimmed_def trim_left_id trim_right_id)
  moreover have "find (\<lambda>raw. has_prefix (trim_space raw) ''Setup code:'')
      (split_on newline (setupFileText publicHost prt code)) = Some ?l3"
    unfolding ls find.simps t3 using no has_prefix_append [of "''Setup code:''"] by (simp only: if_False if_True)
  ultimately show ?thesis
    by (simp only: setupCodeFromFile_def option.case t3 trim_prefix_append)
qed

text \<open>A pending setup code survives a restart: as long as setup is required and no code is given
  in the environment, starting the dashboard again on the file it wrote keeps the same code.\<close>

theorem setup_code_survives_restart:
  assumes "setupRequired d" and "ensureFirstRunSetup h d = Some d1"
    and "16 \<le> length (setupCode d1)" and "trimmed (setupCode d1)" and "newline \<notin> set (setupCode d1)"
    and "newline \<notin> set (env h ''DASHBOARD_PUBLIC_HOST'' ''127.0.0.1'')" and "newline \<notin> set (port d)"
    and "getenv h' ''DASHBOARD_SETUP_CODE'' = []" and "diskOK h' 0"
  shows "\<exists>d2. ensureFirstRunSetup h' (d1\<lparr>setupCode := []\<rparr>) = Some d2 \<and> setupCode d2 = setupCode d1"
proof -
  let ?ph = "env h ''DASHBOARD_PUBLIC_HOST'' ''127.0.0.1''"
  obtain code where d1: "d1 = d\<lparr>setupCode := code, setupCodeFile := Some (setupFileText ?ph (port d) code)\<rparr>"
    using assms(1,2) by (auto simp: ensureFirstRunSetup_def Let_def split: option.splits if_splits)
  have "setupCodeFromFile (setupCodeFile d1) = code"
    using assms d1 setupCodeFromFile_setupFileText [of ?ph "port d" code] by fastforce
  then show ?thesis
    using assms d1 by (simp add: ensureFirstRunSetup_def Let_def)
qed

theorem setup_code_survives_restart_witness:
  "\<exists>d1 d2. ensureFirstRunSetup sampleHost emptyDashboard = Some d1 \<and>
     ensureFirstRunSetup sampleHost (d1\<lparr>setupCode := []\<rparr>) = Some d2 \<and> setupCode d2 = setupCode d1"
proof -
  have "map_option setupCode (ensureFirstRunSetup sampleHost emptyDashboard) =
      Some ''30313233343536373839616263646566''" by code_simp
  then obtain d1 where d1: "ensureFirstRunSetup sampleHost emptyDashboard = Some d1"
    and c: "setupCode d1 = ''30313233343536373839616263646566''" by auto
  have req: "setupRequired emptyDashboard" "trimmed ''30313233343536373839616263646566''"
    "newline \<notin> set ''30313233343536373839616263646566''"
    "newline \<notin> set (env sampleHost ''DASHBOARD_PUBLIC_HOST'' ''127.0.0.1'')"
    "newline \<notin> set (port emptyDashboard)" by code_simp+
  have "\<exists>d2. ensureFirstRunSetup sampleHost (d1\<lparr>setupCode := []\<rparr>) = Some d2 \<and> setupCode d2 = setupCode d1"
    by (rule setup_code_survives_restart [OF req(1) d1])
      (use req in \<open>simp_all add: c sampleHost_def\<close>)
  with d1 show ?thesis by blast
qed

end
