(* ===== verification/Access.thy ===== *)
theory Access
  imports Accounts
begin

text \<open>
  Who may call what: \<^verbatim>\<open>authenticate\<close> and \<^verbatim>\<open>requireRole\<close> of \<^verbatim>\<open>dashboard/main.go\<close>, login and logout of
  \<^verbatim>\<open>dashboard/control_plane.go\<close>.  The lemmas of the locale \<open>session_store\<close>, interpreted on the
  ledger, carry a session from login to the requests made with its token.
\<close>

section \<open>Authentication\<close>

definition bearer :: "http_request \<Rightarrow> string" where
  "bearer r = trim_space (trim_prefix (header r ''Authorization'') ''Bearer '')"

definition authenticate :: "golib \<Rightarrow> host \<Rightarrow> http_request \<Rightarrow> dashboard \<Rightarrow> principal option \<times> dashboard" where
  "authenticate G h r d =
     (let provided = (if bearer r = [] then query r ''token'' else bearer r) in
      if provided = [] then (None, d)
      else
        let hash = tokenHash G provided in
        (case session (db d) (clock h 0) hash of
           (Some p, l) \<Rightarrow> (Some p, d\<lparr>db := l\<rparr>)
         | (None, l) \<Rightarrow>
             (map_option (\<lambda>u. \<lparr>pUsername = uUsername u, pRole = uRole u\<rparr>)
                (find (\<lambda>u. uEnabled u \<and> hash = to_lower (uTokenHash u)) (users d)),
              d\<lparr>db := l\<rparr>)))"

text \<open>The host as the handler behind the check sees it: the clock has been read once.\<close>

definition later :: "nat \<Rightarrow> host \<Rightarrow> host" where
  "later n h = h\<lparr>clock := (\<lambda>i. clock h (i + n))\<rparr>"

definition requireRole :: "golib \<Rightarrow> string \<Rightarrow> handler \<Rightarrow> handler" where
  "requireRole G required next h r d =
     (case authenticate G h r d of
        (None, d1) \<Rightarrow> (error_reply 401 ''Unauthorized'', d1)
      | (Some p, d1) \<Rightarrow>
          if roleRank (pRole p) < roleRank required
          then (error_reply 403 ''Insufficient role'',
                appendAudit h (clock h 1) r p ''access.denied'' ''denied''
                  (JObj [(''path'', JStr (url_path r)), (''requiredRole'', JStr required)]) d1)
          else next (later 1 h) (r\<lparr>actor := Some p\<rparr>) d1)"

section \<open>Login and logout\<close>

record loginBody =
  lbUsername :: string
  lbPassword :: string
  lbToken :: string
  lbTOTP :: string

definition recoveryLogin :: "golib \<Rightarrow> host \<Rightarrow> http_request \<Rightarrow> dashboard \<Rightarrow> reply + reply \<times> dashboard" where
  "recoveryLogin G h r d =
     (let who = \<lparr>pUsername = ''recovery'', pRole = ''owner''\<rparr> in
      attempt (or_message (error_reply 500 ''Unable to create recovery session'')
        (createBrowserSession G (random h 0) (clock h 0) (clock h 1) ''recovery'' ''owner'' False d)) (\<lambda>(tok, expires, d1).
      Inr (sessionReply 200 tok expires who [(''recovery'', JBool True)],
           appendAudit h (clock h 2) r who ''session.recovery_login'' ''success''
             (JObj [(''expiresAt'', jint expires)]) d1)))"

text \<open>The loop over the users ends at the first enabled account with that name.\<close>

definition accountLogin ::
  "golib \<Rightarrow> string \<Rightarrow> string \<Rightarrow> string \<Rightarrow> host \<Rightarrow> http_request \<Rightarrow> dashboard \<Rightarrow> reply + reply \<times> dashboard" where
  "accountLogin G username provided code h r d =
     attempt (some_or (error_reply 401 ''Invalid login or two-factor code'')
       (find (\<lambda>u. uEnabled u \<and> to_lower (uUsername u) = username) (users d))) (\<lambda>user.
     attempt (check (verifyUserCredential G user provided)
       (error_reply 401 ''Invalid login or two-factor code'')) (\<lambda>_.
     if \<not> validTOTP G (uTOTPSecret user) code (clock h 0 div 1000)
     then Inr (error_reply 401 ''Invalid login or two-factor code'',
               appendAudit h (clock h 1) r \<lparr>pUsername = username, pRole = uRole user\<rparr> ''session.login''
                 ''totp_failed'' JNull d)
     else
       let who = \<lparr>pUsername = uUsername user, pRole = uRole user\<rparr> in
       attempt (or_message (error_reply 500 ''Unable to create session'')
         (createBrowserSession G (random h 0) (clock h 1) (clock h 2) (uUsername user) (uRole user)
           (uTOTPSecret user \<noteq> []) d)) (\<lambda>(tok, expires, d1).
       Inr (sessionReply 200 tok expires who [(''totp'', JBool (uTOTPSecret user \<noteq> []))],
            appendAudit h (clock h 3) r who ''session.login'' ''success''
              (JObj [(''expiresAt'', jint expires)]) d1))))"

definition handleLogin :: "golib \<Rightarrow> loginBody option \<Rightarrow> handler" where
  "handleLogin G decoded h r d = finish d (
     attempt (check (verb r = ''POST'') (error_reply 405 ''Method not allowed'')) (\<lambda>_.
     attempt (check (\<not> setupRequired d)
       (409, JObj [(''error'', JStr ''Owner setup required''), (''setupRequired'', JBool True)])) (\<lambda>_.
     attempt (some_or (error_reply 400 ''Invalid JSON'') decoded) (\<lambda>body.
     let username = to_lower (trim_space (lbUsername body));
         provided = (if lbPassword body = [] then lbToken body else lbPassword body) in
     if recoveryToken d \<noteq> [] \<and> username = ''recovery'' \<and> tokenHash G provided = tokenHash G (recoveryToken d)
     then recoveryLogin G h r d
     else accountLogin G username provided (lbTOTP body) h r d))))"

definition bearerToken :: "http_request \<Rightarrow> string" where
  "bearerToken r = (if bearer r = [] then trim_space (query r ''token'') else bearer r)"

definition handleLogout :: "golib \<Rightarrow> handler" where
  "handleLogout G h r d =
     (if verb r \<noteq> ''POST'' then (error_reply 405 ''Method not allowed'', d)
      else
        let provided = bearerToken r;
            d1 = (if provided \<noteq> [] then d\<lparr>db := deleteSession (db d) (tokenHash G provided)\<rparr> else d)
        in ((200, JObj [(''loggedOut'', JBool True)]), d1))"

section \<open>Lemmas\<close>

lemma authenticate_cases:
  "fst (authenticate G h r d) =
     (let provided = (if bearer r = [] then query r ''token'' else bearer r) in
      if provided = [] then None
      else case fst (session (db d) (clock h 0) (tokenHash G provided)) of
        Some p \<Rightarrow> Some p
      | None \<Rightarrow> map_option (\<lambda>u. \<lparr>pUsername = uUsername u, pRole = uRole u\<rparr>)
                (find (\<lambda>u. uEnabled u \<and> tokenHash G provided = to_lower (uTokenHash u)) (users d)))"
  by (auto simp: authenticate_def Let_def split: prod.splits option.splits)

lemma authenticate_frame:
  "users (snd (authenticate G h r d)) = users d \<and>
   commandsLog (snd (authenticate G h r d)) = commandsLog d \<and>
   gatewayConfigFile (snd (authenticate G h r d)) = gatewayConfigFile d"
  by (auto simp: authenticate_def Let_def split: prod.splits option.splits)

lemma hex_digits: "set (hex_encode b) \<subseteq> {c. is_ascii c \<and> c \<notin> set ascii_spaces}"
proof -
  have "\<forall>c \<in> set hex_alphabet. is_ascii c \<and> c \<notin> set ascii_spaces" by code_simp
  with hex_encode_set show ?thesis by blast
qed

lemma trimmed_hex: "trimmed (hex_encode b)"
  using hex_digits [of b] by (intro trimmed_ascii) auto

lemma bearer_of_token:
  "header r ''Authorization'' = ''Bearer '' @ hex_encode b \<Longrightarrow> bearer r = hex_encode b"
  using trimmed_hex [of b] by (simp only: bearer_def trim_prefix_append trim_space_id)

lemma hex_encode_Nil: "hex_encode b = [] \<longleftrightarrow> b = []"
  using length_hex_encode [of b] by auto

text \<open>A successful login, with the account it is for.\<close>

definition loginAccount :: "golib \<Rightarrow> host \<Rightarrow> dashboard \<Rightarrow> loginBody \<Rightarrow> principal \<Rightarrow> bool" where
  "loginAccount G h d body p \<longleftrightarrow>
     (let username = to_lower (trim_space (lbUsername body));
          provided = (if lbPassword body = [] then lbToken body else lbPassword body)
      in p = \<lparr>pUsername = ''recovery'', pRole = ''owner''\<rparr> \<and> username = ''recovery'' \<and> recoveryToken d \<noteq> [] \<and>
           tokenHash G provided = tokenHash G (recoveryToken d) \<or>
         (\<exists>user \<in> set (users d). p = \<lparr>pUsername = uUsername user, pRole = uRole user\<rparr> \<and>
            uEnabled user \<and> to_lower (uUsername user) = username \<and> verifyUserCredential G user provided \<and>
            validTOTP G (uTOTPSecret user) (lbTOTP body) (clock h 0 div 1000)))"

lemma find_in: "find p xs = Some x \<Longrightarrow> x \<in> set xs \<and> p x"
  by (auto simp: find_Some_iff)

text \<open>What a login that answers with a token has done.\<close>

definition opened :: "golib \<Rightarrow> host \<Rightarrow> dashboard \<Rightarrow> principal \<Rightarrow> reply \<Rightarrow> dashboard \<Rightarrow> bool" where
  "opened G h d p rep d' \<longleftrightarrow>
     (\<exists>i totp d1 tok expires extra.
        createBrowserSession G (random h 0) (clock h i) (clock h (Suc i)) (pUsername p) (pRole p) totp d =
          Inr (tok, expires, d1) \<and>
        rep = sessionReply 200 tok expires p extra \<and> session_view (db d') = session_view (db d1))"

lemma recoveryLogin_Inl: "recoveryLogin G h r d = Inl rep \<Longrightarrow> is_error rep"
  by (auto simp: recoveryLogin_def early_return Let_def is_error_def)

lemma accountLogin_Inl: "accountLogin G u pw c h r d = Inl rep \<Longrightarrow> is_error rep"
  by (auto simp: accountLogin_def early_return Let_def is_error_def split: if_splits)

lemma recoveryLogin_Inr:
  assumes "recoveryLogin G h r d = Inr (rep, d')"
  shows "opened G h d \<lparr>pUsername = ''recovery'', pRole = ''owner''\<rparr> rep d'"
proof -
  from assms obtain tok expires d1 where
    "createBrowserSession G (random h 0) (clock h 0) (clock h (Suc 0)) ''recovery'' ''owner'' False d = Inr (tok, expires, d1)"
    "rep = sessionReply 200 tok expires \<lparr>pUsername = ''recovery'', pRole = ''owner''\<rparr> [(''recovery'', JBool True)]"
    "session_view (db d') = session_view (db d1)"
    by (auto simp: recoveryLogin_def early_return Let_def)
  then show ?thesis unfolding opened_def by (metis principal.select_convs)
qed

lemma accountLogin_Inr:
  assumes "accountLogin G u pw c h r d = Inr (rep, d')" and "\<not> is_error rep"
  shows "\<exists>user \<in> set (users d). uEnabled user \<and> to_lower (uUsername user) = u \<and> verifyUserCredential G user pw \<and>
    validTOTP G (uTOTPSecret user) c (clock h 0 div 1000) \<and>
    opened G h d \<lparr>pUsername = uUsername user, pRole = uRole user\<rparr> rep d'"
proof -
  let ?p = "\<lambda>user. \<lparr>pUsername = uUsername user, pRole = uRole user\<rparr>"
  from assms obtain user tok expires d1 where
    u: "find (\<lambda>v. uEnabled v \<and> to_lower (uUsername v) = u) (users d) = Some user"
    "verifyUserCredential G user pw" "validTOTP G (uTOTPSecret user) c (clock h 0 div 1000)" and
    o: "createBrowserSession G (random h 0) (clock h 1) (clock h (Suc 1)) (uUsername user) (uRole user)
        (uTOTPSecret user \<noteq> []) d = Inr (tok, expires, d1)"
    "rep = sessionReply 200 tok expires (?p user) [(''totp'', JBool (uTOTPSecret user \<noteq> []))]"
    "session_view (db d') = session_view (db d1)"
    by (auto simp: accountLogin_def early_return Let_def is_error_def numeral_2_eq_2 split: if_splits)
  have "opened G h d (?p user) rep d'"
    unfolding opened_def using o by (metis principal.select_convs)
  with u find_in [OF u(1)] show ?thesis by blast
qed

lemma handleLogin_done:
  assumes "handleLogin G decoded h r d = (rep, d')" and "\<not> is_error rep"
  shows "\<exists>body p. decoded = Some body \<and> \<not> setupRequired d \<and> loginAccount G h d body p \<and> opened G h d p rep d'"
proof -
  from assms obtain body where b: "decoded = Some body" "\<not> setupRequired d"
    by (cases decoded; cases "setupRequired d") (auto simp: handleLogin_def check_def finish_def is_error_def split: if_splits)
  let ?u = "to_lower (trim_space (lbUsername body))"
  let ?pw = "if lbPassword body = [] then lbToken body else lbPassword body"
  show ?thesis
  proof (cases "recoveryToken d \<noteq> [] \<and> ?u = ''recovery'' \<and> tokenHash G ?pw = tokenHash G (recoveryToken d)")
    case True
    then have "recoveryLogin G h r d = Inr (rep, d')"
      using assms b
      by (auto simp: handleLogin_def Let_def check_def finish_eq is_error_def
          dest: recoveryLogin_Inl [unfolded is_error_def] split: if_splits)
    from recoveryLogin_Inr [OF this] True b show ?thesis
      by (auto simp: loginAccount_def Let_def)
  next
    case False
    then have "accountLogin G ?u ?pw (lbTOTP body) h r d = Inr (rep, d')"
      using assms b
      by (auto simp: handleLogin_def Let_def check_def finish_eq is_error_def
          dest: accountLogin_Inl [unfolded is_error_def] split: if_splits)
    from accountLogin_Inr [OF this assms(2)] b show ?thesis
      unfolding loginAccount_def Let_def by blast
  qed
qed

lemma opened_lookup:
  assumes "opened G h d p rep d'"
  shows "\<exists>b expires extra. random h 0 = Some b \<and> rep = sessionReply 200 (hex_encode b) expires p extra \<and>
    (\<forall>t < expires. fst (session (db d') t (tokenHash G (hex_encode b))) = Some p) \<and>
    (\<forall>t \<ge> expires. fst (session (db d') t (tokenHash G (hex_encode b))) = None)"
proof -
  from assms obtain i totp d1 tok expires extra where
    c: "createBrowserSession G (random h 0) (clock h i) (clock h (Suc i)) (pUsername p) (pRole p) totp d =
          Inr (tok, expires, d1)" and
    r: "rep = sessionReply 200 tok expires p extra" and v: "session_view (db d') = session_view (db d1)"
    by (auto simp: opened_def)
  obtain b where b: "random h 0 = Some b"
    using c by (auto simp: createBrowserSession_def randomSessionToken_def split: option.splits)
  have s: "createSession (db d) (clock h (Suc i)) (tokenHash G tok) (pUsername p) (pRole p) expires totp = Inr (db d1)"
    and tok: "tok = hex_encode b"
    using createBrowserSession_Inr(1,4) [OF c] b by auto
  have "\<forall>t < expires. fst (session (db d') t (tokenHash G tok)) = Some p"
    "\<forall>t \<ge> expires. fst (session (db d') t (tokenHash G tok)) = None"
    using db_sessions.lookup_created [OF s] db_sessions.lookup_created_expired [OF s] session_fst_cong [OF v]
    by simp_all
  with r b tok show ?thesis by blast
qed

section \<open>Properties\<close>


text \<open>C1: Login is sound, and its token works: a login that succeeds was made while setup is complete,
  with the credential of an enabled account of that name and a valid second factor, or with the
  recovery token; and a request that carries the returned token is authenticated as that account
  until the session expires.\<close>

theorem login_opens_session:
  assumes "handleLogin G decoded h r d = (rep, d')" and "\<not> is_error rep" and "random h 0 \<noteq> Some []"
  shows "\<exists>body p tok expires extra. decoded = Some body \<and> \<not> setupRequired d \<and> loginAccount G h d body p \<and>
    rep = sessionReply 200 tok expires p extra \<and>
    (\<forall>h2 r2. header r2 ''Authorization'' = ''Bearer '' @ tok \<and> clock h2 0 < expires \<longrightarrow>
       fst (authenticate G h2 r2 d') = Some p)"
proof -
  obtain body p where l: "decoded = Some body" "\<not> setupRequired d" "loginAccount G h d body p"
    "opened G h d p rep d'"
    using handleLogin_done [OF assms(1,2)] by blast
  obtain b expires extra where o: "random h 0 = Some b" "rep = sessionReply 200 (hex_encode b) expires p extra"
    "\<forall>t < expires. fst (session (db d') t (tokenHash G (hex_encode b))) = Some p"
    using opened_lookup [OF l(4)] by blast
  have "b \<noteq> []" using o(1) assms(3) by auto
  then have "fst (authenticate G h2 r2 d') = Some p"
    if "header r2 ''Authorization'' = ''Bearer '' @ hex_encode b" "clock h2 0 < expires" for h2 r2
    using that o(3) bearer_of_token [OF that(1)] by (simp add: authenticate_cases Let_def hex_encode_Nil)
  with l o show ?thesis by blast
qed

text \<open>Logout ends the session: after a logout request that carries a token, no request finds a
  session for that token; a request with it is authenticated only if the token is itself the
  startup token of an enabled account.\<close>

theorem logout_ends_session:
  assumes "verb r = ''POST''" and "bearerToken r = tok" and "tok \<noteq> []"
    and "bearer r2 = tok" and "fst (authenticate G h2 r2 (snd (handleLogout G h r d))) = Some p"
  shows "\<exists>u \<in> set (users d). uEnabled u \<and> tokenHash G tok = to_lower (uTokenHash u) \<and>
    p = \<lparr>pUsername = uUsername u, pRole = uRole u\<rparr>"
proof -
  have s: "snd (handleLogout G h r d) = d\<lparr>db := deleteSession (db d) (tokenHash G tok)\<rparr>"
    using assms(1-3) by (simp add: handleLogout_def Let_def)
  have "map_option (\<lambda>u. \<lparr>pUsername = uUsername u, pRole = uRole u\<rparr>)
      (find (\<lambda>u. uEnabled u \<and> tokenHash G tok = to_lower (uTokenHash u)) (users d)) = Some p"
    using assms(3-5) unfolding s by (simp add: authenticate_cases Let_def db_sessions.lookup_deleted)
  then show ?thesis by (auto dest: find_in)
qed

lemma createBrowserSession_ok:
  "random h 0 = Some b \<Longrightarrow> dbOpen (db d) \<Longrightarrow>
   \<exists>x. createBrowserSession G (random h 0) t t' u role totp d = Inr x"
  by (simp add: createBrowserSession_def randomSessionToken_def createSession_def exec_def Let_def)

lemma accountLogin_ok:
  assumes "find (\<lambda>v. uEnabled v \<and> to_lower (uUsername v) = u) (users d) = Some user"
    and "verifyUserCredential G user pw" and "uTOTPSecret user = []" and "random h 0 = Some b" and "dbOpen (db d)"
  shows "\<exists>rep d'. accountLogin G u pw c h r d = Inr (rep, d') \<and> fst rep = 200"
proof -
  have "validTOTP G [] c t" for t by (simp add: validTOTP_def normalizeTOTPSecret_def to_upper_def remove_char_def)
  moreover obtain tok expires d1 where
    "createBrowserSession G (random h 0) (clock h 1) (clock h 2) (uUsername user) (uRole user) False d
      = Inr (tok, expires, d1)"
    using createBrowserSession_ok [OF assms(4,5)] by (metis surj_pair)
  ultimately show ?thesis using assms by (simp add: accountLogin_def Let_def sessionReply_def)
qed

lemma recoveryLogin_ok:
  assumes "random h 0 = Some b" and "dbOpen (db d)"
  shows "\<exists>rep d'. recoveryLogin G h r d = Inr (rep, d') \<and> fst rep = 200"
proof -
  obtain tok expires d1 where
    "createBrowserSession G (random h 0) (clock h 0) (clock h 1) ''recovery'' ''owner'' False d = Inr (tok, expires, d1)"
    using createBrowserSession_ok [OF assms] by (metis surj_pair)
  then show ?thesis by (simp add: recoveryLogin_def Let_def sessionReply_def)
qed

lemma verifyPassword_hash: "verifyPassword G u pw \<Longrightarrow> uPasswordHash u \<noteq> []"
  by (auto simp: verifyPassword_def)

lemma to_lower_tokenHash: "to_lower (tokenHash G t) = tokenHash G t"
proof -
  have "\<forall>c \<in> set hex_alphabet. char_lower c = c" by code_simp
  with hex_encode_set show ?thesis by (fastforce simp: tokenHash_def to_lower_def intro!: map_idI)
qed

lemma tokenHash_nonempty: "hash_sizes G \<Longrightarrow> tokenHash G t \<noteq> []"
  using length_hex_encode [of "sha256 G t"] by (auto simp: tokenHash_def hash_sizes_def)

lemma ownerSetup_password:
  assumes "handleOwnerSetup G (Some body) h r d = (rep, d')" and "\<not> is_error rep"
  shows "12 \<le> length (sbPassword body)"
proof (rule ccontr)
  assume "\<not> 12 \<le> length (sbPassword body)"
  then have "is_error rep"
    using assms(1)
    by (auto simp: handleOwnerSetup_def finish_eq early_return Let_def validateOwnerPassword_def is_error_def)
  with assms(2) show False by simp
qed

text \<open>C32: After first-run setup the owner can log in: the credentials given to a setup that succeeded
  open a session, provided no other enabled account has the owner's name and no second factor is
  configured.\<close>

theorem owner_can_log_in_after_setup:
  assumes "hash_sizes G" and "handleOwnerSetup G (Some body) h r d = (rep, d')" and "fst rep = 201"
    and "random h 0 = Some salt" and "salt \<noteq> []"
    and "normalizeTOTPSecret (getenv h ''DASHBOARD_TOTP_SECRET'') = []"
    and "\<forall>u \<in> set (users d). uEnabled u \<and> \<not> isOwner u \<longrightarrow>
           to_lower (uUsername u) \<noteq> to_lower (trim_space (sbUsername body))"
    and "verb r2 = ''POST''" and "random h2 0 \<noteq> None" and "dbOpen (db d')"
    and "lbUsername login = sbUsername body" and "lbPassword login = sbPassword body"
  shows "fst (fst (handleLogin G (Some login) h2 r2 d')) = 200"
proof -
  let ?u = "to_lower (trim_space (sbUsername body))" and ?pw = "sbPassword body"
  have ok: "\<not> is_error rep" using assms(3) by (simp add: is_error_def)
  obtain hash sl it d1 where
    cred: "newPasswordCredentials G (Some salt) ?pw = Some (hash, sl, it)" and
    us: "users d1 = filter (\<lambda>u. \<not> isOwner u) (users d) @
        [\<lparr>uUsername = trim_space (sbUsername body), uRole = ''owner'', uPasswordHash = hash,
          uPasswordSalt = sl, uPasswordIterations = it, uTokenHash = [], uTOTPSecret = [], uEnabled = True\<rparr>]" and
    comp: "ufSetupComplete (loadUsersFile d1)" and
    s: "openOwnerSession G 201 ''Owner created, but browser session could not be created'' ''owner.setup''
        (trim_space (sbUsername body)) False h r
        (d1\<lparr>setupCode := [], setupCodeFile := None, db := clearSessions (db d)\<rparr>) = (rep, d')"
    using handleOwnerSetup_cases [OF assms(2)] ok assms(4,6) by auto
  let ?o = "\<lparr>uUsername = trim_space (sbUsername body), uRole = ''owner'', uPasswordHash = hash,
          uPasswordSalt = sl, uPasswordIterations = it, uTokenHash = [], uTOTPSecret = [], uEnabled = True\<rparr>"
  have us': "users d' = filter (\<lambda>u. \<not> isOwner u) (users d) @ [?o]"
    using openOwnerSession_frame(1) [OF s] us by simp
  have "\<not> setupRequired d1" using comp us by (simp add: setupRequired_def users_def isOwner_def)
  then have req: "\<not> setupRequired d'" using openOwnerSession_frame(2) [OF s] by simp
  have pw: "?pw \<noteq> []" using ownerSetup_password [OF assms(2) ok] by auto
  have "verifyPassword G ?o ?pw"
    using new_credentials_verify [OF assms(1) cred assms(5), of ?o] by simp
  then have ver: "verifyUserCredential G ?o ?pw"
    using verifyPassword_hash [of G ?o ?pw] by (simp add: verifyUserCredential_def)
  have "find (\<lambda>v. uEnabled v \<and> to_lower (uUsername v) = ?u) (filter (\<lambda>u. \<not> isOwner u) (users d)) = None"
    using assms(7) by (auto simp: find_eq_None)
  then have f: "find (\<lambda>v. uEnabled v \<and> to_lower (uUsername v) = ?u) (users d') = Some ?o"
    unfolding us' by (simp add: find_append)
  obtain b where b: "random h2 0 = Some b" using assms(9) by auto
  obtain rep2 d2 where acc: "accountLogin G ?u ?pw (lbTOTP login) h2 r2 d' = Inr (rep2, d2)" "fst rep2 = 200"
    using accountLogin_ok [OF f ver _ b assms(10), of "lbTOTP login" r2] by auto
  have rec: "\<exists>rep3 d3. recoveryLogin G h2 r2 d' = Inr (rep3, d3) \<and> fst rep3 = 200"
    using recoveryLogin_ok [OF b assms(10)] .
  show ?thesis
    using acc rec req pw assms(8,11,12) by (auto simp: handleLogin_def Let_def)
qed

text \<open>The owner can be locked out by a rename: replacing the owner's login does not check that the
  name is free, and login stops at the first enabled account of a name.  If the new name is that
  of an enabled account listed before the owner's, and no such account has the new password, then
  login with the owner's new credentials is refused.\<close>

theorem renamed_owner_may_be_locked_out:
  assumes "handleOwnerAccount G (Some body) h r d = (rep, d')" and "users d = us @ vs"
    and "\<forall>v \<in> set us. \<not> (uEnabled v \<and> isOwner v)"
    and "u \<in> set us" and "uEnabled u" and "to_lower (uUsername u) = to_lower (trim_space (obUsername body))"
    and "\<forall>v \<in> set us. uEnabled v \<and> to_lower (uUsername v) = to_lower (trim_space (obUsername body)) \<longrightarrow>
           \<not> verifyUserCredential G v (obPassword body)"
    and "to_lower (trim_space (obUsername body)) \<noteq> ''recovery''" and "obPassword body \<noteq> []"
    and "lbUsername login = obUsername body" and "lbPassword login = obPassword body"
  shows "is_error (fst (handleLogin G (Some login) h2 r2 d')) \<and> snd (handleLogin G (Some login) h2 r2 d') = d'"
proof -
  let ?u = "to_lower (trim_space (obUsername body))"
  have "\<exists>ws. users d' = us @ ws"
  proof (cases "d' = d")
    case False
    then have "updateOwnerAccount G (Some body) h r d = (rep, d')"
      using assms(1) by (auto simp: handleOwnerAccount_def Let_def split: if_splits)
    with updateOwnerAccount_cases [OF this] False obtain i owner d1 totp where
      i: "i < length (users d)" "uEnabled (users d ! i)" "isOwner (users d ! i)" and
      d1: "users d1 = (users d)[i := owner]" and
      s: "openOwnerSession G 200 ''Account updated, but browser session could not be created''
        ''owner.credentials.update'' (trim_space (obUsername body)) totp h r
        (d1\<lparr>db := clearSessions (db d)\<rparr>) = (rep, d')" by blast
    have "\<not> i < length us" using i assms(2,3) by (auto simp: nth_append)
    then show ?thesis
      using d1 assms(2) openOwnerSession_frame(1) [OF s] by (simp add: list_update_append)
  qed (use assms(2) in simp)
  then obtain ws where ws: "users d' = us @ ws" ..
  obtain v where v: "find (\<lambda>v. uEnabled v \<and> to_lower (uUsername v) = ?u) us = Some v"
    using assms(4-6) find_eq_None [of "\<lambda>v. uEnabled v \<and> to_lower (uUsername v) = ?u" us]
    by (metis not_Some_eq)
  then have "\<not> verifyUserCredential G v (obPassword body)" using assms(7) find_in [OF v] by blast
  then have "accountLogin G ?u (obPassword body) c h2 r2 d' = Inl (error_reply 401 ''Invalid login or two-factor code'')" for c
    using v ws by (simp add: accountLogin_def find_append)
  then show ?thesis
    using assms(8-11) by (auto simp: handleLogin_def Let_def check_def is_error_def attempt_def finish_def)
qed

lemma ownerSetup_open:
  assumes "handleOwnerSetup G decoded h r d = (rep, d')" and "fst rep = 201"
  shows "dbOpen (db d')"
proof -
  have ok: "\<not> is_error rep" using assms(2) by (simp add: is_error_def)
  obtain d1 u where s: "openOwnerSession G 201 ''Owner created, but browser session could not be created'' ''owner.setup''
        u False h r (d1\<lparr>setupCode := [], setupCodeFile := None, db := clearSessions (db d)\<rparr>) = (rep, d')"
    using handleOwnerSetup_cases [OF assms(1)] ok by blast
  with ok show ?thesis
    by (auto simp: openOwnerSession_def createBrowserSession_def createSession_def exec_def Let_def
        split: sum.splits option.splits if_splits)
qed
section \<open>Witnesses\<close>

definition tokenDashboard :: dashboard where
  "tokenDashboard = emptyDashboard\<lparr>recoveryToken := ''rescue'',
     usersFile := Decoded \<lparr>ufVersion = 2, ufSetupComplete = True,
       ufUsers = [plainUser ''Ninja'' ''owner'', tokenUser sample_golib ''operator'' ''operator'' ''op-token'']\<rparr>\<rparr>"

definition tokenRequest :: http_request where
  "tokenRequest = postRequest\<lparr>header := (\<lambda>k. if k = ''Authorization'' then ''Bearer op-token'' else [])\<rparr>"

lemma tokenDashboard_users:
  "users tokenDashboard = [plainUser ''Ninja'' ''owner'', tokenUser sample_golib ''operator'' ''operator'' ''op-token'']"
  by (simp add: tokenDashboard_def users_def loadUsersFile_def dashboardUsersVersion_def)

lemma tokenRequest_bearer: "bearer tokenRequest = ''op-token''" "bearerToken tokenRequest = ''op-token''"
  by code_simp+

lemma tokenDashboard_auth:
  assumes "session_view (db d) = Map.empty" and "users d = users tokenDashboard"
  shows "fst (authenticate sample_golib sampleHost tokenRequest d) =
     Some \<lparr>pUsername = ''operator'', pRole = ''operator''\<rparr>"
  using assms tokenHash_nonempty [OF sample_golib_sizes]
  by (simp add: authenticate_cases Let_def tokenRequest_bearer tokenDashboard_users db_sessions.lookup_result
      plainUser_def tokenUser_def to_lower_tokenHash)

lemma tokenDashboard_sessions: "session_view (db tokenDashboard) = Map.empty"
  by (rule ext) (simp add: tokenDashboard_def emptyDashboard_def emptyLedger_def session_view_def)


definition recoveryBody :: loginBody where
  "recoveryBody = \<lparr>lbUsername = ''Recovery'', lbPassword = ''rescue'', lbToken = [], lbTOTP = []\<rparr>"

theorem login_opens_session_witness:
  "\<exists>tok expires extra. fst (handleLogin sample_golib (Some recoveryBody) sampleHost postRequest tokenDashboard) =
     sessionReply 200 tok expires \<lparr>pUsername = ''recovery'', pRole = ''owner''\<rparr> extra"
proof -
  let ?out = "handleLogin sample_golib (Some recoveryBody) sampleHost postRequest tokenDashboard"
  have o: "isOwner (plainUser ''Ninja'' ''owner'')" "to_lower (trim_space (lbUsername recoveryBody)) = ''recovery''"
    "to_lower ''Ninja'' \<noteq> ''recovery''" "to_lower ''operator'' \<noteq> ''recovery''" by code_simp+
  have f: "\<not> setupRequired tokenDashboard" "to_lower (trim_space (lbUsername recoveryBody)) = ''recovery''"
    "list_all (\<lambda>u. to_lower (uUsername u) \<noteq> ''recovery'') (users tokenDashboard)"
    using o by (simp_all add: setupRequired_def Let_def users_def [symmetric] tokenDashboard_users tokenUser_def)
      (simp_all add: tokenDashboard_def loadUsersFile_def dashboardUsersVersion_def plainUser_def)
  have g: "recoveryToken tokenDashboard = ''rescue''" "lbPassword recoveryBody = ''rescue''"
    "dbOpen (db tokenDashboard)" "verb postRequest = ''POST''" "random sampleHost 0 = Some ''0123456789abcdef''"
    by (simp_all add: tokenDashboard_def recoveryBody_def emptyDashboard_def emptyLedger_def postRequest_def
        sampleHost_def)
  obtain rep d' where "recoveryLogin sample_golib sampleHost postRequest tokenDashboard = Inr (rep, d')" "fst rep = 200"
    using recoveryLogin_ok [OF g(5,3)] by blast
  with f g have "\<not> is_error (fst ?out)" by (simp add: handleLogin_def Let_def is_error_def)
  from login_opens_session [OF prod.collapse [symmetric] this] g(5) f(2,3) show ?thesis
    by (auto simp: loginAccount_def Let_def list_all_iff)
qed

theorem logout_ends_session_witness:
  "\<exists>u \<in> set (users tokenDashboard). tokenHash sample_golib ''op-token'' = to_lower (uTokenHash u)"
proof -
  have m: "verb tokenRequest = ''POST''" by (simp add: tokenRequest_def postRequest_def)
  have "session_view (db (snd (handleLogout sample_golib sampleHost tokenRequest tokenDashboard))) = Map.empty"
    "users (snd (handleLogout sample_golib sampleHost tokenRequest tokenDashboard)) = users tokenDashboard"
    using m by (simp_all add: handleLogout_def Let_def tokenRequest_bearer session_view_delete tokenDashboard_sessions)
  note a = tokenDashboard_auth [OF this]
  show ?thesis using logout_ends_session [OF m tokenRequest_bearer(2) _ tokenRequest_bearer(1) a] by auto
qed

definition ninjaLogin :: loginBody where
  "ninjaLogin = \<lparr>lbUsername = ''Ninja'', lbPassword = ''correct horse battery'', lbToken = [], lbTOTP = []\<rparr>"

theorem owner_can_log_in_after_setup_witness:
  "fst (fst (handleLogin sample_golib (Some ninjaLogin) sampleHost postRequest
     (snd (handleOwnerSetup sample_golib (Some setupRequest) sampleHost postRequest freshDashboard)))) = 200"
proof (rule owner_can_log_in_after_setup [OF sample_golib_sizes prod.collapse [symmetric] freshSetup_status])
  show "random sampleHost 0 = Some ''0123456789abcdef''" by (simp add: sampleHost_def)
  show "normalizeTOTPSecret (getenv sampleHost ''DASHBOARD_TOTP_SECRET'') = []" by code_simp
  show "dbOpen (db (snd (handleOwnerSetup sample_golib (Some setupRequest) sampleHost postRequest freshDashboard)))"
    by (rule ownerSetup_open [OF prod.collapse [symmetric] freshSetup_status])
  show "\<forall>u \<in> set (users freshDashboard). uEnabled u \<and> \<not> isOwner u \<longrightarrow>
      to_lower (uUsername u) \<noteq> to_lower (trim_space (sbUsername setupRequest))"
    by (simp add: freshDashboard_def emptyDashboard_def users_def loadUsersFile_def)
qed (simp_all add: sampleHost_def postRequest_def ninjaLogin_def setupRequest_def)

definition aliceDashboard :: dashboard where
  "aliceDashboard = sampleDashboard\<lparr>usersFile := Decoded \<lparr>ufVersion = 2, ufSetupComplete = True,
     ufUsers = [(plainUser ''alice'' ''admin'')\<lparr>uPasswordHash := []\<rparr>, plainUser ''Ninja'' ''owner'']\<rparr>\<rparr>"

definition aliceOwner :: ownerBody where
  "aliceOwner = \<lparr>obCurrentPassword = [], obUsername = ''Alice'', obPassword = ''correct horse battery''\<rparr>"

theorem renamed_owner_may_be_locked_out_witness:
  "is_error (fst (handleLogin sample_golib
     (Some \<lparr>lbUsername = ''Alice'', lbPassword = ''correct horse battery'', lbToken = [], lbTOTP = []\<rparr>)
     sampleHost postRequest
     (snd (handleOwnerAccount sample_golib (Some aliceOwner) sampleHost recoveryRequest aliceDashboard))))"
proof -
  let ?a = "(plainUser ''alice'' ''admin'')\<lparr>uPasswordHash := []\<rparr>"
  let ?login = "\<lparr>lbUsername = ''Alice'', lbPassword = ''correct horse battery'', lbToken = [], lbTOTP = []\<rparr>"
  have us: "users aliceDashboard = [?a] @ [plainUser ''Ninja'' ''owner'']"
    by (simp add: aliceDashboard_def users_def loadUsersFile_def dashboardUsersVersion_def)
  have f: "\<not> isOwner ?a" "to_lower (uUsername ?a) = to_lower (trim_space (obUsername aliceOwner))"
    "to_lower (trim_space (obUsername aliceOwner)) \<noteq> ''recovery''" by code_simp+
  have g: "\<not> verifyUserCredential sample_golib ?a pw" "uEnabled ?a" for pw
    by (simp_all add: verifyUserCredential_def plainUser_def)
  show ?thesis
    by (rule renamed_owner_may_be_locked_out [OF prod.collapse [symmetric] us, where u = ?a and login = ?login, THEN conjunct1])
      (use f g in \<open>simp_all add: aliceOwner_def\<close>)
qed

end
