(* ===== verification/Signing.thy ===== *)
theory Signing
  imports Access "HOL-Library.Word"
begin

text \<open>
  Requests signed by the companions on the backends: the shared secrets (\<^verbatim>\<open>companionSecret\<close>), the
  signature, freshness and replay checks of \<^verbatim>\<open>verifySignedBody\<close> and \<^verbatim>\<open>acceptReplayKey\<close> in
  \<^verbatim>\<open>dashboard/main.go\<close>, and \<^verbatim>\<open>verifyBridgeBody\<close> of \<^verbatim>\<open>dashboard/identity_bridge.go\<close>.  The difference of
  the clock and the request's timestamp is computed in 64-bit words, as in the code.
\<close>

section \<open>Secrets\<close>

definition normalizeCompanionServerID :: "string \<Rightarrow> string" where
  "normalizeCompanionServerID serverID = to_lower (trim_space serverID)"

text \<open>Reading a Go map of strings: a missing key gives the empty string.\<close>

definition map_get :: "(string \<times> string) list \<Rightarrow> string \<Rightarrow> string" where
  "map_get m k = (case map_of m k of None \<Rightarrow> [] | Some v \<Rightarrow> v)"

definition secretLine :: "(string \<times> string) list \<Rightarrow> string \<Rightarrow> (string \<times> string) list" where
  "secretLine values raw =
     (let line = trim_space (hd (split2 (CHR ''#'') raw)) in
      if line = [] then values
      else case split2 (CHR ''='') line of
        [k, v] \<Rightarrow> AList.update (trim_space k) (trim_space v) values
      | _ \<Rightarrow> values)"

definition companionSecret :: "dashboard \<Rightarrow> string \<Rightarrow> string" where
  "companionSecret d serverID0 =
     (let serverID = normalizeCompanionServerID serverID0;
          values = (case companionSecretsFile d of
             None \<Rightarrow> []
           | Some contents \<Rightarrow> foldl secretLine [] (split_on newline contents))
      in if map_get values serverID \<noteq> [] then map_get values serverID
         else if map_get values ''default'' \<noteq> [] then map_get values ''default''
         else secret d)"

section \<open>Freshness and replay\<close>

definition abs64 :: "64 word \<Rightarrow> 64 word" where
  "abs64 v = (if v <s 0 then - v else v)"

text \<open>Whether the difference of two \<^verbatim>\<open>int64\<close> values is above the limit of one minute.\<close>

definition stale :: "int \<Rightarrow> int \<Rightarrow> bool" where
  "stale now millis \<longleftrightarrow> sint (abs64 (word_of_int now - word_of_int millis)) > 60000"

definition acceptReplayKey :: "string \<Rightarrow> int \<Rightarrow> (string \<times> int) list \<Rightarrow> bool \<times> (string \<times> int) list" where
  "acceptReplayKey sig now seen0 =
     (let seen = filter (\<lambda>(key, seenAt). \<not> now - seenAt > 120000) seen0
      in if sig \<in> set (map fst seen) then (False, seen) else (True, AList.update sig now seen))"

definition signature :: "golib \<Rightarrow> string \<Rightarrow> string \<Rightarrow> string \<Rightarrow> string" where
  "signature G key timestamp body = hex_encode (hmac_sha256 G key (timestamp @ [newline] @ body))"

text \<open>The clock is read once for freshness (\<open>t\<close>) and once for the replay window (\<open>t'\<close>).\<close>

definition verifySignedBody ::
  "golib \<Rightarrow> int \<Rightarrow> int \<Rightarrow> http_request \<Rightarrow> string \<Rightarrow> dashboard \<Rightarrow> unit result \<times> dashboard" where
  "verifySignedBody G t t' r body d =
     (let timestamp = header r ''X-NinjOS-Timestamp'';
          sig = header r ''X-NinjOS-Signature'';
          serverID = normalizeCompanionServerID (header r ''X-NinjOS-Server'')
      in case atoi timestamp of
           None \<Rightarrow> (Inl ''Unauthorized'', d)
         | Some millis \<Rightarrow>
             if stale t millis \<or> serverID = [] then (Inl ''Unauthorized'', d)
             else if sig \<noteq> signature G (companionSecret d serverID) timestamp body
             then (Inl ''Unauthorized'', d)
             else
               let (fresh, seen) = acceptReplayKey sig t' (replaySeen d);
                   d1 = d\<lparr>replaySeen := seen\<rparr>
               in if fresh then (Inr (), d1) else (Inl ''Replay rejected'', d1))"

definition verifyBridgeBody ::
  "golib \<Rightarrow> int \<Rightarrow> int \<Rightarrow> http_request \<Rightarrow> string \<Rightarrow> dashboard \<Rightarrow> unit result \<times> dashboard" where
  "verifyBridgeBody G t t' r body d =
     (case verifySignedBody G t t' r body d of
        (Inr _, d1) \<Rightarrow> (Inr (), d1)
      | (Inl _, d1) \<Rightarrow>
          let serverID = normalizeCompanionServerID (header r ''X-NinjOS-Server'');
              supplied = trim_space (header r ''X-NinjOS-Bridge-Token'');
              expected = companionSecret d1 serverID
          in if serverID = [] \<or> supplied = [] \<or> expected = [] then (Inl ''Unauthorized'', d1)
             else if supplied \<noteq> expected then (Inl ''Unauthorized'', d1)
             else (Inr (), d1))"

section \<open>The freshness check\<close>

lemma sint_word_of_int64: "sint (word_of_int x :: 64 word) = (x + 2 ^ 63) mod 2 ^ 64 - 2 ^ 63"
  by (simp add: int_word_sint)

lemma sint_abs64:
  assumes "sint v = x"
  shows "sint (abs64 v) = (if x = - (2 ^ 63) then x else \<bar>x\<bar>)"
proof -
  have v: "v = word_of_int x" using assms by auto
  have x: "- (2 ^ 63) \<le> x" "x < 2 ^ 63"
    using assms sint_greater_eq [of v] sint_less [of v] by simp_all
  have "sint (- v) = (- x + 2 ^ 63) mod 2 ^ 64 - 2 ^ 63"
    using sint_word_of_int64 [of "- x"] v by simp
  then have "sint (- v) = (if x = - (2 ^ 63) then x else - x)" using x by auto
  moreover have "v <s 0 \<longleftrightarrow> x < 0" using assms by (simp add: word_sless_alt)
  ultimately show ?thesis using assms by (auto simp: abs64_def)
qed

lemma stale_iff:
  assumes "0 \<le> now" and "now < 2 ^ 62" and "in_int64 millis"
  shows "stale now millis \<longleftrightarrow> \<bar>now - millis\<bar> > 60000 \<and> now - millis \<noteq> 2 ^ 63"
proof -
  let ?x = "now - millis"
  have m: "- (2 ^ 63) \<le> millis" "millis < 2 ^ 63"
    using assms(3) by (simp_all add: in_int64_def max_int64_def min_int64_def)
  have w: "word_of_int now - word_of_int millis = (word_of_int ?x :: 64 word)" by simp
  have "sint (word_of_int ?x :: 64 word) = (if ?x < 2 ^ 63 then ?x else ?x - 2 ^ 64)"
  proof (cases "?x < 2 ^ 63")
    case False
    then have "(?x + 2 ^ 63 - 2 ^ 64) mod 2 ^ 64 = ?x + 2 ^ 63 - 2 ^ 64"
      using assms m by (intro mod_pos_pos_trivial) auto
    then have "(?x + 2 ^ 63) mod 2 ^ 64 = ?x + 2 ^ 63 - 2 ^ 64" using minus_mod_self2 by metis
    with False show ?thesis unfolding sint_word_of_int64 by simp
  next
    case True
    with assms m show ?thesis unfolding sint_word_of_int64 by simp
  qed
  from sint_abs64 [OF this] show ?thesis
    unfolding stale_def w using assms m by (auto split: if_splits)
qed

section \<open>Replay\<close>

lemma map_of_filter_keep: "map_of xs k = Some v \<Longrightarrow> p (k, v) \<Longrightarrow> map_of (filter p xs) k = Some v"
  by (induction xs) (auto split: if_splits)

lemma acceptReplayKey_keeps:
  assumes "map_of seen sig = Some s" and "now - s \<le> 120000"
  shows "map_of (snd (acceptReplayKey other now seen)) sig = Some s"
proof -
  let ?f = "filter (\<lambda>(key, seenAt). \<not> now - seenAt > 120000) seen"
  have f: "map_of ?f sig = Some s" using assms by (intro map_of_filter_keep) auto
  then have "sig \<in> set (map fst ?f)" by (metis domI dom_map_of_conv_image_fst list.set_map)
  with f show ?thesis by (auto simp: acceptReplayKey_def Let_def update_conv)
qed

lemma acceptReplayKey_rejects:
  assumes "map_of seen sig = Some s" and "now - s \<le> 120000"
  shows "\<not> fst (acceptReplayKey sig now seen)"
proof -
  have "map_of (filter (\<lambda>(key, seenAt). \<not> now - seenAt > 120000) seen) sig = Some s"
    using assms by (intro map_of_filter_keep) auto
  then have "sig \<in> set (map fst (filter (\<lambda>(key, seenAt). \<not> now - seenAt > 120000) seen))"
    by (metis domI dom_map_of_conv_image_fst list.set_map)
  then show ?thesis by (simp add: acceptReplayKey_def Let_def)
qed

lemma verifySignedBody_seen:
  "replaySeen (snd (verifySignedBody G t t' r body d)) = replaySeen d \<or>
   replaySeen (snd (verifySignedBody G t t' r body d)) =
     snd (acceptReplayKey (header r ''X-NinjOS-Signature'') t' (replaySeen d))"
  by (auto simp: verifySignedBody_def Let_def split: option.splits prod.splits)

lemma verifySignedBody_Inr:
  assumes "verifySignedBody G t t' r body d = (Inr (), d1)"
  shows "\<exists>millis. atoi (header r ''X-NinjOS-Timestamp'') = Some millis \<and> \<not> stale t millis"
    "map_of (replaySeen d1) (header r ''X-NinjOS-Signature'') = Some t'"
    "header r ''X-NinjOS-Signature'' = signature G
       (companionSecret d (normalizeCompanionServerID (header r ''X-NinjOS-Server'')))
       (header r ''X-NinjOS-Timestamp'') body"
  using assms
  by (auto simp: verifySignedBody_def acceptReplayKey_def Let_def update_conv
      split: option.splits if_splits prod.splits)

text \<open>Other signed requests, their replay window read not later than \<open>bound\<close>.\<close>

inductive other_request :: "int \<Rightarrow> dashboard \<Rightarrow> dashboard \<Rightarrow> bool" for bound where
  "x \<le> bound \<Longrightarrow> other_request bound d (snd (verifySignedBody G t x r body d))"

lemma other_requests_keep:
  assumes "(other_request bound)\<^sup>*\<^sup>* d d'" and "map_of (replaySeen d) sig = Some s" and "bound - s \<le> 120000"
  shows "map_of (replaySeen d') sig = Some s"
  using assms
proof (induction rule: rtranclp_induct)
  case (step d1 d2)
  then have "map_of (replaySeen d1) sig = Some s" by simp
  moreover from step.hyps(2) obtain x G t r body where x: "x \<le> bound"
    and d2: "d2 = snd (verifySignedBody G t x r body d1)" by (auto elim: other_request.cases)
  moreover have "x - s \<le> 120000" using x assms(3) by simp
  ultimately show ?case
    using verifySignedBody_seen [of G t x r body d1] acceptReplayKey_keeps by auto
qed simp

text \<open>The freshness check is a window of one minute on either side of the clock, but for one
  value: for a clock of this age, a timestamp passes exactly if it is within 60000 milliseconds of
  the clock or exactly 2^63 milliseconds before it, where the 64-bit difference is its own negation.\<close>

theorem freshness_window:
  assumes "0 \<le> now" and "now < 2 ^ 62" and "in_int64 millis"
  shows "\<not> stale now millis \<longleftrightarrow> \<bar>now - millis\<bar> \<le> 60000 \<or> now - millis = 2 ^ 63"
  using stale_iff [OF assms] by auto

theorem freshness_window_witness: "\<not> stale 1700000000000 (1700000000000 - 2 ^ 63)"
  using freshness_window [of 1700000000000 "1700000000000 - 2 ^ 63"]
  by (simp add: in_int64_def max_int64_def min_int64_def)

text \<open>C7: A signed request is accepted once: after it was accepted, and whatever other signed requests
  came in between, the same signature and timestamp are refused, as long as the second request's two
  clock readings are not further apart than its timestamp allows (for a timestamp that was not in
  the future, at least a minute).\<close>

theorem signed_request_accepted_once:
  assumes "verifySignedBody G t t' r body d = (Inr (), d1)" and "(other_request u')\<^sup>*\<^sup>* d1 d2"
    and "header r2 ''X-NinjOS-Signature'' = header r ''X-NinjOS-Signature''"
    and "header r2 ''X-NinjOS-Timestamp'' = header r ''X-NinjOS-Timestamp''"
    and "atoi (header r ''X-NinjOS-Timestamp'') = Some millis"
    and "0 \<le> u" and "u < 2 ^ 62" and "u - millis \<noteq> 2 ^ 63"
    and "u' - u \<le> t' - millis + 60000"
  shows "\<exists>err. fst (verifySignedBody G2 u u' r2 body2 d2) = Inl err"
proof (cases "stale u millis")
  case True
  then show ?thesis using assms(4,5) by (simp add: verifySignedBody_def Let_def)
next
  case False
  have "\<bar>u - millis\<bar> \<le> 60000"
    using False stale_iff [OF assms(6,7) atoi_in_int64 [OF assms(5)]] assms(8) by auto
  then have b: "u' - t' \<le> 120000" using assms(9) by simp
  let ?sig = "header r ''X-NinjOS-Signature''"
  have "map_of (replaySeen d2) ?sig = Some t'"
    using other_requests_keep [OF assms(2) verifySignedBody_Inr(2) [OF assms(1)] b] .
  from acceptReplayKey_rejects [OF this b] assms(3) show ?thesis
    by (auto simp: verifySignedBody_def Let_def split: option.splits prod.splits)
qed


definition signedRequest :: http_request where
  "signedRequest = postRequest\<lparr>header := (\<lambda>k.
     if k = ''X-NinjOS-Timestamp'' then ''100''
     else if k = ''X-NinjOS-Server'' then ''zoo''
     else if k = ''X-NinjOS-Signature'' then signature sample_golib ''CHANGE_ME_NOW'' ''100'' ''{}''
     else [])\<rparr>"

lemma signedRequest_headers:
  "header signedRequest ''X-NinjOS-Timestamp'' = ''100''"
  "header signedRequest ''X-NinjOS-Server'' = ''zoo''"
  "header signedRequest ''X-NinjOS-Signature'' = signature sample_golib ''CHANGE_ME_NOW'' ''100'' ''{}''"
  by (simp_all add: signedRequest_def)

lemma signedRequest_time: "atoi ''100'' = Some 100"
  by code_simp

lemma signedRequest_accepted:
  "\<exists>d1. verifySignedBody sample_golib 1100 1100 signedRequest ''{}'' emptyDashboard = (Inr (), d1)"
proof -
  have z: "normalizeCompanionServerID ''zoo'' = ''zoo''" by code_simp
  have s: "companionSecret emptyDashboard s = ''CHANGE_ME_NOW''" for s
    by (simp add: companionSecret_def emptyDashboard_def map_get_def)
  have "\<not> stale 1100 100"
    using stale_iff [of 1100 100] by (simp add: in_int64_def max_int64_def min_int64_def)
  moreover have "fst (acceptReplayKey sig now (replaySeen emptyDashboard))" for sig now
    by (simp add: acceptReplayKey_def emptyDashboard_def)
  ultimately show ?thesis
    using z s signedRequest_time
    by (simp add: verifySignedBody_def signedRequest_headers Let_def case_prod_beta)
qed

theorem signed_request_accepted_once_witness:
  "\<exists>d1 err. verifySignedBody sample_golib 1100 1100 signedRequest ''{}'' emptyDashboard = (Inr (), d1) \<and>
     fst (verifySignedBody sample_golib 50000 50000 signedRequest ''{}'' d1) = Inl err"
proof -
  obtain d1 where d1: "verifySignedBody sample_golib 1100 1100 signedRequest ''{}'' emptyDashboard
      = (Inr (), d1)" using signedRequest_accepted by blast
  have t: "atoi (header signedRequest ''X-NinjOS-Timestamp'') = Some 100"
    by (simp only: signedRequest_headers signedRequest_time)
  have "\<exists>err. fst (verifySignedBody sample_golib 50000 50000 signedRequest ''{}'' d1) = Inl err"
    by (rule signed_request_accepted_once [OF d1 rtranclp.rtrancl_refl refl refl t]) simp_all
  with d1 show ?thesis by blast
qed

section \<open>Secrets written and read back\<close>

definition plainSecret :: "string \<Rightarrow> bool" where
  "plainSecret v \<longleftrightarrow> trimmed v \<and> CHR ''#'' \<notin> set v \<and> newline \<notin> set v"

definition plainEntry :: "string \<times> string \<Rightarrow> bool" where
  "plainEntry e \<longleftrightarrow> fst e \<noteq> [] \<and> plainSecret (fst e) \<and> CHR ''='' \<notin> set (fst e) \<and> plainSecret (snd e)"

definition entryLine :: "string \<times> string \<Rightarrow> string" where
  "entryLine e = fst e @ ''='' @ snd e"

lemma trimmed_entryLine:
  assumes "plainEntry e"
  shows "trimmed (entryLine e)"
proof -
  have eq: "is_ascii (CHR ''='')" "CHR ''='' \<notin> set ascii_spaces" by code_simp+
  have "starts_clean (fst e @ ''='' @ snd e)"
    using assms eq by (intro starts_clean_append) (auto simp: plainEntry_def plainSecret_def trimmed_def)
  moreover have "ends_clean ((fst e @ ''='') @ snd e)"
  proof (cases "snd e = []")
    case True
    then show ?thesis using ends_clean_ascii [OF eq, of "fst e"] by simp
  next
    case False
    then show ?thesis
      using assms eq by (intro ends_clean_append) (auto simp: plainEntry_def plainSecret_def trimmed_def)
  qed
  ultimately show ?thesis by (simp add: trimmed_def entryLine_def)
qed

lemma secretLine_entry:
  assumes "plainEntry e"
  shows "secretLine m (entryLine e) = AList.update (fst e) (snd e) m"
proof -
  have "CHR ''#'' \<notin> set (entryLine e)" using assms by (auto simp: plainEntry_def plainSecret_def entryLine_def)
  then have h: "split2 (CHR ''#'') (entryLine e) = [entryLine e]" by (rule split2_notin)
  have "split2 (CHR ''='') (entryLine e) = [fst e, snd e]"
    using assms split2_append [of "CHR ''=''" "fst e" "snd e"] by (simp add: plainEntry_def entryLine_def)
  moreover have "trim_space (fst e) = fst e" "trim_space (snd e) = snd e"
    using assms by (simp_all add: plainEntry_def plainSecret_def trim_space_id)
  moreover have "entryLine e \<noteq> []" by (simp add: entryLine_def)
  ultimately show ?thesis
    using h trim_space_id [OF trimmed_entryLine [OF assms]] by (simp add: secretLine_def Let_def)
qed

lemma secretLine_skip: "secretLine m (CHR ''#'' # s) = m" "secretLine m [] = m"
  using split2_append [of "CHR ''#''" "[]" s] split2_notin [of "CHR ''#''" "[]"]
  by (simp_all add: secretLine_def Let_def)

lemma foldl_secretLine:
  "list_all plainEntry es \<Longrightarrow>
   map_of (foldl secretLine m (map entryLine es)) k = (map_of m ++ map_of (rev es)) k"
proof (induction es arbitrary: m)
  case (Cons e es)
  then show ?case
    by (cases e) (auto simp: secretLine_entry update_conv map_add_def split: option.splits)
qed simp

lemma foldl_keeps: "(\<And>s x. P s \<Longrightarrow> P (f s x)) \<Longrightarrow> P s \<Longrightarrow> P (foldl f s xs)"
  by (induction xs arbitrary: s) auto

lemma keptSecrets_keys: "distinct (map fst (keptSecrets f)) \<and> ''default'' \<notin> set (map fst (keptSecrets f))"
proof (cases f)
  case (Some contents)
  have "distinct (map fst (keepSecret s raw)) \<and> ''default'' \<notin> set (map fst (keepSecret s raw))"
    if "distinct (map fst s) \<and> ''default'' \<notin> set (map fst s)" for s raw
    using that by (auto simp: keepSecret_def Let_def distinct_update dom_update split: list.splits)
  then show ?thesis
    unfolding keptSecrets_def Some option.case
    by (intro foldl_keeps [where P = "\<lambda>s. distinct (map fst s) \<and> ''default'' \<notin> set (map fst s)"]) auto
qed (simp add: keptSecrets_def)

lemma entryLines_no_newline: "list_all plainEntry es \<Longrightarrow> \<forall>x \<in> set (map entryLine es). newline \<notin> set x"
  by (induction es) (auto simp: plainEntry_def plainSecret_def entryLine_def newline_def)

lemma header_lines:
  "\<forall>x \<in> set [''# server_id=shared_secret'', ''# Use a unique secret per backend when possible.'']. newline \<notin> set x"
  by code_simp

lemma secretsText_lines:
  assumes "dflt \<noteq> []"
  shows "secretsText dflt secrets = concat (map (\<lambda>l. l @ [newline])
    ([''# server_id=shared_secret'', ''# Use a unique secret per backend when possible.''] @
     map entryLine ((''default'', dflt) # map (\<lambda>k. (k, the (map_of secrets k))) (sort (map fst secrets)))))"
  using assms by (simp add: secretsText_def entryLine_def comp_def)

lemma map_of_sorted_keys:
  "map_of (map (\<lambda>k. (k, the (map_of m k))) (sort (map fst m))) k = map_of m k"
proof (cases "k \<in> set (map fst m)")
  case True
  then have "map_of (map (\<lambda>k. (k, the (map_of m k))) (sort (map fst m))) k = Some (the (map_of m k))"
    by (intro map_of_map_restrict [THEN fun_cong, THEN trans]) (simp add: restrict_map_def)
  with True show ?thesis by (metis map_of_eq_None_iff option.collapse list.set_map)
next
  case False
  then have "map_of m k = None" "map_of (map (\<lambda>k. (k, the (map_of m k))) (sort (map fst m))) k = None"
    by (simp_all add: map_of_eq_None_iff image_image)
  then show ?thesis by simp
qed

text \<open>The file that start-up writes, as the signature check reads it.\<close>

lemma written_secrets:
  assumes "plainSecret s" and "s \<noteq> []" and "list_all plainEntry m" and "distinct (map fst m)"
    and "''default'' \<notin> set (map fst m)"
  shows "map_of (foldl secretLine [] (split_on newline (secretsText s m))) k =
    (if k = ''default'' then Some s else map_of m k)"
proof -
  let ?es = "(''default'', s) # map (\<lambda>k. (k, the (map_of m k))) (sort (map fst m))"
  let ?hs = "[''# server_id=shared_secret'', ''# Use a unique secret per backend when possible.'']"
  have dflt: "plainSecret ''default''" "CHR ''='' \<notin> set ''default''" by code_simp+
  have e: "plainEntry (k, the (map_of m k))" if "k \<in> set (map fst m)" for k
  proof -
    from that obtain v where "(k, v) \<in> set m" by auto
    with assms(4) have "map_of m k = Some v" by simp
    with \<open>(k, v) \<in> set m\<close> assms(3) show ?thesis by (auto simp: list_all_iff)
  qed
  have es: "list_all plainEntry ?es"
    using e dflt assms(1) by (auto simp: list_all_iff plainEntry_def)
  have "\<forall>x \<in> set (?hs @ map entryLine ?es). newline \<notin> set x"
    using entryLines_no_newline [OF es] header_lines by (auto simp only: set_append Un_iff)
  then have "split_on newline (secretsText s m) = ?hs @ map entryLine ?es @ [[]]"
    unfolding secretsText_lines [OF assms(2)] by (simp only: split_on_terminated append_assoc)
  then have "foldl secretLine [] (split_on newline (secretsText s m)) = foldl secretLine [] (map entryLine ?es)"
    by (simp only: foldl_append foldl_Cons foldl_Nil secretLine_skip)
  then have "map_of (foldl secretLine [] (split_on newline (secretsText s m))) k = map_of (rev ?es) k"
    using foldl_secretLine [OF es, of "[]" k] by simp
  also have "map_of (rev ?es) k = map_of ?es k"
  proof -
    have "distinct (map fst ?es)" using assms(4,5) by (auto simp: comp_def)
    then have "map_of (rev ?es) = map_of ?es"
      by (subst map_of_inject_set) (simp_all only: rev_map [symmetric] distinct_rev set_rev)
    then show ?thesis by simp
  qed
  finally show ?thesis using map_of_sorted_keys [of m k] by simp
qed

lemma ensured_files:
  assumes "ensureSecurityFiles G h d = Some d'"
  shows "\<exists>u. d' = d\<lparr>usersFile := u, companionSecretsFile := Some (secretsText (secret d) (keptSecrets (companionSecretsFile d)))\<rparr>"
proof (cases "diskOK h 0")
  case True
  then have "saveUsersFile (diskOK h 0) payload d = Inr (d\<lparr>usersFile := Decoded (payload\<lparr>ufVersion := dashboardUsersVersion\<rparr>)\<rparr>)" for payload
    by (simp add: saveUsersFile_def)
  with assms show ?thesis unfolding ensureSecurityFiles_def Let_def by auto
next
  case False
  with assms show ?thesis unfolding ensureSecurityFiles_def Let_def saveUsersFile_def by simp
qed

text \<open>Start-up and the signature check agree on the companion secrets: after start-up has written
  the secrets file, a server with its own kept secret is checked against that one, and every other
  server against the shared secret; for secrets that hold no hash sign or line break and no white
  space around them.\<close>

theorem companion_secrets_read_back:
  assumes "ensureSecurityFiles G h d = Some d'" and "plainSecret (secret d)" and "secret d \<noteq> []"
    and "list_all plainEntry (keptSecrets (companionSecretsFile d))"
  shows "companionSecret d' server =
    (let own = map_get (keptSecrets (companionSecretsFile d)) (normalizeCompanionServerID server)
     in if own \<noteq> [] then own else secret d)"
proof -
  let ?m = "keptSecrets (companionSecretsFile d)"
  have f: "companionSecretsFile d' = Some (secretsText (secret d) ?m)"
    using ensured_files [OF assms(1)] by auto
  have "map_of (foldl secretLine [] (split_on newline (secretsText (secret d) ?m))) k =
      (if k = ''default'' then Some (secret d) else map_of ?m k)" for k
    using keptSecrets_keys assms(2-4) by (intro written_secrets) auto
  moreover have "map_of ?m ''default'' = None"
    using keptSecrets_keys [of "companionSecretsFile d"] by (simp add: map_of_eq_None_iff)
  ultimately show ?thesis
    using assms(3) by (simp add: companionSecret_def f map_get_def Let_def)
qed

lemma ensureSecurityFiles_ok: "diskOK h 0 \<Longrightarrow> \<exists>d'. ensureSecurityFiles G h d = Some d'"
  by (simp add: ensureSecurityFiles_def saveUsersFile_def Let_def)

theorem companion_secrets_read_back_witness:
  "\<exists>d'. ensureSecurityFiles sample_golib sampleHost emptyDashboard = Some d' \<and>
     companionSecret d' ''zoo'' = ''CHANGE_ME_NOW''"
proof -
  obtain d' where d': "ensureSecurityFiles sample_golib sampleHost emptyDashboard = Some d'"
    using ensureSecurityFiles_ok [of sampleHost] by (auto simp: sampleHost_def)
  have "plainSecret ''CHANGE_ME_NOW''" by code_simp
  moreover have e: "secret emptyDashboard = ''CHANGE_ME_NOW''" "keptSecrets (companionSecretsFile emptyDashboard) = []"
    by (simp_all add: emptyDashboard_def keptSecrets_def)
  ultimately have "companionSecret d' ''zoo'' = ''CHANGE_ME_NOW''"
    using companion_secrets_read_back [OF d', of "''zoo''"] by (simp add: map_get_def)
  with d' show ?thesis by blast
qed

text \<open>A shared secret with a hash sign is cut there: start-up writes it to the secrets file as it is,
  and the signature check takes what follows the sign for a comment, so companions that sign with
  the configured secret are checked against another one.\<close>

lemma hash_sign_cuts_secret:
  assumes "ensureSecurityFiles G h d = Some d'" and "companionSecretsFile d = None"
    and "secret d = a @ ''#'' @ b" and "plainSecret a" and "a \<noteq> []" and "newline \<notin> set b"
  shows "companionSecret d' server = a"
proof -
  have f: "companionSecretsFile d' = Some (secretsText (secret d) [])"
    using ensured_files [OF assms(1)] assms(2) by (auto simp: keptSecrets_def)
  let ?hs = "[''# server_id=shared_secret'', ''# Use a unique secret per backend when possible.'']"
  let ?l = "entryLine (''default'', secret d)"
  have dflt: "plainSecret ''default''" "CHR ''='' \<notin> set ''default''" "\<forall>x \<in> set ?hs. newline \<notin> set x"
    "newline \<notin> set ''default=''" "CHR ''#'' \<notin> set ''default=''" by code_simp+
  have ne: "secret d \<noteq> []" using assms(3) by simp
  have "\<forall>x \<in> set (?hs @ map entryLine [(''default'', secret d)]). newline \<notin> set x"
    using dflt assms(3,4,6) by (auto simp: entryLine_def plainSecret_def newline_def)
  moreover have "secretsText (secret d) [] =
      concat (map (\<lambda>l. l @ [newline]) (?hs @ map entryLine [(''default'', secret d)]))"
    using secretsText_lines [of "secret d" "[]"] ne by simp
  ultimately have "split_on newline (secretsText (secret d) []) = ?hs @ map entryLine [(''default'', secret d)] @ [[]]"
    by (simp only: split_on_terminated append_assoc)
  then have g: "foldl secretLine [] (split_on newline (secretsText (secret d) [])) = secretLine [] ?l"
    by (simp only: foldl_append foldl_Cons foldl_Nil secretLine_skip list.map)
  have "?l = entryLine (''default'', a) @ CHR ''#'' # b" using assms(3) by (simp add: entryLine_def)
  moreover have n: "CHR ''#'' \<notin> set (entryLine (''default'', a))"
    using dflt assms(4) by (auto simp: entryLine_def plainSecret_def)
  ultimately have "hd (split2 (CHR ''#'') ?l) = entryLine (''default'', a)" by (simp add: split2_append)
  then have "secretLine [] ?l = secretLine [] (entryLine (''default'', a))"
    using split2_notin [OF n] by (simp add: secretLine_def)
  also have "\<dots> = [(''default'', a)]"
    using secretLine_entry [of "(''default'', a)" "[]"] dflt assms(4,5) by (simp add: plainEntry_def)
  finally show ?thesis
    using g assms(5) by (auto simp: companionSecret_def f map_get_def Let_def)
qed

lemma hash_sign_cuts_secret_witness:
  "\<exists>d'. ensureSecurityFiles sample_golib sampleHost (emptyDashboard\<lparr>secret := ''s3cret#1''\<rparr>) = Some d' \<and>
     companionSecret d' ''zoo'' = ''s3cret''"
proof -
  let ?d = "emptyDashboard\<lparr>secret := ''s3cret#1''\<rparr>"
  obtain d' where d': "ensureSecurityFiles sample_golib sampleHost ?d = Some d'"
    using ensureSecurityFiles_ok [of sampleHost sample_golib ?d] by (auto simp: sampleHost_def)
  have p: "plainSecret ''s3cret''" "newline \<notin> set ''1''" by code_simp+
  have "companionSecret d' ''zoo'' = ''s3cret''"
    using hash_sign_cuts_secret [OF d' _ _ p(1) _ p(2)] by (simp add: emptyDashboard_def)
  with d' show ?thesis by blast
qed

end
