(* ===== verification/Identity.thy ===== *)
theory Identity
  imports Signing
begin

text \<open>
  The identity bridge, \<^verbatim>\<open>dashboard/identity_bridge.go\<close>: the session core asks for a grant when it has
  checked a player's login, the backend's companion consumes it when the player arrives, and vanilla
  agents fetch the list of operators.  The map of grants is a list of its entries in the order in
  which Go's \<^verbatim>\<open>range\<close> yields them; the statements hold for every such list, so for every order.
  A request's body arrives as bytes with the function that decodes it, \<open>None\<close> when it cannot.
\<close>

section \<open>Roles\<close>

definition roleOperator :: "string \<Rightarrow> bool" where
  "roleOperator role \<longleftrightarrow>
     to_lower (trim_space role) \<in> {''owner'', ''administrator'', ''admin'', ''operator''}"

definition rolePermissions :: "string \<Rightarrow> string list" where
  "rolePermissions role =
     (let r = to_lower (trim_space role) in
      if r = ''owner'' then [''*'']
      else if r = ''administrator'' \<or> r = ''admin''
      then [''ninjos.admin.*'', ''ninjos.command.*'', ''endstone.command.*'']
      else if r = ''operator'' then [''ninjos.command.*'', ''endstone.command.*'']
      else if r = ''moderator'' \<or> r = ''mod''
      then [''ninjos.command.server'', ''ninjos.command.hub'', ''ninjos.moderation.*'']
      else [''ninjos.command.server'', ''ninjos.command.hub'', ''ninjos.command.glist''])"

definition sessionCoreAuthorized :: "dashboard \<Rightarrow> http_request \<Rightarrow> bool" where
  "sessionCoreAuthorized d r =
     (let supplied = bearer r
      in if supplied = [] \<or> sessionCoreToken d = [] then False else supplied = sessionCoreToken d)"

section \<open>Grants\<close>

definition randomTicketID :: "string option \<Rightarrow> string option" where
  "randomTicketID draw = map_option hex_encode draw"

type_synonym grants = "(string \<times> identityGrant) list"

definition cleanupIdentityGrants :: "int \<Rightarrow> grants \<Rightarrow> grants" where
  "cleanupIdentityGrants now gs =
     filter (\<lambda>(i, g). \<not> (igExpiresAt g < now \<or> (igConsumedAt g > 0 \<and> now - igConsumedAt g > 60000))) gs"

definition jgrant :: "identityGrant \<Rightarrow> json" where
  "jgrant g = JObj (
     [(''grantId'', JStr (igGrantID g)), (''sessionId'', JStr (igSessionID g)),
      (''serverId'', JStr (igServerID g)), (''username'', JStr (igUsername g)),
      (''xuid'', JStr (igXUID g)), (''uuid'', JStr (igUUID g)), (''originalIp'', JStr (igOriginalIP g))] @
     (if igDeviceOS g \<noteq> [] then [(''deviceOs'', JStr (igDeviceOS g))] else []) @
     (if igClientVersion g \<noteq> [] then [(''clientVersion'', JStr (igClientVersion g))] else []) @
     (if igProtocolVersion g \<noteq> 0 then [(''protocolVersion'', jint (igProtocolVersion g))] else []) @
     [(''role'', JStr (igRole g)), (''operator'', JBool (igOperator g)),
      (''permissions'', JArr (map JStr (igPermissions g))),
      (''createdAt'', jint (igCreatedAt g)), (''expiresAt'', jint (igExpiresAt g))] @
     (if igConsumedAt g \<noteq> 0 then [(''consumedAt'', jint (igConsumedAt g))] else []))"

definition normalGrant :: "identityGrant \<Rightarrow> identityGrant" where
  "normalGrant q =
     q\<lparr>igServerID := normalizeCompanionServerID (igServerID q), igUsername := trim_space (igUsername q),
       igXUID := trim_space (igXUID q), igSessionID := trim_space (igSessionID q)\<rparr>"

definition fillGrant :: "int \<Rightarrow> string \<Rightarrow> identityGrant \<Rightarrow> identityGrant" where
  "fillGrant created role q =
     q\<lparr>igRole := role, igOperator := roleOperator role, igPermissions := rolePermissions role,
       igCreatedAt := created,
       igExpiresAt := (if igExpiresAt q \<le> created \<or> igExpiresAt q - created > 120000
                       then created + 30000 else igExpiresAt q)\<rparr>"

definition storeGrant :: "host \<Rightarrow> identityGrant \<Rightarrow> dashboard \<Rightarrow> dashboard" where
  "storeGrant h g d = appendEvent h
     [(''timestamp'', jint (igCreatedAt g)), (''type'', JStr ''identity.grant_created''), (''severity'', JStr ''info''),
      (''serverId'', JStr (igServerID g)), (''player'', JStr (igUsername g)), (''xuid'', JStr (igXUID g)),
      (''message'', JStr (''Signed identity prepared for '' @ igUsername g @ '' on '' @ igServerID g))]
     (d\<lparr>identityGrants := AList.update (igGrantID g) g (cleanupIdentityGrants (igCreatedAt g) (identityGrants d)),
        db := upsertProfile (db d) (igXUID g) (igUsername g) (igServerID g) (igCreatedAt g)\<rparr>)"

definition handleIdentityGrant :: "identityGrant option \<Rightarrow> handler" where
  "handleIdentityGrant decoded h r d = finish d (
     attempt (check (verb r = ''POST'') (error_reply 405 ''Method not allowed'')) (\<lambda>_.
     attempt (check (sessionCoreAuthorized d r) (error_reply 401 ''Session core authorization failed'')) (\<lambda>_.
     attempt (some_or (error_reply 400 ''Invalid identity grant'') decoded) (\<lambda>request0.
     let request = normalGrant request0 in
     attempt (check (\<not> (igServerID request = [] \<or> igUsername request = [] \<or> igSessionID request = []))
       (error_reply 400 ''serverId, username, and sessionId are required'')) (\<lambda>_.
     let (role, banned, access, notes) = profileIdentity (db d) (igXUID request) in
     attempt (check (\<not> banned) (error_reply 403 ''Player is network banned'')) (\<lambda>_.
     attempt (check (map_of access (igServerID request) \<noteq> Some False)
       (error_reply 403 ''Player is not allowed on this backend'')) (\<lambda>_.
     let request = fillGrant (clock h 0) (if role = [] then ''member'' else role) request in
     attempt (if igGrantID request = []
              then some_or (error_reply 500 ''random source failed'') (randomTicketID (random h 0))
              else Inr (igGrantID request)) (\<lambda>grantID.
     let request = request\<lparr>igGrantID := grantID\<rparr>
     in Inr ((201, jgrant request), storeGrant h request d)))))))))"

text \<open>The helper that joins paths in this file.\<close>

definition filepathJoin :: "string list \<Rightarrow> string" where
  "filepathJoin parts =
     (case parts of
        [] \<Rightarrow> []
      | p # ps \<Rightarrow> foldl (\<lambda>res part. res @ ''/'' @ trim_set part [CHR ''/'', CHR 0x5C]) (trim_right_set p [CHR ''/'', CHR 0x5C]) ps)"

section \<open>Consuming a grant\<close>

record consumeRequest =
  crServerID :: string
  crUsername :: string
  crSessionID :: string

definition zeroGrant :: identityGrant where
  "zeroGrant = \<lparr>igGrantID = [], igSessionID = [], igServerID = [], igUsername = [], igXUID = [], igUUID = [],
     igOriginalIP = [], igDeviceOS = [], igClientVersion = [], igProtocolVersion = 0, igRole = [],
     igOperator = False, igPermissions = [], igCreatedAt = 0, igExpiresAt = 0, igConsumedAt = 0\<rparr>"

definition eligible :: "int \<Rightarrow> consumeRequest \<Rightarrow> identityGrant \<Rightarrow> bool" where
  "eligible now request g \<longleftrightarrow>
     \<not> (igConsumedAt g \<noteq> 0 \<or> igExpiresAt g < now \<or> igServerID g \<noteq> crServerID request) \<and>
     \<not> (crSessionID request \<noteq> [] \<and> igSessionID g \<noteq> crSessionID request) \<and>
     equal_fold (igUsername g) (crUsername request)"

definition selectGrant :: "int \<Rightarrow> consumeRequest \<Rightarrow> grants \<Rightarrow> string \<times> identityGrant" where
  "selectGrant now request gs =
     foldl (\<lambda>(selectedID, selected) (i, g).
        if \<not> eligible now request g then (selectedID, selected)
        else if selectedID = [] \<or> igCreatedAt g > igCreatedAt selected then (i, g)
        else (selectedID, selected)) ([], zeroGrant) gs"

definition consumeGrant :: "int \<Rightarrow> consumeRequest \<Rightarrow> dashboard \<Rightarrow> reply \<times> dashboard" where
  "consumeGrant now request d =
     (let grants = cleanupIdentityGrants now (identityGrants d);
          (selectedID, selected) = selectGrant now request grants
      in if selectedID = []
         then (error_reply 404 ''No valid proxy identity grant is waiting for this player'',
               d\<lparr>identityGrants := grants\<rparr>)
         else let selected = selected\<lparr>igConsumedAt := now\<rparr>
              in ((200, jgrant selected), d\<lparr>identityGrants := AList.update selectedID selected grants\<rparr>))"

definition normalRequest :: "consumeRequest \<Rightarrow> consumeRequest" where
  "normalRequest q = q\<lparr>crServerID := normalizeCompanionServerID (crServerID q), crUsername := trim_space (crUsername q)\<rparr>"

definition handleIdentityConsume ::
  "golib \<Rightarrow> string option \<Rightarrow> (string \<Rightarrow> consumeRequest option) \<Rightarrow> handler" where
  "handleIdentityConsume G readBody decode h r d = finish d (
     attempt (check (verb r = ''POST'') (error_reply 405 ''Method not allowed'')) (\<lambda>_.
     attempt (some_or (error_reply 400 ''Invalid request'') readBody) (\<lambda>body.
     Inr (case verifyBridgeBody G (clock h 0) (clock h 1) r body d of
       (Inl err, d1) \<Rightarrow> (error_reply 401 err, d1)
     | (Inr _, d1) \<Rightarrow>
         (case decode body of
            None \<Rightarrow> (error_reply 400 ''Invalid JSON'', d1)
          | Some request \<Rightarrow> consumeGrant (clock h 2) (normalRequest request) d1)))))"

section \<open>Operators of a backend\<close>

definition snapshotEntry :: "profile_row \<Rightarrow> json" where
  "snapshotEntry row =
     JObj [(''xuid'', JStr (pr_xuid row)), (''gamertag'', JStr (pr_gamertag row)),
           (''permission'', JStr ''operator''), (''role'', JStr (pr_network_role row))]"

definition snapshotRows :: "ledger \<Rightarrow> string \<Rightarrow> profile_row list" where
  "snapshotRows l server =
     filter (\<lambda>row. \<not> (pr_network_banned row \<or> pr_xuid row = [] \<or> \<not> roleOperator (pr_network_role row)) \<and>
                   fst (profileAccess l (pr_xuid row) server)) (profiles l 10000)"

definition handlePermissionSnapshot ::
  "golib \<Rightarrow> string option \<Rightarrow> (string \<Rightarrow> string option) \<Rightarrow> handler" where
  "handlePermissionSnapshot G readBody decode h r d = finish d (
     attempt (check (verb r = ''POST'') (error_reply 405 ''Method not allowed'')) (\<lambda>_.
     attempt (some_or (error_reply 401 ''Unauthorized'') readBody) (\<lambda>body.
     Inr (case verifyBridgeBody G (clock h 0) (clock h 1) r body d of
       (Inl _, d1) \<Rightarrow> (error_reply 401 ''Unauthorized'', d1)
     | (Inr _, d1) \<Rightarrow>
         (case decode body of
            None \<Rightarrow> (error_reply 400 ''Invalid JSON'', d1)
          | Some serverID0 \<Rightarrow>
              let serverID = normalizeCompanionServerID serverID0
              in ((200, JObj [(''serverId'', JStr serverID),
                              (''operators'', JArr (map snapshotEntry (snapshotRows (db d1) serverID))),
                              (''generatedAt'', jint (clock h 2))]), d1))))))"

section \<open>Lemmas\<close>

lemma verifyBridgeBody_frame:
  assumes "verifyBridgeBody G t t' r body d = (res, d1)"
  shows "identityGrants d1 = identityGrants d" "db d1 = db d"
  using assms by (auto simp: verifyBridgeBody_def verifySignedBody_def Let_def
      split: option.splits sum.splits prod.splits if_splits)

definition grants_wf :: "grants \<Rightarrow> bool" where
  "grants_wf gs \<longleftrightarrow> distinct (map fst gs) \<and> [] \<notin> set (map fst gs)"

lemma grants_wf_cleanup: "grants_wf gs \<Longrightarrow> grants_wf (cleanupIdentityGrants now gs)"
  by (auto simp: grants_wf_def cleanupIdentityGrants_def distinct_map_filter)

lemma grants_wf_update: "grants_wf gs \<Longrightarrow> i \<noteq> [] \<Longrightarrow> grants_wf (AList.update i g gs)"
  by (auto simp: grants_wf_def distinct_update dom_update)

lemma map_of_cleanup: "map_of (cleanupIdentityGrants now gs) i = Some g \<Longrightarrow> grants_wf gs \<Longrightarrow> map_of gs i = Some g"
  by (auto simp: grants_wf_def cleanupIdentityGrants_def distinct_map_filter)

text \<open>The loop of \<^verbatim>\<open>handleIdentityConsume\<close>: nothing eligible, or the first of the newest eligible ones.\<close>

lemma selectGrant_spec:
  assumes "[] \<notin> set (map fst gs)"
  shows "case selectGrant now q gs of
    (i, g) \<Rightarrow> if i = [] then \<forall>(j, g') \<in> set gs. \<not> eligible now q g'
      else (i, g) \<in> set gs \<and> eligible now q g \<and>
        (\<forall>(j, g') \<in> set gs. eligible now q g' \<longrightarrow> igCreatedAt g' \<le> igCreatedAt g)"
  using assms
proof (induction gs rule: rev_induct)
  case Nil
  then show ?case by (simp add: selectGrant_def)
next
  case (snoc x gs)
  obtain j g' where x: "x = (j, g')" by (cases x)
  obtain i g where sel: "selectGrant now q gs = (i, g)" by fastforce
  from snoc sel have ih: "if i = [] then \<forall>(j, g') \<in> set gs. \<not> eligible now q g'
      else (i, g) \<in> set gs \<and> eligible now q g \<and>
        (\<forall>(j, g') \<in> set gs. eligible now q g' \<longrightarrow> igCreatedAt g' \<le> igCreatedAt g)" by simp
  have "selectGrant now q (gs @ [x]) = (if \<not> eligible now q g' then (i, g)
      else if i = [] \<or> igCreatedAt g' > igCreatedAt g then (j, g') else (i, g))"
    using sel x by (simp add: selectGrant_def)
  with ih x snoc.prems show ?case by (auto split: if_splits)
qed

text \<open>What consuming does: nothing but the clean-up, or one grant is marked.\<close>

lemma consumeGrant_cases:
  assumes "consumeGrant now q d = (rep, d')" and "grants_wf (identityGrants d)"
  obtains (none) "is_error rep" "identityGrants d' = cleanupIdentityGrants now (identityGrants d)"
  | (one) i g where "i \<noteq> []" "map_of (identityGrants d) i = Some g" "eligible now q g"
      "\<forall>(j, g') \<in> set (cleanupIdentityGrants now (identityGrants d)). eligible now q g' \<longrightarrow> igCreatedAt g' \<le> igCreatedAt g"
      "rep = (200, jgrant (g\<lparr>igConsumedAt := now\<rparr>))"
      "identityGrants d' = AList.update i (g\<lparr>igConsumedAt := now\<rparr>) (cleanupIdentityGrants now (identityGrants d))"
proof -
  let ?gs = "cleanupIdentityGrants now (identityGrants d)"
  obtain i g where sel: "selectGrant now q ?gs = (i, g)" by fastforce
  have wf: "grants_wf ?gs" by (rule grants_wf_cleanup [OF assms(2)])
  show thesis
  proof (cases "i = []")
    case True
    with sel assms(1) show ?thesis by (intro none) (auto simp: consumeGrant_def Let_def)
  next
    case False
    then have s: "(i, g) \<in> set ?gs" "eligible now q g"
      "\<forall>(j, g') \<in> set ?gs. eligible now q g' \<longrightarrow> igCreatedAt g' \<le> igCreatedAt g"
      using selectGrant_spec [of ?gs now q] sel wf by (auto simp: grants_wf_def)
    have "map_of (identityGrants d) i = Some g"
      by (rule map_of_cleanup [of now, OF _ assms(2)]) (use s(1) wf in \<open>simp add: grants_wf_def\<close>)
    with False s sel assms(1) show ?thesis by (intro one [of i g]) (auto simp: consumeGrant_def Let_def)
  qed
qed

lemma handleIdentityConsume_cases:
  assumes "handleIdentityConsume G readBody decode h r d = (rep, d')"
  obtains (refused) "is_error rep" "identityGrants d' = identityGrants d"
  | (asked) body q d1 where "readBody = Some body" "decode body = Some q"
      "verifyBridgeBody G (clock h 0) (clock h 1) r body d = (Inr (), d1)"
      "identityGrants d1 = identityGrants d" "consumeGrant (clock h 2) (normalRequest q) d1 = (rep, d')"
proof (cases "verb r = ''POST'' \<and> readBody \<noteq> None")
  case False
  then have "is_error rep" "d' = d" using assms
    by (auto simp: handleIdentityConsume_def finish_eq early_return is_error_def)
  then show thesis by (intro refused) auto
next
  case True
  then obtain body where b: "readBody = Some body" by auto
  obtain res d1 where v: "verifyBridgeBody G (clock h 0) (clock h 1) r body d = (res, d1)" by fastforce
  have d1: "identityGrants d1 = identityGrants d" by (rule verifyBridgeBody_frame(1) [OF v])
  show thesis
  proof (cases "res = Inr () \<and> decode body \<noteq> None")
    case False
    then have "is_error rep" "d' = d1" using assms True b v
      by (auto simp: handleIdentityConsume_def split: sum.splits option.splits)
    then show thesis using d1 by (intro refused) auto
  next
    case ok: True
    then obtain q where q: "decode body = Some q" by auto
    have "consumeGrant (clock h 2) (normalRequest q) d1 = (rep, d')"
      using assms True b v ok q by (simp add: handleIdentityConsume_def)
    then show thesis using b q v ok d1 by (intro asked [of body q d1]) auto
  qed
qed

lemma eligible_survives:
  "map_of gs j = Some g \<Longrightarrow> eligible now q g \<Longrightarrow> (j, g) \<in> set (cleanupIdentityGrants now gs)"
  by (auto simp: cleanupIdentityGrants_def eligible_def dest: map_of_SomeD)

section \<open>Properties\<close>

inductive consume_step :: "dashboard \<Rightarrow> dashboard \<Rightarrow> bool" where
  "consume_step d (snd (handleIdentityConsume G readBody decode h r d))"

lemma consumeGrant_wf:
  assumes "consumeGrant now q d = (rep, d')" and "grants_wf (identityGrants d)"
  shows "grants_wf (identityGrants d')"
  by (rule consumeGrant_cases [OF assms]) (use assms(2) in \<open>simp_all add: grants_wf_cleanup grants_wf_update\<close>)

lemma consume_step_wf: "consume_step d d' \<Longrightarrow> grants_wf (identityGrants d) \<Longrightarrow> grants_wf (identityGrants d')"
proof (induction rule: consume_step.induct)
  case (1 d G readBody decode h r)
  obtain rep d' where e: "handleIdentityConsume G readBody decode h r d = (rep, d')" by fastforce
  then show ?case
  proof (cases rule: handleIdentityConsume_cases)
    case (asked body q d1)
    with 1 e consumeGrant_wf show ?thesis by fastforce
  qed (use 1 e in simp)
qed

definition spent :: "dashboard \<Rightarrow> string \<Rightarrow> identityGrant \<Rightarrow> bool" where
  "spent d i c \<longleftrightarrow> igConsumedAt c \<noteq> 0 \<and> map_of (identityGrants d) i \<in> {None, Some c}"

lemma map_of_cleanup_subset:
  "grants_wf gs \<Longrightarrow> map_of (cleanupIdentityGrants now gs) i \<in> {None, map_of gs i}"
proof -
  assume wf: "grants_wf gs"
  show ?thesis
  proof (cases "map_of (cleanupIdentityGrants now gs) i")
    case (Some g)
    from map_of_cleanup [OF this wf] Some show ?thesis by simp
  qed simp
qed

lemma consume_step_spent:
  assumes "consume_step d d'" and "grants_wf (identityGrants d)" and "spent d i c"
  shows "spent d' i c"
  using assms
proof (induction rule: consume_step.induct)
  case (1 d G readBody decode h r)
  obtain rep d' where e: "handleIdentityConsume G readBody decode h r d = (rep, d')" by fastforce
  then show ?case
  proof (cases rule: handleIdentityConsume_cases)
    case refused
    with 1 e show ?thesis by (simp add: spent_def)
  next
    case (asked body q d1)
    let ?gs = "cleanupIdentityGrants (clock h 2) (identityGrants d)"
    have sub: "map_of ?gs i \<in> {None, Some c}"
      using map_of_cleanup_subset [OF 1(1), of "clock h 2" i] 1(2) by (auto simp: spent_def)
    have wf: "grants_wf (identityGrants d1)" using 1(1) asked(4) by simp
    from asked(5) wf show ?thesis
    proof (cases rule: consumeGrant_cases)
      case none
      with e sub 1(2) asked(4) show ?thesis by (simp add: spent_def)
    next
      case (one j g)
      have "j \<noteq> i" using one(2,3) 1(2) asked(4) by (auto simp: spent_def eligible_def)
      with one e sub 1(2) asked(4) show ?thesis by (auto simp: spent_def update_conv)
    qed
  qed
qed

lemma consume_steps_spent:
  assumes "consume_step\<^sup>*\<^sup>* d d'" and "grants_wf (identityGrants d)" and "spent d i c"
  shows "spent d' i c"
proof -
  have "grants_wf (identityGrants d') \<and> spent d' i c"
    using assms by (induction rule: rtranclp_induct) (auto dest: consume_step_wf consume_step_spent)
  then show ?thesis ..
qed

text \<open>C8: An identity grant is used at most once: a consume request that succeeds returns a grant that
  was unconsumed, unexpired and the newest one waiting for that player on that server, and marks it;
  after any further consume requests that grant is either gone or still carries the mark, which
  keeps it from being returned again.\<close>

theorem identity_grant_used_once:
  assumes "grants_wf (identityGrants d)" and "handleIdentityConsume G readBody decode h r d = (rep, d1)"
    and "fst rep = 200" and "0 < clock h 2" and "consume_step\<^sup>*\<^sup>* d1 d2"
  shows "\<exists>body q i g. readBody = Some body \<and> decode body = Some q \<and> map_of (identityGrants d) i = Some g \<and>
    igConsumedAt g = 0 \<and> clock h 2 \<le> igExpiresAt g \<and> eligible (clock h 2) (normalRequest q) g \<and>
    (\<forall>j g'. map_of (identityGrants d) j = Some g' \<and> eligible (clock h 2) (normalRequest q) g' \<longrightarrow>
       igCreatedAt g' \<le> igCreatedAt g) \<and>
    rep = (200, jgrant (g\<lparr>igConsumedAt := clock h 2\<rparr>)) \<and>
    map_of (identityGrants d2) i \<in> {None, Some (g\<lparr>igConsumedAt := clock h 2\<rparr>)}"
  using assms(2)
proof (cases rule: handleIdentityConsume_cases)
  case (asked body q d0)
  have wf0: "grants_wf (identityGrants d0)" using assms(1) asked(4) by simp
  from asked(5) wf0 show ?thesis
  proof (cases rule: consumeGrant_cases)
    case (one i g)
    let ?c = "g\<lparr>igConsumedAt := clock h 2\<rparr>"
    have "spent d1 i ?c" using one(6) assms(4) by (simp add: spent_def update_conv)
    then have "spent d2 i ?c"
      using consume_steps_spent [OF assms(5)] consumeGrant_wf [OF asked(5) wf0] by blast
    moreover have "\<forall>j g'. map_of (identityGrants d) j = Some g' \<and> eligible (clock h 2) (normalRequest q) g' \<longrightarrow>
        igCreatedAt g' \<le> igCreatedAt g"
      using one(4) asked(4) eligible_survives by fastforce
    moreover have "igConsumedAt g = 0" "clock h 2 \<le> igExpiresAt g" using one(3) by (auto simp: eligible_def)
    ultimately show ?thesis using one asked(1,2,4) by (auto simp: spent_def)
  qed (use assms(3) in \<open>auto simp: is_error_def\<close>)
qed (use assms(3) in \<open>auto simp: is_error_def\<close>)

lemma profileIdentity_role: "fst (profileIdentity l x) \<noteq> []"
  by (auto simp: profileIdentity_def split: option.splits)

lemma handleIdentityGrant_done:
  assumes "handleIdentityGrant decoded h r d = (rep, d')" and "fst rep = 201"
  shows "\<exists>request role banned access nts i. decoded = Some request \<and> sessionCoreAuthorized d r \<and>
    profileIdentity (db d) (igXUID (normalGrant request)) = (role, banned, access, nts) \<and> \<not> banned \<and>
    map_of access (igServerID (normalGrant request)) \<noteq> Some False \<and>
    rep = (201, jgrant (fillGrant (clock h 0) role (normalGrant request)\<lparr>igGrantID := i\<rparr>)) \<and>
    d' = storeGrant h (fillGrant (clock h 0) role (normalGrant request)\<lparr>igGrantID := i\<rparr>) d"
proof (cases decoded)
  case None
  with assms show ?thesis by (auto simp: handleIdentityGrant_def finish_eq early_return error_reply_def)
next
  case (Some q)
  let ?q = "normalGrant q"
  obtain role banned access nts where p: "profileIdentity (db d) (igXUID ?q) = (role, banned, access, nts)"
    by (metis prod_cases4)
  have role: "role \<noteq> []" using profileIdentity_role [of "db d" "igXUID ?q"] p by simp
  let ?f = "fillGrant (clock h 0) role ?q"
  let ?ok = "verb r = ''POST'' \<and> sessionCoreAuthorized d r \<and>
      \<not> (igServerID ?q = [] \<or> igUsername ?q = [] \<or> igSessionID ?q = []) \<and> \<not> banned \<and>
      map_of access (igServerID ?q) \<noteq> Some False"
  have ?ok
  proof (rule ccontr)
    assume "\<not> ?ok"
    then have "\<exists>c m. fst (handleIdentityGrant decoded h r d) = error_reply c m \<and> c \<noteq> 201"
      by (auto simp: handleIdentityGrant_def Some p Let_def check_def)
    with assms show False by (auto simp: error_reply_def)
  qed
  let ?m = "if igGrantID ?f = [] then some_or (error_reply 500 ''random source failed'') (randomTicketID (random h 0))
         else Inr (igGrantID ?f)"
  have out: "handleIdentityGrant decoded h r d = finish d (attempt ?m (\<lambda>i.
      Inr ((201, jgrant (?f\<lparr>igGrantID := i\<rparr>)), storeGrant h (?f\<lparr>igGrantID := i\<rparr>) d)))"
    using \<open>?ok\<close> role by (simp add: handleIdentityGrant_def Some p Let_def)
  show ?thesis
  proof (cases ?m)
    case (Inl e)
    then have "e = error_reply 500 ''random source failed''" by (auto simp: early_return split: if_splits)
    with out Inl assms show ?thesis by (simp add: error_reply_def)
  next
    case (Inr i)
    have "handleIdentityGrant decoded h r d = ((201, jgrant (?f\<lparr>igGrantID := i\<rparr>)), storeGrant h (?f\<lparr>igGrantID := i\<rparr>) d)"
      unfolding out Inr by (simp only: attempt_simps early_return_simps)
    then have "rep = (201, jgrant (?f\<lparr>igGrantID := i\<rparr>))" "d' = storeGrant h (?f\<lparr>igGrantID := i\<rparr>) d"
      using assms(1) by simp_all
    with \<open>?ok\<close> p Some show ?thesis
      by (intro exI [of _ q] exI [of _ role] exI [of _ banned] exI [of _ access] exI [of _ nts] exI [of _ i]) simp
  qed
qed

text \<open>C33: A grant carries what the ledger says, not what the session core asks for: a grant request
  that succeeds was authorised by the session core's token and came for a player who is not banned
  and not excluded from that server; the stored grant has the ledger's role, the operator flag and
  permissions of that role, and expires within two minutes.\<close>

theorem grant_follows_policy:
  assumes "handleIdentityGrant decoded h r d = (rep, d')" and "fst rep = 201"
  shows "\<exists>request i g. decoded = Some request \<and> sessionCoreAuthorized d r \<and> map_of (identityGrants d') i = Some g \<and>
    rep = (201, jgrant g) \<and>
    igXUID g = trim_space (igXUID request) \<and> igServerID g = normalizeCompanionServerID (igServerID request) \<and>
    (let (role, banned, access, nts) = profileIdentity (db d) (igXUID g)
     in \<not> banned \<and> map_of access (igServerID g) \<noteq> Some False \<and> igRole g = role \<and>
        igOperator g = roleOperator role \<and> igPermissions g = rolePermissions role) \<and>
    igCreatedAt g = clock h 0 \<and> clock h 0 < igExpiresAt g \<and> igExpiresAt g \<le> clock h 0 + 120000"
proof -
  obtain request role banned access nts i where q: "decoded = Some request" "sessionCoreAuthorized d r"
    "profileIdentity (db d) (igXUID (normalGrant request)) = (role, banned, access, nts)" "\<not> banned"
    "map_of access (igServerID (normalGrant request)) \<noteq> Some False"
    "rep = (201, jgrant (fillGrant (clock h 0) role (normalGrant request)\<lparr>igGrantID := i\<rparr>))"
    "d' = storeGrant h (fillGrant (clock h 0) role (normalGrant request)\<lparr>igGrantID := i\<rparr>) d"
    using handleIdentityGrant_done [OF assms] by blast
  show ?thesis
    by (intro exI [of _ request] exI [of _ i]
        exI [of _ "fillGrant (clock h 0) role (normalGrant request)\<lparr>igGrantID := i\<rparr>"])
      (use q in \<open>auto simp: storeGrant_def fillGrant_def normalGrant_def update_conv\<close>)
qed

text \<open>The permission snapshot lists exactly the operators of the backend: with at most ten thousand
  profiles stored, a player is listed if and only if the player's role is an operator role and the
  player is neither banned nor excluded from that server.\<close>

theorem snapshot_lists_operators:
  assumes "ledger_wf l" and "dbOpen l" and "length (profileRows l) \<le> 10000"
  shows "set (map pr_xuid (snapshotRows l server)) =
    {x. \<exists>row. selectProfile l x = Some row \<and> roleOperator (pr_network_role row) \<and>
        \<not> pr_network_banned row \<and> map_of (pr_access row) server \<noteq> Some False}"
proof -
  have all: "set (profiles l 10000) = set (profileRows l)"
    using assms(2,3) by (simp add: profiles_def query_ignored_def querySelect_def order_desc_def)
  have key: "selectProfile l (pr_xuid row) = Some row" if "row \<in> set (profileRows l)" for row
    using that assms by (simp add: selectProfile_eq ledger_wf_def find_key_unique)
  have mem: "row \<in> set (profileRows l) \<and> pr_xuid row = x" if "selectProfile l x = Some row" for x row
    using that by (auto simp: selectProfile_eq find_Some_iff split: if_splits)
  have ne: "pr_xuid row \<noteq> []" if "row \<in> set (profileRows l)" for row
    using that assms(1) by (auto simp: ledger_wf_def list_all_iff)
  have acc: "fst (profileAccess l (pr_xuid row) server) \<longleftrightarrow>
      \<not> pr_network_banned row \<and> map_of (pr_access row) server \<noteq> Some False" if "row \<in> set (profileRows l)" for row
    using key [OF that] ne [OF that] by (simp add: profileAccess_def)
  have "row \<in> set (snapshotRows l server) \<longleftrightarrow> row \<in> set (profileRows l) \<and> roleOperator (pr_network_role row) \<and>
      \<not> pr_network_banned row \<and> map_of (pr_access row) server \<noteq> Some False" for row
    using acc ne by (auto simp: snapshotRows_def all)
  then show ?thesis using key mem by (auto simp: image_iff) blast+
qed

section \<open>Witnesses\<close>

definition grantRequest :: identityGrant where
  "grantRequest = zeroGrant\<lparr>igGrantID := ''g1'', igSessionID := ''s1'', igServerID := ''zoo'', igUsername := ''Alex'',
     igXUID := ''2535'', igRole := ''owner''\<rparr>"

definition coreDashboard :: dashboard where
  "coreDashboard = emptyDashboard\<lparr>sessionCoreToken := ''core''\<rparr>"

definition coreRequest :: http_request where
  "coreRequest = postRequest\<lparr>header := (\<lambda>k. if k = ''Authorization'' then ''Bearer core'' else [])\<rparr>"

lemma coreRequest_authorized: "sessionCoreAuthorized coreDashboard coreRequest"
proof -
  have "bearer coreRequest = ''core''" by code_simp
  then show ?thesis by (simp add: sessionCoreAuthorized_def coreDashboard_def)
qed

lemma coreGrant_status: "fst (fst (handleIdentityGrant (Some grantRequest) sampleHost coreRequest coreDashboard)) = 201"
proof -
  have n: "normalGrant grantRequest = grantRequest" by code_simp
  have p: "profileIdentity (db coreDashboard) (igXUID grantRequest) = (''member'', False, [], [])" by code_simp
  have "igServerID grantRequest \<noteq> []" "igUsername grantRequest \<noteq> []" "igSessionID grantRequest \<noteq> []"
    "igGrantID grantRequest \<noteq> []" "verb coreRequest = ''POST''"
    by (simp_all add: grantRequest_def zeroGrant_def coreRequest_def postRequest_def)
  with n p coreRequest_authorized show ?thesis
    by (simp add: handleIdentityGrant_def Let_def fillGrant_def)
qed

theorem grant_follows_policy_witness:
  "\<exists>i g. map_of (identityGrants (snd (handleIdentityGrant (Some grantRequest) sampleHost coreRequest coreDashboard))) i
     = Some g \<and> igRole g = ''member'' \<and> \<not> igOperator g"
proof -
  have p: "profileIdentity (db coreDashboard) (trim_space ''2535'') = (''member'', False, [], [])"
    "\<not> roleOperator ''member''" by code_simp+
  have x: "igXUID grantRequest = ''2535''" by (simp add: grantRequest_def)
  obtain i g where g: "map_of (identityGrants (snd (handleIdentityGrant (Some grantRequest) sampleHost coreRequest
      coreDashboard))) i = Some g" "igXUID g = trim_space ''2535''"
    "let (role, banned, access, nts) = profileIdentity (db coreDashboard) (igXUID g)
     in \<not> banned \<and> map_of access (igServerID g) \<noteq> Some False \<and> igRole g = role \<and>
        igOperator g = roleOperator role \<and> igPermissions g = rolePermissions role"
    using grant_follows_policy [OF prod.collapse [symmetric] coreGrant_status] x by auto
  then have "igRole g = ''member''" "\<not> igOperator g" using p by (simp_all only: g(2)) auto
  with g(1) show ?thesis by blast
qed

definition bridgeRequest :: http_request where
  "bridgeRequest = postRequest\<lparr>header := (\<lambda>k. if k = ''X-NinjOS-Server'' then ''zoo''
     else if k = ''X-NinjOS-Bridge-Token'' then ''CHANGE_ME_NOW'' else [])\<rparr>"

definition waitingDashboard :: dashboard where
  "waitingDashboard = emptyDashboard\<lparr>identityGrants :=
     [(''g1'', grantRequest\<lparr>igCreatedAt := 5, igExpiresAt := 1700000030000\<rparr>)]\<rparr>"

definition alexConsume :: consumeRequest where
  "alexConsume = \<lparr>crServerID = ''zoo'', crUsername = ''alex'', crSessionID = []\<rparr>"

lemma bridgeRequest_ok: "verifyBridgeBody G t t' bridgeRequest body waitingDashboard = (Inr (), waitingDashboard)"
proof -
  have n: "normalizeCompanionServerID ''zoo'' = ''zoo''" "trim_space ''CHANGE_ME_NOW'' = ''CHANGE_ME_NOW''"
    "atoi [] = None" by code_simp+
  have "companionSecret waitingDashboard s = ''CHANGE_ME_NOW''" for s
    by (simp add: companionSecret_def waitingDashboard_def emptyDashboard_def map_get_def)
  with n show ?thesis by (simp add: verifyBridgeBody_def verifySignedBody_def bridgeRequest_def postRequest_def Let_def)
qed

theorem identity_grant_used_once_witness:
  "\<exists>rep d1. handleIdentityConsume sample_golib (Some []) (\<lambda>_. Some alexConsume) sampleHost bridgeRequest waitingDashboard
     = (rep, d1) \<and> fst rep = 200 \<and>
     (\<exists>i g. map_of (identityGrants waitingDashboard) i = Some g \<and> igConsumedAt g = 0 \<and>
        map_of (identityGrants d1) i \<in> {None, Some (g\<lparr>igConsumedAt := 1700000000002\<rparr>)})"
proof -
  let ?out = "handleIdentityConsume sample_golib (Some []) (\<lambda>_. Some alexConsume) sampleHost bridgeRequest waitingDashboard"
  let ?g = "grantRequest\<lparr>igCreatedAt := 5, igExpiresAt := 1700000030000\<rparr>"
  have gs: "identityGrants waitingDashboard = [(''g1'', ?g)]" by (simp add: waitingDashboard_def)
  have c: "clock sampleHost 2 = 1700000000002" by (simp add: sampleHost_def)
  have e: "eligible 1700000000002 (normalRequest alexConsume) ?g" by code_simp
  have k: "cleanupIdentityGrants 1700000000002 [(''g1'', ?g)] = [(''g1'', ?g)]"
    by (simp add: cleanupIdentityGrants_def grantRequest_def zeroGrant_def)
  have "fst (fst (consumeGrant 1700000000002 (normalRequest alexConsume) waitingDashboard)) = 200"
    using e k by (simp add: consumeGrant_def gs selectGrant_def Let_def)
  then have st: "fst (fst ?out) = 200"
    by (simp add: handleIdentityConsume_def bridgeRequest_ok c) (simp add: bridgeRequest_def postRequest_def)
  have wf: "grants_wf (identityGrants waitingDashboard)" by (simp add: gs grants_wf_def)
  from identity_grant_used_once [OF wf prod.collapse [symmetric] st _ rtranclp.rtrancl_refl] c st
  show ?thesis by (metis prod.collapse zero_less_numeral)
qed

definition operatorLedger :: ledger where
  "operatorLedger = emptyLedger\<lparr>profileRows := [(newProfile ''2535'' ''Alex'' ''zoo'' 1)\<lparr>pr_network_role := ''Operator''\<rparr>]\<rparr>"

theorem snapshot_lists_operators_witness:
  "''2535'' \<in> set (map pr_xuid (snapshotRows operatorLedger ''zoo''))"
proof -
  have o: "ledger_wf operatorLedger" "dbOpen operatorLedger" "roleOperator ''Operator''" by code_simp+
  have "length (profileRows operatorLedger) \<le> 10000"
    "selectProfile operatorLedger ''2535'' = Some ((newProfile ''2535'' ''Alex'' ''zoo'' 1)\<lparr>pr_network_role := ''Operator''\<rparr>)"
    by (simp_all add: operatorLedger_def selectProfile_eq newProfile_def emptyLedger_def)
  with snapshot_lists_operators [OF o(1,2)] o(3) show ?thesis by (simp add: newProfile_def)
qed

end
