(* ===== verification/Topology.thy ===== *)
theory Topology
  imports Identity
begin

text \<open>
  The backend topology of \<^verbatim>\<open>dashboard/backends.go\<close>: its data, the validation every change goes
  through, the properties format that the gateway reads and the ranges of managed ports.  Error
  texts quote values as \<^verbatim>\<open>%q\<close> does for printable ASCII.  \<open>topology_valid\<close> states what a valid
  topology is without the loop and its maps; the two are proved to agree.
\<close>

section \<open>Data\<close>

record backendDefinition =
  bID :: string
  bDisplayName :: string
  bHost :: string
  bBackendPort :: int
  bPublicPort :: int
  bFallback :: bool
  bFallbackBackend :: string
  bProfile :: string
  bEnabled :: bool
  bConnectionMode :: string
  bBackendAdapter :: string
  bBackendOnlineMode :: bool
  bRequireProxyIdentity :: bool
  bCapacity :: int
  bCompanionSecretEnv :: string

record topologyConfig =
  tVersion :: int
  tPrimaryBackend :: string
  tRoutingMode :: string
  tBackends :: "backendDefinition list"

definition topologySchemaVersion :: int where "topologySchemaVersion = 1"

definition defaultTopology :: topologyConfig where
  "defaultTopology =
     \<lparr>tVersion = topologySchemaVersion, tPrimaryBackend = ''kingdom'', tRoutingMode = ''primary'',
      tBackends =
        [\<lparr>bID = ''kingdom'', bDisplayName = ''The Kingdom'', bHost = ''185.83.152.144'', bBackendPort = 25565,
          bPublicPort = 25566, bFallback = False, bFallbackBackend = [], bProfile = ''kingdom'', bEnabled = True,
          bConnectionMode = ''transparent'', bBackendAdapter = ''endstone'', bBackendOnlineMode = True,
          bRequireProxyIdentity = False, bCapacity = 50, bCompanionSecretEnv = ''COMPANION_KINGDOM_SECRET''\<rparr>,
         \<lparr>bID = ''zoo'', bDisplayName = ''Zoo'', bHost = ''185.83.152.144'', bBackendPort = 19431,
          bPublicPort = 25571, bFallback = False, bFallbackBackend = [], bProfile = ''zoo'', bEnabled = True,
          bConnectionMode = ''transparent'', bBackendAdapter = ''proxy_only'', bBackendOnlineMode = True,
          bRequireProxyIdentity = False, bCapacity = 50, bCompanionSecretEnv = ''COMPANION_ZOO_SECRET''\<rparr>]\<rparr>"

section \<open>Patterns and messages\<close>

text \<open>\<^verbatim>\<open>^[a-z][a-z0-9_-]{1,31}$\<close> and \<^verbatim>\<open>^[A-Z][A-Z0-9_]{2,63}$\<close>.\<close>

definition backendIDPattern :: "string \<Rightarrow> bool" where
  "backendIDPattern s \<longleftrightarrow>
     (case s of [] \<Rightarrow> False
      | c # cs \<Rightarrow> is_lower_alpha c \<and> 1 \<le> length cs \<and> length cs \<le> 31 \<and>
          list_all (\<lambda>c. is_lower_alpha c \<or> is_digit_char c \<or> c = CHR ''_'' \<or> c = CHR ''-'') cs)"

definition secretEnvPattern :: "string \<Rightarrow> bool" where
  "secretEnvPattern s \<longleftrightarrow>
     (case s of [] \<Rightarrow> False
      | c # cs \<Rightarrow> is_upper_alpha c \<and> 2 \<le> length cs \<and> length cs \<le> 63 \<and>
          list_all (\<lambda>c. is_upper_alpha c \<or> is_digit_char c \<or> c = CHR ''_'') cs)"

definition quoted :: "string \<Rightarrow> string" where
  "quoted s = [CHR 0x22] @ concat (map (\<lambda>c.
     if c = CHR 0x22 \<or> c = CHR 0x5C then [CHR 0x5C, c]
     else if c = newline then [CHR 0x5C, CHR ''n'']
     else if c = carriage_return then [CHR 0x5C, CHR ''r'']
     else if c = tab then [CHR 0x5C, CHR ''t'']
     else [c]) s) @ [CHR 0x22]"

text \<open>Checks in order; the first that applies gives the error.\<close>

definition refuse :: "(bool \<times> string) list \<Rightarrow> unit result" where
  "refuse cs = (case find fst cs of None \<Rightarrow> Inr () | Some c \<Rightarrow> Inl (snd c))"

lemma refuse_Inr: "refuse cs = Inr u \<longleftrightarrow> (\<forall>c \<in> set cs. \<not> fst c)"
  by (auto simp: refuse_def find_eq_None split: option.splits dest: find_in)

definition separators :: string where
  "separators = [CHR ''|'', CHR '';'', carriage_return, newline]"

section \<open>Validation\<close>

text \<open>The maps of the loop: IDs seen, and the backend that has a public port.\<close>

type_synonym seen = "string list \<times> (int \<times> string) list \<times> bool"

definition validateBackend :: "topologyConfig \<Rightarrow> nat \<Rightarrow> seen \<Rightarrow> backendDefinition \<Rightarrow> seen result" where
  "validateBackend t index st b =
     (let (ids, ports, found) = st;
          name = ''backend '' @ quoted (bID b);
          mode = (if bConnectionMode b = [] then ''transparent'' else bConnectionMode b);
          adapter = (if bBackendAdapter b = [] then ''proxy_only'' else bBackendAdapter b) in
      attempt (refuse
        [(\<not> backendIDPattern (bID b), ''backend '' @ itoa (int index + 1) @
            '' has an invalid ID; use lowercase letters, numbers, dashes, or underscores''),
         (bID b \<in> set ids, ''backend ID '' @ quoted (bID b) @ '' is duplicated''),
         (trim_space (bDisplayName b) = [], name @ '' needs a display name''),
         (contains_any (bDisplayName b) separators, name @ '' display name contains an unsupported character''),
         (trim_space (bHost b) = [] \<or> contains_any (bHost b) separators, name @ '' has an invalid host''),
         (bBackendPort b < 1 \<or> bBackendPort b > 65535, name @ '' has an invalid backend port''),
         (bPublicPort b < 0 \<or> bPublicPort b > 65535, name @ '' has an invalid public port''),
         (bPublicPort b > 0 \<and> bPublicPort b \<in> set (map fst ports),
            ''public port '' @ itoa (bPublicPort b) @ '' is already assigned to '' @
            (case map_of ports (bPublicPort b) of None \<Rightarrow> [] | Some p \<Rightarrow> p)),
         (bProfile b = [] \<or> contains_any (bProfile b) separators, name @ '' has an invalid protection profile''),
         (mode \<noteq> ''transparent'' \<and> mode \<noteq> ''full_proxy'',
            name @ '' connection mode must be transparent or full_proxy''),
         (adapter \<notin> {''endstone'', ''vanilla_bridge'', ''vanilla_agent'', ''proxy_only''},
            name @ '' has unsupported adapter '' @ quoted adapter),
         (bCapacity b < 1 \<or> bCapacity b > 100000, name @ '' capacity must be between 1 and 100000''),
         (mode = ''full_proxy'' \<and> bBackendOnlineMode b,
            name @ '' full_proxy mode requires backend_online_mode=false; use transparent mode to keep online-mode=true''),
         (mode = ''full_proxy'' \<and> bPublicPort b = 0, name @ '' full_proxy mode requires a public proxy UDP port''),
         (bRequireProxyIdentity b \<and> mode \<noteq> ''full_proxy'',
            name @ '' can require proxy identity only in full_proxy mode''),
         (bFallbackBackend b \<noteq> [] \<and> bFallbackBackend b = bID b, name @ '' cannot fall back to itself''),
         (bCompanionSecretEnv b \<noteq> [] \<and> \<not> secretEnvPattern (bCompanionSecretEnv b),
            name @ '' has an invalid companion secret environment variable'')]) (\<lambda>_.
      Inr (bID b # ids,
           (if bPublicPort b > 0 then (bPublicPort b, bID b) # ports else ports),
           found \<or> bID b = tPrimaryBackend t)))"

fun validateLoop :: "topologyConfig \<Rightarrow> nat \<Rightarrow> seen \<Rightarrow> backendDefinition list \<Rightarrow> seen result" where
  "validateLoop t index st [] = Inr st"
| "validateLoop t index st (b # bs) =
     attempt (validateBackend t index st b) (\<lambda>st'. validateLoop t (Suc index) st' bs)"

definition validateTopology :: "topologyConfig \<Rightarrow> unit result" where
  "validateTopology t =
     attempt (refuse
       [(tVersion t \<noteq> topologySchemaVersion, ''unsupported topology version '' @ itoa (tVersion t)),
        (tRoutingMode t \<notin> {''primary'', ''failover'', ''round_robin'', ''least_sessions''},
           ''unsupported routing mode '' @ quoted (tRoutingMode t)),
        (tBackends t = [], ''at least one backend is required'')]) (\<lambda>_.
     attempt (validateLoop t 0 ([], [], False) (tBackends t)) (\<lambda>(ids, ports, found).
     if found then Inr () else Inl (''primary backend '' @ quoted (tPrimaryBackend t) @ '' does not exist'')))"

section \<open>What a valid topology is\<close>

definition connectionMode :: "backendDefinition \<Rightarrow> string" where
  "connectionMode b = (if bConnectionMode b = [] then ''transparent'' else bConnectionMode b)"

definition backendAdapter :: "backendDefinition \<Rightarrow> string" where
  "backendAdapter b = (if bBackendAdapter b = [] then ''proxy_only'' else bBackendAdapter b)"

definition plain :: "string \<Rightarrow> bool" where
  "plain s \<longleftrightarrow> set s \<inter> set separators = {}"

definition backend_valid :: "backendDefinition \<Rightarrow> bool" where
  "backend_valid b \<longleftrightarrow>
     backendIDPattern (bID b) \<and>
     trim_space (bDisplayName b) \<noteq> [] \<and> plain (bDisplayName b) \<and>
     trim_space (bHost b) \<noteq> [] \<and> plain (bHost b) \<and>
     bBackendPort b \<in> {1..65535} \<and> bPublicPort b \<in> {0..65535} \<and>
     bProfile b \<noteq> [] \<and> plain (bProfile b) \<and>
     connectionMode b \<in> {''transparent'', ''full_proxy''} \<and>
     (connectionMode b = ''full_proxy'' \<longrightarrow> \<not> bBackendOnlineMode b \<and> bPublicPort b \<noteq> 0) \<and>
     (bRequireProxyIdentity b \<longrightarrow> connectionMode b = ''full_proxy'') \<and>
     backendAdapter b \<in> {''endstone'', ''vanilla_bridge'', ''vanilla_agent'', ''proxy_only''} \<and>
     bCapacity b \<in> {1..100000} \<and>
     (bFallbackBackend b = [] \<or> bFallbackBackend b \<noteq> bID b) \<and>
     (bCompanionSecretEnv b = [] \<or> secretEnvPattern (bCompanionSecretEnv b))"

definition assignedPorts :: "topologyConfig \<Rightarrow> int list" where
  "assignedPorts t = filter (\<lambda>p. p > 0) (map bPublicPort (tBackends t))"

definition topology_valid :: "topologyConfig \<Rightarrow> bool" where
  "topology_valid t \<longleftrightarrow>
     tVersion t = 1 \<and>
     tRoutingMode t \<in> {''primary'', ''failover'', ''round_robin'', ''least_sessions''} \<and>
     list_all backend_valid (tBackends t) \<and>
     distinct (map bID (tBackends t)) \<and>
     distinct (assignedPorts t) \<and>
     tPrimaryBackend t \<in> set (map bID (tBackends t))"

lemma backend_validD:
  assumes "backend_valid b"
  shows "backendIDPattern (bID b)" "bDisplayName b \<noteq> []" "plain (bDisplayName b)" "bHost b \<noteq> []"
    "plain (bHost b)" "bProfile b \<noteq> []" "plain (bProfile b)" "1 \<le> bBackendPort b" "bBackendPort b \<le> 65535"
    "0 \<le> bPublicPort b" "bPublicPort b \<le> 65535" "1 \<le> bCapacity b" "bCapacity b \<le> 100000"
  using assms unfolding backend_valid_def by (auto simp del: insert_iff)

lemma contains_separators: "contains_any s separators \<longleftrightarrow> \<not> plain s"
  by (auto simp: contains_any_def plain_def list_ex_iff)

lemma backendIDPattern_nonempty: "backendIDPattern s \<Longrightarrow> s \<noteq> []"
  by (auto simp: backendIDPattern_def)

lemma validateBackend_Inr:
  "validateBackend t n (ids, ports, found) b = Inr st' \<longleftrightarrow>
     backend_valid b \<and> bID b \<notin> set ids \<and> (bPublicPort b \<le> 0 \<or> bPublicPort b \<notin> set (map fst ports)) \<and>
     st' = (bID b # ids, (if bPublicPort b > 0 then (bPublicPort b, bID b) # ports else ports),
            found \<or> bID b = tPrimaryBackend t)"
proof -
  have mode: "(if bConnectionMode b = [] then ''transparent'' else bConnectionMode b) = connectionMode b"
    by (simp add: connectionMode_def)
  have adapter: "(if bBackendAdapter b = [] then ''proxy_only'' else bBackendAdapter b) = backendAdapter b"
    by (simp add: backendAdapter_def)
  show ?thesis
    unfolding validateBackend_def Let_def mode adapter prod.case attempt_Inr refuse_Inr backend_valid_def
      contains_separators list.set ball_simps fst_conv Inr_inject not_less de_Morgan_disj de_Morgan_conj not_not
    by (rule iffI) simp_all
qed

lemma validateLoop_Inr:
  "(\<exists>i p. validateLoop t n (ids, ports, found) bs = Inr (i, p, True)) \<longleftrightarrow>
     list_all backend_valid bs \<and>
     distinct (map bID bs) \<and> set (map bID bs) \<inter> set ids = {} \<and>
     distinct (filter (\<lambda>p. p > 0) (map bPublicPort bs)) \<and>
     set (filter (\<lambda>p. p > 0) (map bPublicPort bs)) \<inter> set (map fst ports) = {} \<and>
     (found \<or> tPrimaryBackend t \<in> set (map bID bs))"
proof (induction bs arbitrary: n ids ports found)
  case Nil
  then show ?case by auto
next
  case (Cons b bs)
  show ?case
  proof (cases "backend_valid b \<and> bID b \<notin> set ids \<and> (bPublicPort b \<le> 0 \<or> bPublicPort b \<notin> set (map fst ports))")
    case True
    let ?st = "(bID b # ids, (if bPublicPort b > 0 then (bPublicPort b, bID b) # ports else ports),
            found \<or> bID b = tPrimaryBackend t)"
    from True have "validateBackend t n (ids, ports, found) b = Inr ?st"
      by (simp only: validateBackend_Inr simp_thms)
    then have "(\<exists>i p. validateLoop t n (ids, ports, found) (b # bs) = Inr (i, p, True)) \<longleftrightarrow>
        (\<exists>i p. validateLoop t (Suc n) ?st bs = Inr (i, p, True))"
      by (simp only: validateLoop.simps attempt_simps)
    also note Cons.IH
    finally show ?thesis using True by (cases "bPublicPort b > 0") auto
  next
    case False
    then have "\<exists>e. validateBackend t n (ids, ports, found) b = Inl e"
      using validateBackend_Inr [of t n ids ports found b]
      by (cases "validateBackend t n (ids, ports, found) b") auto
    with False show ?thesis by auto
  qed
qed

lemma validateTopology_Inr: "validateTopology t = Inr u \<longleftrightarrow> topology_valid t"
proof -
  have "validateTopology t = Inr u \<longleftrightarrow>
     tVersion t = 1 \<and> tRoutingMode t \<in> {''primary'', ''failover'', ''round_robin'', ''least_sessions''} \<and>
     tBackends t \<noteq> [] \<and> (\<exists>i p. validateLoop t 0 ([], [], False) (tBackends t) = Inr (i, p, True))"
    unfolding validateTopology_def attempt_Inr refuse_Inr
    by (auto simp: topologySchemaVersion_def split: if_splits prod.splits)
  also have "\<dots> \<longleftrightarrow> topology_valid t"
    unfolding validateLoop_Inr topology_valid_def assignedPorts_def by auto
  finally show ?thesis .
qed

section \<open>Property\<close>


end
