(* ===== verification/Registry.thy ===== *)
theory Registry
  imports Topology
begin

text \<open>
  The properties format of the topology (\<^verbatim>\<open>parseTopologyProperties\<close>, \<^verbatim>\<open>serializeTopology\<close> of
  \<^verbatim>\<open>dashboard/backends.go\<close>), which the gateway reads and earlier releases stored, and the lists of
  managed public ports.  The format carries only a part of a backend; \<open>legacyBackend\<close> names what is
  left of one, and a printed topology is read back as exactly that.
\<close>

section \<open>Loops that may stop with an error\<close>

fun iterate :: "('s \<Rightarrow> 'a \<Rightarrow> 's result) \<Rightarrow> 's \<Rightarrow> 'a list \<Rightarrow> 's result" where
  "iterate f s [] = Inr s"
| "iterate f s (x # xs) = attempt (f s x) (\<lambda>s'. iterate f s' xs)"

lemma iterate_append: "iterate f s (xs @ ys) = attempt (iterate f s xs) (\<lambda>s'. iterate f s' ys)"
  by (induction xs arbitrary: s) (auto simp: attempt_def split: sum.splits)

section \<open>Reading\<close>

definition parseNameMap :: "string \<Rightarrow> (string \<times> string) list" where
  "parseNameMap raw =
     foldl (\<lambda>result item.
       case split2 (CHR ''|'') (trim_space item) of
         [k, v] \<Rightarrow> AList.update (trim_space k) (trim_space v) result
       | _ \<Rightarrow> result) [] (split_on (CHR '';'') raw)"

type_synonym routes = "(string \<times> int) list \<times> (int \<times> string) list"

definition staticRoute :: "routes \<Rightarrow> string \<Rightarrow> routes result" where
  "staticRoute st item0 =
     (let item = trim_space item0; (result, used) = st in
      if item = [] then Inr st
      else case split_on (CHR ''|'') item of
        [f0, f1] \<Rightarrow>
          (case atoi (trim_space f0) of
             None \<Rightarrow> Inl (''invalid public port in route '' @ quoted item)
           | Some p \<Rightarrow>
               if p < 1 \<or> p > 65535 then Inl (''invalid public port in route '' @ quoted item)
               else
                 let id = trim_space f1 in
                 case map_of used p of
                   Some previous \<Rightarrow> Inl (''public port '' @ itoa p @ '' is assigned to '' @ previous @ '' and '' @ id)
                 | None \<Rightarrow> Inr (AList.update id p result, AList.update p id used))
      | _ \<Rightarrow> Inl (''invalid static route '' @ quoted item))"

definition parseStaticRoutes :: "string \<Rightarrow> (string \<times> int) list result" where
  "parseStaticRoutes raw =
     attempt (iterate staticRoute ([], []) (split_on (CHR '';'') raw)) (\<lambda>(result, used). Inr result)"

definition parseRegistryBool :: "string \<Rightarrow> bool \<Rightarrow> bool" where
  "parseRegistryBool raw fallback =
     (let v = to_lower (trim_space raw) in
      if v \<in> {''1'', ''true'', ''yes'', ''on''} then True
      else if v \<in> {''0'', ''false'', ''no'', ''off''} then False
      else fallback)"

definition humanizeBackendID :: "string \<Rightarrow> string" where
  "humanizeBackendID name =
     join '' '' (map (\<lambda>w. to_upper (take 1 w) @ drop 1 w)
       (Go_Text.fields (replace_char (CHR ''_'') (CHR '' '') (replace_char (CHR ''-'') (CHR '' '') name))))"

definition propertyLine :: "(string \<times> string) list \<Rightarrow> string \<Rightarrow> (string \<times> string) list result" where
  "propertyLine values raw =
     (let line = trim_space (hd (split2 (CHR ''#'') raw)) in
      if line = [] then Inr values
      else case split2 (CHR ''='') line of
        [k, v] \<Rightarrow> Inr (AList.update (trim_space k) (trim_space v) values)
      | _ \<Rightarrow> Inl (''invalid topology line: '' @ quoted raw))"

definition int_get :: "(string \<times> int) list \<Rightarrow> string \<Rightarrow> int" where
  "int_get m k = (case map_of m k of None \<Rightarrow> 0 | Some v \<Rightarrow> v)"

text \<open>One entry of \<^verbatim>\<open>backends=\<close>.\<close>

definition backendEntry ::
  "(string \<times> string) list \<Rightarrow> (string \<times> int) list \<Rightarrow> backendDefinition list \<Rightarrow> string \<Rightarrow> backendDefinition list result" where
  "backendEntry displayNames publicPorts bs raw0 =
     (let raw = trim_space raw0; fs = split_on (CHR ''|'') raw in
      if raw = [] then Inr bs
      else if length fs < 3 then Inl (''invalid backend entry '' @ quoted raw)
      else case atoi (trim_space (fs ! 2)) of
        None \<Rightarrow> Inl (''invalid backend port in '' @ quoted raw)
      | Some backendPort \<Rightarrow>
          let id = trim_space (fs ! 0);
              profile = (if length fs \<ge> 5 then trim_space (fs ! 4) else []);
              displayName = map_get displayNames id
          in Inr (bs @ [\<lparr>bID = id,
               bDisplayName = (if displayName = [] then humanizeBackendID id else displayName),
               bHost = trim_space (fs ! 1), bBackendPort = backendPort,
               bPublicPort = int_get publicPorts id,
               bFallback = (if length fs \<ge> 4 then parseRegistryBool (fs ! 3) False else False),
               bFallbackBackend = [],
               bProfile = (if profile = [] then id else profile),
               bEnabled = (if length fs \<ge> 6 then parseRegistryBool (fs ! 5) True else True),
               bConnectionMode = ''transparent'', bBackendAdapter = ''proxy_only'', bBackendOnlineMode = True,
               bRequireProxyIdentity = False, bCapacity = 50, bCompanionSecretEnv = []\<rparr>]))"

definition parseTopologyProperties :: "string \<Rightarrow> topologyConfig result" where
  "parseTopologyProperties content =
     (let (ls, tooLong) = scan_lines content in
      attempt (iterate propertyLine [] ls) (\<lambda>values.
      attempt (if tooLong then Inl ''bufio.Scanner: token too long'' else Inr ()) (\<lambda>_.
      let rawVersion = trim_space (map_get values ''version'') in
      attempt (if rawVersion = [] then Inr topologySchemaVersion
               else some_or ''topology version must be an integer'' (atoi rawVersion)) (\<lambda>version.
      let displayNames = parseNameMap (map_get values ''display_names'') in
      attempt (parseStaticRoutes (map_get values ''static_routes'')) (\<lambda>publicPorts.
      attempt (iterate (backendEntry displayNames publicPorts) []
                 (split_on (CHR '';'') (map_get values ''backends''))) (\<lambda>backends.
      let primary = trim_space (map_get values ''primary_backend'');
          mode = trim_space (map_get values ''routing_mode'');
          topology = \<lparr>tVersion = version,
            tPrimaryBackend = (if primary = [] \<and> backends \<noteq> [] then bID (hd backends) else primary),
            tRoutingMode = (if mode = [] then ''primary'' else mode),
            tBackends = backends\<rparr>
      in attempt (validateTopology topology) (\<lambda>_. Inr topology)))))))"

section \<open>Printing\<close>

definition printBackend :: "backendDefinition \<Rightarrow> string" where
  "printBackend b =
     join ''|'' [bID b, bHost b, itoa (bBackendPort b), format_bool (bFallback b),
                 (if bProfile b = [] then bID b else bProfile b), format_bool (bEnabled b)]"

definition printRoute :: "backendDefinition \<Rightarrow> string" where
  "printRoute b = itoa (bPublicPort b) @ ''|'' @ bID b"

definition printName :: "backendDefinition \<Rightarrow> string" where
  "printName b = bID b @ ''|'' @ bDisplayName b"

definition serializeTopology :: "topologyConfig \<Rightarrow> string" where
  "serializeTopology t =
     concat (map (\<lambda>l. l @ [newline])
       [''# Managed by Ninj-OS Edge Fabric. Use the dashboard or edit while the proxy is stopped.'',
        ''version='' @ itoa topologySchemaVersion,
        ''primary_backend='' @ tPrimaryBackend t,
        ''routing_mode='' @ tRoutingMode t,
        ''backends='' @ join '';'' (map printBackend (tBackends t)),
        ''static_routes='' @ join '';'' (map printRoute (filter (\<lambda>b. bPublicPort b > 0) (tBackends t))),
        ''display_names='' @ join '';'' (map printName (tBackends t))])"

section \<open>Normal form and ports\<close>

definition normalizedTopology :: "topologyConfig \<Rightarrow> topologyConfig" where
  "normalizedTopology t =
     t\<lparr>tBackends := sort_key bID (map (\<lambda>b. b\<lparr>bCompanionSecretEnv := []\<rparr>) (tBackends t))\<rparr>"

definition staticPublicPorts :: "topologyConfig \<Rightarrow> (int \<times> string) list" where
  "staticPublicPorts t =
     foldl (\<lambda>ports b. if bPublicPort b > 0 then AList.update (bPublicPort b) (bID b) ports else ports) [] (tBackends t)"

text \<open>The loop \<^verbatim>\<open>for port := start; port <= end && port <= 65535; port++\<close> with its test.\<close>

definition rangePorts :: "int \<Rightarrow> int \<Rightarrow> int list" where
  "rangePorts start stop = [max 1 (min start stop) .. min (max start stop) 65535]"

definition portItem :: "int list \<Rightarrow> string \<Rightarrow> int list" where
  "portItem seen item0 =
     (let item = trim_space item0 in
      if item = [] then seen
      else if contains_str item ''-''
      then (case split2 (CHR ''-'') item of
              [f0, f1] \<Rightarrow>
                (case (atoi (trim_space f0), atoi (trim_space f1)) of
                   (Some start, Some stop) \<Rightarrow> foldl (\<lambda>s p. List.insert p s) seen (rangePorts start stop)
                 | _ \<Rightarrow> seen)
            | _ \<Rightarrow> seen)
      else case atoi item of
        Some p \<Rightarrow> if p > 0 \<and> p \<le> 65535 then List.insert p seen else seen
      | None \<Rightarrow> seen)"

definition parsePortList :: "string \<Rightarrow> int list" where
  "parsePortList raw = sort (foldl portItem [] (split_on (CHR '','') raw))"

section \<open>Strings without separators\<close>

definition clean :: "string \<Rightarrow> bool" where
  "clean s \<longleftrightarrow> s \<noteq> [] \<and> trimmed s \<and> plain s \<and> CHR ''#'' \<notin> set s"

lemma separators_set: "set separators = {CHR ''|'', CHR '';'', carriage_return, newline}"
  by (simp add: separators_def)

lemma clean_excludes: "clean s \<Longrightarrow> CHR ''|'' \<notin> set s \<and> CHR '';'' \<notin> set s \<and> newline \<notin> set s \<and>
    carriage_return \<notin> set s \<and> CHR ''#'' \<notin> set s"
  by (auto simp: clean_def plain_def separators_set)

lemma clean_ascii:
  assumes "s \<noteq> []" and "\<forall>c \<in> set s. is_lower_alpha c \<or> is_digit_char c \<or> c = CHR ''_'' \<or> c = CHR ''-''"
  shows "clean s"
proof -
  have "is_ascii c \<and> c \<notin> set ascii_spaces \<and> c \<notin> set separators \<and> c \<noteq> CHR ''#''"
    if "c \<in> set s" for c
    using that assms(2)
    by (auto simp: is_lower_alpha_def is_digit_char_def is_ascii_def byte_val_def ascii_spaces_def
        separators_set newline_def carriage_return_def)
  then show ?thesis using assms(1) trimmed_ascii [of s] by (auto simp: clean_def plain_def)
qed

lemma backendID_chars:
  "backendIDPattern s \<Longrightarrow> c \<in> set s \<Longrightarrow> is_lower_alpha c \<or> is_digit_char c \<or> c = CHR ''_'' \<or> c = CHR ''-''"
  by (auto simp: backendIDPattern_def list_all_iff split: list.splits)

lemma clean_backendID: "backendIDPattern s \<Longrightarrow> clean s"
  by (rule clean_ascii) (auto dest: backendIDPattern_nonempty backendID_chars)

lemma clean_itoa: "clean (itoa i)"
  by (rule clean_ascii) (auto dest: itoa_chars)

lemma clean_format_bool: "clean (format_bool b)"
proof -
  have "list_all is_lower_alpha ''true''" "list_all is_lower_alpha ''false''" by code_simp+
  then show ?thesis by (intro clean_ascii) (auto simp: format_bool_def list_all_iff split: if_splits)
qed

lemma clean_trim: "clean s \<Longrightarrow> trim_space s = s"
  by (simp add: clean_def trim_space_id)

lemma set_join: "c \<in> set (join [sep] xs) \<Longrightarrow> c = sep \<or> (\<exists>x \<in> set xs. c \<in> set x)"
  by (induction "[sep]" xs rule: join.induct) auto

lemma trimmed_join:
  assumes "is_ascii sep" and "\<forall>x \<in> set xs. x \<noteq> [] \<and> trimmed x"
  shows "trimmed (join [sep] xs) \<and> (xs \<noteq> [] \<longrightarrow> join [sep] xs \<noteq> [])"
  using assms
proof (induction "[sep]" xs rule: join.induct)
  case (3 x y ys)
  let ?r = "join [sep] (y # ys)"
  from 3 have r: "trimmed ?r" "?r \<noteq> []" and x: "x \<noteq> []" "trimmed x" by auto
  have "starts_clean (x @ sep # ?r)"
    using x "3.prems"(1) by (intro starts_clean_append) (auto simp: trimmed_def)
  moreover have "ends_clean ((x @ [sep]) @ ?r)"
    using r "3.prems"(1) by (intro ends_clean_append) (auto simp: trimmed_def)
  ultimately show ?case using x by (simp add: trimmed_def)
qed auto

lemma separator_ascii: "is_ascii (CHR ''|'')" "is_ascii (CHR '';'')"
  by code_simp+

section \<open>Reading what was printed\<close>

lemma update_fresh: "k \<notin> fst ` set m \<Longrightarrow> AList.update k v m = m @ [(k, v)]"
  by (induction m) auto

lemma propertyLine_entry:
  assumes "plainEntry e"
  shows "propertyLine m (entryLine e) = Inr (AList.update (fst e) (snd e) m)"
proof -
  have "CHR ''#'' \<notin> set (entryLine e)" using assms by (auto simp: plainEntry_def plainSecret_def entryLine_def)
  then have h: "split2 (CHR ''#'') (entryLine e) = [entryLine e]" by (rule split2_notin)
  have "split2 (CHR ''='') (entryLine e) = [fst e, snd e]"
    using assms split2_append [of "CHR ''=''" "fst e" "snd e"] by (simp add: plainEntry_def entryLine_def)
  moreover have "trim_space (fst e) = fst e" "trim_space (snd e) = snd e"
    using assms by (simp_all add: plainEntry_def plainSecret_def trim_space_id)
  moreover have "entryLine e \<noteq> []" by (simp add: entryLine_def)
  ultimately show ?thesis
    using h trim_space_id [OF trimmed_entryLine [OF assms]] by (simp add: propertyLine_def Let_def)
qed

lemma propertyLine_comment: "propertyLine m (CHR ''#'' # s) = Inr m"
  using split2_append [of "CHR ''#''" "[]" s] by (simp add: propertyLine_def Let_def)

lemma iterate_propertyLine:
  assumes "list_all plainEntry es" and "distinct (map fst es)" and "fst ` set es \<inter> fst ` set m = {}"
  shows "iterate propertyLine m (map entryLine es) = Inr (m @ es)"
  using assms
proof (induction es arbitrary: m)
  case (Cons e es)
  have "AList.update (fst e) (snd e) m = m @ [e]"
    using Cons.prems by (subst update_fresh) auto
  then have "iterate propertyLine m (map entryLine (e # es)) = iterate propertyLine (m @ [e]) (map entryLine es)"
    using Cons.prems by (simp add: propertyLine_entry)
  also have "\<dots> = Inr ((m @ [e]) @ es)" by (rule Cons.IH) (use Cons.prems in auto)
  finally show ?case by simp
qed simp

definition names :: "backendDefinition list \<Rightarrow> (string \<times> string) list" where
  "names bs = map (\<lambda>b. (bID b, bDisplayName b)) bs"

definition ports :: "backendDefinition list \<Rightarrow> (string \<times> int) list" where
  "ports bs = map (\<lambda>b. (bID b, bPublicPort b)) bs"

definition clean_backend :: "backendDefinition \<Rightarrow> bool" where
  "clean_backend b \<longleftrightarrow> backend_valid b \<and> clean (bID b) \<and> clean (bDisplayName b) \<and> clean (bHost b) \<and> clean (bProfile b)"

lemma printName_item:
  assumes "clean_backend b"
  shows "trim_space (printName b) = printName b" and "CHR '';'' \<notin> set (printName b)"
    and "split2 (CHR ''|'') (printName b) = [bID b, bDisplayName b]"
    and "trimmed (printName b)" and "printName b \<noteq> []"
proof -
  have c: "clean (bID b)" "clean (bDisplayName b)" using assms by (simp_all add: clean_backend_def)
  have p: "printName b = join ''|'' [bID b, bDisplayName b]" by (simp add: printName_def)
  show t: "trimmed (printName b)" "printName b \<noteq> []"
    using trimmed_join [of "CHR ''|''" "[bID b, bDisplayName b]"] c separator_ascii
    unfolding p by (auto simp: clean_def)
  then show "trim_space (printName b) = printName b" by (simp add: trim_space_id)
  show "CHR '';'' \<notin> set (printName b)" using c [THEN clean_excludes] by (auto simp: printName_def)
  show "split2 (CHR ''|'') (printName b) = [bID b, bDisplayName b]"
    using split2_append [of "CHR ''|''" "bID b" "bDisplayName b"] c [THEN clean_excludes] by (simp add: printName_def)
qed

lemma parseNameMap_printed:
  assumes "bs \<noteq> []" and "list_all clean_backend bs" and "distinct (map bID bs)"
  shows "parseNameMap (join '';'' (map printName bs)) = names bs"
proof -
  let ?f = "\<lambda>result item. case split2 (CHR ''|'') (trim_space item) of
         [k, v] \<Rightarrow> AList.update (trim_space k) (trim_space v) result
       | _ \<Rightarrow> result"
  have step: "foldl ?f m (map printName bs) = m @ names bs"
    if "list_all clean_backend bs" "distinct (map bID bs)" "bID ` set bs \<inter> fst ` set m = {}" for m bs
    using that
  proof (induction bs arbitrary: m)
    case (Cons b bs)
    have "?f m (printName b) = AList.update (bID b) (bDisplayName b) m"
      using printName_item [of b] Cons.prems by (simp add: clean_backend_def clean_trim)
    also have "\<dots> = m @ [(bID b, bDisplayName b)]" using Cons.prems by (intro update_fresh) auto
    finally have "foldl ?f m (map printName (b # bs)) = foldl ?f (m @ [(bID b, bDisplayName b)]) (map printName bs)"
      by simp
    also have "\<dots> = (m @ [(bID b, bDisplayName b)]) @ names bs"
      by (rule Cons.IH) (use Cons.prems in auto)
    finally show ?case by (simp add: names_def)
  qed (simp add: names_def)
  have "split_on (CHR '';'') (join '';'' (map printName bs)) = map printName bs"
    using assms printName_item(2) by (intro split_on_join) (auto simp: list_all_iff)
  then show ?thesis using step [OF assms(2,3), of "[]"] by (simp add: parseNameMap_def)
qed

lemma printRoute_item:
  assumes "clean_backend b" and "bPublicPort b > 0"
  shows "trimmed (printRoute b)" and "printRoute b \<noteq> []" and "CHR '';'' \<notin> set (printRoute b)"
    and "split_on (CHR ''|'') (printRoute b) = [itoa (bPublicPort b), bID b]"
proof -
  have c: "clean (bID b)" using assms by (simp add: clean_backend_def)
  have p: "printRoute b = join ''|'' [itoa (bPublicPort b), bID b]" by (simp add: printRoute_def)
  show "trimmed (printRoute b)" "printRoute b \<noteq> []"
    using trimmed_join [of "CHR ''|''" "[itoa (bPublicPort b), bID b]"] c separator_ascii
    unfolding p by (auto simp: clean_def)
  show "CHR '';'' \<notin> set (printRoute b)"
    using clean_excludes [OF c] clean_excludes [OF clean_itoa [of "bPublicPort b"]] by (auto simp: printRoute_def)
  show "split_on (CHR ''|'') (printRoute b) = [itoa (bPublicPort b), bID b]"
    unfolding p using clean_excludes [OF c] clean_excludes [OF clean_itoa [of "bPublicPort b"]]
    by (intro split_on_join) auto
qed

lemma staticRoute_printed:
  assumes "clean_backend b" and "bPublicPort b > 0" and "bPublicPort b \<notin> fst ` set used"
  shows "staticRoute (result, used) (printRoute b) =
    Inr (AList.update (bID b) (bPublicPort b) result, AList.update (bPublicPort b) (bID b) used)"
proof -
  have "bPublicPort b \<le> 65535" using assms(1) by (simp add: clean_backend_def backend_valid_def)
  with assms(2) have "in_int64 (bPublicPort b)" by (simp add: in_int64_def min_int64_def max_int64_def)
  moreover have "map_of used (bPublicPort b) = None" using assms(3) by (simp add: map_of_eq_None_iff)
  ultimately show ?thesis
    using printRoute_item [OF assms(1,2)] assms(1,2) \<open>bPublicPort b \<le> 65535\<close>
    by (simp add: staticRoute_def Let_def trim_space_id clean_backend_def clean_trim)
qed

lemma iterate_staticRoute:
  assumes "list_all (\<lambda>b. clean_backend b \<and> bPublicPort b > 0) bs"
    and "distinct (map bID bs)" and "distinct (map bPublicPort bs)"
    and "bID ` set bs \<inter> fst ` set result = {}" and "bPublicPort ` set bs \<inter> fst ` set used = {}"
  shows "\<exists>used'. iterate staticRoute (result, used) (map printRoute bs) = Inr (result @ ports bs, used')"
  using assms
proof (induction bs arbitrary: result used)
  case (Cons b bs)
  have "iterate staticRoute (result, used) (map printRoute (b # bs)) =
      iterate staticRoute (result @ [(bID b, bPublicPort b)], used @ [(bPublicPort b, bID b)]) (map printRoute bs)"
    using Cons.prems by (simp add: staticRoute_printed update_fresh)
  moreover have "\<exists>used'. iterate staticRoute (result @ [(bID b, bPublicPort b)], used @ [(bPublicPort b, bID b)])
      (map printRoute bs) = Inr ((result @ [(bID b, bPublicPort b)]) @ ports bs, used')"
    by (rule Cons.IH) (use Cons.prems in auto)
  ultimately show ?case by (simp add: ports_def)
qed (simp add: ports_def)

lemma parseStaticRoutes_printed:
  assumes "list_all (\<lambda>b. clean_backend b \<and> bPublicPort b > 0) bs"
    and "distinct (map bID bs)" and "distinct (map bPublicPort bs)"
  shows "parseStaticRoutes (join '';'' (map printRoute bs)) = Inr (ports bs)"
proof (cases "bs = []")
  case True
  then show ?thesis by (simp add: parseStaticRoutes_def staticRoute_def ports_def)
next
  case False
  have "split_on (CHR '';'') (join '';'' (map printRoute bs)) = map printRoute bs"
    using assms False printRoute_item(3) by (intro split_on_join) (auto simp: list_all_iff)
  moreover obtain u where "iterate staticRoute ([], []) (map printRoute bs) = Inr ([] @ ports bs, u)"
    using iterate_staticRoute [of bs "[]" "[]"] assms by auto
  ultimately show ?thesis by (simp add: parseStaticRoutes_def)
qed

text \<open>What the format keeps of a backend.\<close>

definition legacyBackend :: "backendDefinition \<Rightarrow> backendDefinition" where
  "legacyBackend b = b\<lparr>bFallbackBackend := [], bConnectionMode := ''transparent'', bBackendAdapter := ''proxy_only'',
     bBackendOnlineMode := True, bRequireProxyIdentity := False, bCapacity := 50, bCompanionSecretEnv := []\<rparr>"

lemma parseRegistryBool_format: "parseRegistryBool (format_bool b) f = b"
proof -
  have "parseRegistryBool ''true'' True" "parseRegistryBool ''true'' False"
    "\<not> parseRegistryBool ''false'' True" "\<not> parseRegistryBool ''false'' False" by code_simp+
  then show ?thesis by (cases b; cases f) (simp_all add: format_bool_def)
qed

lemma printBackend_fields:
  assumes "clean_backend b"
  shows "split_on (CHR ''|'') (printBackend b) =
      [bID b, bHost b, itoa (bBackendPort b), format_bool (bFallback b), bProfile b, format_bool (bEnabled b)]"
    and "trimmed (printBackend b)" and "printBackend b \<noteq> []"
    and "CHR '';'' \<notin> set (printBackend b)"
proof -
  let ?fs = "[bID b, bHost b, itoa (bBackendPort b), format_bool (bFallback b), bProfile b, format_bool (bEnabled b)]"
  have c: "\<forall>x \<in> set ?fs. clean x"
    using assms clean_itoa clean_format_bool by (simp add: clean_backend_def)
  have "bProfile b \<noteq> []" using assms by (auto simp: clean_backend_def clean_def)
  then have p: "printBackend b = join ''|'' ?fs" by (simp add: printBackend_def)
  show "split_on (CHR ''|'') (printBackend b) = ?fs"
    unfolding p using c by (intro split_on_join) (auto dest: clean_excludes)
  show "trimmed (printBackend b)" "printBackend b \<noteq> []"
    unfolding p using trimmed_join [of "CHR ''|''" ?fs] c separator_ascii by (auto simp: clean_def)
  show "CHR '';'' \<notin> set (printBackend b)"
    unfolding p using c by (fastforce dest: set_join clean_excludes)
qed

lemma backendEntry_printed:
  assumes "clean_backend b" and "map_get ns (bID b) = bDisplayName b" and "int_get ps (bID b) = bPublicPort b"
  shows "backendEntry ns ps bs (printBackend b) = Inr (bs @ [legacyBackend b])"
proof -
  have "1 \<le> bBackendPort b \<and> bBackendPort b \<le> 65535" using assms(1) by (simp add: clean_backend_def backend_valid_def)
  then have "in_int64 (bBackendPort b)" by (simp add: in_int64_def min_int64_def max_int64_def)
  moreover have "bProfile b \<noteq> []" "bDisplayName b \<noteq> []" using assms(1) by (auto simp: clean_backend_def clean_def)
  ultimately show ?thesis
    using printBackend_fields [OF assms(1)] assms
    by (simp add: backendEntry_def Let_def trim_space_id clean_backend_def clean_trim
        parseRegistryBool_format legacyBackend_def)
qed

lemma iterate_backendEntry:
  assumes "list_all (\<lambda>b. clean_backend b \<and> map_get ns (bID b) = bDisplayName b \<and> int_get ps (bID b) = bPublicPort b) cs"
  shows "iterate (backendEntry ns ps) bs (map printBackend cs) = Inr (bs @ map legacyBackend cs)"
  using assms by (induction cs arbitrary: bs) (simp_all add: backendEntry_printed)

definition legacyTopology :: "topologyConfig \<Rightarrow> topologyConfig" where
  "legacyTopology t = t\<lparr>tBackends := map legacyBackend (tBackends t)\<rparr>"

definition topologyEntries :: "topologyConfig \<Rightarrow> (string \<times> string) list" where
  "topologyEntries t =
     [(''version'', itoa topologySchemaVersion), (''primary_backend'', tPrimaryBackend t),
      (''routing_mode'', tRoutingMode t), (''backends'', join '';'' (map printBackend (tBackends t))),
      (''static_routes'', join '';'' (map printRoute (filter (\<lambda>b. bPublicPort b > 0) (tBackends t)))),
      (''display_names'', join '';'' (map printName (tBackends t)))]"

text \<open>Texts that the format can carry: no hash sign, no white space around them, and lines that the
  scanner's buffer holds.\<close>

definition registry_printable :: "topologyConfig \<Rightarrow> bool" where
  "registry_printable t \<longleftrightarrow>
     list_all (\<lambda>b. list_all (\<lambda>s. trimmed s \<and> CHR ''#'' \<notin> set s) [bDisplayName b, bHost b, bProfile b]) (tBackends t) \<and>
     list_all (\<lambda>e. length (entryLine e) < 65536) (topologyEntries t)"

lemma clean_of_valid:
  assumes "topology_valid t" and "registry_printable t"
  shows "list_all clean_backend (tBackends t)"
  unfolding list_all_iff
proof
  fix b assume b: "b \<in> set (tBackends t)"
  have "backend_valid b" using assms(1) b by (simp only: topology_valid_def list_all_iff)
  note v = backend_validD [OF this]
  have "\<forall>s \<in> {bDisplayName b, bHost b, bProfile b}. trimmed s \<and> CHR ''#'' \<notin> set s"
    using assms(2) b by (simp add: registry_printable_def list_all_iff)
  then show "clean_backend b"
    using v \<open>backend_valid b\<close> clean_backendID by (auto simp: clean_backend_def clean_def)
qed

lemma clean_routing_mode:
  "m \<in> {''primary'', ''failover'', ''round_robin'', ''least_sessions''} \<Longrightarrow> clean m"
proof -
  have "clean ''primary''" "clean ''failover''" "clean ''round_robin''" "clean ''least_sessions''" by code_simp+
  then show "m \<in> {''primary'', ''failover'', ''round_robin'', ''least_sessions''} \<Longrightarrow> clean m"
    by (elim insertE emptyE) (simp_all only:)
qed

lemma clean_plainSecret: "clean s \<Longrightarrow> plainSecret s \<and> carriage_return \<notin> set s"
  by (auto simp: clean_def plainSecret_def dest: clean_excludes) (auto simp: plain_def separators_set)

lemma entry_of_items:
  assumes "\<forall>x \<in> set xs. x \<noteq> [] \<and> trimmed x \<and> CHR ''#'' \<notin> set x \<and> newline \<notin> set x \<and> carriage_return \<notin> set x"
  shows "plainSecret (join '';'' xs) \<and> carriage_return \<notin> set (join '';'' xs)"
proof -
  have "CHR '';'' \<noteq> newline" "CHR '';'' \<noteq> carriage_return" by code_simp+
  then show ?thesis
    using assms trimmed_join [of "CHR '';''" xs] separator_ascii
    by (auto simp: plainSecret_def dest!: set_join)
qed

lemma clean_printed:
  assumes "clean_backend b"
  shows "\<forall>c \<in> set (printBackend b) \<union> set (printRoute b) \<union> set (printName b).
    c \<noteq> CHR ''#'' \<and> c \<noteq> newline \<and> c \<noteq> carriage_return"
proof -
  have sep: "CHR ''|'' \<noteq> newline" "CHR ''|'' \<noteq> carriage_return" by code_simp+
  have "clean (bID b)" "clean (bHost b)" "clean (bProfile b)" "clean (bDisplayName b)"
    using assms by (simp_all add: clean_backend_def)
  with clean_itoa [of "bBackendPort b"] clean_itoa [of "bPublicPort b"]
    clean_format_bool [of "bFallback b"] clean_format_bool [of "bEnabled b"]
  show ?thesis
    using sep by (auto simp: printBackend_def printRoute_def printName_def dest!: clean_excludes split: if_splits)
qed

lemma topologyEntries_plain:
  assumes "topology_valid t" and "list_all clean_backend (tBackends t)"
  shows "list_all plainEntry (topologyEntries t) \<and> (\<forall>e \<in> set (topologyEntries t). carriage_return \<notin> set (entryLine e))"
proof -
  have items: "\<forall>b \<in> set (tBackends t). clean_backend b" using assms(2) by (simp add: list_all_iff)
  have "clean (tPrimaryBackend t)" "clean (tRoutingMode t)"
    using assms(1) items clean_routing_mode by (auto simp: topology_valid_def clean_backend_def)
  then have single: "plainSecret s \<and> carriage_return \<notin> set s"
    if "s \<in> {itoa topologySchemaVersion, tPrimaryBackend t, tRoutingMode t}" for s
    using that clean_itoa [of topologySchemaVersion] clean_plainSecret by (elim insertE emptyE) (simp_all only: simp_thms)
  have lists: "plainSecret s \<and> carriage_return \<notin> set s"
    if "s \<in> {join '';'' (map printBackend (tBackends t)),
        join '';'' (map printRoute (filter (\<lambda>b. bPublicPort b > 0) (tBackends t))),
        join '';'' (map printName (tBackends t))}" for s
    using that items printBackend_fields(2,3) printRoute_item(1,2) printName_item(4,5) clean_printed
    by (elim insertE emptyE) (simp only:, rule entry_of_items, fastforce)+
  have "list_all (\<lambda>k. plainSecret k \<and> k \<noteq> [] \<and> CHR ''='' \<notin> set k \<and> carriage_return \<notin> set k)
    [''version'', ''primary_backend'', ''routing_mode'', ''backends'', ''static_routes'', ''display_names'']"
    by code_simp
  then have keys: "list_all (\<lambda>k. plainSecret k \<and> k \<noteq> [] \<and> CHR ''='' \<notin> set k \<and> carriage_return \<notin> set k)
    (map fst (topologyEntries t))"
    by (simp only: topologyEntries_def list.map fst_conv)
  have vals: "list_all (\<lambda>s. plainSecret s \<and> carriage_return \<notin> set s) (map snd (topologyEntries t))"
    using single lists by (simp only: topologyEntries_def list.map snd_conv list.pred_inject insert_iff simp_thms)
  have eq: "CHR ''='' \<noteq> carriage_return" by code_simp
  from keys vals eq show ?thesis by (auto simp: list_all_iff plainEntry_def entryLine_def)
qed

lemma legacy_valid:
  assumes "topology_valid t"
  shows "topology_valid (legacyTopology t)"
proof -
  have legacy: "backend_valid (legacyBackend b)" if "backend_valid b" for b
    using that unfolding backend_valid_def legacyBackend_def connectionMode_def backendAdapter_def by simp
  have "list_all backend_valid (tBackends t)" using assms by (simp only: topology_valid_def)
  then have "list_all backend_valid (map legacyBackend (tBackends t))"
    using legacy by (simp add: list_all_iff)
  moreover have "map bID (map legacyBackend (tBackends t)) = map bID (tBackends t)"
    "map bPublicPort (map legacyBackend (tBackends t)) = map bPublicPort (tBackends t)"
    by (simp_all add: legacyBackend_def)
  ultimately show ?thesis
    using assms unfolding topology_valid_def legacyTopology_def assignedPorts_def
    by (simp del: map_map)
qed

lemma lookup_printed:
  assumes "list_all clean_backend bs" and "distinct (map bID bs)"
  shows "list_all (\<lambda>b. clean_backend b \<and> map_get (names bs) (bID b) = bDisplayName b \<and>
    int_get (ports (filter (\<lambda>b. bPublicPort b > 0) bs)) (bID b) = bPublicPort b) bs"
  unfolding list_all_iff
proof
  fix b assume b: "b \<in> set bs"
  then have c: "clean_backend b" using assms(1) by (simp add: list_all_iff)
  have "map_of (names bs) (bID b) = Some (bDisplayName b)"
    using b assms(2) by (intro map_of_is_SomeI) (auto simp: names_def comp_def)
  moreover have "int_get (ports (filter (\<lambda>b. bPublicPort b > 0) bs)) (bID b) = bPublicPort b"
  proof (cases "bPublicPort b > 0")
    case True
    have "distinct (map bID (filter (\<lambda>b. bPublicPort b > 0) bs))" using assms(2) by (rule distinct_map_filter)
    then have "map_of (ports (filter (\<lambda>b. bPublicPort b > 0) bs)) (bID b) = Some (bPublicPort b)"
      using b True by (intro map_of_is_SomeI) (auto simp: ports_def comp_def)
    then show ?thesis by (simp add: int_get_def)
  next
    case False
    have "bID x \<noteq> bID b" if "x \<in> set bs" "bPublicPort x > 0" for x
      using that False b assms(2) by (metis distinct_map inj_onD)
    then have "map_of (ports (filter (\<lambda>b. bPublicPort b > 0) bs)) (bID b) = None"
      unfolding map_of_eq_None_iff ports_def by force
    moreover have "bPublicPort b = 0"
      using False backend_validD(10) [of b] c by (simp add: clean_backend_def)
    ultimately show ?thesis by (simp add: int_get_def)
  qed
  ultimately show "clean_backend b \<and> map_get (names bs) (bID b) = bDisplayName b \<and>
    int_get (ports (filter (\<lambda>b. bPublicPort b > 0) bs)) (bID b) = bPublicPort b"
    using c by (simp add: map_get_def)
qed

lemma serialized_lines:
  assumes "topology_valid t" and "registry_printable t"
  shows "\<exists>c. scan_lines (serializeTopology t) = ((CHR ''#'' # c) # map entryLine (topologyEntries t), False)"
proof -
  note clean = clean_of_valid [OF assms]
  let ?c = "''# Managed by Ninj-OS Edge Fabric. Use the dashboard or edit while the proxy is stopped.''"
  have e: "serializeTopology t = concat (map (\<lambda>l. l @ [newline]) (?c # map entryLine (topologyEntries t)))"
    by (simp add: serializeTopology_def topologyEntries_def entryLine_def)
  have c: "newline \<notin> set ?c" "carriage_return \<notin> set ?c" "length ?c < 65536"
    by (simp_all add: newline_def carriage_return_def)
  have "\<forall>x \<in> set (map entryLine (topologyEntries t)). newline \<notin> set x \<and> carriage_return \<notin> set x \<and> length x < 65536"
    using topologyEntries_plain [OF assms(1) clean] entryLines_no_newline [of "topologyEntries t"] assms(2)
    by (auto simp: registry_printable_def list_all_iff)
  then have "\<forall>x \<in> set (?c # map entryLine (topologyEntries t)).
      newline \<notin> set x \<and> carriage_return \<notin> set x \<and> length x < 65536"
    using c by (simp only: list.set ball_simps simp_thms)
  then have "scan_lines (serializeTopology t) = (?c # map entryLine (topologyEntries t), False)"
    unfolding e by (rule scan_lines_terminated)
  then show ?thesis by blast
qed

lemma topologyEntries_get:
  "map_get (topologyEntries t) ''version'' = itoa topologySchemaVersion"
  "map_get (topologyEntries t) ''primary_backend'' = tPrimaryBackend t"
  "map_get (topologyEntries t) ''routing_mode'' = tRoutingMode t"
  "map_get (topologyEntries t) ''backends'' = join '';'' (map printBackend (tBackends t))"
  "map_get (topologyEntries t) ''static_routes'' = join '';'' (map printRoute (filter (\<lambda>b. bPublicPort b > 0) (tBackends t)))"
  "map_get (topologyEntries t) ''display_names'' = join '';'' (map printName (tBackends t))"
  by (simp_all add: topologyEntries_def map_get_def)

lemma parse_serialized:
  assumes "topology_valid t" and "registry_printable t"
  shows "parseTopologyProperties (serializeTopology t) = Inr (legacyTopology t)"
proof -
  note clean = clean_of_valid [OF assms]
  have ids: "distinct (map bID (tBackends t))" and tports: "distinct (assignedPorts t)"
    and ne: "tBackends t \<noteq> []" and version: "tVersion t = 1"
    using assms(1) by (auto simp only: topology_valid_def list.map list.set empty_iff)
  let ?routed = "filter (\<lambda>b. bPublicPort b > 0) (tBackends t)"
  obtain c where "scan_lines (serializeTopology t) = ((CHR ''#'' # c) # map entryLine (topologyEntries t), False)"
    using serialized_lines [OF assms] by blast
  moreover have "iterate propertyLine [] (map entryLine (topologyEntries t)) = Inr (topologyEntries t)"
    using iterate_propertyLine [of "topologyEntries t" "[]"] topologyEntries_plain [OF assms(1) clean]
    by (simp add: topologyEntries_def)
  moreover have "parseNameMap (join '';'' (map printName (tBackends t))) = names (tBackends t)"
    using parseNameMap_printed [OF ne clean ids] .
  moreover have "map bPublicPort ?routed = assignedPorts t" by (simp add: assignedPorts_def filter_map comp_def)
  then have "parseStaticRoutes (join '';'' (map printRoute ?routed)) = Inr (ports ?routed)"
    using clean tports distinct_map_filter [OF ids]
    by (intro parseStaticRoutes_printed) (auto simp: list_all_iff)
  moreover have "split_on (CHR '';'') (join '';'' (map printBackend (tBackends t))) = map printBackend (tBackends t)"
    using clean ne printBackend_fields(4) by (intro split_on_join) (auto simp: list_all_iff)
  moreover have "iterate (backendEntry (names (tBackends t)) (ports ?routed)) [] (map printBackend (tBackends t))
      = Inr (map legacyBackend (tBackends t))"
    using iterate_backendEntry [OF lookup_printed [OF clean ids], of "[]"] by simp
  moreover have "clean (tPrimaryBackend t)" "clean (tRoutingMode t)"
    using assms(1) clean clean_routing_mode by (auto simp: topology_valid_def clean_backend_def list_all_iff)
  moreover have legacy: "legacyTopology t = \<lparr>tVersion = 1, tPrimaryBackend = tPrimaryBackend t,
      tRoutingMode = tRoutingMode t, tBackends = map legacyBackend (tBackends t)\<rparr>"
    using version by (cases t) (simp add: legacyTopology_def)
  moreover have "validateTopology (legacyTopology t) = Inr ()"
    using legacy_valid [OF assms(1)] by (simp add: validateTopology_Inr)
  moreover have "atoi (itoa 1) = Some 1" by (simp add: in_int64_def min_int64_def max_int64_def)
  ultimately show ?thesis
    using version ne
    by (simp add: parseTopologyProperties_def propertyLine_comment topologyEntries_get clean_trim
        topologySchemaVersion_def Let_def clean_def)
qed

lemma legacyTopology_kept:
  assumes "topology_valid t" and "registry_printable t"
  shows "topology_valid (legacyTopology t) \<and> registry_printable (legacyTopology t)"
proof -
  have "backend_valid (legacyBackend b)" if "backend_valid b" for b
    using that by (simp add: backend_valid_def legacyBackend_def connectionMode_def backendAdapter_def)
  then have "topology_valid (legacyTopology t)"
    using assms(1) by (simp add: topology_valid_def legacyTopology_def assignedPorts_def comp_def list_all_iff)
      (simp add: legacyBackend_def)
  moreover have lines: "printBackend (legacyBackend b) = printBackend b" "printRoute (legacyBackend b) = printRoute b"
    "printName (legacyBackend b) = printName b" "bPublicPort (legacyBackend b) = bPublicPort b" for b
    by (simp_all add: legacyBackend_def printBackend_def printRoute_def printName_def)
  have "topologyEntries (legacyTopology t) = topologyEntries t"
    unfolding topologyEntries_def legacyTopology_def by (simp add: filter_map comp_def lines)
  then have "registry_printable (legacyTopology t)"
    using assms(2) by (simp add: registry_printable_def) (simp add: legacyTopology_def legacyBackend_def list_all_iff)
  ultimately show ?thesis by blast
qed

interpretation topology_format: text_format serializeTopology parseTopologyProperties legacyTopology
  "\<lambda>t. topology_valid t \<and> registry_printable t"
proof
  fix t
  assume t: "topology_valid t \<and> registry_printable t"
  have "legacyTopology (legacyTopology t) = legacyTopology t"
    by (simp add: legacyTopology_def legacyBackend_def)
  then show "\<exists>y. parseTopologyProperties (serializeTopology t) = Inr y \<and> legacyTopology y = legacyTopology t \<and>
      topology_valid y \<and> registry_printable y"
    using parse_serialized legacyTopology_kept t by blast
qed

section \<open>Properties\<close>


lemma defaultTopology_valid: "topology_valid defaultTopology"
proof -
  have p: "backendIDPattern ''kingdom''" "backendIDPattern ''zoo''"
    "secretEnvPattern ''COMPANION_KINGDOM_SECRET''" "secretEnvPattern ''COMPANION_ZOO_SECRET''" by code_simp+
  have t: "trim_space ''The Kingdom'' \<noteq> []" "trim_space ''Zoo'' \<noteq> []" "trim_space ''185.83.152.144'' \<noteq> []" by code_simp+
  have s: "plain ''The Kingdom''" "plain ''Zoo''" "plain ''185.83.152.144''" "plain ''kingdom''" "plain ''zoo''"
    by code_simp+
  show ?thesis
    using p t s by (simp add: topology_valid_def defaultTopology_def topologySchemaVersion_def backend_valid_def
        connectionMode_def backendAdapter_def assignedPorts_def)
qed

lemma defaultTopology_printable: "registry_printable defaultTopology"
proof -
  have n: "itoa 25565 = ''25565''" "itoa 25566 = ''25566''" "itoa 19431 = ''19431''" "itoa 25571 = ''25571''" "itoa 1 = ''1''"
    by (simp_all add: itoa_def show_nat.simps digit_char_def char_of_def bit_0)
  have "trimmed ''The Kingdom''" "trimmed ''Zoo''" "trimmed ''185.83.152.144''" "trimmed ''kingdom''" "trimmed ''zoo''"
    by code_simp+
  then show ?thesis
    by (simp add: registry_printable_def defaultTopology_def topologyEntries_def entryLine_def topologySchemaVersion_def
        printBackend_def printRoute_def printName_def format_bool_def n)
qed


lemma set_foldl_insert: "set (foldl (\<lambda>s p. List.insert p s) seen ps) = set seen \<union> set ps"
  by (induction ps arbitrary: seen) auto

lemma distinct_foldl_insert: "distinct seen \<Longrightarrow> distinct (foldl (\<lambda>s p. List.insert p s) seen ps)"
  by (induction ps arbitrary: seen) auto

lemma portItem_keeps:
  assumes "distinct seen" and "set seen \<subseteq> {1..65535}"
  shows "distinct (portItem seen item) \<and> set (portItem seen item) \<subseteq> {1..65535} \<and> set seen \<subseteq> set (portItem seen item)"
proof -
  have r: "set (rangePorts a b) \<subseteq> {1..65535}" for a b by (auto simp: rangePorts_def)
  show ?thesis
    using assms r
    by (auto simp: portItem_def Let_def set_foldl_insert distinct_foldl_insert split: list.splits option.splits prod.splits)
qed

text \<open>The list of managed public ports that the configuration gives is sorted, has no port twice and
  holds only ports from 1 to 65535, whatever its text is.\<close>

theorem port_list_well_formed:
  "sorted (parsePortList raw) \<and> distinct (parsePortList raw) \<and> set (parsePortList raw) \<subseteq> {1..65535}"
proof -
  have "distinct (foldl portItem [] xs) \<and> set (foldl portItem [] xs) \<subseteq> {1..65535}" for xs
    using foldl_keeps [of "\<lambda>s. distinct s \<and> set s \<subseteq> {1..65535}" portItem "[]" xs] portItem_keeps by auto
  then show ?thesis by (simp add: parsePortList_def)
qed

end
