(* ===== verification/Ini.thy ===== *)
theory Ini
  imports Registry
begin

text \<open>
  The unified configuration document of \<^verbatim>\<open>dashboard/config.go\<close>: reading and printing the INI text and
  the typed accessors.  A document is the Go map of sections to maps of keys; as an association list
  it has one entry per section and per key, in any order, and \<open>ini_view\<close> is the map of maps that the
  program sees.
\<close>

section \<open>Documents\<close>

type_synonym ini = "(string \<times> (string \<times> string) list) list"

definition unifiedConfigVersion :: int where "unifiedConfigVersion = 1"

text \<open>\<^verbatim>\<open>d.Sections[s]\<close>, with nil read as the empty map.\<close>

definition sectionValues :: "ini \<Rightarrow> string \<Rightarrow> (string \<times> string) list" where
  "sectionValues doc s = (case map_of doc s of None \<Rightarrow> [] | Some kvs \<Rightarrow> kvs)"

definition hasSection :: "ini \<Rightarrow> string \<Rightarrow> bool" where
  "hasSection doc s \<longleftrightarrow> map_of doc s \<noteq> None"

definition addSection :: "ini \<Rightarrow> string \<Rightarrow> ini" where
  "addSection doc s = (if hasSection doc s then doc else AList.update s [] doc)"

definition putKey :: "ini \<Rightarrow> string \<Rightarrow> string \<Rightarrow> string \<Rightarrow> ini" where
  "putKey doc s k v = AList.update s (AList.update k v (sectionValues doc s)) doc"

text \<open>\<^verbatim>\<open>d.section(name)[key] = value\<close>.\<close>

definition setKey :: "ini \<Rightarrow> string \<Rightarrow> string \<Rightarrow> string \<Rightarrow> ini" where
  "setKey doc name k v = putKey doc (to_lower (trim_space name)) k v"

section \<open>Reading\<close>

definition iniLine :: "nat \<Rightarrow> string \<times> ini \<Rightarrow> string \<Rightarrow> (string \<times> ini) result" where
  "iniLine lineNumber st textLine =
     (let raw = trim_space textLine; (sec, doc) = st;
          failed = (\<lambda>what. Inl (''line '' @ itoa (int lineNumber) @ '': '' @ what)) in
      if raw = [] \<or> has_prefix raw ''#'' \<or> has_prefix raw '';'' then Inr st
      else if has_prefix raw ''['' \<and> has_suffix raw '']'' then
        let s = to_lower (trim_space (butlast (tl raw))) in
        if s = [] then failed ''empty section name'' else Inr (s, addSection doc s)
      else case split2 (CHR ''='') raw of
        [f0, f1] \<Rightarrow>
          let key = to_lower (trim_space f0); value = trim_space f1 in
          if key = [] then failed ''empty key'' else Inr (sec, putKey doc sec key value)
      | _ \<Rightarrow> failed ''expected key = value'')"

fun iniLoop :: "nat \<Rightarrow> string \<times> ini \<Rightarrow> string list \<Rightarrow> (string \<times> ini) result" where
  "iniLoop n st [] = Inr st"
| "iniLoop n st (l # ls) = attempt (iniLine n st l) (\<lambda>st'. iniLoop (Suc n) st' ls)"

definition parseINI :: "string \<Rightarrow> ini result" where
  "parseINI content =
     (let (ls, tooLong) = scan_lines content in
      attempt (iniLoop 1 (''edge'', [(''edge'', [])]) ls) (\<lambda>(sec, doc).
      if tooLong then Inl ''bufio.Scanner: token too long'' else Inr doc))"

section \<open>Accessors\<close>

definition get :: "ini \<Rightarrow> string \<Rightarrow> string \<Rightarrow> string \<Rightarrow> string" where
  "get doc s key fallback =
     (case map_of doc (to_lower s) of
        None \<Rightarrow> fallback
      | Some kvs \<Rightarrow> let v = trim_space (map_get kvs (to_lower key)) in if v = [] then fallback else v)"

definition truthy :: "string \<Rightarrow> bool" where
  "truthy v \<longleftrightarrow> v \<in> {''1'', ''true'', ''yes'', ''on'', ''enabled''}"

definition falsy :: "string \<Rightarrow> bool" where
  "falsy v \<longleftrightarrow> v \<in> {''0'', ''false'', ''no'', ''off'', ''disabled''}"

definition getBool :: "ini \<Rightarrow> string \<Rightarrow> string \<Rightarrow> bool \<Rightarrow> bool" where
  "getBool doc s key fallback =
     (let v = to_lower (get doc s key []) in if truthy v then True else if falsy v then False else fallback)"

definition getInt :: "ini \<Rightarrow> string \<Rightarrow> string \<Rightarrow> int \<Rightarrow> int \<Rightarrow> int \<Rightarrow> int" where
  "getInt doc s key fallback minimum maximum =
     (case atoi (get doc s key (itoa fallback)) of
        None \<Rightarrow> fallback
      | Some v \<Rightarrow> if v < minimum \<or> v > maximum then fallback else v)"

definition valueOr :: "(string \<times> string) list \<Rightarrow> string \<Rightarrow> string \<Rightarrow> string" where
  "valueOr kvs key fallback = (let v = trim_space (map_get kvs key) in if v \<noteq> [] then v else fallback)"

definition intOr :: "(string \<times> string) list \<Rightarrow> string \<Rightarrow> int \<Rightarrow> int" where
  "intOr kvs key fallback = (case atoi (trim_space (map_get kvs key)) of None \<Rightarrow> fallback | Some v \<Rightarrow> v)"

definition boolOr :: "(string \<times> string) list \<Rightarrow> string \<Rightarrow> bool \<Rightarrow> bool" where
  "boolOr kvs key fallback =
     (let v = to_lower (trim_space (map_get kvs key)) in
      if truthy v then True else if falsy v then False else fallback)"

definition resolveConfigValue :: "host \<Rightarrow> string \<Rightarrow> string" where
  "resolveConfigValue h value0 =
     (let value = trim_space value0 in
      if \<not> has_prefix (to_lower value) ''env:'' then value
      else let variable = trim_space (drop 4 value) in
           if variable = [] then [] else trim_space (getenv h variable))"

definition envNameFromReference :: "string \<Rightarrow> string" where
  "envNameFromReference value0 =
     (let value = trim_space value0 in
      if has_prefix (to_lower value) ''env:'' then trim_space (drop 4 value) else [])"

section \<open>Printing\<close>

definition standardSections :: "string list" where
  "standardSections = [''edge'', ''dashboard'', ''session_core'', ''companion'', ''transfer'', ''firewall'',
     ''incident'', ''health'', ''logging'', ''discord'']"

definition keyOrder :: "string \<Rightarrow> string list" where
  "keyOrder s =
     (if has_prefix s ''backend.'' then
        [''display_name'', ''host'', ''backend_port'', ''public_port'', ''enabled'', ''fallback'', ''fallback_backend'',
         ''protection_profile'', ''connection_mode'', ''backend_adapter'', ''backend_online_mode'',
         ''require_proxy_identity'', ''capacity'', ''companion_secret'']
      else if has_prefix s ''profile.'' then
        [''max_datagram_size'', ''max_packets_per_second_per_ip'', ''max_handshakes_per_minute'',
         ''max_sessions_per_ip'', ''allow_new_sessions_during_incident'']
      else if s = ''edge'' then
        [''config_version'', ''instance_name'', ''public_host'', ''primary_allocation_port'',
         ''managed_public_udp_ports'', ''primary_backend'', ''routing_mode'']
      else if s = ''dashboard'' then
        [''port'', ''public_host'', ''owner_username'', ''owner_token'', ''operator_token'', ''viewer_token'',
         ''metrics_token'', ''totp_secret'', ''session_minutes'']
      else if s = ''session_core'' then
        [''enabled'', ''version'', ''advertised_version'', ''protocol_capture_enabled'', ''protocol_capture_mode'',
         ''protocol_observation_max_bytes'', ''protocol_capture_packet_ids'', ''protocol_capture_max_packet_bytes'',
         ''protocol_capture_decode_failures'', ''listen_host'', ''internal_token'', ''motd'', ''sub_motd'',
         ''require_transfer_ticket'', ''command_prefix'', ''profiles_folder'']
      else if s = ''companion'' then
        [''default_secret'', ''presence_ttl_seconds'', ''capture_mode'', ''selected_packet_ids'', ''payload_limit'',
         ''redact_packet_ids'', ''queue_capacity'', ''batch_size'', ''flush_ms'', ''movement_sample_rate'',
         ''metrics_interval_ticks'', ''reconnect_seconds'', ''presence_enabled'', ''presence_include_address'',
         ''transfer_enabled'', ''drop_receive_ids'', ''drop_send_ids'']
      else if s = ''transfer'' then
        [''enabled'', ''public_host'', ''port_start'', ''port_end'', ''ticket_ttl_seconds'', ''require_source_ip'']
      else if s = ''firewall'' then
        [''enabled'', ''adaptive'', ''risk_decay_per_minute'', ''risk_warning_threshold'', ''risk_ban_threshold'',
         ''progressive_ban_seconds'', ''max_datagram_size'', ''max_packets_per_second_per_ip'',
         ''global_packets_per_second'', ''max_handshakes_per_minute'', ''max_sessions'', ''max_sessions_per_ip'']
      else if s = ''incident'' then
        [''enabled'', ''trigger_packets_per_second'', ''trigger_drop_ratio'', ''minimum_packets_per_second'',
         ''recovery_seconds'', ''rate_divisor'', ''handshake_divisor'']
      else if s = ''health'' then
        [''enabled'', ''interval_seconds'', ''timeout_ms'', ''failure_threshold'', ''recovery_threshold'',
         ''automatic_actions'', ''require_companion'', ''companion_stale_seconds'', ''degraded_after_seconds'',
         ''stable_recovery_seconds'', ''minimum_tps'', ''maximum_mspt'']
      else if s = ''logging'' then
        [''packet_capture'', ''capture_outgoing'', ''packet_hex_preview_bytes'', ''packet_log_max_bytes'',
         ''event_log_max_bytes'', ''audit_log_max_bytes'', ''metric_sample_seconds'', ''metric_retention_days'']
      else if s = ''discord'' then [''webhook_url'', ''bot_token'', ''channel_id'', ''summary_minutes'']
      else [])"

definition orderedSections :: "ini \<Rightarrow> string list" where
  "orderedSections doc =
     (let ss = map fst doc;
          backends = filter (\<lambda>s. has_prefix s ''backend.'') ss;
          profiles = filter (\<lambda>s. \<not> has_prefix s ''backend.'' \<and> has_prefix s ''profile.'') ss;
          extras = filter (\<lambda>s. \<not> has_prefix s ''backend.'' \<and> \<not> has_prefix s ''profile.'' \<and>
                                s \<notin> set standardSections) ss
      in filter (hasSection doc) (standardSections @ sort backends @ sort profiles @ sort extras))"

definition orderedKeys :: "string \<Rightarrow> (string \<times> string) list \<Rightarrow> string list" where
  "orderedKeys s kvs =
     (let written = filter (\<lambda>k. map_of kvs k \<noteq> None) (keyOrder s)
      in written @ sort (filter (\<lambda>k. k \<notin> set written) (map fst kvs)))"

definition keyLine :: "string \<times> string \<Rightarrow> string" where
  "keyLine e = fst e @ '' = '' @ snd e"

definition sectionLines :: "ini \<Rightarrow> string \<Rightarrow> string list" where
  "sectionLines doc s =
     (let kvs = sectionValues doc s in
      (''['' @ s @ '']'') # map (\<lambda>k. keyLine (k, map_get kvs k)) (orderedKeys s kvs) @ [[]])"

definition renderUnifiedConfig :: "ini \<Rightarrow> string" where
  "renderUnifiedConfig doc =
     concat (map (\<lambda>l. l @ [newline])
       ([''# Ninj-OS Edge Fabric unified configuration'',
         ''# Use env:VARIABLE for secrets stored in Pterodactyl Startup.'', []] @
        concat (map (sectionLines doc) (orderedSections doc))))"

section \<open>The map of maps\<close>

definition ini_view :: "ini \<Rightarrow> string \<rightharpoonup> (string \<rightharpoonup> string)" where
  "ini_view doc = map_option map_of \<circ> map_of doc"

definition view_put :: "(string \<rightharpoonup> (string \<rightharpoonup> string)) \<Rightarrow> string \<Rightarrow> string \<Rightarrow> string \<Rightarrow> string \<rightharpoonup> (string \<rightharpoonup> string)" where
  "view_put m s k v = m(s \<mapsto> (case m s of None \<Rightarrow> Map.empty | Some f \<Rightarrow> f)(k \<mapsto> v))"

lemma ini_view_putKey: "ini_view (putKey doc s k v) = view_put (ini_view doc) s k v"
  by (rule ext)
    (auto simp: ini_view_def putKey_def view_put_def sectionValues_def update_conv' split: option.splits)

lemma ini_view_addSection:
  "ini_view (addSection doc s) = (if ini_view doc s = None then (ini_view doc)(s \<mapsto> Map.empty) else ini_view doc)"
  by (rule ext) (auto simp: ini_view_def addSection_def hasSection_def update_conv')

lemma ini_view_sectionValues: "map_of (sectionValues doc s) = (case ini_view doc s of None \<Rightarrow> Map.empty | Some f \<Rightarrow> f)"
  by (simp add: ini_view_def sectionValues_def split: option.splits)

text \<open>One entry per section and per key, and texts that a document read from a file has.\<close>

definition keys_distinct :: "ini \<Rightarrow> bool" where
  "keys_distinct doc \<longleftrightarrow> distinct (map fst doc) \<and> (\<forall>(s, kvs) \<in> set doc. distinct (map fst kvs))"

definition name_text :: "string \<Rightarrow> bool" where
  "name_text s \<longleftrightarrow> s \<noteq> [] \<and> trimmed s \<and> to_lower s = s \<and> newline \<notin> set s"

definition entry_text :: "string \<times> string \<Rightarrow> bool" where
  "entry_text e \<longleftrightarrow>
     name_text (fst e) \<and> CHR ''='' \<notin> set (fst e) \<and> hd (fst e) \<noteq> CHR ''#'' \<and> hd (fst e) \<noteq> CHR '';'' \<and>
     trimmed (snd e) \<and> newline \<notin> set (snd e) \<and>
     \<not> (hd (fst e) = CHR ''['' \<and> snd e \<noteq> [] \<and> last (snd e) = CHR '']'')"

definition ini_text :: "ini \<Rightarrow> bool" where
  "ini_text doc \<longleftrightarrow> keys_distinct doc \<and> hasSection doc ''edge'' \<and>
     (\<forall>(s, kvs) \<in> set doc. name_text s \<and> list_all entry_text kvs)"

section \<open>Reading lines that were printed\<close>

lemma trim_right_space: "trim_right (s @ '' '') = trim_right s"
proof -
  have f: "find (\<lambda>w. w \<noteq> [] \<and> prefix w (CHR '' '' # r)) (map rev space_runes) = Some '' ''" for r
    by (simp add: space_runes_def ascii_spaces_def wide_spaces_def)
  have "strip_by (map rev space_runes) (CHR '' '' # r) = strip_by (map rev space_runes) r" for r
    by (subst strip_by.simps) (simp add: f)
  then show ?thesis by (simp add: trim_right_def)
qed

lemma keyLine_trimmed:
  assumes "entry_text e"
  shows "trim_space (keyLine e) = (if snd e = [] then fst e @ '' ='' else keyLine e)"
proof (cases "snd e = []")
  case True
  have eq: "is_ascii (CHR ''='')" "CHR ''='' \<notin> set ascii_spaces" by code_simp+
  have sc: "starts_clean (fst e @ '' = '')"
    using assms by (intro starts_clean_append) (auto simp: entry_text_def name_text_def trimmed_def is_ascii_def byte_val_def)
  have "ends_clean (fst e @ '' ='')" using ends_clean_ascii [OF eq, of "fst e @ '' ''"] by simp
  moreover have "trim_right (fst e @ '' = '') = trim_right (fst e @ '' ='')"
    using trim_right_space [of "fst e @ '' =''"] by simp
  ultimately show ?thesis
    using True sc by (simp add: keyLine_def trim_space_def trim_left_id trim_right_id)
next
  case False
  have "starts_clean (fst e @ ('' = '' @ snd e))"
    using assms by (intro starts_clean_append) (auto simp: entry_text_def name_text_def trimmed_def is_ascii_def byte_val_def)
  moreover have "ends_clean ((fst e @ '' = '') @ snd e)"
    using assms False by (intro ends_clean_append) (auto simp: entry_text_def trimmed_def is_ascii_def byte_val_def)
  ultimately show ?thesis using False by (simp add: keyLine_def trimmed_def trim_space_id)
qed

lemma trim_trailing_space: "trimmed s \<Longrightarrow> s \<noteq> [] \<Longrightarrow> trim_space (s @ '' '') = s"
proof -
  assume s: "trimmed s" "s \<noteq> []"
  then have "starts_clean (s @ '' '')"
    by (intro starts_clean_append) (auto simp: trimmed_def is_ascii_def byte_val_def)
  with s show ?thesis by (simp add: trim_space_def trim_left_id trim_right_id trimmed_def trim_right_space)
qed

lemma trim_leading_space: "trim_space (CHR '' '' # s) = trim_space s"
proof -
  have f: "find (\<lambda>w. w \<noteq> [] \<and> prefix w (CHR '' '' # r)) space_runes = Some '' ''" for r
    by (simp add: space_runes_def ascii_spaces_def wide_spaces_def)
  have "strip_by space_runes (CHR '' '' # r) = strip_by space_runes r" for r
    by (subst strip_by.simps) (simp add: f)
  then show ?thesis by (simp add: trim_space_def trim_left_def)
qed

lemma iniLine_key:
  assumes "entry_text e"
  shows "iniLine n (s, doc) (keyLine e) = Inr (s, putKey doc s (fst e) (snd e))"
proof -
  let ?raw = "trim_space (keyLine e)"
  obtain c cs where c: "fst e = c # cs" using assms by (cases "fst e") (auto simp: entry_text_def name_text_def)
  have raw: "?raw = fst e @ '' ='' \<or> snd e \<noteq> [] \<and> ?raw = keyLine e"
    using keyLine_trimmed [OF assms] by auto
  have "split2 (CHR ''='') ?raw = [fst e @ '' '', if snd e = [] then [] else '' '' @ snd e]"
  proof -
    have no: "CHR ''='' \<notin> set (fst e @ '' '')" using assms by (auto simp: entry_text_def)
    show ?thesis
      using split2_append [OF no, of "if snd e = [] then [] else '' '' @ snd e"] keyLine_trimmed [OF assms]
      by (auto simp: keyLine_def)
  qed
  moreover have "trim_space (fst e @ '' '') = fst e" "to_lower (fst e) = fst e" "fst e \<noteq> []" "trim_space (snd e) = snd e"
    using assms by (auto simp: entry_text_def name_text_def trim_trailing_space trim_space_id)
  moreover have "?raw \<noteq> []" "\<not> has_prefix ?raw ''#''" "\<not> has_prefix ?raw '';''"
    using raw c assms by (auto simp: has_prefix_def entry_text_def keyLine_def)
  moreover have "\<not> (has_prefix ?raw ''['' \<and> has_suffix ?raw '']'')"
  proof
    assume h: "has_prefix ?raw ''['' \<and> has_suffix ?raw '']''"
    then have "hd (fst e) = CHR ''[''" using raw c by (auto simp: has_prefix_def keyLine_def)
    moreover from h have "last ?raw = CHR '']''" by (auto simp: has_suffix_def suffix_def)
    then have "snd e \<noteq> [] \<and> last (snd e) = CHR '']''" using raw by (auto simp: keyLine_def)
    ultimately show False using assms by (simp add: entry_text_def)
  qed
  ultimately show ?thesis
    unfolding iniLine_def Let_def prod.case by (simp only: if_False simp_thms) (simp add: trim_leading_space)
qed

lemma iniLine_section:
  assumes "name_text s"
  shows "iniLine n (s0, doc) (''['' @ s @ '']'') = Inr (s, addSection doc s)"
proof -
  have b: "is_ascii (CHR ''['')" "CHR ''['' \<notin> set ascii_spaces" "is_ascii (CHR '']'')" "CHR '']'' \<notin> set ascii_spaces"
    by code_simp+
  have "trimmed (''['' @ s @ '']'')"
    using starts_clean_ascii [OF b(1,2), of "s @ '']''"] ends_clean_ascii [OF b(3,4), of "''['' @ s"]
    by (simp add: trimmed_def)
  then have "trim_space (''['' @ s @ '']'') = ''['' @ s @ '']''" by (rule trim_space_id)
  moreover have "has_suffix (''['' @ s @ '']'') '']''" by (simp add: has_suffix_def suffix_def)
  ultimately show ?thesis
    using assms by (simp add: iniLine_def Let_def has_prefix_def name_text_def trim_space_id)
qed

lemma iniLine_empty: "iniLine n st [] = Inr st"
  by (simp add: iniLine_def Let_def)

lemma iniLine_comment: "trimmed (CHR ''#'' # s) \<Longrightarrow> iniLine n st (CHR ''#'' # s) = Inr st"
  by (simp add: iniLine_def Let_def trim_space_id has_prefix_def)

definition put_all :: "ini \<Rightarrow> string \<Rightarrow> (string \<times> string) list \<Rightarrow> ini" where
  "put_all doc s kvs = foldl (\<lambda>d e. putKey d s (fst e) (snd e)) doc kvs"

lemma iniLoop_keys:
  "list_all entry_text kvs \<Longrightarrow>
   iniLoop n (s, doc) (map keyLine kvs @ ls) = iniLoop (n + length kvs) (s, put_all doc s kvs) ls"
  by (induction kvs arbitrary: n doc) (auto simp: iniLine_key put_all_def)

lemma iniLoop_section:
  assumes "name_text s" and "list_all entry_text kvs"
  shows "\<exists>n'. iniLoop n (s0, doc) ((''['' @ s @ '']'') # map keyLine kvs @ [] # ls) =
    iniLoop n' (s, put_all (addSection doc s) s kvs) ls"
  using iniLoop_keys [OF assms(2), of "Suc n" s "addSection doc s" "[] # ls"] iniLine_section [OF assms(1), of n s0 doc]
  by (auto simp: iniLine_empty)

lemma ini_view_put_all:
  assumes "ini_view doc s = Some f" and "distinct (map fst kvs)"
  shows "ini_view (put_all doc s kvs) = (ini_view doc)(s \<mapsto> f ++ map_of kvs)"
  using assms
proof (induction kvs arbitrary: doc f)
  case (Cons e kvs)
  have "ini_view (putKey doc s (fst e) (snd e)) s = Some (f(fst e \<mapsto> snd e))"
    using Cons.prems(1) by (simp add: ini_view_putKey view_put_def)
  from Cons.IH [OF this] Cons.prems(2)
  have "ini_view (put_all doc s (e # kvs)) = (ini_view (putKey doc s (fst e) (snd e)))(s \<mapsto> f(fst e \<mapsto> snd e) ++ map_of kvs)"
    by (simp only: put_all_def foldl_Cons list.map distinct.simps simp_thms)
  moreover have "f(fst e \<mapsto> snd e) ++ map_of kvs = f ++ map_of (e # kvs)"
  proof -
    have "map_of kvs (fst e) = None" using Cons.prems(2) by (simp add: map_of_eq_None_iff)
    then show ?thesis by (cases e) (auto simp: map_add_def fun_eq_iff split: option.splits)
  qed
  ultimately show ?case by (simp only: ini_view_putKey view_put_def fun_upd_upd)
qed (simp add: put_all_def map_upd_triv)

section \<open>Reading a printed document\<close>

lemma distinct_keyOrder: "distinct (keyOrder s)"
  by (simp add: keyOrder_def)

lemma orderedKeys_facts:
  assumes "distinct (map fst kvs)"
  shows "distinct (orderedKeys s kvs)" and "set (orderedKeys s kvs) = set (map fst kvs)"
proof -
  show "distinct (orderedKeys s kvs)"
    using assms distinct_keyOrder [of s] by (auto simp: orderedKeys_def Let_def)
  show "set (orderedKeys s kvs) = set (map fst kvs)"
    by (auto simp: orderedKeys_def Let_def map_of_eq_None_iff)
qed

definition orderedEntries :: "string \<Rightarrow> (string \<times> string) list \<Rightarrow> (string \<times> string) list" where
  "orderedEntries s kvs = map (\<lambda>k. (k, map_get kvs k)) (orderedKeys s kvs)"

lemma map_get_entry: "distinct (map fst kvs) \<Longrightarrow> (k, v) \<in> set kvs \<Longrightarrow> map_get kvs k = v"
  by (simp add: map_get_def)

lemma orderedEntries_facts:
  assumes "distinct (map fst kvs)"
  shows "set (orderedEntries s kvs) = set kvs" and "distinct (map fst (orderedEntries s kvs))"
    and "map_of (orderedEntries s kvs) = map_of kvs"
proof -
  show s: "set (orderedEntries s kvs) = set kvs"
    unfolding orderedEntries_def using orderedKeys_facts(2) [OF assms] map_get_entry [OF assms]
    by (auto simp: image_iff) force+
  show d: "distinct (map fst (orderedEntries s kvs))"
    using orderedKeys_facts(1) [OF assms] by (simp add: orderedEntries_def comp_def)
  show "map_of (orderedEntries s kvs) = map_of kvs"
    using map_of_inject_set [OF d assms] s by simp
qed

lemma sectionLines_alt:
  "sectionLines doc s = (''['' @ s @ '']'') # map keyLine (orderedEntries s (sectionValues doc s)) @ [[]]"
  by (simp add: sectionLines_def orderedEntries_def Let_def comp_def)

lemma ini_section_text:
  assumes "ini_text d" and "hasSection d s"
  shows "name_text s" and "distinct (map fst (sectionValues d s))" and "list_all entry_text (sectionValues d s)"
    and "ini_view d s = Some (map_of (sectionValues d s))"
proof -
  obtain kvs where kvs: "map_of d s = Some kvs" using assms(2) by (auto simp: hasSection_def)
  then have "(s, kvs) \<in> set d" by (rule map_of_SomeD)
  with assms(1) kvs show "name_text s" "distinct (map fst (sectionValues d s))" "list_all entry_text (sectionValues d s)"
    by (auto simp: ini_text_def keys_distinct_def sectionValues_def)
  from kvs show "ini_view d s = Some (map_of (sectionValues d s))" by (simp add: ini_view_def sectionValues_def)
qed

lemma iniLoop_sections:
  assumes "ini_text d" and "distinct ss" and "\<forall>s \<in> set ss. hasSection d s"
    and "\<forall>s \<in> set ss. ini_view doc s \<in> {None, Some Map.empty}"
  shows "\<exists>s' doc'. iniLoop n (s0, doc) (concat (map (sectionLines d) ss)) = Inr (s', doc') \<and>
    ini_view doc' = (\<lambda>s. if s \<in> set ss then ini_view d s else ini_view doc s)"
  using assms(2-4)
proof (induction ss arbitrary: n s0 doc)
  case (Cons s ss)
  let ?es = "orderedEntries s (sectionValues d s)"
  let ?doc = "put_all (addSection doc s) s ?es"
  note wf = ini_section_text [OF assms(1), of s]
  have s: "hasSection d s" using Cons.prems by simp
  note es = orderedEntries_facts [OF wf(2) [OF s], of s]
  have "list_all entry_text ?es" using wf(3) [OF s] es(1) by (simp add: list_all_iff)
  then obtain n' where n': "iniLoop n (s0, doc) (concat (map (sectionLines d) (s # ss))) =
      iniLoop n' (s, ?doc) (concat (map (sectionLines d) ss))"
    using iniLoop_section [OF wf(1) [OF s], of ?es n s0 doc "concat (map (sectionLines d) ss)"]
    by (auto simp: sectionLines_alt)
  have empty: "ini_view (addSection doc s) s = Some Map.empty"
    using Cons.prems(3) by (auto simp: ini_view_addSection)
  have v: "ini_view ?doc = (ini_view doc)(s := ini_view d s)"
  proof -
    have "ini_view ?doc = (ini_view (addSection doc s))(s \<mapsto> map_of (sectionValues d s))"
      using ini_view_put_all [OF empty es(2)] es(3) by simp
    then show ?thesis using wf(4) [OF s] by (auto simp: ini_view_addSection)
  qed
  have "\<exists>s' doc'. iniLoop n' (s, ?doc) (concat (map (sectionLines d) ss)) = Inr (s', doc') \<and>
      ini_view doc' = (\<lambda>s. if s \<in> set ss then ini_view d s else ini_view ?doc s)"
    using Cons.prems v by (intro Cons.IH) auto
  then show ?case using n' v Cons.prems(1) by (auto simp: fun_eq_iff)
qed simp

lemma distinct_standardSections: "distinct standardSections"
  by (simp add: standardSections_def)

lemma standardSections_plain:
  "list_all (\<lambda>s. \<not> has_prefix s ''backend.'' \<and> \<not> has_prefix s ''profile.'') standardSections"
  by code_simp

lemma orderedSections_facts:
  assumes "distinct (map fst d)"
  shows "distinct (orderedSections d)" and "set (orderedSections d) = {s. hasSection d s}"
proof -
  have plain: "s \<in> set standardSections \<Longrightarrow> \<not> has_prefix s ''backend.'' \<and> \<not> has_prefix s ''profile.''" for s
    using standardSections_plain by (simp add: list_all_iff)
  show "distinct (orderedSections d)"
    using assms distinct_standardSections plain
    by (auto simp: orderedSections_def Let_def intro!: distinct_filter)
  have "hasSection d s \<longleftrightarrow> s \<in> set (map fst d)" for s by (simp add: hasSection_def map_of_eq_None_iff)
  then show "set (orderedSections d) = {s. hasSection d s}"
    by (auto simp: orderedSections_def Let_def)
qed

lemma scan_lines_printed:
  assumes "\<forall>x \<in> set xs. newline \<notin> set x \<and> (x = [] \<or> last x \<noteq> carriage_return) \<and> length x < 65536"
  shows "scan_lines (concat (map (\<lambda>x. x @ [newline]) xs)) = (xs, False)"
proof -
  have "raw_lines (concat (map (\<lambda>x. x @ [newline]) xs)) = xs"
    using assms by (simp add: raw_lines_terminated)
  moreover have "takeWhile (\<lambda>l. length l < 65536) xs = xs"
    unfolding takeWhile_eq_all_conv using assms by blast
  moreover have "map drop_cr xs = xs" using assms by (intro map_idI) (auto simp: drop_cr_def)
  moreover have "\<not> list_ex (\<lambda>l. length l \<ge> 65536) xs"
    unfolding list_ex_iff using assms by (meson not_le)
  ultimately show ?thesis by (simp only: scan_lines_def Let_def)
qed

lemma trimmed_last: "trimmed s \<Longrightarrow> s \<noteq> [] \<Longrightarrow> last s \<noteq> carriage_return"
proof
  assume s: "trimmed s" "s \<noteq> []" "last s = carriage_return"
  then have "suffix [carriage_return] s" by (metis append_butlast_last_id suffix_def)
  moreover have "[carriage_return] \<in> set space_runes"
    by (simp add: space_runes_def ascii_spaces_def carriage_return_def)
  ultimately show False using s(1) by (auto simp: trimmed_def ends_clean_def list_ex_iff)
qed

definition configLines :: "ini \<Rightarrow> string list" where
  "configLines d = concat (map (sectionLines d) (orderedSections d))"

definition lines_fit :: "ini \<Rightarrow> bool" where
  "lines_fit d \<longleftrightarrow> list_all (\<lambda>l. length l < 65536) (configLines d)"

lemma configLines_text:
  assumes "ini_text d" and "x \<in> set (configLines d)"
  shows "newline \<notin> set x \<and> (x = [] \<or> last x \<noteq> carriage_return)"
proof -
  obtain s where s: "hasSection d s" "x \<in> set (sectionLines d s)"
    using assms orderedSections_facts(2) [of d] by (auto simp: configLines_def ini_text_def keys_distinct_def)
  note wf = ini_section_text [OF assms(1) s(1)]
  have br: "CHR ''['' \<noteq> newline" "CHR '']'' \<noteq> newline" "CHR '']'' \<noteq> carriage_return"
    "CHR '' '' \<noteq> newline" "CHR ''='' \<noteq> newline" "CHR '' '' \<noteq> carriage_return" by code_simp+
  from s(2) consider (head) "x = ''['' @ s @ '']''" | (empty) "x = []"
    | (key) e where "e \<in> set (sectionValues d s)" "x = keyLine e"
    using orderedEntries_facts(1) [OF wf(2), of s] by (auto simp: sectionLines_alt)
  then show ?thesis
  proof cases
    case head
    with wf(1) br show ?thesis by (auto simp: name_text_def)
  next
    case (key e)
    with wf(3) have "entry_text e" by (simp add: list_all_iff)
    with key(2) br trimmed_last [of "snd e"] show ?thesis
      by (auto simp: keyLine_def entry_text_def name_text_def)
  qed simp
qed

lemma parse_rendered:
  assumes "ini_text d" and "lines_fit d"
  shows "\<exists>d'. parseINI (renderUnifiedConfig d) = Inr d' \<and> ini_view d' = ini_view d"
proof -
  let ?hs = "[''# Ninj-OS Edge Fabric unified configuration'',
    ''# Use env:VARIABLE for secrets stored in Pterodactyl Startup.'', []]"
  have hs: "\<forall>x \<in> set ?hs. newline \<notin> set x \<and> (x = [] \<or> last x \<noteq> carriage_return) \<and> length x < 65536"
    by (simp add: newline_def carriage_return_def)
  have comments: "trimmed (CHR ''#'' # '' Ninj-OS Edge Fabric unified configuration'')"
    "trimmed (CHR ''#'' # '' Use env:VARIABLE for secrets stored in Pterodactyl Startup.'')" by code_simp+
  have body: "\<forall>x \<in> set (configLines d). newline \<notin> set x \<and> (x = [] \<or> last x \<noteq> carriage_return) \<and> length x < 65536"
    using configLines_text [OF assms(1)] assms(2) by (simp add: lines_fit_def list_all_iff)
  have "scan_lines (renderUnifiedConfig d) = (?hs @ configLines d, False)"
    unfolding renderUnifiedConfig_def configLines_def [symmetric]
    by (rule scan_lines_printed) (use hs body in \<open>simp only: set_append ball_Un\<close>)
  moreover have "iniLoop 1 st (?hs @ configLines d) = iniLoop 4 st (configLines d)" for st
    using comments by (simp add: iniLine_comment iniLine_empty numeral_eq_Suc)
  moreover have dist: "distinct (map fst d)" using assms(1) by (simp add: ini_text_def keys_distinct_def)
  obtain s' d' where "iniLoop 4 (''edge'', [(''edge'', [])]) (configLines d) = Inr (s', d')"
    and v: "ini_view d' = (\<lambda>s. if s \<in> set (orderedSections d) then ini_view d s else ini_view [(''edge'', [])] s)"
  proof -
    have "\<forall>s \<in> set (orderedSections d). hasSection d s" using orderedSections_facts(2) [OF dist] by simp
    moreover have "\<forall>s \<in> set (orderedSections d). ini_view [(''edge'', [])] s \<in> {None, Some Map.empty}"
      by (simp add: ini_view_def)
    ultimately show thesis
      using that iniLoop_sections [OF assms(1) orderedSections_facts(1) [OF dist], of "[(''edge'', [])]" 4 "''edge''"]
      unfolding configLines_def by blast
  qed
  moreover have "ini_view d' = ini_view d"
  proof (rule ext)
    fix s
    have "ini_view d s = None \<longleftrightarrow> \<not> hasSection d s" by (simp add: ini_view_def hasSection_def)
    moreover have "\<not> hasSection d s \<Longrightarrow> s \<noteq> ''edge''" using assms(1) by (auto simp: ini_text_def)
    ultimately show "ini_view d' s = ini_view d s"
      unfolding v orderedSections_facts(2) [OF dist] by (auto simp: ini_view_def)
  qed
  ultimately show ?thesis by (simp add: parseINI_def)
qed

section \<open>Documents that were read\<close>

lemma char_lower_other: "\<not> is_lower_alpha d \<Longrightarrow> char_lower c = d \<longleftrightarrow> c = d \<and> \<not> is_upper_alpha d"
  by (auto simp: char_lower_def is_lower_alpha_def is_upper_alpha_def byte_val_eq_iff [symmetric])

lemma space_rune_chars: "w \<in> set space_runes \<Longrightarrow> c \<in> set w \<Longrightarrow> \<not> is_lower_alpha c \<and> \<not> is_upper_alpha c"
proof -
  have "list_all (list_all (\<lambda>c. \<not> is_lower_alpha c \<and> \<not> is_upper_alpha c)) space_runes" by code_simp
  then show "w \<in> set space_runes \<Longrightarrow> c \<in> set w \<Longrightarrow> \<not> is_lower_alpha c \<and> \<not> is_upper_alpha c"
    by (auto simp: list_all_iff)
qed

lemma map_lower_other:
  "\<forall>c \<in> set w. \<not> is_lower_alpha c \<and> \<not> is_upper_alpha c \<Longrightarrow> to_lower s = w \<longleftrightarrow> s = w"
proof (induction w arbitrary: s)
  case (Cons c w)
  then show ?case by (cases s) (auto simp: to_lower_def char_lower_other)
qed simp

lemma trimmed_to_lower: "trimmed s \<Longrightarrow> trimmed (to_lower s)"
proof -
  assume s: "trimmed s"
  have "\<not> prefix w (to_lower s) \<and> \<not> suffix w (to_lower s)" if w: "w \<in> set space_runes" for w
  proof -
    have same: "to_lower t = w \<longleftrightarrow> t = w" for t using space_rune_chars [OF w] by (intro map_lower_other) blast
    have "prefix w (to_lower s) \<Longrightarrow> prefix w s"
      using same by (auto simp: prefix_def to_lower_def map_eq_append_conv)
    moreover have "suffix w (to_lower s) \<Longrightarrow> suffix w s"
      using same by (auto simp: suffix_def to_lower_def map_eq_append_conv)
    ultimately show ?thesis using s w by (auto simp: trimmed_def starts_clean_def ends_clean_def list_ex_iff)
  qed
  then show "trimmed (to_lower s)" by (auto simp: trimmed_def starts_clean_def ends_clean_def list_ex_iff)
qed

lemma to_lower_notin: "\<not> is_lower_alpha c \<Longrightarrow> c \<notin> set s \<Longrightarrow> c \<notin> set (to_lower s)"
  unfolding to_lower_def using char_lower_other [of c] by (auto simp del: split_paired_All) metis

lemma name_text_read:
  assumes "newline \<notin> set s" and "to_lower (trim_space s) \<noteq> []"
  shows "name_text (to_lower (trim_space s))"
proof -
  have "\<not> is_lower_alpha newline" by code_simp
  moreover have "newline \<notin> set (trim_space s)" using assms(1) set_trim_space by blast
  ultimately show ?thesis using assms(2) by (simp add: name_text_def trimmed_to_lower to_lower_notin)
qed

lemma starts_clean_prefix: "starts_clean s \<Longrightarrow> prefix p s \<Longrightarrow> starts_clean p"
  by (auto simp: starts_clean_def list_ex_iff dest: prefix_order.order_trans)

lemma ends_clean_suffix: "ends_clean s \<Longrightarrow> suffix p s \<Longrightarrow> ends_clean p"
  by (auto simp: ends_clean_def list_ex_iff dest: suffix_order.order_trans)

lemma trimmed_prefix_hd:
  assumes "starts_clean p" and "trim_space p \<noteq> []"
  shows "hd (trim_space p) = hd p"
proof -
  have "prefix (trim_space p) p" using assms(1) by (simp add: trim_space_def trim_left_id prefix_trim_right)
  with assms(2) show ?thesis by (metis hd_append2 prefix_def)
qed

lemma trimmed_suffix_last:
  assumes "ends_clean p" and "trim_space p \<noteq> []"
  shows "last (trim_space p) = last p"
proof -
  have "suffix (trim_left p) p" by (simp add: trim_left_def strip_by_suffix)
  then have "trim_space p = trim_left p" using assms(1) ends_clean_suffix by (simp add: trim_space_def trim_right_id)
  with \<open>suffix (trim_left p) p\<close> assms(2) show ?thesis by (metis last_appendR suffix_def)
qed

lemma entry_text_read:
  assumes raw: "raw = f0 @ CHR ''='' # f1" "CHR ''='' \<notin> set f0" "trimmed raw" "newline \<notin> set raw"
    and start: "\<not> has_prefix raw ''#''" "\<not> has_prefix raw '';''" "\<not> (has_prefix raw ''['' \<and> has_suffix raw '']'')"
    and key: "to_lower (trim_space f0) \<noteq> []"
  shows "entry_text (to_lower (trim_space f0), trim_space f1)"
proof -
  have sym: "\<not> is_lower_alpha (CHR ''='')" "\<not> is_lower_alpha (CHR ''#'')" "\<not> is_lower_alpha (CHR '';'')"
    "\<not> is_lower_alpha (CHR ''['')" "CHR ''='' \<noteq> newline" by code_simp+
  have clean: "starts_clean f0" "ends_clean f1"
    using raw(1,3) starts_clean_prefix [of raw f0] ends_clean_suffix [of raw f1]
    by (auto simp: trimmed_def prefix_def suffix_def)
  have k: "trim_space f0 \<noteq> []" "f0 \<noteq> []" using key by auto
  have hd: "hd (to_lower (trim_space f0)) = char_lower (hd raw)"
    using trimmed_prefix_hd [OF clean(1) k(1)] k raw(1) by (simp add: to_lower_def hd_map)
  have hd_raw: "hd raw = c \<longleftrightarrow> has_prefix raw [c]" for c using raw(1) k(2) by (cases f0) (auto simp: has_prefix_def)
  have "CHR ''='' \<notin> set (to_lower (trim_space f0))"
    using raw(2) set_trim_space [of f0] sym by (intro to_lower_notin) auto
  moreover have "hd (to_lower (trim_space f0)) \<noteq> CHR ''#''" "hd (to_lower (trim_space f0)) \<noteq> CHR '';''"
    using start(1,2) hd hd_raw sym by (auto simp: char_lower_other)
  moreover have "newline \<notin> set (trim_space f1)" using raw set_trim_space [of f1] by auto
  moreover have "\<not> (hd (to_lower (trim_space f0)) = CHR ''['' \<and> trim_space f1 \<noteq> [] \<and> last (trim_space f1) = CHR '']'')"
  proof
    assume h: "hd (to_lower (trim_space f0)) = CHR ''['' \<and> trim_space f1 \<noteq> [] \<and> last (trim_space f1) = CHR '']''"
    then have "hd raw = CHR ''[''" using hd sym by (simp add: char_lower_other)
    then have "has_prefix raw ''[''" by (simp add: hd_raw)
    moreover have "f1 \<noteq> []" "last f1 = CHR '']''" using h trimmed_suffix_last [OF clean(2)] by auto
    then have "has_suffix raw '']''"
      using raw(1) append_butlast_last_id [of f1] unfolding has_suffix_def suffix_def
      by (metis append_Cons append_assoc)
    ultimately show False using start(3) by simp
  qed
  ultimately show ?thesis
    using name_text_read [OF _ key] raw(1,4) by (simp add: entry_text_def)
qed

lemma set_update_subset: "set (AList.update k v m) \<subseteq> insert (k, v) (set m)"
  by (induction m) auto

lemma keys_distinct_putKey: "keys_distinct doc \<Longrightarrow> keys_distinct (putKey doc s k v)"
proof -
  assume k: "keys_distinct doc"
  have "distinct (map fst (sectionValues doc s))"
    using k by (auto simp: keys_distinct_def sectionValues_def split: option.splits dest: map_of_SomeD)
  then have "distinct (map fst (AList.update k v (sectionValues doc s)))" by (rule distinct_update)
  with k show ?thesis
    using set_update_subset [of s "AList.update k v (sectionValues doc s)" doc]
    by (fastforce simp: keys_distinct_def putKey_def distinct_update)
qed

lemma keys_distinct_addSection: "keys_distinct doc \<Longrightarrow> keys_distinct (addSection doc s)"
  using set_update_subset [of s "[]" doc] by (fastforce simp: keys_distinct_def addSection_def distinct_update)

lemma hasSection_update [simp]:
  "hasSection (putKey doc s k v) s' \<longleftrightarrow> s' = s \<or> hasSection doc s'"
  "hasSection (addSection doc s) s' \<longleftrightarrow> s' = s \<or> hasSection doc s'"
  by (auto simp: hasSection_def putKey_def addSection_def update_conv')

lemma ini_text_addSection: "ini_text doc \<Longrightarrow> name_text s \<Longrightarrow> ini_text (addSection doc s)"
proof -
  assume a: "ini_text doc" "name_text s"
  have "set (addSection doc s) \<subseteq> insert (s, []) (set doc)"
    using set_update_subset [of s "[]" doc] by (auto simp: addSection_def)
  with a show ?thesis by (fastforce simp: ini_text_def keys_distinct_addSection)
qed

lemma ini_text_putKey:
  assumes "ini_text doc" and "name_text s" and "entry_text (k, v)"
  shows "ini_text (putKey doc s k v)"
proof -
  have vals: "distinct (map fst (sectionValues doc s)) \<and> list_all entry_text (sectionValues doc s)"
    using assms(1) by (auto simp: ini_text_def keys_distinct_def sectionValues_def split: option.splits dest!: map_of_SomeD)
  with assms(3) have new: "list_all entry_text (AList.update k v (sectionValues doc s))"
    using set_update_subset [of k v "sectionValues doc s"] by (auto simp: list_all_iff)
  have "set (putKey doc s k v) \<subseteq> insert (s, AList.update k v (sectionValues doc s)) (set doc)"
    unfolding putKey_def by (rule set_update_subset)
  moreover have "keys_distinct (putKey doc s k v)"
    using assms(1) by (simp add: ini_text_def keys_distinct_putKey)
  ultimately show ?thesis using assms(1,2) new by (fastforce simp: ini_text_def)
qed

lemma iniLine_text:
  assumes "iniLine n (sec, doc) l = Inr (sec', doc')" and "newline \<notin> set l" and "ini_text doc" and "name_text sec"
  shows "ini_text doc' \<and> name_text sec'"
proof -
  let ?raw = "trim_space l"
  have raw: "newline \<notin> set ?raw" "trimmed ?raw" using assms(2) set_trim_space [of l] by auto
  show ?thesis
  proof (cases "?raw = [] \<or> has_prefix ?raw ''#'' \<or> has_prefix ?raw '';''")
    case True
    with assms show ?thesis by (simp add: iniLine_def Let_def)
  next
    case False
    show ?thesis
    proof (cases "has_prefix ?raw ''['' \<and> has_suffix ?raw '']''")
      case True
      let ?s = "to_lower (trim_space (butlast (tl ?raw)))"
      have "newline \<notin> set (butlast (tl ?raw))"
        using raw(1) by (metis in_set_butlastD list.sel(2) list.set_sel(2))
      moreover have "?s \<noteq> []" "sec' = ?s" "doc' = addSection doc ?s"
        using assms(1) False True by (auto simp: iniLine_def Let_def split: if_splits)
      ultimately show ?thesis using assms(3) name_text_read ini_text_addSection by auto
    next
      case no: False
      obtain f0 f1 where f: "split2 (CHR ''='') ?raw = [f0, f1]" "?raw = f0 @ CHR ''='' # f1" "CHR ''='' \<notin> set f0"
        using assms(1) False no by (cases rule: split2_cases [of "CHR ''=''" ?raw]) (auto simp: iniLine_def Let_def)
      have key: "to_lower (trim_space f0) \<noteq> []" and out: "sec' = sec" "doc' = putKey doc sec (to_lower (trim_space f0)) (trim_space f1)"
        using assms(1) False no f(1) by (auto simp: iniLine_def Let_def split: if_splits)
      have "entry_text (to_lower (trim_space f0), trim_space f1)"
        using entry_text_read [OF f(2,3) raw(2,1)] False no key by blast
      with out assms(3,4) show ?thesis by (simp add: ini_text_putKey)
    qed
  qed
qed

lemma iniLoop_text:
  "iniLoop n (sec, doc) ls = Inr (sec', doc') \<Longrightarrow> \<forall>l \<in> set ls. newline \<notin> set l \<Longrightarrow> ini_text doc \<Longrightarrow> name_text sec \<Longrightarrow>
   ini_text doc'"
proof (induction ls arbitrary: n sec doc)
  case (Cons l ls)
  from Cons.prems(1) obtain s1 d1 where s1: "iniLine n (sec, doc) l = Inr (s1, d1)"
    and rest: "iniLoop (Suc n) (s1, d1) ls = Inr (sec', doc')"
    by (auto simp: attempt_Inr)
  have "ini_text d1 \<and> name_text s1" using iniLine_text [OF s1] Cons.prems by simp
  with Cons.IH [OF rest] Cons.prems show ?case by simp
qed simp

lemma scan_lines_no_newline: "scan_lines c = (ls, b) \<Longrightarrow> l \<in> set ls \<Longrightarrow> newline \<notin> set l"
proof -
  assume a: "scan_lines c = (ls, b)" "l \<in> set ls"
  then obtain r where r: "l = drop_cr r" "r \<in> set (raw_lines c)"
    unfolding scan_lines_def Let_def by (fastforce dest: set_takeWhileD)
  then have "r \<in> set (split_on newline c)"
    by (auto simp: raw_lines_def Let_def split: if_splits dest: in_set_butlastD)
  with r(1) show "newline \<notin> set l" by (auto simp: drop_cr_def dest: split_on_parts in_set_butlastD split: if_splits)
qed

lemma parseINI_text:
  assumes "parseINI content = Inr d"
  shows "ini_text d"
proof -
  obtain ls b where sc: "scan_lines content = (ls, b)" by fastforce
  have edge: "name_text ''edge''" by code_simp
  then have "ini_text [(''edge'', [])]" by (simp add: ini_text_def keys_distinct_def hasSection_def)
  with assms sc edge show ?thesis
    by (auto simp: parseINI_def attempt_Inr split: if_splits intro: iniLoop_text dest: scan_lines_no_newline)
qed

section \<open>A canonical format\<close>

lemma sort_distinct_eq:
  fixes xs ys :: "string list"
  assumes "distinct xs" and "distinct ys" and "set xs = set ys"
  shows "sort xs = sort ys"
  using assms by (intro sorted_distinct_set_unique) simp_all

lemma hasSection_same: "ini_view d = ini_view d' \<Longrightarrow> hasSection d = hasSection d'"
  by (rule ext) (metis hasSection_def ini_view_def comp_apply option.map_disc_iff)

lemma sections_same:
  assumes "ini_view d = ini_view d'"
  shows "set (map fst d) = set (map fst d')"
proof -
  have "s \<in> set (map fst x) \<longleftrightarrow> hasSection x s" for s and x :: ini
    by (simp add: hasSection_def map_of_eq_None_iff)
  then show ?thesis unfolding set_eq_iff using hasSection_same [OF assms] by simp
qed

lemma orderedSections_same:
  assumes "keys_distinct d" and "keys_distinct d'" and "ini_view d = ini_view d'"
  shows "orderedSections d = orderedSections d'"
proof -
  have "sort (filter P (map fst d)) = sort (filter P (map fst d'))" for P
    using assms(1,2) sections_same [OF assms(3)] by (intro sort_distinct_eq) (auto simp: keys_distinct_def)
  then show ?thesis unfolding orderedSections_def Let_def hasSection_same [OF assms(3)] by (simp only:)
qed

lemma sectionValues_distinct: "keys_distinct d \<Longrightarrow> distinct (map fst (sectionValues d s))"
  by (auto simp: keys_distinct_def sectionValues_def split: option.splits dest!: map_of_SomeD)

lemma sectionLines_same:
  assumes "keys_distinct d" and "keys_distinct d'" and "ini_view d = ini_view d'"
  shows "sectionLines d s = sectionLines d' s"
proof -
  have m: "map_of (sectionValues d s) = map_of (sectionValues d' s)" unfolding ini_view_sectionValues assms(3) ..
  then have keys: "set (map fst (sectionValues d s)) = set (map fst (sectionValues d' s))"
    by (metis dom_map_of_conv_image_fst list.set_map)
  have "sort (filter P (map fst (sectionValues d s))) = sort (filter P (map fst (sectionValues d' s)))" for P
    using sectionValues_distinct [OF assms(1)] sectionValues_distinct [OF assms(2)] keys
    by (intro sort_distinct_eq) auto
  then show ?thesis unfolding sectionLines_def orderedKeys_def Let_def map_get_def m by (simp only:)
qed

lemma configLines_same:
  assumes "keys_distinct d" and "keys_distinct d'" and "ini_view d = ini_view d'"
  shows "configLines d = configLines d'"
  unfolding configLines_def orderedSections_same [OF assms] using sectionLines_same [OF assms] by (simp cong: map_cong)

lemma renderUnifiedConfig_lines: "renderUnifiedConfig d = concat (map (\<lambda>l. l @ [newline])
    ([''# Ninj-OS Edge Fabric unified configuration'',
      ''# Use env:VARIABLE for secrets stored in Pterodactyl Startup.'', []] @ configLines d))"
  unfolding renderUnifiedConfig_def configLines_def ..

interpretation ini_format: canonical_format renderUnifiedConfig parseINI ini_view "\<lambda>d. ini_text d \<and> lines_fit d"
proof
  fix d
  assume d: "ini_text d \<and> lines_fit d"
  then obtain d' where d': "parseINI (renderUnifiedConfig d) = Inr d'" "ini_view d' = ini_view d"
    using parse_rendered by blast
  have "configLines d' = configLines d"
    using configLines_same parseINI_text [OF d'(1)] d d'(2) by (auto simp: ini_text_def)
  with d d' parseINI_text [OF d'(1)]
  show "\<exists>y. parseINI (renderUnifiedConfig d) = Inr y \<and> ini_view y = ini_view d \<and> ini_text y \<and> lines_fit y"
    by (simp add: lines_fit_def)
next
  fix d d'
  assume "ini_text d \<and> lines_fit d" "ini_text d' \<and> lines_fit d'" "ini_view d = ini_view d'"
  then show "renderUnifiedConfig d = renderUnifiedConfig d'"
    unfolding renderUnifiedConfig_lines by (subst configLines_same [of d d']) (simp_all add: ini_text_def)
qed

section \<open>Property\<close>

text \<open>C17: Saving the configuration does not change it: a document that was read from any text is printed
  as a text that is read back as the same map of sections to keys and values, as long as no printed
  line exceeds the reader's line buffer of 64 KiB.\<close>

theorem saved_config_reads_back:
  assumes "parseINI content = Inr d" and "lines_fit d"
  shows "\<exists>d'. parseINI (renderUnifiedConfig d) = Inr d' \<and> ini_view d' = ini_view d"
  using ini_format.parse_print [of d] parseINI_text [OF assms(1)] assms(2) by blast

definition sampleConfig :: string where
  "sampleConfig = concat (map (\<lambda>l. l @ [newline])
     [''[Edge]'', ''Primary_Backend=zoo'', ''; note'', ''[ backend.zoo ]'', ''host =  h'', ''fallback ='', []])"

lemma sampleConfig_read:
  "parseINI sampleConfig = Inr [(''edge'', [(''primary_backend'', ''zoo'')]),
     (''backend.zoo'', [(''host'', ''h''), (''fallback'', [])])]"
proof -
  have "scan_lines sampleConfig =
      ([''[Edge]'', ''Primary_Backend=zoo'', ''; note'', ''[ backend.zoo ]'', ''host =  h'', ''fallback ='', []], False)"
    unfolding sampleConfig_def by (rule scan_lines_printed) (simp add: newline_def carriage_return_def)
  moreover have "iniLoop 1 (''edge'', [(''edge'', [])])
      [''[Edge]'', ''Primary_Backend=zoo'', ''; note'', ''[ backend.zoo ]'', ''host =  h'', ''fallback ='', []] =
    Inr (''backend.zoo'', [(''edge'', [(''primary_backend'', ''zoo'')]),
     (''backend.zoo'', [(''host'', ''h''), (''fallback'', [])])])"
    by code_simp
  ultimately show ?thesis by (simp add: parseINI_def)
qed

theorem saved_config_reads_back_witness:
  "\<exists>d d'. parseINI sampleConfig = Inr d \<and> parseINI (renderUnifiedConfig d) = Inr d' \<and> ini_view d' = ini_view d"
proof -
  let ?d = "[(''edge'', [(''primary_backend'', ''zoo'')]), (''backend.zoo'', [(''host'', ''h''), (''fallback'', [])])]"
  have "configLines ?d = [''[edge]'', ''primary_backend = zoo'', [], ''[backend.zoo]'', ''host = h'', ''fallback = '', []]"
    by code_simp
  then have "lines_fit ?d" by (simp add: lines_fit_def)
  from saved_config_reads_back [OF sampleConfig_read this] show ?thesis using sampleConfig_read by blast
qed

end
