(* ===== verification/Vault.thy ===== *)
theory Vault
  imports Ini
begin

text \<open>
  Credentials in the unified configuration: the secret vault of \<^verbatim>\<open>dashboard/management.go\<close> (locations,
  rules for values, descriptors) and the redaction of \<^verbatim>\<open>dashboard/config.go\<close> that keeps credentials out
  of the configuration editor and puts them back when its text is saved.  Go ranges over a map in no
  fixed order; where the order only selects which of several errors is reported, the model takes the
  document's.
\<close>

section \<open>Locations\<close>

record secretLocation =
  slSection :: string
  slKey :: string
  slComponent :: string
  slLabel :: string
  slCanGenerate :: bool
  slCanInherit :: bool
  slDefaultEnv :: string
  slKind :: string
  slRequired :: bool

definition environmentVariablePattern :: "string \<Rightarrow> bool" where
  "environmentVariablePattern s \<longleftrightarrow>
     (case s of [] \<Rightarrow> False
      | c # cs \<Rightarrow> (is_upper_alpha c \<or> c = CHR ''_'') \<and> 1 \<le> length cs \<and> length cs \<le> 127 \<and>
          list_all (\<lambda>c. is_upper_alpha c \<or> is_digit_char c \<or> c = CHR ''_'') cs)"

definition minimumSecretLength :: int where "minimumSecretLength = 12"

definition staticSecrets :: "(string \<times> secretLocation) list" where
  "staticSecrets =
     (let tok = (\<lambda>s k component label var kind. \<lparr>slSection = s, slKey = k, slComponent = component, slLabel = label,
             slCanGenerate = True, slCanInherit = False, slDefaultEnv = var, slKind = kind, slRequired = False\<rparr>)
      in [(''dashboard.operator_token'', tok ''dashboard'' ''operator_token'' ''dashboard'' ''Operator access token'' ''DASHBOARD_OPERATOR_TOKEN'' ''token''),
          (''dashboard.viewer_token'', tok ''dashboard'' ''viewer_token'' ''dashboard'' ''Viewer access token'' ''DASHBOARD_READONLY_TOKEN'' ''token''),
          (''dashboard.metrics_token'', tok ''dashboard'' ''metrics_token'' ''dashboard'' ''Metrics access token'' ''METRICS_TOKEN'' ''token''),
          (''dashboard.totp_secret'', tok ''dashboard'' ''totp_secret'' ''dashboard'' ''Owner TOTP secret'' ''DASHBOARD_TOTP_SECRET'' ''totp''),
          (''session_core.internal_token'', tok ''session_core'' ''internal_token'' ''session core'' ''Session Core internal token'' ''SESSION_CORE_TOKEN'' ''token''),
          (''companion.default_secret'', (tok ''companion'' ''default_secret'' ''companion''
             ''Default companion shared secret (not dashboard login)'' ''COMPANION_SHARED_SECRET'' ''secret'')\<lparr>slRequired := True\<rparr>),
          (''discord.webhook_url'', (tok ''discord'' ''webhook_url'' ''discord'' ''Discord webhook URL'' ''DISCORD_WEBHOOK_URL'' ''url'')\<lparr>slCanGenerate := False\<rparr>),
          (''discord.bot_token'', (tok ''discord'' ''bot_token'' ''discord'' ''Discord bot token'' ''DISCORD_BOT_TOKEN'' ''secret'')\<lparr>slCanGenerate := False\<rparr>)])"

definition secretLocationForID :: "ini \<Rightarrow> string \<Rightarrow> secretLocation result" where
  "secretLocationForID doc sid =
     (case map_of staticSecrets sid of
        Some location \<Rightarrow> Inr location
      | None \<Rightarrow>
          if has_prefix sid ''backend.'' \<and> has_suffix sid ''.companion_secret'' then
            let backendID = trim_suffix (trim_prefix sid ''backend.'') ''.companion_secret'' in
            if \<not> backendIDPattern backendID then Inl ''Invalid backend secret ID''
            else if \<not> hasSection doc (''backend.'' @ backendID) then Inl ''Backend not found''
            else Inr \<lparr>slSection = ''backend.'' @ backendID, slKey = ''companion_secret'',
              slComponent = ''companion.'' @ backendID,
              slLabel = humanizeBackendID backendID @ '' companion shared secret (not dashboard login)'',
              slCanGenerate = True, slCanInherit = True,
              slDefaultEnv = ''COMPANION_'' @ to_upper (replace_char (CHR ''-'') (CHR ''_'') backendID) @ ''_SECRET'',
              slKind = ''secret'', slRequired = False\<rparr>
          else Inl ''Unknown secret ID'')"

section \<open>Values\<close>

definition tooShort :: string where
  "tooShort = ''Secret values must contain at least '' @ itoa minimumSecretLength @ '' characters''"

definition validateManagedSecret :: "secretLocation \<Rightarrow> string \<Rightarrow> unit result" where
  "validateManagedSecret location value0 =
     (let value = trim_space value0;
          short = (\<lambda>v. int (length v) < minimumSecretLength) in
      if contains_any value [carriage_return, newline] then Inl ''Secret values cannot contain line breaks''
      else if slKind location = ''url'' then
        if value = [] then Inr ()
        else if short value then Inl tooShort
        else if \<not> has_prefix value ''https://'' \<and> \<not> has_prefix value ''http://''
        then Inl ''Webhook URL must begin with https:// or http://'' else Inr ()
      else if slKind location = ''totp'' then
        if value = [] then Inr ()
        else let v = to_upper (remove_char (CHR ''-'') (remove_char (CHR '' '') value)) in
          if short v then Inl tooShort
          else if base32_decode v = None then Inl ''TOTP secret must be valid Base32'' else Inr ()
      else if value \<noteq> [] \<and> short value then Inl tooShort else Inr ())"

definition secretFingerprint :: "golib \<Rightarrow> string \<Rightarrow> string" where
  "secretFingerprint G value = (if value = [] then [] else to_upper (hex_encode (take 6 (sha256 G value))))"

text \<open>\<open>bytes\<close> is what \<^verbatim>\<open>rand.Read\<close> fills the buffer with, \<open>None\<close> when it fails.\<close>

definition generateManagedSecret :: "string \<Rightarrow> string option \<Rightarrow> string result" where
  "generateManagedSecret kind bytes =
     (case bytes of
        None \<Rightarrow> Inl ''rand''
      | Some b \<Rightarrow> Inr (if kind = ''totp'' then base32_encode b else hex_encode b))"

record secretDescriptor =
  sdID :: string
  sdComponent :: string
  sdLabel :: string
  sdMode :: string
  sdReference :: string
  sdEnvironmentVariable :: string
  sdSuggestedEnvironmentVariable :: string
  sdConfigured :: bool
  sdFingerprint :: string
  sdCanGenerate :: bool
  sdCanInherit :: bool
  sdRestartRequired :: bool
  sdMinimumLength :: int

definition secretDescriptorFor :: "golib \<Rightarrow> host \<Rightarrow> ini \<Rightarrow> string \<Rightarrow> secretLocation \<Rightarrow> secretDescriptor" where
  "secretDescriptorFor G h doc sid location =
     (let reference = trim_space (get doc (slSection location) (slKey location) []);
          variable = envNameFromReference reference;
          (mode, displayReference, resolved) =
            (if reference = [] \<and> slCanInherit location
             then (''inherit'', ''Inherit default companion secret'', resolveConfigValue h (get doc ''companion'' ''default_secret'' []))
             else if variable \<noteq> [] then (''environment'', ''env:'' @ variable, trim_space (getenv h variable))
             else if reference \<noteq> [] then (''dashboard'', ''Dashboard-managed secret'', reference)
             else (''unset'', ''Not configured'', []))
      in \<lparr>sdID = sid, sdComponent = slComponent location, sdLabel = slLabel location, sdMode = mode,
          sdReference = displayReference, sdEnvironmentVariable = variable,
          sdSuggestedEnvironmentVariable = slDefaultEnv location, sdConfigured = (resolved \<noteq> []),
          sdFingerprint = secretFingerprint G resolved, sdCanGenerate = slCanGenerate location,
          sdCanInherit = slCanInherit location, sdRestartRequired = True, sdMinimumLength = minimumSecretLength\<rparr>)"

definition effectiveCompanionSecret :: "host \<Rightarrow> ini \<Rightarrow> string \<Rightarrow> string" where
  "effectiveCompanionSecret h doc backendID0 =
     (let backendID = to_lower (trim_space backendID0) in
      if \<not> hasSection doc (''backend.'' @ backendID) then []
      else let s = resolveConfigValue h (trim_space (map_get (sectionValues doc (''backend.'' @ backendID)) ''companion_secret''))
           in if s = [] then resolveConfigValue h (get doc ''companion'' ''default_secret'' []) else s)"

definition secretSourceSummary :: "string \<Rightarrow> string" where
  "secretSourceSummary value0 =
     (let value = trim_space value0 in
      if value = [] then ''unset''
      else let variable = envNameFromReference value in
           if variable \<noteq> [] then ''env:'' @ variable else ''dashboard-managed'')"

section \<open>Credentials and the configuration editor\<close>

definition isSecretConfigKey :: "string \<Rightarrow> string \<Rightarrow> bool" where
  "isSecretConfigKey section0 key0 =
     (let s = to_lower section0; key = to_lower key0 in
      s = ''dashboard'' \<and> key \<in> {''owner_token'', ''operator_token'', ''viewer_token'', ''metrics_token'', ''totp_secret''} \<or>
      s = ''companion'' \<and> key = ''default_secret'' \<or>
      s = ''session_core'' \<and> key = ''internal_token'' \<or>
      s = ''discord'' \<and> (key = ''webhook_url'' \<or> key = ''bot_token'') \<or>
      has_prefix s ''backend.'' \<and> key = ''companion_secret'')"

definition redacted :: string where "redacted = ''[REDACTED]''"

definition redactValue :: "string \<Rightarrow> string \<Rightarrow> string \<Rightarrow> string" where
  "redactValue s k v =
     (if isSecretConfigKey s k \<and> v \<noteq> [] \<and> \<not> has_prefix (to_lower (trim_space v)) ''env:'' then redacted else v)"

definition redactUnifiedDocument :: "ini \<Rightarrow> ini" where
  "redactUnifiedDocument doc =
     foldl (\<lambda>red (s, kvs).
       let n = to_lower (trim_space s) in
       foldl (\<lambda>r (k, v). putKey r n k (redactValue s k v)) (addSection red n) kvs) [] doc"

definition mergeRedactedSecrets :: "ini \<Rightarrow> ini \<Rightarrow> ini" where
  "mergeRedactedSecrets candidate current =
     map (\<lambda>(s, kvs). (s, map (\<lambda>(k, v).
       (k, if v = redacted \<and> isSecretConfigKey s k \<and> hasSection current s
           then map_get (sectionValues current s) k else v)) kvs)) candidate"

definition preserveVaultManagedSecrets :: "ini \<Rightarrow> ini \<Rightarrow> ini" where
  "preserveVaultManagedSecrets candidate current =
     map (\<lambda>(s, kvs). (s,
       if hasSection current s
       then foldl (\<lambda>m (k, v). if isSecretConfigKey s k then AList.update k v m else m) kvs (sectionValues current s)
       else map (\<lambda>(k, v). (k, if isSecretConfigKey s k then [] else v)) kvs)) candidate"

section \<open>The editor's document as a map\<close>

definition redact_view :: "string \<Rightarrow> (string \<rightharpoonup> string) \<Rightarrow> string \<rightharpoonup> string" where
  "redact_view s f = (\<lambda>k. map_option (redactValue s k) (f k))"

lemma name_text_section: "name_text s \<Longrightarrow> to_lower (trim_space s) = s"
  by (simp add: name_text_def trim_space_id)

lemma map_of_map_values: "map_of (map (\<lambda>(k, v). (k, g k v)) kvs) k = map_option (g k) (map_of kvs k)"
  by (induction kvs) auto

lemma redact_section:
  "foldl (\<lambda>r (k, v). putKey r n k (redactValue s k v)) doc kvs = put_all doc n (map (\<lambda>(k, v). (k, redactValue s k v)) kvs)"
  by (induction kvs arbitrary: doc) (auto simp: put_all_def)

lemma redact_view_correct:
  assumes "ini_text doc"
  shows "ini_view (redactUnifiedDocument doc) = (\<lambda>s. map_option (redact_view s) (ini_view doc s))"
proof -
  let ?step = "\<lambda>red (s, kvs). let n = to_lower (trim_space s) in
       foldl (\<lambda>r (k, v). putKey r n k (redactValue s k v)) (addSection red n) kvs"
  have step: "ini_view (foldl ?step red ss) = (\<lambda>s. case map_of ss s of None \<Rightarrow> ini_view red s | Some kvs \<Rightarrow> Some (redact_view s (map_of kvs)))"
    if "distinct (map fst ss)" "\<forall>(s, kvs) \<in> set ss. name_text s \<and> distinct (map fst kvs)"
       "\<forall>s \<in> fst ` set ss. ini_view red s = None" for red ss
    using that
  proof (induction ss arbitrary: red)
    case (Cons e ss)
    obtain s kvs where e: "e = (s, kvs)" by fastforce
    let ?vals = "map (\<lambda>(k, v). (k, redactValue s k v)) kvs"
    have n: "to_lower (trim_space s) = s" using Cons.prems e by (auto intro: name_text_section)
    have new: "ini_view (addSection red s) = (ini_view red)(s \<mapsto> Map.empty)"
      using Cons.prems(3) e by (simp add: ini_view_addSection)
    have "distinct (map fst ?vals)" using Cons.prems(2) e by (auto simp: comp_def case_prod_beta)
    then have "ini_view (put_all (addSection red s) s ?vals) = (ini_view red)(s \<mapsto> Map.empty ++ map_of ?vals)"
      using ini_view_put_all [of "addSection red s" s Map.empty ?vals] new by simp
    then have first: "ini_view (?step red e) = (ini_view red)(s \<mapsto> redact_view s (map_of kvs))"
      by (simp add: e n Let_def redact_section redact_view_def map_of_map_values fun_eq_iff)
    have "ini_view (foldl ?step (?step red e) ss) =
        (\<lambda>s. case map_of ss s of None \<Rightarrow> ini_view (?step red e) s | Some kvs \<Rightarrow> Some (redact_view s (map_of kvs)))"
      by (rule Cons.IH) (use Cons.prems e first in \<open>auto split: prod.splits\<close>)
    moreover have "map_of ss s = None" using Cons.prems(1) e by (simp add: map_of_eq_None_iff)
    ultimately show ?case using e first by (auto simp: fun_eq_iff split: option.splits)
  qed simp
  have "ini_view (redactUnifiedDocument doc) = (\<lambda>s. case map_of doc s of None \<Rightarrow> ini_view [] s | Some kvs \<Rightarrow> Some (redact_view s (map_of kvs)))"
    unfolding redactUnifiedDocument_def
    by (rule step) (use assms in \<open>auto simp: ini_text_def keys_distinct_def ini_view_def\<close>)
  then show ?thesis by (auto simp: ini_view_def fun_eq_iff split: option.splits)
qed

lemma merge_view:
  "ini_view (mergeRedactedSecrets candidate current) s =
     map_option (\<lambda>f k. map_option (\<lambda>v. if v = redacted \<and> isSecretConfigKey s k \<and> hasSection current s
        then map_get (sectionValues current s) k else v) (f k)) (ini_view candidate s)"
proof -
  have "map_of (mergeRedactedSecrets candidate current) s =
      map_option (map (\<lambda>(k, v). (k, if v = redacted \<and> isSecretConfigKey s k \<and> hasSection current s
        then map_get (sectionValues current s) k else v))) (map_of candidate s)"
    unfolding mergeRedactedSecrets_def by (rule map_of_map_values)
  then show ?thesis
    by (cases "map_of candidate s") (auto simp: ini_view_def fun_eq_iff map_of_map_values)
qed

lemma foldl_secret_update:
  "distinct (map fst cs) \<Longrightarrow>
   map_of (foldl (\<lambda>m (k, v). if P k then AList.update k v m else m) kvs cs) k =
     (if P k \<and> k \<in> fst ` set cs then map_of cs k else map_of kvs k)"
proof (induction cs arbitrary: kvs)
  case (Cons c cs)
  then show ?case by (cases c) (auto simp: update_conv' map_of_eq_None_iff)
qed simp

lemma preserve_view:
  assumes "keys_distinct current"
  shows "ini_view (preserveVaultManagedSecrets candidate current) s =
    map_option (\<lambda>f k.
      if hasSection current s
      then (if isSecretConfigKey s k \<and> map_of (sectionValues current s) k \<noteq> None then map_of (sectionValues current s) k else f k)
      else map_option (\<lambda>v. if isSecretConfigKey s k then [] else v) (f k)) (ini_view candidate s)"
proof -
  have d: "distinct (map fst (sectionValues current s))"
    using assms by (auto simp: keys_distinct_def sectionValues_def split: option.splits dest: map_of_SomeD)
  have "map_of (preserveVaultManagedSecrets candidate current) s =
      map_option (\<lambda>kvs. if hasSection current s
       then foldl (\<lambda>m (k, v). if isSecretConfigKey s k then AList.update k v m else m) kvs (sectionValues current s)
       else map (\<lambda>(k, v). (k, if isSecretConfigKey s k then [] else v)) kvs) (map_of candidate s)"
    unfolding preserveVaultManagedSecrets_def by (rule map_of_map_values)
  then show ?thesis
    by (cases "map_of candidate s", simp add: ini_view_def)
      (auto simp: ini_view_def fun_eq_iff map_of_map_values foldl_secret_update [OF d] map_of_eq_None_iff)
qed

section \<open>Properties\<close>

definition config_value :: "ini \<Rightarrow> string \<Rightarrow> string \<Rightarrow> string option" where
  "config_value d s k = Option.bind (ini_view d s) (\<lambda>f. f k)"

lemma config_value_redact:
  "ini_text d \<Longrightarrow> config_value (redactUnifiedDocument d) s k = map_option (redactValue s k) (config_value d s k)"
  by (cases "ini_view d s") (auto simp: config_value_def redact_view_correct redact_view_def)

lemma hasSection_view: "hasSection d s \<longleftrightarrow> ini_view d s \<noteq> None"
  by (simp add: hasSection_def ini_view_def)

lemma merge_after_redact:
  assumes "ini_text d"
  shows "ini_view (mergeRedactedSecrets (redactUnifiedDocument d) d) = ini_view d"
proof
  fix s
  show "ini_view (mergeRedactedSecrets (redactUnifiedDocument d) d) s = ini_view d s"
  proof (cases "ini_view d s")
    case None
    then show ?thesis by (simp add: merge_view redact_view_correct [OF assms])
  next
    case (Some f)
    have "map_of (sectionValues d s) = f" using Some by (simp add: ini_view_sectionValues)
    then have stored: "f k = Some v \<Longrightarrow> map_get (sectionValues d s) k = v" for k v by (simp add: map_get_def)
    have "map_option (\<lambda>v. if v = redacted \<and> isSecretConfigKey s k then map_get (sectionValues d s) k else v)
        (map_option (redactValue s k) (f k)) = f k" for k
      by (cases "f k") (auto simp: redactValue_def dest: stored)
    then show ?thesis
      using Some by (simp add: merge_view redact_view_correct [OF assms] redact_view_def hasSection_view)
  qed
qed

text \<open>The configuration that the editor is given shows no credential: every value it has under a
  credential key is empty, a reference to an environment variable, or the redaction mark.\<close>

theorem editor_sees_no_credential:
  assumes "parseINI content = Inr d" and "isSecretConfigKey s k"
    and "config_value (redactUnifiedDocument d) s k = Some v"
  shows "v = [] \<or> v = redacted \<or> has_prefix (to_lower (trim_space v)) ''env:''"
proof -
  obtain u where "v = redactValue s k u"
    using assms(3) config_value_redact [OF parseINI_text [OF assms(1)]] by auto
  then show ?thesis using assms(2) by (auto simp: redactValue_def)
qed

text \<open>Saving the editor's text unchanged restores every credential: merging the redacted document
  with the stored one gives the stored one.\<close>

theorem redaction_round_trip:
  assumes "parseINI content = Inr d"
  shows "ini_view (mergeRedactedSecrets (redactUnifiedDocument d) d) = ini_view d"
  using merge_after_redact [OF parseINI_text [OF assms]] .

text \<open>The editor cannot change a credential the vault holds, nor bring one in with a new section:
  whatever text is submitted, a credential key that the stored configuration has keeps its stored
  value, and in a section that the stored configuration does not have every credential is empty.\<close>

theorem editor_keeps_credentials:
  assumes "parseINI stored = Inr current" and "isSecretConfigKey s k"
    and "hasSection candidate s"
  shows "(config_value current s k = Some v \<longrightarrow>
      config_value (preserveVaultManagedSecrets candidate current) s k = Some v) \<and>
    (\<not> hasSection current s \<longrightarrow>
      config_value (preserveVaultManagedSecrets candidate current) s k \<in> {None, Some []})"
proof -
  have "keys_distinct current" using parseINI_text [OF assms(1)] by (simp add: ini_text_def)
  note view = preserve_view [OF this, of candidate s]
  obtain f where f: "ini_view candidate s = Some f" using assms(3) by (auto simp: hasSection_view)
  have "config_value (preserveVaultManagedSecrets candidate current) s k = Some v" if "config_value current s k = Some v"
    using that view f assms(2) by (auto simp: config_value_def hasSection_view ini_view_sectionValues split: bind_splits)
  moreover have "config_value (preserveVaultManagedSecrets candidate current) s k \<in> {None, Some []}"
    if "\<not> hasSection current s"
    using that view f assms(2) by (auto simp: config_value_def)
  ultimately show ?thesis by blast
qed

text \<open>A credential key that the stored configuration does not have, in a section that it has, takes the
  value that the editor submits, although the editor's note calls credentials read-only.\<close>

theorem editor_may_add_credential:
  assumes "parseINI stored = Inr current" and "isSecretConfigKey s k"
    and "hasSection current s" and "config_value current s k = None" and "hasSection candidate s"
  shows "config_value (preserveVaultManagedSecrets candidate current) s k = config_value candidate s k"
proof -
  have "keys_distinct current" using parseINI_text [OF assms(1)] by (simp add: ini_text_def)
  note view = preserve_view [OF this, of candidate s]
  have "map_of (sectionValues current s) k = None"
    using assms(3,4) by (auto simp: config_value_def hasSection_view ini_view_sectionValues)
  moreover obtain f where "ini_view candidate s = Some f" using assms(5) by (auto simp: hasSection_view)
  ultimately show ?thesis using view assms(3) by (auto simp: config_value_def)
qed

section \<open>A stored configuration and a submitted one\<close>

definition storedConfig :: string where
  "storedConfig = concat (map (\<lambda>l. l @ [newline])
     [''[dashboard]'', ''operator_token = correct horse'', ''totp_secret = env:TOTP''])"

definition storedDocument :: ini where
  "storedDocument = [(''edge'', []), (''dashboard'', [(''operator_token'', ''correct horse''), (''totp_secret'', ''env:TOTP'')])]"

definition submittedDocument :: ini where
  "submittedDocument = [(''edge'', []), (''dashboard'', [(''operator_token'', ''stolen''), (''owner_token'', ''injected'')]),
     (''backend.new'', [(''companion_secret'', ''x'')])]"

lemma storedConfig_read: "parseINI storedConfig = Inr storedDocument"
proof -
  have "scan_lines storedConfig = ([''[dashboard]'', ''operator_token = correct horse'', ''totp_secret = env:TOTP''], False)"
    unfolding storedConfig_def by (rule scan_lines_printed) (simp add: newline_def carriage_return_def)
  moreover have "iniLoop 1 (''edge'', [(''edge'', [])])
      [''[dashboard]'', ''operator_token = correct horse'', ''totp_secret = env:TOTP''] = Inr (''dashboard'', storedDocument)"
    by code_simp
  ultimately show ?thesis by (simp add: parseINI_def)
qed

lemma sample_sections:
  "hasSection storedDocument ''dashboard''" "hasSection submittedDocument ''dashboard''"
  "\<not> hasSection storedDocument ''backend.new''" "hasSection submittedDocument ''backend.new''"
  "isSecretConfigKey ''dashboard'' ''operator_token''" "isSecretConfigKey ''dashboard'' ''owner_token''"
  "isSecretConfigKey ''backend.new'' ''companion_secret''"
  by code_simp+

lemma sample_values:
  "config_value storedDocument ''dashboard'' ''operator_token'' = Some ''correct horse''"
  "config_value storedDocument ''dashboard'' ''owner_token'' = None"
  "config_value submittedDocument ''dashboard'' ''owner_token'' = Some ''injected''"
  by (simp_all add: config_value_def ini_view_def storedDocument_def submittedDocument_def)

theorem editor_sees_no_credential_witness:
  "\<exists>v. config_value (redactUnifiedDocument storedDocument) ''dashboard'' ''operator_token'' = Some v \<and>
     (v = [] \<or> v = redacted \<or> has_prefix (to_lower (trim_space v)) ''env:'')"
proof -
  obtain v where v: "config_value (redactUnifiedDocument storedDocument) ''dashboard'' ''operator_token'' = Some v"
    using config_value_redact [OF parseINI_text [OF storedConfig_read]] sample_values(1) by simp
  with editor_sees_no_credential [OF storedConfig_read sample_sections(5) v] show ?thesis by blast
qed

theorem redaction_round_trip_witness:
  "parseINI storedConfig = Inr storedDocument \<and>
   ini_view (mergeRedactedSecrets (redactUnifiedDocument storedDocument) storedDocument) = ini_view storedDocument"
  using redaction_round_trip [OF storedConfig_read] storedConfig_read by blast

theorem editor_keeps_credentials_witness:
  "config_value (preserveVaultManagedSecrets submittedDocument storedDocument) ''dashboard'' ''operator_token'' = Some ''correct horse'' \<and>
   config_value (preserveVaultManagedSecrets submittedDocument storedDocument) ''backend.new'' ''companion_secret'' \<in> {None, Some []}"
  using editor_keeps_credentials [OF storedConfig_read sample_sections(5,2), of "''correct horse''"]
    editor_keeps_credentials [OF storedConfig_read sample_sections(7,4), of "[]"] sample_values(1) sample_sections(3) by simp

theorem editor_may_add_credential_witness:
  "config_value (preserveVaultManagedSecrets submittedDocument storedDocument) ''dashboard'' ''owner_token'' = Some ''injected''"
  using editor_may_add_credential [OF storedConfig_read sample_sections(6,1) sample_values(2) sample_sections(2)]
    sample_values(3) by simp

end
