(* ===== verification/Unified.thy ===== *)
theory Unified
  imports Vault "HOL-Library.Product_Lexorder" "HOL-Library.Multiset"
begin

text \<open>
  The topology inside the unified configuration (\<^verbatim>\<open>topologyFromUnified\<close>, \<^verbatim>\<open>applyTopologyToUnified\<close> of
  \<^verbatim>\<open>dashboard/config.go\<close>) and the validation of a whole document.  A topology that is written into a
  document and read back is the same topology up to \<^verbatim>\<open>normalizedTopology\<close>, and every companion secret
  stays where it was.
\<close>

section \<open>The topology of a document\<close>

definition backendSections :: "ini \<Rightarrow> string list" where
  "backendSections doc = sort (filter (\<lambda>s. has_prefix s ''backend.'') (map fst doc))"

definition backendOfValues :: "string \<Rightarrow> (string \<times> string) list \<Rightarrow> backendDefinition" where
  "backendOfValues bid kvs =
     (let secretReference = trim_space (map_get kvs ''companion_secret'') in
      \<lparr>bID = bid,
       bDisplayName = valueOr kvs ''display_name'' (humanizeBackendID bid),
       bHost = valueOr kvs ''host'' ''127.0.0.1'',
       bBackendPort = intOr kvs ''backend_port'' 19132,
       bPublicPort = intOr kvs ''public_port'' 0,
       bFallback = boolOr kvs ''fallback'' False,
       bFallbackBackend = valueOr kvs ''fallback_backend'' [],
       bProfile = valueOr kvs ''protection_profile'' bid,
       bEnabled = boolOr kvs ''enabled'' True,
       bConnectionMode = valueOr kvs ''connection_mode'' ''transparent'',
       bBackendAdapter = valueOr kvs ''backend_adapter'' ''proxy_only'',
       bBackendOnlineMode = boolOr kvs ''backend_online_mode'' True,
       bRequireProxyIdentity = boolOr kvs ''require_proxy_identity'' False,
       bCapacity = intOr kvs ''capacity'' 50,
       bCompanionSecretEnv = envNameFromReference secretReference\<rparr>)"

definition backendOfSection :: "ini \<Rightarrow> string \<Rightarrow> backendDefinition" where
  "backendOfSection doc s = backendOfValues (trim_prefix s ''backend.'') (sectionValues doc s)"

text \<open>The topology that \<^verbatim>\<open>topologyFromUnified\<close> returns beside its error.\<close>

definition unifiedTopology :: "ini \<Rightarrow> topologyConfig" where
  "unifiedTopology doc =
     (let primary = get doc ''edge'' ''primary_backend'' [];
          backends = map (backendOfSection doc) (backendSections doc) in
      \<lparr>tVersion = topologySchemaVersion,
       tPrimaryBackend = (if primary = [] \<and> backends \<noteq> [] then bID (hd backends) else primary),
       tRoutingMode = get doc ''edge'' ''routing_mode'' ''primary'',
       tBackends = backends\<rparr>)"

definition topologyFromUnified :: "ini \<Rightarrow> topologyConfig result" where
  "topologyFromUnified doc = attempt (validateTopology (unifiedTopology doc)) (\<lambda>_. Inr (unifiedTopology doc))"

definition existingSecrets :: "ini \<Rightarrow> (string \<times> string) list" where
  "existingSecrets doc =
     map (\<lambda>(s, kvs). (trim_prefix s ''backend.'', map_get kvs ''companion_secret''))
       (filter (\<lambda>(s, kvs). has_prefix s ''backend.'') doc)"

definition backendKeys :: "backendDefinition \<Rightarrow> string \<Rightarrow> (string \<times> string) list" where
  "backendKeys b reference =
     [(''display_name'', bDisplayName b), (''host'', bHost b), (''backend_port'', itoa (bBackendPort b)),
      (''public_port'', itoa (bPublicPort b)), (''enabled'', format_bool (bEnabled b)),
      (''fallback'', format_bool (bFallback b)), (''fallback_backend'', bFallbackBackend b),
      (''protection_profile'', bProfile b), (''connection_mode'', bConnectionMode b),
      (''backend_adapter'', bBackendAdapter b), (''backend_online_mode'', format_bool (bBackendOnlineMode b)),
      (''require_proxy_identity'', format_bool (bRequireProxyIdentity b)), (''capacity'', itoa (bCapacity b)),
      (''companion_secret'', reference)]"

definition writeBackend :: "(string \<times> string) list \<Rightarrow> ini \<Rightarrow> backendDefinition \<Rightarrow> ini" where
  "writeBackend secrets doc b =
     (let name = to_lower (trim_space (''backend.'' @ bID b)) in
      put_all (addSection doc name) name (backendKeys b (map_get secrets (bID b))))"

definition applyTopologyToUnified :: "ini \<Rightarrow> topologyConfig \<Rightarrow> ini result" where
  "applyTopologyToUnified doc t =
     attempt (validateTopology t) (\<lambda>_.
     let secrets = existingSecrets doc;
         doc1 = filter (\<lambda>(s, kvs). \<not> has_prefix s ''backend.'') doc;
         doc2 = setKey (setKey doc1 ''edge'' ''primary_backend'' (tPrimaryBackend t)) ''edge'' ''routing_mode'' (tRoutingMode t)
     in Inr (foldl (writeBackend secrets) doc2 (tBackends t)))"

section \<open>Validation of a document\<close>

definition staticSecretIDs :: "string list" where
  "staticSecretIDs = [''dashboard.operator_token'', ''dashboard.viewer_token'', ''dashboard.metrics_token'',
     ''dashboard.totp_secret'', ''session_core.internal_token'', ''companion.default_secret'',
     ''discord.webhook_url'', ''discord.bot_token'']"

definition checkSecret :: "host \<Rightarrow> ini \<Rightarrow> unit \<Rightarrow> string \<Rightarrow> unit result" where
  "checkSecret h doc u sid =
     attempt (secretLocationForID doc sid) (\<lambda>location.
     let reference = trim_space (get doc (slSection location) (slKey location) []);
         variable = envNameFromReference reference;
         value = (if variable \<noteq> [] then trim_space (getenv h variable) else reference) in
     if reference = [] \<or> variable \<noteq> [] \<and> value = [] then Inr ()
     else case validateManagedSecret location value of
       Inl err \<Rightarrow> Inl (slLabel location @ '': '' @ err)
     | Inr _ \<Rightarrow> Inr ())"

definition validateUnifiedSecrets :: "host \<Rightarrow> ini \<Rightarrow> unit result" where
  "validateUnifiedSecrets h doc =
     iterate (checkSecret h doc) ()
       (staticSecretIDs @ map (\<lambda>s. s @ ''.companion_secret'') (filter (\<lambda>s. has_prefix s ''backend.'') (map fst doc)))"

definition capturePacketIDs :: "string \<Rightarrow> unit \<Rightarrow> string \<Rightarrow> unit result" where
  "capturePacketIDs key u raw0 =
     (let raw = trim_space raw0 in
      if raw = [] then Inr ()
      else case atoi raw of
        None \<Rightarrow> Inl (key @ '' contains invalid packet ID '' @ quoted raw)
      | Some packetID \<Rightarrow>
          if packetID < 0 \<or> packetID > 1023 then Inl (key @ '' contains invalid packet ID '' @ quoted raw) else Inr ())"

definition boundedKey :: "ini \<Rightarrow> unit \<Rightarrow> string \<times> int \<times> int \<Rightarrow> unit result" where
  "boundedKey doc u bound =
     (let (key, lo, hi) = bound; raw = trim_space (get doc ''session_core'' key []);
          err = Inl (''session_core.'' @ key @ '' must be between '' @ itoa lo @ '' and '' @ itoa hi) in
      if raw = [] then Inr ()
      else case atoi raw of None \<Rightarrow> err | Some v \<Rightarrow> if v < lo \<or> v > hi then err else Inr ())"

definition validateUnifiedConfig :: "host \<Rightarrow> ini \<Rightarrow> unit result" where
  "validateUnifiedConfig h doc =
     (let version = getInt doc ''edge'' ''config_version'' unifiedConfigVersion 1 100 in
      if version \<noteq> unifiedConfigVersion then Inl (''unsupported config_version '' @ itoa version)
      else attempt (topologyFromUnified doc) (\<lambda>topology.
      attempt (validateTopology topology) (\<lambda>_.
      let transferStart = getInt doc ''transfer'' ''port_start'' 25572 1 65535;
          transferEnd = getInt doc ''transfer'' ''port_end'' 25581 1 65535;
          captureMode = get doc ''session_core'' ''protocol_capture_mode'' ''metadata'' in
      attempt (refuse
        [(transferEnd < transferStart, ''transfer.port_end must be greater than or equal to transfer.port_start''),
         (captureMode \<notin> {''metadata'', ''decoded'', ''wire'', ''full'', ''redacted_payload''},
            ''session_core.protocol_capture_mode must be metadata, decoded, wire, or full'')]) (\<lambda>_.
      attempt (iterate (capturePacketIDs ''session_core.protocol_capture_packet_ids'') ()
        (split_on (CHR '','') (get doc ''session_core'' ''protocol_capture_packet_ids'' ''30,77''))) (\<lambda>_.
      attempt (iterate (boundedKey doc) ()
        [(''protocol_capture_max_packet_bytes'', 64, 1048576), (''protocol_observation_max_bytes'', 65536, 1073741824)]) (\<lambda>_.
      validateUnifiedSecrets h doc))))))"

section \<open>Scope of a restart\<close>

definition iniSectionEqual :: "ini \<Rightarrow> ini \<Rightarrow> string \<Rightarrow> bool" where
  "iniSectionEqual left right s =
     (length (sectionValues left s) = length (sectionValues right s) \<and>
      list_all (\<lambda>(key, value). map_get (sectionValues right s) key = value) (sectionValues left s))"

definition iniKeyChanged :: "ini \<Rightarrow> ini \<Rightarrow> string \<Rightarrow> string \<Rightarrow> bool" where
  "iniKeyChanged left right s key \<longleftrightarrow> get left s key [] \<noteq> get right s key []"

definition unifiedConfigRestartScope :: "ini \<Rightarrow> ini \<Rightarrow> string" where
  "unifiedConfigRestartScope current candidate =
     (if list_ex (\<lambda>s. \<not> iniSectionEqual current candidate s) [''dashboard'', ''companion'', ''transfer'', ''logging'', ''discord'']
      then ''services''
      else if list_ex (\<lambda>key. iniKeyChanged current candidate ''edge'' key) [''instance_name'', ''public_host'']
      then ''services'' else ''gateway'')"

definition secretDescriptors :: "golib \<Rightarrow> host \<Rightarrow> ini \<Rightarrow> secretDescriptor list" where
  "secretDescriptors G h doc =
     (let ids = [''dashboard.operator_token'', ''dashboard.viewer_token'', ''dashboard.metrics_token'',
            ''dashboard.totp_secret'', ''companion.default_secret'', ''session_core.internal_token'',
            ''discord.webhook_url'', ''discord.bot_token''] @
            map (\<lambda>b. ''backend.'' @ bID b @ ''.companion_secret'') (tBackends (unifiedTopology doc))
      in sort_key (\<lambda>s. (sdComponent s, sdLabel s))
           (concat (map (\<lambda>i. case secretLocationForID doc i of Inl _ \<Rightarrow> [] | Inr location \<Rightarrow> [secretDescriptorFor G h doc i location]) ids)))"

section \<open>Reading a topology that was written\<close>

lemma map_get_cong: "map_of a = map_of b \<Longrightarrow> map_get a k = map_get b k"
  by (simp add: map_get_def)

lemma backendOfValues_cong: "map_of a = map_of b \<Longrightarrow> backendOfValues i a = backendOfValues i b"
  by (simp add: backendOfValues_def valueOr_def intOr_def boolOr_def map_get_cong [of a b])

definition storable :: "backendDefinition \<Rightarrow> bool" where
  "storable b \<longleftrightarrow> trimmed (bDisplayName b) \<and> trimmed (bHost b) \<and> trimmed (bProfile b) \<and> trimmed (bFallbackBackend b) \<and>
     bConnectionMode b \<noteq> [] \<and> bBackendAdapter b \<noteq> []"

lemma boolOr_format: "map_get kvs k = format_bool b \<Longrightarrow> boolOr kvs k f = b"
proof -
  have "truthy (to_lower (trim_space ''true''))" "\<not> truthy (to_lower (trim_space ''false''))"
    "falsy (to_lower (trim_space ''false''))" by code_simp+
  then show "map_get kvs k = format_bool b \<Longrightarrow> boolOr kvs k f = b"
    by (cases b) (simp_all add: boolOr_def Let_def format_bool_def)
qed

lemma intOr_itoa: "map_get kvs k = itoa i \<Longrightarrow> - 1000000 \<le> i \<Longrightarrow> i \<le> 1000000 \<Longrightarrow> intOr kvs k f = i"
  by (simp add: intOr_def in_int64_def min_int64_def max_int64_def)

lemma valueOr_trimmed: "map_get kvs k = v \<Longrightarrow> trimmed v \<Longrightarrow> v \<noteq> [] \<or> f = [] \<Longrightarrow> valueOr kvs k f = v"
  by (auto simp: valueOr_def Let_def trim_space_id)

lemma backendKeys_get:
  "map_get (backendKeys b r) ''display_name'' = bDisplayName b" "map_get (backendKeys b r) ''host'' = bHost b"
  "map_get (backendKeys b r) ''backend_port'' = itoa (bBackendPort b)" "map_get (backendKeys b r) ''public_port'' = itoa (bPublicPort b)"
  "map_get (backendKeys b r) ''enabled'' = format_bool (bEnabled b)" "map_get (backendKeys b r) ''fallback'' = format_bool (bFallback b)"
  "map_get (backendKeys b r) ''fallback_backend'' = bFallbackBackend b" "map_get (backendKeys b r) ''protection_profile'' = bProfile b"
  "map_get (backendKeys b r) ''connection_mode'' = bConnectionMode b" "map_get (backendKeys b r) ''backend_adapter'' = bBackendAdapter b"
  "map_get (backendKeys b r) ''backend_online_mode'' = format_bool (bBackendOnlineMode b)"
  "map_get (backendKeys b r) ''require_proxy_identity'' = format_bool (bRequireProxyIdentity b)"
  "map_get (backendKeys b r) ''capacity'' = itoa (bCapacity b)" "map_get (backendKeys b r) ''companion_secret'' = r"
  by (simp_all add: backendKeys_def map_get_def)

lemma valid_mode_trimmed:
  assumes "backend_valid b"
  shows "trimmed (bConnectionMode b)" and "trimmed (bBackendAdapter b)"
proof -
  have "connectionMode b \<in> {''transparent'', ''full_proxy''}"
    "backendAdapter b \<in> {''endstone'', ''vanilla_bridge'', ''vanilla_agent'', ''proxy_only''}"
    using assms by (simp_all only: backend_valid_def simp_thms)
  moreover have "trimmed ''transparent''" "trimmed ''full_proxy''" "trimmed ''endstone''" "trimmed ''vanilla_bridge''"
    "trimmed ''vanilla_agent''" "trimmed ''proxy_only''" by code_simp+
  ultimately have "trimmed (connectionMode b)" "trimmed (backendAdapter b)"
    by (elim insertE emptyE; simp only:)+
  then show "trimmed (bConnectionMode b)" "trimmed (bBackendAdapter b)"
    by (auto simp: connectionMode_def backendAdapter_def split: if_splits)
qed

lemma backendOfValues_written:
  assumes "backend_valid b" and "storable b"
  shows "backendOfValues (bID b) (backendKeys b r) = b\<lparr>bCompanionSecretEnv := envNameFromReference r\<rparr>"
proof -
  note v = backend_validD [OF assms(1)] valid_mode_trimmed [OF assms(1)]
  have env: "envNameFromReference (trim_space r) = envNameFromReference r" by (simp add: envNameFromReference_def Let_def)
  show ?thesis
    using v assms(2) unfolding storable_def backendOfValues_def Let_def backendKeys_get env
    by (simp add: valueOr_trimmed [OF backendKeys_get(1)] valueOr_trimmed [OF backendKeys_get(2)]
        valueOr_trimmed [OF backendKeys_get(7)] valueOr_trimmed [OF backendKeys_get(8)]
        valueOr_trimmed [OF backendKeys_get(9)] valueOr_trimmed [OF backendKeys_get(10)]
        intOr_itoa [OF backendKeys_get(3)] intOr_itoa [OF backendKeys_get(4)] intOr_itoa [OF backendKeys_get(13)]
        boolOr_format [OF backendKeys_get(5)] boolOr_format [OF backendKeys_get(6)]
        boolOr_format [OF backendKeys_get(11)] boolOr_format [OF backendKeys_get(12)])
qed

definition sectionOf :: "backendDefinition \<Rightarrow> string" where
  "sectionOf b = ''backend.'' @ bID b"

lemma lower_id: "\<forall>c \<in> set s. \<not> is_upper_alpha c \<Longrightarrow> to_lower s = s"
  by (auto simp: to_lower_def char_lower_def is_upper_alpha_def intro!: map_idI)

lemma backendID_normal:
  assumes "backendIDPattern i"
  shows "normalizeCompanionServerID i = i"
proof -
  have "\<not> is_upper_alpha c" if "c \<in> set i" for c
    using backendID_chars [OF assms that] by (auto simp: is_lower_alpha_def is_upper_alpha_def is_digit_char_def byte_val_def)
  then show ?thesis using lower_id [of i] clean_trim [OF clean_backendID [OF assms]] by (simp add: normalizeCompanionServerID_def)
qed

lemma backend_section_name:
  assumes "backendIDPattern i"
  shows "to_lower (trim_space (''backend.'' @ i)) = ''backend.'' @ i"
proof -
  have b: "list_all (\<lambda>c. is_ascii c \<and> c \<notin> set ascii_spaces \<and> \<not> is_upper_alpha c) ''backend.''" by code_simp
  have i: "is_ascii c \<and> c \<notin> set ascii_spaces \<and> \<not> is_upper_alpha c" if "c \<in> set i" for c
    using backendID_chars [OF assms that]
    by (auto simp: is_lower_alpha_def is_upper_alpha_def is_digit_char_def is_ascii_def ascii_spaces_def byte_val_def)
  have all: "\<forall>c \<in> set (''backend.'' @ i). is_ascii c \<and> c \<notin> set ascii_spaces \<and> \<not> is_upper_alpha c"
    using b i by (auto simp: list_all_iff)
  then have "trimmed (''backend.'' @ i)" by (intro trimmed_ascii) blast
  moreover have "to_lower (''backend.'' @ i) = ''backend.'' @ i" using all by (intro lower_id) blast
  ultimately show ?thesis by (simp add: trim_space_id)
qed

lemma distinct_backendKeys: "distinct (map fst (backendKeys b r))"
  by (simp add: backendKeys_def)

lemma writeBackend_view:
  assumes "backend_valid b" and "ini_view doc (sectionOf b) = None"
  shows "ini_view (writeBackend secrets doc b) = (ini_view doc)(sectionOf b \<mapsto> map_of (backendKeys b (map_get secrets (bID b))))"
proof -
  have n: "to_lower (trim_space (''backend.'' @ bID b)) = sectionOf b"
    using backend_section_name [OF backend_validD(1) [OF assms(1)]] by (simp add: sectionOf_def)
  have new: "ini_view (addSection doc (sectionOf b)) = (ini_view doc)(sectionOf b \<mapsto> Map.empty)"
    using assms(2) by (simp add: ini_view_addSection)
  have "ini_view (put_all (addSection doc (sectionOf b)) (sectionOf b) (backendKeys b (map_get secrets (bID b)))) =
      (ini_view (addSection doc (sectionOf b)))(sectionOf b \<mapsto> Map.empty ++ map_of (backendKeys b (map_get secrets (bID b))))"
    by (rule ini_view_put_all) (simp_all only: new fun_upd_same distinct_backendKeys)
  then show ?thesis unfolding writeBackend_def Let_def n by (simp add: new)
qed

lemma writeBackends_view:
  assumes "list_all backend_valid bs" and "distinct (map bID bs)" and "\<forall>b \<in> set bs. ini_view doc (sectionOf b) = None"
  shows "ini_view (foldl (writeBackend secrets) doc bs) =
    (\<lambda>s. case map_of (map (\<lambda>b. (sectionOf b, backendKeys b (map_get secrets (bID b)))) bs) s of
       None \<Rightarrow> ini_view doc s | Some kvs \<Rightarrow> Some (map_of kvs))"
  using assms
proof (induction bs arbitrary: doc)
  case (Cons b bs)
  have first: "ini_view (writeBackend secrets doc b) = (ini_view doc)(sectionOf b \<mapsto> map_of (backendKeys b (map_get secrets (bID b))))"
    using Cons.prems by (intro writeBackend_view) auto
  have ne: "sectionOf c \<noteq> sectionOf b" if "c \<in> set bs" for c
  proof -
    have "bID c \<in> set (map bID bs)" using that by simp
    moreover have "bID b \<notin> set (map bID bs)" using Cons.prems(2) by simp
    ultimately show ?thesis by (auto simp: sectionOf_def)
  qed
  have "ini_view (foldl (writeBackend secrets) (writeBackend secrets doc b) bs) =
      (\<lambda>s. case map_of (map (\<lambda>b. (sectionOf b, backendKeys b (map_get secrets (bID b)))) bs) s of
       None \<Rightarrow> ini_view (writeBackend secrets doc b) s | Some kvs \<Rightarrow> Some (map_of kvs))"
    by (rule Cons.IH) (use Cons.prems first ne in auto)
  moreover have "map_of (map (\<lambda>b. (sectionOf b, backendKeys b (map_get secrets (bID b)))) bs) (sectionOf b) = None"
    using ne by (force simp: map_of_eq_None_iff)
  ultimately show ?case using first by (auto simp: fun_eq_iff split: option.splits)
qed simp

lemma keys_distinct_put_all: "keys_distinct doc \<Longrightarrow> keys_distinct (put_all doc s kvs)"
  unfolding put_all_def by (induction kvs arbitrary: doc) (auto simp: keys_distinct_putKey)

lemma keys_distinct_writeBackends: "keys_distinct doc \<Longrightarrow> keys_distinct (foldl (writeBackend secrets) doc bs)"
  by (induction bs arbitrary: doc) (auto simp: writeBackend_def Let_def keys_distinct_put_all keys_distinct_addSection)

lemma keys_distinct_filter: "keys_distinct doc \<Longrightarrow> keys_distinct (filter P doc)"
  by (auto simp: keys_distinct_def distinct_map_filter)

lemma map_of_existingSecrets:
  "map_of (existingSecrets doc) i = map_option (\<lambda>kvs. map_get kvs ''companion_secret'') (map_of doc (''backend.'' @ i))"
proof (induction doc)
  case (Cons e doc)
  obtain s kvs where e: "e = (s, kvs)" by fastforce
  show ?case
  proof (cases "has_prefix s ''backend.''")
    case True
    then obtain j where j: "s = ''backend.'' @ j" by (auto simp: has_prefix_def prefix_def)
    moreover have "trim_prefix s ''backend.'' = j" unfolding j by (rule trim_prefix_append)
    ultimately show ?thesis using True e Cons by (auto simp: existingSecrets_def)
  next
    case False
    then have "s \<noteq> ''backend.'' @ i" using has_prefix_append by metis
    with False e Cons show ?thesis by (simp add: existingSecrets_def)
  qed
qed (simp add: existingSecrets_def)

lemma get_view:
  "get doc s k fb = (case ini_view doc (to_lower s) of
     None \<Rightarrow> fb
   | Some f \<Rightarrow> let v = trim_space (case f (to_lower k) of None \<Rightarrow> [] | Some v \<Rightarrow> v) in if v = [] then fb else v)"
  by (auto simp: get_def ini_view_def map_get_def Let_def split: option.splits)

lemma backendSections_view:
  assumes "keys_distinct doc"
  shows "sorted (backendSections doc)" "distinct (backendSections doc)"
    "set (backendSections doc) = {s. has_prefix s ''backend.'' \<and> ini_view doc s \<noteq> None}"
  using assms by (auto simp: backendSections_def keys_distinct_def ini_view_def map_of_eq_None_iff)

lemma topology_view:
  assumes "keys_distinct d" and "keys_distinct d'" and "ini_view d = ini_view d'"
  shows "unifiedTopology d = unifiedTopology d'"
proof -
  have s: "backendSections d = backendSections d'"
    by (rule sorted_distinct_set_unique) (use assms backendSections_view in auto)
  have "backendOfSection d s = backendOfSection d' s" for s
    unfolding backendOfSection_def
    by (rule backendOfValues_cong) (simp add: ini_view_sectionValues assms(3))
  then have "backendOfSection d = backendOfSection d'" by (rule ext)
  then show ?thesis unfolding unifiedTopology_def s get_view assms(3) by simp
qed

text \<open>The references to environment variables that a topology can name.\<close>

definition references_ok :: "ini \<Rightarrow> bool" where
  "references_ok doc \<longleftrightarrow> (\<forall>i r. map_of (existingSecrets doc) i = Some r \<longrightarrow>
     envNameFromReference r = [] \<or> secretEnvPattern (envNameFromReference r))"

definition readBack :: "ini \<Rightarrow> backendDefinition \<Rightarrow> backendDefinition" where
  "readBack doc b = b\<lparr>bCompanionSecretEnv := envNameFromReference (map_get (existingSecrets doc) (bID b))\<rparr>"

lemma applied_view:
  assumes "applyTopologyToUnified doc t = Inr doc'"
  shows "topology_valid t"
    and "keys_distinct doc \<Longrightarrow> keys_distinct doc'"
    and "b \<in> set (tBackends t) \<Longrightarrow> ini_view doc' (sectionOf b) = Some (map_of (backendKeys b (map_get (existingSecrets doc) (bID b))))"
    and "has_prefix s ''backend.'' \<Longrightarrow> s \<notin> sectionOf ` set (tBackends t) \<Longrightarrow> ini_view doc' s = None"
    and "\<not> has_prefix s ''backend.'' \<Longrightarrow> s \<noteq> ''edge'' \<Longrightarrow> ini_view doc' s = ini_view doc s"
    and "\<exists>f. ini_view doc' ''edge'' = Some f \<and> f ''primary_backend'' = Some (tPrimaryBackend t) \<and> f ''routing_mode'' = Some (tRoutingMode t)"
proof -
  let ?sec = "existingSecrets doc"
  let ?doc1 = "filter (\<lambda>(s, kvs). \<not> has_prefix s ''backend.'') doc"
  let ?doc2 = "setKey (setKey ?doc1 ''edge'' ''primary_backend'' (tPrimaryBackend t)) ''edge'' ''routing_mode'' (tRoutingMode t)"
  let ?ws = "map (\<lambda>b. (sectionOf b, backendKeys b (map_get ?sec (bID b)))) (tBackends t)"
  have valid: "topology_valid t" and doc': "doc' = foldl (writeBackend ?sec) ?doc2 (tBackends t)"
    using assms by (auto simp: applyTopologyToUnified_def attempt_Inr validateTopology_Inr Let_def)
  then show "topology_valid t" by simp
  have edge: "to_lower (trim_space ''edge'') = ''edge''" "\<not> has_prefix ''edge'' ''backend.''" by code_simp+
  have v1: "ini_view ?doc1 s = (if has_prefix s ''backend.'' then None else ini_view doc s)" for s
    by (induction doc) (auto simp: ini_view_def)
  have v2: "ini_view ?doc2 = view_put (view_put (ini_view ?doc1) ''edge'' ''primary_backend'' (tPrimaryBackend t)) ''edge'' ''routing_mode'' (tRoutingMode t)"
    unfolding setKey_def edge(1) ini_view_putKey ..
  have pre: "has_prefix (sectionOf b) ''backend.''" for b unfolding sectionOf_def by (rule has_prefix_append)
  have none: "ini_view ?doc2 s = None" if "has_prefix s ''backend.''" for s
    using that edge(2) unfolding v2 view_put_def by (auto simp: v1 simp del: fun_upd_apply) (auto simp: v1)
  have bs: "list_all backend_valid (tBackends t)" "distinct (map bID (tBackends t))"
    using valid by (simp_all only: topology_valid_def simp_thms)
  have view: "ini_view doc' = (\<lambda>s. case map_of ?ws s of None \<Rightarrow> ini_view ?doc2 s | Some kvs \<Rightarrow> Some (map_of kvs))"
    unfolding doc' by (rule writeBackends_view) (use bs none pre in auto)
  show "keys_distinct doc'" if "keys_distinct doc"
    unfolding doc' setKey_def using that
    by (intro keys_distinct_writeBackends keys_distinct_putKey keys_distinct_filter)
  have inj: "distinct (map fst ?ws)"
    using bs(2) by (simp add: comp_def sectionOf_def distinct_map inj_on_def)
  show "ini_view doc' (sectionOf b) = Some (map_of (backendKeys b (map_get ?sec (bID b))))" if "b \<in> set (tBackends t)" for b
  proof -
    have "map_of ?ws (sectionOf b) = Some (backendKeys b (map_get ?sec (bID b)))"
      using inj that by (intro map_of_is_SomeI) auto
    then show ?thesis by (simp add: view)
  qed
  have out: "map_of ?ws s = None" if "s \<notin> sectionOf ` set (tBackends t)" for s
    using that by (auto simp: map_of_eq_None_iff image_image)
  show "ini_view doc' s = None" if "has_prefix s ''backend.''" "s \<notin> sectionOf ` set (tBackends t)" for s
    using that out none by (simp add: view)
  have notin: "s \<notin> sectionOf ` set (tBackends t)" if "\<not> has_prefix s ''backend.''" for s using that pre by auto
  show "ini_view doc' s = ini_view doc s" if "\<not> has_prefix s ''backend.''" "s \<noteq> ''edge''" for s
    using that out [OF notin [OF that(1)]] by (simp add: view v2 view_put_def v1)
  have "ini_view doc' ''edge'' = ini_view ?doc2 ''edge''" using out [OF notin [OF edge(2)]] by (simp add: view)
  then show "\<exists>f. ini_view doc' ''edge'' = Some f \<and> f ''primary_backend'' = Some (tPrimaryBackend t) \<and> f ''routing_mode'' = Some (tRoutingMode t)"
    by (simp add: v2 view_put_def)
qed

lemma applied_backends:
  assumes "applyTopologyToUnified doc t = Inr doc'" and "keys_distinct doc" and "list_all storable (tBackends t)"
  shows "mset (tBackends (unifiedTopology doc')) = mset (map (readBack doc) (tBackends t))"
proof -
  note view = applied_view [OF assms(1)]
  have bs: "list_all backend_valid (tBackends t)" "distinct (map bID (tBackends t))"
    using view(1) by (simp_all only: topology_valid_def simp_thms)
  have pre: "has_prefix (sectionOf b) ''backend.''" for b unfolding sectionOf_def by (rule has_prefix_append)
  have "set (backendSections doc') = sectionOf ` set (tBackends t)"
    using backendSections_view(3) [OF view(2) [OF assms(2)]] view(3,4) pre by fastforce
  moreover have "distinct (map sectionOf (tBackends t))"
    using bs(2) by (simp add: sectionOf_def distinct_map inj_on_def)
  ultimately have secs: "mset (backendSections doc') = mset (map sectionOf (tBackends t))"
    using backendSections_view(2) [OF view(2) [OF assms(2)]] by (subst set_eq_iff_mset_eq_distinct [symmetric]) auto
  have each: "backendOfSection doc' (sectionOf b) = readBack doc b" if "b \<in> set (tBackends t)" for b
  proof -
    have "map_of (sectionValues doc' (sectionOf b)) = map_of (backendKeys b (map_get (existingSecrets doc) (bID b)))"
      using view(3) [OF that] by (simp add: ini_view_sectionValues)
    moreover have "trim_prefix (sectionOf b) ''backend.'' = bID b" unfolding sectionOf_def by (rule trim_prefix_append)
    moreover have "backend_valid b" "storable b" using that bs(1) assms(3) by (simp_all add: list_all_iff)
    ultimately show ?thesis
      unfolding backendOfSection_def readBack_def by (metis backendOfValues_cong backendOfValues_written)
  qed
  have "mset (tBackends (unifiedTopology doc')) = image_mset (backendOfSection doc') (mset (backendSections doc'))"
    by (simp add: unifiedTopology_def Let_def)
  also have "\<dots> = mset (map (backendOfSection doc' \<circ> sectionOf) (tBackends t))"
    by (simp add: secs multiset.map_comp)
  also have "map (backendOfSection doc' \<circ> sectionOf) (tBackends t) = map (readBack doc) (tBackends t)"
    using each by simp
  finally show ?thesis .
qed

lemma topology_valid_mset:
  assumes "topology_valid t" and "mset (tBackends t') = mset (map g (tBackends t))"
    and "\<forall>b. bID (g b) = bID b \<and> bPublicPort (g b) = bPublicPort b"
    and "\<forall>b \<in> set (tBackends t). backend_valid b \<longrightarrow> backend_valid (g b)"
    and "tVersion t' = tVersion t" "tRoutingMode t' = tRoutingMode t" "tPrimaryBackend t' = tPrimaryBackend t"
  shows "topology_valid t'"
proof -
  have v: "list_all backend_valid (tBackends t)" "distinct (map bID (tBackends t))" "distinct (assignedPorts t)"
    "tPrimaryBackend t \<in> set (map bID (tBackends t))" "tVersion t = 1"
    "tRoutingMode t \<in> {''primary'', ''failover'', ''round_robin'', ''least_sessions''}"
    using assms(1) by (simp_all only: topology_valid_def simp_thms)
  have set: "set (tBackends t') = g ` set (tBackends t)" using assms(2) by (metis set_mset_mset set_map)
  have "bID \<circ> g = bID" "bPublicPort \<circ> g = bPublicPort" using assms(3) by (simp_all add: fun_eq_iff)
  then have ids: "mset (map bID (tBackends t')) = mset (map bID (tBackends t))"
    and ports: "mset (map bPublicPort (tBackends t')) = mset (map bPublicPort (tBackends t))"
    using assms(2) by (metis mset_map map_map)+
  from ports have "mset (assignedPorts t') = mset (assignedPorts t)" by (simp add: assignedPorts_def mset_filter)
  then have "distinct (assignedPorts t')" using v(3) by (metis mset_eq_imp_distinct_iff)
  moreover have "distinct (map bID (tBackends t'))" using ids v(2) by (metis mset_eq_imp_distinct_iff)
  moreover have "list_all backend_valid (tBackends t')" using v(1) assms(4) set by (auto simp: list_all_iff)
  moreover have "set (map bID (tBackends t')) = set (map bID (tBackends t))" using ids by (rule mset_eq_setD)
  ultimately show ?thesis unfolding topology_valid_def assms(5-7) using v by simp
qed

lemma normalized_readBack:
  assumes "mset bs' = mset (map (readBack doc) bs)" and "distinct (map bID bs)"
  shows "sort_key bID (map (\<lambda>b. b\<lparr>bCompanionSecretEnv := []\<rparr>) bs') = sort_key bID (map (\<lambda>b. b\<lparr>bCompanionSecretEnv := []\<rparr>) bs)"
proof -
  let ?strip = "\<lambda>b. b\<lparr>bCompanionSecretEnv := []\<rparr>"
  have "mset (map ?strip bs') = mset (map (?strip \<circ> readBack doc) bs)" using assms(1) by (metis mset_map map_map)
  also have "map (?strip \<circ> readBack doc) bs = map ?strip bs" by (simp add: readBack_def)
  finally have m: "mset (map ?strip bs') = mset (map ?strip bs)" .
  have "inj_on bID (set (map ?strip bs))" using assms(2) by (auto simp: distinct_map inj_on_def)
  then have "inj_on bID (set (map ?strip bs'))" using m by (metis mset_eq_setD)
  then show ?thesis using m by (intro sort_key_inj_key_eq) simp_all
qed

lemma backend_valid_env:
  assumes "e = [] \<or> secretEnvPattern e" and "backend_valid b"
  shows "backend_valid (b\<lparr>bCompanionSecretEnv := e\<rparr>)"
proof -
  have same: "connectionMode (b\<lparr>bCompanionSecretEnv := e\<rparr>) = connectionMode b"
    "backendAdapter (b\<lparr>bCompanionSecretEnv := e\<rparr>) = backendAdapter b"
    by (simp_all add: connectionMode_def backendAdapter_def)
  show ?thesis using assms unfolding backend_valid_def same by simp
qed

lemma topology_reads_back:
  assumes "applyTopologyToUnified doc t = Inr doc'" and "keys_distinct doc" and "references_ok doc"
    and "list_all storable (tBackends t)"
  shows "\<exists>t'. topologyFromUnified doc' = Inr t' \<and> normalizedTopology t' = normalizedTopology t"
proof -
  let ?t' = "unifiedTopology doc'"
  note valid = applied_view(1) [OF assms(1)] and edge = applied_view(6) [OF assms(1)]
  note ms = applied_backends [OF assms(1,2,4)]
  have bs: "distinct (map bID (tBackends t))" "tPrimaryBackend t \<in> set (map bID (tBackends t))" "tVersion t = 1"
    "list_all backend_valid (tBackends t)" "tRoutingMode t \<in> {''primary'', ''failover'', ''round_robin'', ''least_sessions''}"
    using valid by (simp_all only: topology_valid_def simp_thms)
  have "clean (tPrimaryBackend t)" using bs(2,4) clean_backendID backend_validD(1) by (auto simp: list_all_iff)
  then have p: "tPrimaryBackend t \<noteq> []" "trim_space (tPrimaryBackend t) = tPrimaryBackend t"
    by (simp_all add: clean_def trim_space_id)
  have "clean (tRoutingMode t)" using clean_routing_mode [OF bs(5)] .
  then have m: "tRoutingMode t \<noteq> []" "trim_space (tRoutingMode t) = tRoutingMode t"
    by (simp_all add: clean_def trim_space_id)
  have low: "to_lower ''edge'' = ''edge''" "to_lower ''primary_backend'' = ''primary_backend''" "to_lower ''routing_mode'' = ''routing_mode''"
    by code_simp+
  have fields: "tVersion ?t' = tVersion t" "tRoutingMode ?t' = tRoutingMode t" "tPrimaryBackend ?t' = tPrimaryBackend t"
    using edge p m bs(3) by (auto simp: unifiedTopology_def get_view low topologySchemaVersion_def)
  have g: "backend_valid (readBack doc b)" if "backend_valid b" for b
  proof -
    have "envNameFromReference (map_get (existingSecrets doc) (bID b)) = [] \<or>
        secretEnvPattern (envNameFromReference (map_get (existingSecrets doc) (bID b)))"
    proof (cases "map_of (existingSecrets doc) (bID b)")
      case None
      have "envNameFromReference [] = []" by code_simp
      with None show ?thesis by (simp add: map_get_def)
    next
      case (Some r)
      with assms(3) show ?thesis by (auto simp: references_ok_def map_get_def)
    qed
    with that show ?thesis unfolding readBack_def by (rule backend_valid_env [rotated])
  qed
  have "topology_valid ?t'"
    by (rule topology_valid_mset [OF valid ms]) (use g fields in \<open>simp_all add: readBack_def\<close>)
  then have "topologyFromUnified doc' = Inr ?t'" by (simp add: topologyFromUnified_def attempt_Inr validateTopology_Inr)
  moreover have "normalizedTopology ?t' = normalizedTopology t"
    using normalized_readBack [OF ms bs(1)] fields
    by (cases t, cases ?t') (simp add: normalizedTopology_def)
  ultimately show ?thesis by blast
qed

lemma topologyFromUnified_Inr: "topologyFromUnified doc = Inr t \<longleftrightarrow> topology_valid (unifiedTopology doc) \<and> t = unifiedTopology doc"
  by (auto simp: topologyFromUnified_def attempt_Inr validateTopology_Inr)

lemma references_of_valid:
  assumes "topologyFromUnified doc = Inr t" and "keys_distinct doc"
  shows "references_ok doc"
  unfolding references_ok_def
proof (intro allI impI)
  fix i r assume r: "map_of (existingSecrets doc) i = Some r"
  then obtain kvs where kvs: "map_of doc (''backend.'' @ i) = Some kvs" "r = map_get kvs ''companion_secret''"
    by (auto simp: map_of_existingSecrets)
  then have "''backend.'' @ i \<in> set (backendSections doc)"
    using backendSections_view(3) [OF assms(2)] has_prefix_append [of "''backend.''" i] by (simp add: ini_view_def)
  then have "backendOfSection doc (''backend.'' @ i) \<in> set (tBackends (unifiedTopology doc))"
    by (simp add: unifiedTopology_def Let_def)
  moreover have "list_all backend_valid (tBackends (unifiedTopology doc))"
    using assms(1) unfolding topologyFromUnified_Inr topology_valid_def by blast
  ultimately have "backend_valid (backendOfSection doc (''backend.'' @ i))" by (simp add: list_all_iff)
  moreover have "bCompanionSecretEnv (backendOfSection doc (''backend.'' @ i)) = envNameFromReference r"
    using kvs by (simp add: backendOfSection_def backendOfValues_def sectionValues_def envNameFromReference_def Let_def)
  ultimately show "envNameFromReference r = [] \<or> secretEnvPattern (envNameFromReference r)"
    unfolding backend_valid_def by metis
qed

end
