(* ===== verification/Prepare.thy ===== *)
theory Prepare
  imports Unified
begin

text \<open>
  What the unified configuration is turned into: \<^verbatim>\<open>prepareUnifiedConfig\<close> of \<^verbatim>\<open>dashboard/config.go\<close> with the
  files it writes for the gateway, the session core, the companions and the service environment.  A
  file that holds JSON is kept as its value.  The runtime directory is an absolute, clean path, so
  joining it with a name puts one slash between them.
\<close>

section \<open>The default configuration\<close>

definition defaultUnifiedConfig :: string where
  "defaultUnifiedConfig = concat (map (\<lambda>l. l @ [newline])
     [''# Ninj-OS Edge Fabric unified configuration'', ''#'',
      ''# Service secret values should normally reference environment variables:'',
      ''#   default_secret = env:COMPANION_SHARED_SECRET'',
      ''# Owner username and password are created in the browser setup wizard.'', ''#'',
      ''# A raw value also works, but environment references keep secrets out of'',
      ''# downloadable configuration and support bundles.'', [], ''[edge]'', ''config_version = 1'',
      ''instance_name = Ninj-OS Edge Fabric'', ''public_host = 185.83.152.144'',
      ''primary_allocation_port = 25566'', ''managed_public_udp_ports = 25566,25571,25572-25581'',
      ''primary_backend = kingdom'', ''routing_mode = primary'', [], ''[dashboard]'', ''port = 25571'',
      ''public_host = 185.83.152.144'', ''operator_token = env:DASHBOARD_OPERATOR_TOKEN'',
      ''viewer_token = env:DASHBOARD_READONLY_TOKEN'', ''metrics_token = env:METRICS_TOKEN'',
      ''totp_secret = env:DASHBOARD_TOTP_SECRET'', ''session_minutes = 480'', [], ''[session_core]'',
      ''enabled = true'', ''version = 1.26.30'', ''advertised_version = 1.26.33'',
      ''protocol_capture_enabled = true'', ''protocol_capture_mode = metadata'',
      ''protocol_observation_max_bytes = 10485760'', ''protocol_capture_packet_ids = 30,77'',
      ''protocol_capture_max_packet_bytes = 65536'', ''protocol_capture_decode_failures = true'',
      ''listen_host = 0.0.0.0'', ''internal_token = env:SESSION_CORE_TOKEN'', ''motd = Ninj-OS Proxie Network'',
      ''sub_motd = Protected Bedrock Network'', ''require_transfer_ticket = false'', ''command_prefix = /'',
      ''profiles_folder = runtime/session-core-profiles'', [], ''[companion]'',
      ''default_secret = env:COMPANION_SHARED_SECRET'', ''presence_ttl_seconds = 120'',
      ''capture_mode = metadata'', ''selected_packet_ids = 30,77'', ''payload_limit = 512'',
      ''redact_packet_ids = 1,3,4'', ''queue_capacity = 50000'', ''batch_size = 200'', ''flush_ms = 100'',
      ''movement_sample_rate = 20'', ''metrics_interval_ticks = 20'', ''reconnect_seconds = 3'',
      ''presence_enabled = true'', ''presence_include_address = false'', ''transfer_enabled = true'',
      ''drop_receive_ids ='', ''drop_send_ids ='', [], ''[transfer]'', ''enabled = true'',
      ''public_host = 185.83.152.144'', ''port_start = 25572'', ''port_end = 25581'', ''ticket_ttl_seconds = 20'',
      ''require_source_ip = true'', [], ''[firewall]'', ''enabled = true'', ''adaptive = true'',
      ''risk_decay_per_minute = 5'', ''risk_warning_threshold = 40'', ''risk_ban_threshold = 100'',
      ''progressive_ban_seconds = 30,300,3600,86400'', ''max_datagram_size = 2048'',
      ''max_packets_per_second_per_ip = 6000'', ''global_packets_per_second = 250000'',
      ''max_handshakes_per_minute = 30'', ''max_sessions = 512'', ''max_sessions_per_ip = 4'', [], ''[incident]'',
      ''enabled = true'', ''trigger_packets_per_second = 180000'', ''trigger_drop_ratio = 0.20'',
      ''minimum_packets_per_second = 5000'', ''recovery_seconds = 60'', ''rate_divisor = 3'',
      ''handshake_divisor = 3'', [], ''[health]'', ''enabled = true'', ''interval_seconds = 5'',
      ''timeout_ms = 1500'', ''failure_threshold = 3'', ''recovery_threshold = 2'', ''automatic_actions = true'',
      ''require_companion = false'', ''companion_stale_seconds = 45'', ''degraded_after_seconds = 30'',
      ''stable_recovery_seconds = 60'', ''minimum_tps = 12'', ''maximum_mspt = 80'', [], ''[logging]'',
      ''packet_capture = true'', ''capture_outgoing = true'', ''packet_hex_preview_bytes = 0'',
      ''packet_log_max_bytes = 52428800'', ''event_log_max_bytes = 10485760'', ''audit_log_max_bytes = 26214400'',
      ''metric_sample_seconds = 15'', ''metric_retention_days = 30'', [], ''[discord]'',
      ''webhook_url = env:DISCORD_WEBHOOK_URL'', ''bot_token = env:DISCORD_BOT_TOKEN'',
      ''channel_id = env:DISCORD_CHANNEL_ID'', ''summary_minutes = 15'', [], ''[backend.kingdom]'',
      ''display_name = The Kingdom'', ''host = 185.83.152.144'', ''backend_port = 25565'', ''public_port = 25566'',
      ''enabled = true'', ''fallback = false'', ''protection_profile = kingdom'',
      ''companion_secret = env:COMPANION_KINGDOM_SECRET'', ''connection_mode = transparent'',
      ''backend_adapter = endstone'', ''backend_online_mode = true'', ''require_proxy_identity = false'',
      ''capacity = 50'', ''fallback_backend ='', [], ''[backend.zoo]'', ''display_name = Zoo'',
      ''host = 185.83.152.144'', ''backend_port = 19431'', ''public_port = 25571'', ''enabled = true'',
      ''fallback = false'', ''protection_profile = zoo'', ''companion_secret = env:COMPANION_ZOO_SECRET'',
      ''connection_mode = transparent'', ''backend_adapter = proxy_only'', ''backend_online_mode = true'',
      ''require_proxy_identity = false'', ''capacity = 50'', ''fallback_backend ='', [], ''[profile.default]'',
      ''max_datagram_size = 2048'', ''max_packets_per_second_per_ip = 6000'', ''max_handshakes_per_minute = 30'',
      ''max_sessions_per_ip = 4'', ''allow_new_sessions_during_incident = false'', [], ''[profile.kingdom]'',
      ''max_packets_per_second_per_ip = 7000'', ''max_handshakes_per_minute = 35'', ''max_sessions_per_ip = 5'',
      [], ''[profile.zoo]'', ''max_packets_per_second_per_ip = 4000'', ''max_handshakes_per_minute = 20'',
      ''max_sessions_per_ip = 3''])"

definition pathJoin :: "string \<Rightarrow> string \<Rightarrow> string" where
  "pathJoin dir name = dir @ ''/'' @ name"

section \<open>Secrets of the companions\<close>

definition defaultSecret :: "host \<Rightarrow> ini \<Rightarrow> string" where
  "defaultSecret h doc = resolveConfigValue h (get doc ''companion'' ''default_secret'' ''env:COMPANION_SHARED_SECRET'')"

definition backendSecret :: "host \<Rightarrow> ini \<Rightarrow> backendDefinition \<Rightarrow> string" where
  "backendSecret h doc b =
     (let s = resolveConfigValue h (map_get (sectionValues doc (to_lower (trim_space (''backend.'' @ bID b)))) ''companion_secret'')
      in if s = [] then defaultSecret h doc else s)"

definition companionFile :: "host \<Rightarrow> ini \<Rightarrow> topologyConfig \<Rightarrow> string" where
  "companionFile h doc t =
     join [newline] ((''default='' @ defaultSecret h doc) # map (\<lambda>b. bID b @ ''='' @ backendSecret h doc b) (tBackends t)) @ [newline]"

section \<open>The gateway's configuration\<close>

definition transparent :: "topologyConfig \<Rightarrow> backendDefinition list" where
  "transparent t = filter (\<lambda>b. bConnectionMode b \<noteq> ''full_proxy'') (tBackends t)"

definition fullProxy :: "topologyConfig \<Rightarrow> backendDefinition list" where
  "fullProxy t = filter (\<lambda>b. bConnectionMode b = ''full_proxy'') (tBackends t)"

definition gatewayPrimary :: "topologyConfig \<Rightarrow> string" where
  "gatewayPrimary t =
     (if transparent t \<noteq> [] \<and> \<not> list_ex (\<lambda>b. bID b = tPrimaryBackend t) (transparent t)
      then bID (hd (transparent t)) else tPrimaryBackend t)"

definition gatewayTopology :: "topologyConfig \<Rightarrow> topologyConfig" where
  "gatewayTopology t =
     \<lparr>tVersion = topologySchemaVersion, tPrimaryBackend = gatewayPrimary t, tRoutingMode = tRoutingMode t,
      tBackends = transparent t\<rparr>"

definition gatewayEntry :: "backendDefinition \<Rightarrow> string" where
  "gatewayEntry b = join ''|'' [bID b, bHost b, itoa (bBackendPort b), format_bool (bFallback b), bProfile b, format_bool (bEnabled b)]"

definition fullProxyPublicPorts :: "topologyConfig \<Rightarrow> string list" where
  "fullProxyPublicPorts t = map (\<lambda>b. itoa (bPublicPort b)) (filter (\<lambda>b. bEnabled b \<and> bPublicPort b > 0) (fullProxy t))"

definition gatewayConf :: "string \<Rightarrow> ini \<Rightarrow> topologyConfig \<Rightarrow> string" where
  "gatewayConf dir doc t =
     (let i = (\<lambda>s k f lo hi. itoa (getInt doc s k f lo hi)); b = (\<lambda>s k f. format_bool (getBool doc s k f)) in
      concat (map (\<lambda>l. l @ [newline])
       [''listen_port='' @ i ''edge'' ''primary_allocation_port'' 25566 1 65535,
        ''runtime_dir='' @ dir,
        ''topology_file='' @ pathJoin dir ''gateway-topology.properties'',
        ''backends='' @ join '';'' (map gatewayEntry (transparent t)),
        ''static_routes='' @ join '';'' (map printRoute (filter (\<lambda>b. bPublicPort b > 0) (transparent t))),
        ''primary_backend='' @ gatewayPrimary t,
        ''routing_mode='' @ tRoutingMode t, [],
        ''transfer_enabled='' @ b ''transfer'' ''enabled'' True,
        ''transfer_port_start='' @ i ''transfer'' ''port_start'' 25572 1 65535,
        ''transfer_port_end='' @ i ''transfer'' ''port_end'' 25581 1 65535,
        ''transfer_reserved_ports='' @ join '','' (fullProxyPublicPorts t),
        ''transfer_ticket_file='' @ pathJoin dir ''transfer-tickets.tsv'',
        ''transfer_ticket_reload_ms=200'',
        ''transfer_require_source_ip='' @ b ''transfer'' ''require_source_ip'' True, [],
        ''idle_timeout_seconds=45'', ''handshake_timeout_seconds=12'', ''cleanup_interval_seconds=5'',
        ''max_sessions='' @ i ''firewall'' ''max_sessions'' 512 1 100000,
        ''max_sessions_per_ip='' @ i ''firewall'' ''max_sessions_per_ip'' 4 1 1000, [],
        ''firewall_enabled='' @ b ''firewall'' ''enabled'' True,
        ''adaptive_firewall_enabled='' @ b ''firewall'' ''adaptive'' True,
        ''risk_decay_per_minute='' @ i ''firewall'' ''risk_decay_per_minute'' 5 0 1000,
        ''risk_warning_threshold='' @ i ''firewall'' ''risk_warning_threshold'' 40 1 10000,
        ''risk_ban_threshold='' @ i ''firewall'' ''risk_ban_threshold'' 100 2 10000,
        ''progressive_ban_seconds='' @ get doc ''firewall'' ''progressive_ban_seconds'' ''30,300,3600,86400'',
        ''firewall_allowlist_file='' @ pathJoin dir ''firewall-allowlist.txt'',
        ''firewall_denylist_file='' @ pathJoin dir ''firewall-denylist.txt'',
        ''firewall_bans_file='' @ pathJoin dir ''firewall-bans.tsv'',
        ''protection_profiles_file='' @ pathJoin dir ''protection-profiles.properties'',
        ''max_datagram_size='' @ i ''firewall'' ''max_datagram_size'' 2048 512 65535,
        ''max_packets_per_second_per_ip='' @ i ''firewall'' ''max_packets_per_second_per_ip'' 6000 100 1000000,
        ''global_packets_per_second='' @ i ''firewall'' ''global_packets_per_second'' 250000 1000 10000000,
        ''max_handshakes_per_minute='' @ i ''firewall'' ''max_handshakes_per_minute'' 30 1 100000,
        ''strike_limit=10'', ''temp_ban_seconds=300'', [],
        ''ping_cache_enabled=true'', ''ping_cache_refresh_seconds=3'', ''ping_limit_per_second_per_ip=15'',
        ''maintenance_motd=The Kingdom | Maintenance'', ''drain_motd=The Kingdom | Restarting Soon'', [],
        ''health_enabled='' @ b ''health'' ''enabled'' True,
        ''health_interval_seconds='' @ i ''health'' ''interval_seconds'' 5 1 300,
        ''health_timeout_ms='' @ i ''health'' ''timeout_ms'' 1500 100 30000,
        ''health_failure_threshold='' @ i ''health'' ''failure_threshold'' 3 1 100,
        ''health_recovery_threshold='' @ i ''health'' ''recovery_threshold'' 2 1 100, [],
        ''incident_mode_enabled='' @ b ''incident'' ''enabled'' True,
        ''incident_trigger_packets_per_second='' @ i ''incident'' ''trigger_packets_per_second'' 180000 1000 10000000,
        ''incident_trigger_drop_ratio='' @ get doc ''incident'' ''trigger_drop_ratio'' ''0.20'',
        ''incident_min_packets_per_second='' @ i ''incident'' ''minimum_packets_per_second'' 5000 100 10000000,
        ''incident_recovery_seconds='' @ i ''incident'' ''recovery_seconds'' 60 5 3600,
        ''incident_rate_divisor='' @ i ''incident'' ''rate_divisor'' 3 1 100,
        ''incident_handshake_divisor='' @ i ''incident'' ''handshake_divisor'' 3 1 100, [],
        ''packet_capture_enabled='' @ b ''logging'' ''packet_capture'' True,
        ''capture_outgoing='' @ b ''logging'' ''capture_outgoing'' True,
        ''packet_hex_preview_bytes='' @ i ''logging'' ''packet_hex_preview_bytes'' 0 0 2048,
        ''packet_log_max_bytes='' @ i ''logging'' ''packet_log_max_bytes'' 52428800 1048576 1073741824,
        ''event_log_max_bytes='' @ i ''logging'' ''event_log_max_bytes'' 10485760 1048576 1073741824,
        ''socket_receive_buffer=8388608'', ''socket_send_buffer=8388608'', ''stats_interval_seconds=30'',
        ''state_interval_ms=1000'', ''command_poll_ms=250'',
        ''live_config_file='' @ pathJoin dir ''live-config.properties'',
        ''live_config_reload_ms=1000'']))"

section \<open>The session core's configuration\<close>

definition fullProxyEntry :: "host \<Rightarrow> ini \<Rightarrow> backendDefinition \<Rightarrow> json" where
  "fullProxyEntry h doc b =
     JObj [(''id'', JStr (bID b)), (''displayName'', JStr (bDisplayName b)), (''host'', JStr (bHost b)),
       (''backendPort'', jint (bBackendPort b)), (''publicPort'', jint (bPublicPort b)), (''enabled'', JBool (bEnabled b)),
       (''adapter'', JStr (bBackendAdapter b)), (''requireProxyIdentity'', JBool (bRequireProxyIdentity b)),
       (''capacity'', jint (bCapacity b)), (''fallbackBackend'', JStr (bFallbackBackend b)),
       (''companionSecret'', JStr (backendSecret h doc b))]"

definition dashboardPort :: "ini \<Rightarrow> int" where
  "dashboardPort doc = getInt doc ''dashboard'' ''port'' 25571 1 65535"

definition sessionCoreToken' :: "host \<Rightarrow> ini \<Rightarrow> string" where
  "sessionCoreToken' h doc = resolveConfigValue h (get doc ''session_core'' ''internal_token'' ''env:SESSION_CORE_TOKEN'')"

definition sessionCoreConfig :: "host \<Rightarrow> string \<Rightarrow> ini \<Rightarrow> topologyConfig \<Rightarrow> json" where
  "sessionCoreConfig h dir doc t =
     (let sc = ''session_core'' in
      JObj [(''schemaVersion'', jint 1), (''enabled'', JBool (getBool doc sc ''enabled'' True)),
       (''version'', JStr (get doc sc ''version'' ''1.26.30'')),
       (''advertisedVersion'', JStr (get doc sc ''advertised_version'' ''1.26.33'')),
       (''protocolPackDirectory'', JStr ''session-core/protocol-packs''),
       (''protocolObservationDirectory'', JStr (pathJoin dir ''protocol-observations'')),
       (''protocolCaptureEnabled'', JBool (getBool doc sc ''protocol_capture_enabled'' True)),
       (''protocolCaptureMode'', JStr (get doc sc ''protocol_capture_mode'' ''metadata'')),
       (''protocolObservationMaxBytes'', jint (getInt doc sc ''protocol_observation_max_bytes'' 10485760 65536 1073741824)),
       (''protocolCapturePacketIds'', JStr (get doc sc ''protocol_capture_packet_ids'' ''30,77'')),
       (''protocolCaptureMaxPacketBytes'', jint (getInt doc sc ''protocol_capture_max_packet_bytes'' 65536 64 1048576)),
       (''protocolCaptureDecodeFailures'', JBool (getBool doc sc ''protocol_capture_decode_failures'' True)),
       (''listenHost'', JStr (get doc sc ''listen_host'' ''0.0.0.0'')),
       (''publicHost'', JStr (get doc ''edge'' ''public_host'' ''127.0.0.1'')),
       (''dashboardUrl'', JStr (''http://127.0.0.1:'' @ itoa (dashboardPort doc))),
       (''internalToken'', JStr (sessionCoreToken' h doc)),
       (''motd'', JStr (get doc sc ''motd'' ''Ninj-OS Proxie Network'')),
       (''subMotd'', JStr (get doc sc ''sub_motd'' ''Protected Bedrock Network'')),
       (''requireTransferTicket'', JBool (getBool doc sc ''require_transfer_ticket'' False)),
       (''profilesFolder'', JStr (get doc sc ''profiles_folder'' (pathJoin dir ''session-core-profiles''))),
       (''stateFile'', JStr (pathJoin dir ''session-core-state.json'')),
       (''primaryBackend'', JStr (tPrimaryBackend t)),
       (''backends'', JArr (map (fullProxyEntry h doc) (fullProxy t)))])"

section \<open>Protection profiles and health actions\<close>

definition profilesFile :: "ini \<Rightarrow> string" where
  "profilesFile doc =
     ''# Generated from edge-fabric.ini. Edit the unified config or use the dashboard.'' @ [newline] @
     concat (map (\<lambda>s.
       let name = trim_prefix s ''profile.'' in
       concat (map (\<lambda>key.
         let value = trim_space (map_get (sectionValues doc s) key) in
         if value \<noteq> [] then name @ ''.'' @ key @ ''='' @ value @ [newline] else [])
         [''max_datagram_size'', ''max_packets_per_second_per_ip'', ''max_handshakes_per_minute'',
          ''max_sessions_per_ip'', ''allow_new_sessions_during_incident'']))
       (sort (filter (\<lambda>s. has_prefix s ''profile.'') (map fst doc))))"

definition healthActionsFile :: "ini \<Rightarrow> string" where
  "healthActionsFile doc =
     concat (map (\<lambda>l. l @ [newline])
       [''enabled='' @ format_bool (getBool doc ''health'' ''automatic_actions'' True),
        ''require_companion='' @ format_bool (getBool doc ''health'' ''require_companion'' False),
        ''companion_stale_seconds='' @ itoa (getInt doc ''health'' ''companion_stale_seconds'' 45 5 3600),
        ''degraded_after_seconds='' @ itoa (getInt doc ''health'' ''degraded_after_seconds'' 30 5 3600),
        ''recovery_seconds='' @ itoa (getInt doc ''health'' ''stable_recovery_seconds'' 60 5 3600),
        ''minimum_tps='' @ itoa (getInt doc ''health'' ''minimum_tps'' 12 1 20),
        ''maximum_mspt='' @ itoa (getInt doc ''health'' ''maximum_mspt'' 80 1 10000)])"

section \<open>The service environment\<close>

definition quote_char :: char where "quote_char = CHR 0x27"

definition backslash :: char where "backslash = CHR 0x5C"

definition shellQuote :: "string \<Rightarrow> string" where
  "shellQuote value =
     [quote_char] @ concat (map (\<lambda>c. if c = quote_char then [quote_char, backslash, quote_char, quote_char] else [c]) value) @
     [quote_char]"

definition dashboardEnv :: "host \<Rightarrow> string \<Rightarrow> string \<Rightarrow> ini \<Rightarrow> topologyConfig \<Rightarrow> (string \<times> string) list" where
  "dashboardEnv h path dir doc t =
     (let owner = resolveConfigValue h (get doc ''dashboard'' ''owner_token'' []);
          metrics = resolveConfigValue h (get doc ''dashboard'' ''metrics_token'' ''env:METRICS_TOKEN'');
          publicHost = get doc ''edge'' ''public_host'' ''127.0.0.1'';
          i = (\<lambda>s k f lo hi. itoa (getInt doc s k f lo hi)) in
      [(''EDGE_CONFIG_FILE'', path),
       (''TOPOLOGY_FILE'', pathJoin dir ''topology.properties''),
       (''RUNTIME_DIR'', dir),
       (''DASHBOARD_PORT'', itoa (dashboardPort doc)),
       (''DASHBOARD_TITLE'', get doc ''edge'' ''instance_name'' ''Ninj-OS Edge Fabric''),
       (''DASHBOARD_OWNER_USERNAME'', get doc ''dashboard'' ''owner_username'' ''owner''),
       (''DASHBOARD_TOKEN'', owner),
       (''DASHBOARD_OPERATOR_TOKEN'', resolveConfigValue h (get doc ''dashboard'' ''operator_token'' ''env:DASHBOARD_OPERATOR_TOKEN'')),
       (''DASHBOARD_READONLY_TOKEN'', resolveConfigValue h (get doc ''dashboard'' ''viewer_token'' ''env:DASHBOARD_READONLY_TOKEN'')),
       (''METRICS_TOKEN'', if metrics = [] then owner else metrics),
       (''DASHBOARD_TOTP_SECRET'', resolveConfigValue h (get doc ''dashboard'' ''totp_secret'' ''env:DASHBOARD_TOTP_SECRET'')),
       (''DASHBOARD_SESSION_MINUTES'', i ''dashboard'' ''session_minutes'' 480 15 10080),
       (''COMPANION_SHARED_SECRET'', defaultSecret h doc),
       (''PRESENCE_TTL_SECONDS'', i ''companion'' ''presence_ttl_seconds'' 120 30 3600),
       (''TRANSFER_PUBLIC_HOST'', get doc ''transfer'' ''public_host'' publicHost),
       (''TRANSFER_PORT_START'', i ''transfer'' ''port_start'' 25572 1 65535),
       (''TRANSFER_PORT_END'', i ''transfer'' ''port_end'' 25581 1 65535),
       (''TRANSFER_TICKET_TTL_SECONDS'', i ''transfer'' ''ticket_ttl_seconds'' 20 5 300),
       (''SESSION_CORE_TOKEN'', sessionCoreToken' h doc),
       (''SESSION_CORE_CONFIG'', pathJoin dir ''session-core.json''),
       (''TRANSPARENT_BACKEND_COUNT'', itoa (int (length (transparent t)))),
       (''FULL_PROXY_BACKEND_COUNT'', itoa (int (length (filter bEnabled (fullProxy t))))),
       (''TRANSFER_REQUIRE_SOURCE_IP'', format_bool (getBool doc ''transfer'' ''require_source_ip'' True)),
       (''MANAGED_PUBLIC_UDP_PORTS'', get doc ''edge'' ''managed_public_udp_ports'' []),
       (''DASHBOARD_PUBLIC_HOST'', get doc ''dashboard'' ''public_host'' publicHost),
       (''AUDIT_LOG_MAX_BYTES'', i ''logging'' ''audit_log_max_bytes'' 26214400 1048576 1073741824),
       (''METRIC_SAMPLE_SECONDS'', i ''logging'' ''metric_sample_seconds'' 15 1 3600),
       (''METRIC_RETENTION_DAYS'', i ''logging'' ''metric_retention_days'' 30 1 3650),
       (''DISCORD_WEBHOOK_URL'', resolveConfigValue h (get doc ''discord'' ''webhook_url'' ''env:DISCORD_WEBHOOK_URL'')),
       (''DISCORD_BOT_TOKEN'', resolveConfigValue h (get doc ''discord'' ''bot_token'' ''env:DISCORD_BOT_TOKEN'')),
       (''DISCORD_CHANNEL_ID'', resolveConfigValue h (get doc ''discord'' ''channel_id'' ''env:DISCORD_CHANNEL_ID'')),
       (''DISCORD_SUMMARY_MINUTES'', i ''discord'' ''summary_minutes'' 15 1 1440)])"

definition envFile :: "(string \<times> string) list \<Rightarrow> string" where
  "envFile vars = concat (map (\<lambda>(k, v). ''export '' @ k @ ''='' @ shellQuote v @ [newline]) (sort_key fst vars))"

section \<open>The summary\<close>

definition jbackend :: "backendDefinition \<Rightarrow> json" where
  "jbackend b =
     JObj [(''id'', JStr (bID b)), (''displayName'', JStr (bDisplayName b)), (''host'', JStr (bHost b)),
       (''backendPort'', jint (bBackendPort b)), (''publicPort'', jint (bPublicPort b)), (''fallback'', JBool (bFallback b)),
       (''fallbackBackend'', JStr (bFallbackBackend b)), (''profile'', JStr (bProfile b)), (''enabled'', JBool (bEnabled b)),
       (''connectionMode'', JStr (bConnectionMode b)), (''backendAdapter'', JStr (bBackendAdapter b)),
       (''backendOnlineMode'', JBool (bBackendOnlineMode b)), (''requireProxyIdentity'', JBool (bRequireProxyIdentity b)),
       (''capacity'', jint (bCapacity b)), (''companionSecretEnv'', JStr (bCompanionSecretEnv b))]"

definition jtopology :: "topologyConfig \<Rightarrow> json" where
  "jtopology t =
     JObj [(''version'', jint (tVersion t)), (''primaryBackend'', JStr (tPrimaryBackend t)),
       (''routingMode'', JStr (tRoutingMode t)), (''backends'', JArr (map jbackend (tBackends t)))]"

definition configSummary :: "string \<Rightarrow> ini \<Rightarrow> topologyConfig \<Rightarrow> json" where
  "configSummary path doc t =
     JObj [(''configVersion'', jint unifiedConfigVersion), (''configPath'', JStr path),
       (''instanceName'', JStr (get doc ''edge'' ''instance_name'' ''Ninj-OS Edge Fabric'')),
       (''publicHost'', JStr (get doc ''edge'' ''public_host'' [])), (''dashboardPort'', jint (dashboardPort doc)),
       (''backends'', JArr (map jbackend (tBackends t))),
       (''secretSources'', JObj
         [(''dashboardOperator'', JStr (secretSourceSummary (get doc ''dashboard'' ''operator_token'' []))),
          (''dashboardViewer'', JStr (secretSourceSummary (get doc ''dashboard'' ''viewer_token'' []))),
          (''dashboardTOTP'', JStr (secretSourceSummary (get doc ''dashboard'' ''totp_secret'' []))),
          (''companionDefault'', JStr (secretSourceSummary (get doc ''companion'' ''default_secret'' [])))])]"

section \<open>Writing the files\<close>

text \<open>Writes in order; the \<open>n\<close>-th may fail, and then the ones before it have happened.\<close>

fun writeAll :: "(nat \<Rightarrow> bool) \<Rightarrow> nat \<Rightarrow> (dashboard \<Rightarrow> dashboard) list \<Rightarrow> dashboard \<Rightarrow> unit result \<times> dashboard" where
  "writeAll ok n [] d = (Inr (), d)"
| "writeAll ok n (f # fs) d = (if ok n then writeAll ok (Suc n) fs (f d) else (Inl ''write error'', d))"

definition putText :: "string \<Rightarrow> string \<Rightarrow> dashboard \<Rightarrow> dashboard" where
  "putText name contents d = d\<lparr>runtimeFiles := (runtimeFiles d)(name := Some contents)\<rparr>"

definition putState :: "string \<Rightarrow> json \<Rightarrow> dashboard \<Rightarrow> dashboard" where
  "putState name value d = d\<lparr>stateFiles := (stateFiles d)(name := Decoded value)\<rparr>"

definition preparedFiles :: "host \<Rightarrow> ini \<Rightarrow> dashboard \<Rightarrow> (dashboard \<Rightarrow> dashboard) list" where
  "preparedFiles h doc d =
     (let t = unifiedTopology doc; dir = runtimeDir d; path = configPath d in
      [id,
       gatewayConfigFile_update (\<lambda>_. Some (gatewayConf dir doc t)),
       putState ''session-core.json'' (sessionCoreConfig h dir doc t),
       companionSecretsFile_update (\<lambda>_. Some (companionFile h doc t)),
       putText ''protection-profiles.properties'' (profilesFile doc),
       putText ''health-actions.properties'' (healthActionsFile doc),
       putText ''generated/dashboard.env'' (envFile (dashboardEnv h path dir doc t)),
       putText ''topology.properties'' (serializeTopology t),
       putText ''gateway-topology.properties'' (serializeTopology (gatewayTopology t)),
       putState ''config-summary.json'' (configSummary path doc t)])"

definition loadINI :: "dashboard \<Rightarrow> ini result" where
  "loadINI d = (case unifiedFile d of None \<Rightarrow> Inl ''no such file or directory'' | Some content \<Rightarrow> parseINI content)"

definition ensureUnifiedConfig :: "bool \<Rightarrow> dashboard \<Rightarrow> unit result \<times> dashboard" where
  "ensureUnifiedConfig ok d =
     (if unifiedFile d \<noteq> None \<and> unifiedFile d \<noteq> Some [] then (Inr (), d)
      else if ok then (Inr (), d\<lparr>unifiedFile := Some defaultUnifiedConfig\<rparr>)
      else (Inl ''write error'', d))"

text \<open>The first element of \<open>preparedFiles\<close> stands for \<^verbatim>\<open>os.MkdirAll\<close>.  The writes are numbered from \<open>n\<close>.\<close>

definition prepareUnifiedConfig :: "host \<Rightarrow> nat \<Rightarrow> dashboard \<Rightarrow> unit result \<times> dashboard" where
  "prepareUnifiedConfig h n d =
     (case ensureUnifiedConfig (diskOK h n) d of
        (Inl err, d1) \<Rightarrow> (Inl err, d1)
      | (Inr _, d1) \<Rightarrow>
          case loadINI d1 of
            Inl err \<Rightarrow> (Inl err, d1)
          | Inr doc \<Rightarrow>
              case validateUnifiedConfig h doc of
                Inl err \<Rightarrow> (Inl (''invalid unified configuration: '' @ err), d1)
              | Inr _ \<Rightarrow> writeAll (diskOK h) (Suc n) (preparedFiles h doc d1) d1)"

section \<open>The environment file in a shell\<close>

text \<open>How a POSIX shell reads a word of single quotes and backslashes: \<open>None\<close> when the text is not exactly
  one such word.\<close>

fun shell_word :: "bool \<Rightarrow> string \<Rightarrow> string option" where
  "shell_word False [] = Some []"
| "shell_word True [] = None"
| "shell_word True (c # cs) = (if c = quote_char then shell_word False cs else map_option ((#) c) (shell_word True cs))"
| "shell_word False [c] = (if c = quote_char then shell_word True [] else None)"
| "shell_word False (c # x # xs) =
     (if c = quote_char then shell_word True (x # xs)
      else if c = backslash then map_option ((#) x) (shell_word False xs) else None)"

lemma shell_word_quote: "shell_word False (quote_char # s) = shell_word True s"
  by (cases s) auto

lemma shell_word_escaped: "shell_word False (backslash # x # s) = map_option ((#) x) (shell_word False s)"
  by (simp add: quote_char_def backslash_def)

lemma shell_word_body:
  "shell_word True (concat (map (\<lambda>c. if c = quote_char then [quote_char, backslash, quote_char, quote_char] else [c]) v) @ [quote_char]) = Some v"
proof -
  have "backslash \<noteq> quote_char" by (simp add: backslash_def quote_char_def)
  then show ?thesis by (induction v) (auto simp: shell_word_quote shell_word_escaped)
qed

text \<open>A configuration value cannot escape its quotes in the generated environment file: for every value,
  a shell reads the quoted text as one word, and that word is the value.\<close>

theorem shell_quote_is_one_word: "shell_word False (shellQuote v) = Some v"
  by (simp add: shellQuote_def shell_word_quote shell_word_body)

section \<open>The gateway's topology\<close>

lemma gatewayTopology_valid:
  assumes "topology_valid t" and "transparent t \<noteq> []"
  shows "topology_valid (gatewayTopology t)"
proof -
  have v: "list_all backend_valid (tBackends t)" "distinct (map bID (tBackends t))" "distinct (assignedPorts t)"
    "tRoutingMode t \<in> {''primary'', ''failover'', ''round_robin'', ''least_sessions''}"
    using assms(1) by (simp_all only: topology_valid_def simp_thms)
  have "list_all backend_valid (transparent t)" using v(1) by (auto simp: transparent_def list_all_iff)
  moreover have "distinct (map bID (transparent t))" using v(2) by (simp add: transparent_def distinct_map_filter)
  moreover have "distinct (assignedPorts (gatewayTopology t))"
  proof -
    have ports: "assignedPorts x = map bPublicPort (filter (\<lambda>b. bPublicPort b > 0) (tBackends x))" for x
      by (simp add: assignedPorts_def filter_map comp_def)
    have "filter (\<lambda>b. bPublicPort b > 0) (transparent t) =
        filter (\<lambda>b. bConnectionMode b \<noteq> ''full_proxy'') (filter (\<lambda>b. bPublicPort b > 0) (tBackends t))"
      unfolding transparent_def by (simp only: filter_filter conj_commute)
    then show ?thesis
      using distinct_map_filter [OF v(3) [unfolded ports]] by (simp add: ports gatewayTopology_def del: filter_filter)
  qed
  moreover have "gatewayPrimary t \<in> set (map bID (transparent t))"
  proof (cases "list_ex (\<lambda>b. bID b = tPrimaryBackend t) (transparent t)")
    case True
    then obtain b where "b \<in> set (transparent t)" "bID b = tPrimaryBackend t" by (auto simp: list_ex_iff)
    then have "tPrimaryBackend t \<in> set (map bID (transparent t))" by force
    with True show ?thesis by (simp add: gatewayPrimary_def)
  next
    case False
    with assms(2) show ?thesis by (simp add: gatewayPrimary_def)
  qed
  ultimately show ?thesis
    unfolding topology_valid_def using v(4) by (simp add: gatewayTopology_def topologySchemaVersion_def)
qed

section \<open>Secrets that reach the signature check\<close>

lemma companionFile_lines:
  "companionFile h doc t = concat (map (\<lambda>l. l @ [newline])
     (map entryLine ((''default'', defaultSecret h doc) # map (\<lambda>b. (bID b, backendSecret h doc b)) (tBackends t))))"
proof -
  have "join [c] (x # xs) @ [c] = concat (map (\<lambda>l. l @ [c]) (x # xs))" for c x and xs :: "string list"
    by (induction xs arbitrary: x) simp_all
  from this [of newline] show ?thesis by (simp add: companionFile_def entryLine_def comp_def)
qed

lemma companionFile_read:
  assumes "topology_valid t" and "\<forall>b \<in> set (tBackends t). plainSecret (backendSecret h doc b)"
    and "plainSecret (defaultSecret h doc)" and "''default'' \<notin> set (map bID (tBackends t))"
  shows "map_of (foldl secretLine [] (split_on newline (companionFile h doc t))) k =
    map_of ((''default'', defaultSecret h doc) # map (\<lambda>b. (bID b, backendSecret h doc b)) (tBackends t)) k"
proof -
  let ?es = "(''default'', defaultSecret h doc) # map (\<lambda>b. (bID b, backendSecret h doc b)) (tBackends t)"
  have v: "list_all backend_valid (tBackends t)" "distinct (map bID (tBackends t))"
    using assms(1) by (simp_all only: topology_valid_def simp_thms)
  have id: "plainSecret i \<and> i \<noteq> [] \<and> CHR ''='' \<notin> set i" if "backendIDPattern i" for i
  proof -
    have "CHR ''='' \<notin> set i"
      using backendID_chars [OF that, of "CHR ''=''"] by (auto simp: is_lower_alpha_def is_digit_char_def byte_val_def)
    with clean_backendID [OF that] clean_plainSecret show ?thesis by (auto simp: clean_def)
  qed
  have dflt: "plainSecret ''default''" "CHR ''='' \<notin> set ''default''" by code_simp+
  have es: "list_all plainEntry ?es"
    using assms(2,3) v(1) id dflt by (auto simp: list_all_iff plainEntry_def dest: backend_validD(1))
  have "split_on newline (companionFile h doc t) = map entryLine ?es @ [[]]"
    unfolding companionFile_lines by (rule split_on_terminated) (rule entryLines_no_newline [OF es])
  then have "map_of (foldl secretLine [] (split_on newline (companionFile h doc t))) k = map_of (rev ?es) k"
    using foldl_secretLine [OF es, of "[]" k] by (simp only: foldl_append foldl_Cons foldl_Nil secretLine_skip) simp
  moreover have "distinct (map fst ?es)" using v(2) assms(4) by (simp add: comp_def)
  then have "map_of (rev ?es) = map_of ?es"
    by (subst map_of_inject_set) (simp_all only: rev_map [symmetric] distinct_rev set_rev)
  ultimately show ?thesis by simp
qed

lemma writeAll_Inr: "writeAll ok n fs d = (Inr u, d') \<Longrightarrow> d' = fold (\<lambda>f. f) fs d"
  by (induction ok n fs d rule: writeAll.induct) (auto split: if_splits)

lemma writeAll_keeps:
  assumes "\<forall>f \<in> set fs. \<forall>d. P (f d) = P d"
  shows "P (snd (writeAll ok n fs d)) = P d"
  using assms by (induction ok n fs d rule: writeAll.induct) auto

lemma ensure_present: "unifiedFile d = Some c \<Longrightarrow> c \<noteq> [] \<Longrightarrow> ensureUnifiedConfig ok d = (Inr (), d)"
  by (simp add: ensureUnifiedConfig_def)

lemma prepared_files_keep:
  "f \<in> set (preparedFiles h doc d) \<Longrightarrow> unifiedFile (f x) = unifiedFile x \<and> ticketsFile (f x) = ticketsFile x \<and>
     db (f x) = db x \<and> runtimeDir (f x) = runtimeDir x \<and> configPath (f x) = configPath x \<and> commandsLog (f x) = commandsLog x \<and>
     eventsFile (f x) = eventsFile x \<and> auditFile (f x) = auditFile x \<and> usersFile (f x) = usersFile x"
  by (auto simp: preparedFiles_def Let_def putText_def putState_def)

lemma prepare_success:
  assumes "prepareUnifiedConfig h n d = (Inr u, d')" and "unifiedFile d = Some c" and "c \<noteq> []"
  shows "\<exists>doc. parseINI c = Inr doc \<and> validateUnifiedConfig h doc = Inr () \<and> d' = fold (\<lambda>f. f) (preparedFiles h doc d) d"
  using assms(1) unfolding prepareUnifiedConfig_def ensure_present [OF assms(2,3)]
  by (auto simp: loadINI_def assms(2) split: sum.splits dest: writeAll_Inr)

lemma prepared_companion_file:
  assumes "prepareUnifiedConfig h n d = (Inr u, d')" and "unifiedFile d = Some c" and "c \<noteq> []" and "parseINI c = Inr doc"
  shows "companionSecretsFile d' = Some (companionFile h doc (unifiedTopology doc))" and "secret d' = secret d"
proof -
  have "d' = fold (\<lambda>f. f) (preparedFiles h doc d) d" using prepare_success [OF assms(1-3)] assms(4) by auto
  then show "companionSecretsFile d' = Some (companionFile h doc (unifiedTopology doc))" "secret d' = secret d"
    by (simp_all add: preparedFiles_def Let_def putText_def putState_def)
qed

end
