(* ===== verification/Config_Store.thy ===== *)
theory Config_Store
  imports Prepare
begin

text \<open>
  The unified configuration on disk: loading and saving the topology (\<^verbatim>\<open>loadTopology\<close>, \<^verbatim>\<open>saveTopology\<close> of
  \<^verbatim>\<open>dashboard/backends.go\<close>) and writing a whole document with its rollback (\<^verbatim>\<open>writeUnifiedConfig\<close>,
  \<^verbatim>\<open>writeAndVerifyUnifiedConfig\<close> of \<^verbatim>\<open>dashboard/config.go\<close>).  Reading an existing file succeeds; every
  write may fail.  The backup beside the configuration is written and never read, so only the failure
  of that write is modelled.
\<close>

section \<open>Loading\<close>

definition loadTopology :: "bool \<Rightarrow> dashboard \<Rightarrow> topologyConfig result \<times> dashboard" where
  "loadTopology ok d =
     (case unifiedFile d of
        Some content \<Rightarrow> (attempt (parseINI content) topologyFromUnified, d)
      | None \<Rightarrow>
          case ensureUnifiedConfig ok d of
            (Inl err, d1) \<Rightarrow> (Inl err, d1)
          | (Inr _, d1) \<Rightarrow> (attempt (loadINI d1) topologyFromUnified, d1))"

definition allowedPublicPorts :: "dashboard \<Rightarrow> int list" where
  "allowedPublicPorts d =
     (let ports = (case loadINI d of
            Inl _ \<Rightarrow> managedPublicPorts d
          | Inr doc \<Rightarrow>
              let configured = parsePortList (get doc ''edge'' ''managed_public_udp_ports'' []) in
              if configured \<noteq> [] then configured else managedPublicPorts d)
      in sort ports)"

definition transferPoolRange :: "dashboard \<Rightarrow> int \<times> int" where
  "transferPoolRange d =
     (case loadINI d of
        Inl _ \<Rightarrow> (transferPortStart d, transferPortEnd d)
      | Inr doc \<Rightarrow>
          let start = getInt doc ''transfer'' ''port_start'' (transferPortStart d) 1 65535;
              stop = getInt doc ''transfer'' ''port_end'' (transferPortEnd d) 1 65535
          in if start > stop then (stop, start) else (start, stop))"

definition assignedStatic :: "bool \<Rightarrow> dashboard \<Rightarrow> (int \<times> string) list" where
  "assignedStatic ok d = (case fst (loadTopology ok d) of Inl _ \<Rightarrow> [] | Inr t \<Rightarrow> staticPublicPorts t)"

definition availableTransferPorts :: "bool \<Rightarrow> dashboard \<Rightarrow> int list" where
  "availableTransferPorts ok d =
     (let (start, stop) = transferPoolRange d; assigned = assignedStatic ok d
      in filter (\<lambda>p. p \<notin> fst ` set assigned) [start..stop])"

definition validateManagedPort :: "dashboard \<Rightarrow> int \<Rightarrow> unit result" where
  "validateManagedPort d p =
     (if p = 0 then Inr ()
      else if allowedPublicPorts d = [] then Inr ()
      else if p \<in> set (allowedPublicPorts d) then Inr ()
      else Inl (''public port '' @ itoa p @
        '' is not listed in edge.managed_public_udp_ports; add the Pterodactyl UDP allocation first''))"

section \<open>Saving\<close>

definition serializeUnifiedConfig :: "host \<Rightarrow> ini \<Rightarrow> string result" where
  "serializeUnifiedConfig h doc = attempt (validateUnifiedConfig h doc) (\<lambda>_. Inr (renderUnifiedConfig doc))"

definition configRevision :: "golib \<Rightarrow> host \<Rightarrow> ini \<Rightarrow> string" where
  "configRevision G h doc =
     (case serializeUnifiedConfig h doc of Inl _ \<Rightarrow> [] | Inr content \<Rightarrow> hex_encode (sha256 G content))"

definition writeUnifiedConfig :: "host \<Rightarrow> nat \<Rightarrow> ini \<Rightarrow> dashboard \<Rightarrow> unit result \<times> dashboard" where
  "writeUnifiedConfig h n doc d =
     (case serializeUnifiedConfig h doc of
        Inl err \<Rightarrow> (Inl err, d)
      | Inr content \<Rightarrow>
          if unifiedFile d \<noteq> None \<and> unifiedFile d \<noteq> Some [] \<and> \<not> diskOK h n then (Inl ''write error'', d)
          else if \<not> diskOK h (Suc n) then (Inl ''write error'', d)
          else (Inr (), d\<lparr>unifiedFile := Some content\<rparr>))"

text \<open>\<^verbatim>\<open>restore\<close>: the original text is written back and the derived files are generated again.\<close>

definition restoreConfig :: "host \<Rightarrow> nat \<Rightarrow> string \<Rightarrow> string \<Rightarrow> dashboard \<Rightarrow> unit result \<times> dashboard" where
  "restoreConfig h n original cause d =
     (if diskOK h n
      then (Inl cause, snd (prepareUnifiedConfig h (Suc n) (d\<lparr>unifiedFile := Some original\<rparr>)))
      else (Inl (cause @ ''; rollback also failed: write error''), d))"

text \<open>The last part of saving, once the new text is on disk: the derived files are generated and the topology
  is read back and compared.\<close>

definition saveWritten :: "host \<Rightarrow> nat \<Rightarrow> topologyConfig \<Rightarrow> string \<Rightarrow> dashboard \<Rightarrow> unit result \<times> dashboard" where
  "saveWritten h n t original d1 =
     (case prepareUnifiedConfig h (n + 2) d1 of
        (Inl err, d2) \<Rightarrow> restoreConfig h (n + 20) original (''configuration was not applied: '' @ err) d2
      | (Inr _, d2) \<Rightarrow>
          case loadTopology (diskOK h (n + 19)) d2 of
            (Inl err, d3) \<Rightarrow>
              restoreConfig h (n + 20) original (''configuration was written but could not be read back: '' @ err) d3
          | (Inr persisted, d3) \<Rightarrow>
              if normalizedTopology persisted \<noteq> normalizedTopology t
              then restoreConfig h (n + 20) original
                ''configuration verification failed; the previous backend registry was restored'' d3
              else (Inr (), d3))"

definition renamedSecret :: "(string \<times> string) option \<Rightarrow> ini \<Rightarrow> ini \<Rightarrow> ini" where
  "renamedSecret secretRename doc doc1 =
     (case secretRename of
        None \<Rightarrow> doc1
      | Some (a, b) \<Rightarrow>
          let value = (if a \<noteq> b then get doc (''backend.'' @ a) ''companion_secret'' [] else [])
          in if value \<noteq> [] then setKey doc1 (''backend.'' @ b) ''companion_secret'' value else doc1)"

definition saveTopology :: "host \<Rightarrow> nat \<Rightarrow> topologyConfig \<Rightarrow> (string \<times> string) option \<Rightarrow> dashboard \<Rightarrow> unit result \<times> dashboard" where
  "saveTopology h n t secretRename d =
     (case attempt (validateTopology t) (\<lambda>_.
             attempt (some_or ''no such file or directory'' (unifiedFile d)) (\<lambda>original.
             attempt (parseINI original) (\<lambda>doc.
             attempt (applyTopologyToUnified doc t) (\<lambda>doc1. Inr (original, renamedSecret secretRename doc doc1))))) of
        Inl err \<Rightarrow> (Inl err, d)
      | Inr (original, doc2) \<Rightarrow>
          case writeUnifiedConfig h n doc2 d of
            (Inl err, d1) \<Rightarrow> (Inl err, d1)
          | (Inr _, d1) \<Rightarrow> saveWritten h n t original d1)"

section \<open>Lemmas\<close>

lemma prepare_keeps:
  assumes "unifiedFile d = Some c" and "c \<noteq> []"
  shows "unifiedFile (snd (prepareUnifiedConfig h n d)) = Some c"
    and "ticketsFile (snd (prepareUnifiedConfig h n d)) = ticketsFile d"
    and "db (snd (prepareUnifiedConfig h n d)) = db d"
    and "commandsLog (snd (prepareUnifiedConfig h n d)) = commandsLog d"
    and "auditFile (snd (prepareUnifiedConfig h n d)) = auditFile d"
    and "usersFile (snd (prepareUnifiedConfig h n d)) = usersFile d"
proof -
  have keeps: "P (snd (prepareUnifiedConfig h n d)) = P d"
    if "\<And>doc f x. f \<in> set (preparedFiles h doc d) \<Longrightarrow> P (f x) = P x" for P :: "dashboard \<Rightarrow> 'x"
    using that writeAll_keeps [of _ P] unfolding prepareUnifiedConfig_def ensure_present [OF assms]
    by (auto split: sum.splits)
  show "unifiedFile (snd (prepareUnifiedConfig h n d)) = Some c"
    "ticketsFile (snd (prepareUnifiedConfig h n d)) = ticketsFile d" "db (snd (prepareUnifiedConfig h n d)) = db d"
    "commandsLog (snd (prepareUnifiedConfig h n d)) = commandsLog d" "auditFile (snd (prepareUnifiedConfig h n d)) = auditFile d"
    "usersFile (snd (prepareUnifiedConfig h n d)) = usersFile d"
    using assms(1) by (simp_all add: keeps prepared_files_keep)
qed

lemma loadTopology_present:
  "unifiedFile d = Some c \<Longrightarrow> loadTopology ok d = (attempt (parseINI c) topologyFromUnified, d)"
  by (simp add: loadTopology_def)

lemma render_nonempty: "renderUnifiedConfig doc \<noteq> []"
  by (simp add: renderUnifiedConfig_def)

lemma parse_empty: "parseINI [] = Inr [(''edge'', [])]"
  by (simp add: parseINI_def scan_lines_def raw_lines_def)

section \<open>A written topology as text\<close>

definition key_ok :: "string \<Rightarrow> bool" where
  "key_ok k \<longleftrightarrow> name_text k \<and> CHR ''='' \<notin> set k \<and> hd k \<notin> {CHR ''#'', CHR '';'', CHR ''[''}"

lemma entry_text_key: "key_ok k \<Longrightarrow> trimmed v \<Longrightarrow> newline \<notin> set v \<Longrightarrow> entry_text (k, v)"
  by (auto simp: key_ok_def entry_text_def)

definition printable :: "backendDefinition \<Rightarrow> bool" where
  "printable b \<longleftrightarrow> storable b \<and> newline \<notin> set (bFallbackBackend b)"

lemma backendKeys_text:
  assumes "backend_valid b" and "printable b" and "trimmed r" and "newline \<notin> set r"
  shows "list_all entry_text (backendKeys b r)"
proof -
  have keys: "list_all key_ok (map fst (backendKeys b r))"
    unfolding backendKeys_def list.map fst_conv by code_simp
  note v = backend_validD [OF assms(1)]
  have modes: "trimmed (bConnectionMode b)" "trimmed (bBackendAdapter b)" using valid_mode_trimmed [OF assms(1)] .
  have sep: "newline \<in> set separators" by (simp add: separators_set)
  have plain: "newline \<notin> set (bDisplayName b)" "newline \<notin> set (bHost b)" "newline \<notin> set (bProfile b)"
    using v(3,5,7) sep by (auto simp: plain_def)
  have mode_set: "newline \<notin> set (bConnectionMode b)" "newline \<notin> set (bBackendAdapter b)"
  proof -
    have "connectionMode b \<in> {''transparent'', ''full_proxy''}"
      "backendAdapter b \<in> {''endstone'', ''vanilla_bridge'', ''vanilla_agent'', ''proxy_only''}"
      using assms(1) by (simp_all only: backend_valid_def simp_thms)
    then have "newline \<notin> set (connectionMode b)" "newline \<notin> set (backendAdapter b)"
      by (elim insertE emptyE; simp only:; simp add: newline_def)+
    then show "newline \<notin> set (bConnectionMode b)" "newline \<notin> set (bBackendAdapter b)"
      by (auto simp: connectionMode_def backendAdapter_def split: if_splits)
  qed
  have num: "trimmed (itoa i) \<and> newline \<notin> set (itoa i)" for i using clean_itoa clean_excludes by auto
  have bool: "trimmed (format_bool x) \<and> newline \<notin> set (format_bool x)" for x
    using clean_format_bool clean_excludes by (auto simp: clean_def)
  have "list_all (\<lambda>v. trimmed v \<and> newline \<notin> set v) (map snd (backendKeys b r))"
    using assms(2-4) modes plain mode_set num bool
    by (simp add: backendKeys_def printable_def storable_def)
  with keys show ?thesis by (auto simp: list_all_iff intro!: entry_text_key)
qed

lemma ini_text_put_all:
  "ini_text doc \<Longrightarrow> name_text s \<Longrightarrow> list_all entry_text kvs \<Longrightarrow> ini_text (put_all doc s kvs)"
  unfolding put_all_def
proof (induction kvs arbitrary: doc)
  case (Cons e kvs)
  then show ?case using ini_text_putKey [of doc s "fst e" "snd e"] by simp
qed simp

lemma ini_text_secret:
  assumes "ini_text doc"
  shows "trimmed (map_get (existingSecrets doc) i) \<and> newline \<notin> set (map_get (existingSecrets doc) i)"
proof (cases "map_of doc (''backend.'' @ i)")
  case (Some kvs)
  then have "list_all entry_text kvs" using assms by (auto simp: ini_text_def dest: map_of_SomeD)
  then have "trimmed (map_get kvs ''companion_secret'') \<and> newline \<notin> set (map_get kvs ''companion_secret'')"
  proof (cases "map_of kvs ''companion_secret''")
    case entry: (Some r)
    then have "entry_text (''companion_secret'', r)"
      using \<open>list_all entry_text kvs\<close> by (auto simp: list_all_iff dest: map_of_SomeD)
    with entry show ?thesis by (simp add: map_get_def entry_text_def)
  qed (simp add: map_get_def)
  then show ?thesis unfolding map_get_def [of "existingSecrets doc"] map_of_existingSecrets Some by simp
qed (simp add: map_get_def map_of_existingSecrets)

lemma ini_text_writeBackends:
  assumes "ini_text doc" and "list_all backend_valid bs" and "list_all printable bs"
    and "\<And>i. trimmed (map_get secrets i) \<and> newline \<notin> set (map_get secrets i)"
  shows "ini_text (foldl (writeBackend secrets) doc bs)"
  using assms(1-3)
proof (induction bs arbitrary: doc)
  case (Cons b bs)
  have v: "backend_valid b" "printable b" using Cons.prems by simp_all
  have n: "to_lower (trim_space (''backend.'' @ bID b)) = ''backend.'' @ bID b"
    using backend_section_name [OF backend_validD(1) [OF v(1)]] .
  have "newline \<notin> set (''backend.'' @ bID b)"
    using clean_excludes [OF clean_backendID [OF backend_validD(1) [OF v(1)]]] by (auto simp: newline_def)
  from name_text_read [OF this] have name: "name_text (''backend.'' @ bID b)" unfolding n by simp
  have "ini_text (writeBackend secrets doc b)"
    unfolding writeBackend_def Let_def n using name Cons.prems(1) v assms(4)
    by (intro ini_text_put_all ini_text_addSection backendKeys_text) auto
  then show ?case using Cons by simp
qed simp

lemma applied_text:
  assumes "applyTopologyToUnified doc t = Inr doc'" and "ini_text doc" and "list_all printable (tBackends t)"
  shows "ini_text doc'"
proof -
  let ?sec = "existingSecrets doc"
  let ?doc1 = "filter (\<lambda>(s, kvs). \<not> has_prefix s ''backend.'') doc"
  let ?doc2 = "setKey (setKey ?doc1 ''edge'' ''primary_backend'' (tPrimaryBackend t)) ''edge'' ''routing_mode'' (tRoutingMode t)"
  have valid: "topology_valid t" and doc': "doc' = foldl (writeBackend ?sec) ?doc2 (tBackends t)"
    using assms(1) by (auto simp: applyTopologyToUnified_def attempt_Inr validateTopology_Inr Let_def)
  have bs: "list_all backend_valid (tBackends t)" "tPrimaryBackend t \<in> set (map bID (tBackends t))"
    "tRoutingMode t \<in> {''primary'', ''failover'', ''round_robin'', ''least_sessions''}"
    using valid by (simp_all only: topology_valid_def simp_thms)
  have "clean (tPrimaryBackend t)" "clean (tRoutingMode t)"
    using bs clean_backendID backend_validD(1) clean_routing_mode by (auto simp: list_all_iff)
  then have vals: "trimmed (tPrimaryBackend t)" "newline \<notin> set (tPrimaryBackend t)" "trimmed (tRoutingMode t)" "newline \<notin> set (tRoutingMode t)"
    using clean_excludes by (auto simp: clean_def)
  have edge: "to_lower (trim_space ''edge'') = ''edge''" "\<not> has_prefix ''edge'' ''backend.''" "name_text ''edge''"
    "key_ok ''primary_backend''" "key_ok ''routing_mode''" by code_simp+
  have "hasSection ?doc1 ''edge''"
  proof -
    have "map_of ?doc1 ''edge'' = map_of doc ''edge''" using edge(2) by (induction doc) auto
    then show ?thesis using assms(2) by (simp add: hasSection_def ini_text_def)
  qed
  then have "ini_text ?doc1" using assms(2) keys_distinct_filter by (auto simp: ini_text_def)
  then have "ini_text ?doc2"
    unfolding setKey_def edge(1) using edge vals by (intro ini_text_putKey entry_text_key) auto
  then show ?thesis
    unfolding doc' using bs(1) assms(3) ini_text_secret [OF assms(2)] by (intro ini_text_writeBackends) auto
qed

lemma snd_of: "x = (a, b) \<Longrightarrow> b = snd x"
  by simp

lemma saveWritten_failed:
  assumes "saveWritten h n t original d1 = (Inl err, d')"
  obtains cause x where "d' = snd (restoreConfig h (n + 20) original cause x)"
proof -
  obtain r d2 where p: "prepareUnifiedConfig h (n + 2) d1 = (r, d2)" by force
  show thesis
  proof (cases r)
    case (Inl e)
    note steps = assms [unfolded saveWritten_def p Inl case_prod_conv sum.case]
    show thesis using that [OF snd_of [OF steps]] .
  next
    case (Inr u)
    obtain r2 d3 where q: "loadTopology (diskOK h (n + 19)) d2 = (r2, d3)" by force
    note steps = assms [unfolded saveWritten_def p Inr case_prod_conv sum.case q]
    show thesis
    proof (cases r2)
      case err: (Inl e)
      note steps2 = steps [unfolded err sum.case]
      show thesis using that [OF snd_of [OF steps2]] .
    next
      case ok: (Inr persisted)
      show thesis
      proof (cases "normalizedTopology persisted = normalizedTopology t")
        case True
        then show thesis using steps ok by simp
      next
        case False
        note steps2 = steps [unfolded ok sum.case if_P [OF False]]
        show thesis using that [OF snd_of [OF steps2]] .
      qed
    qed
  qed
qed

lemma saveTopology_cases:
  "(\<exists>e. saveTopology h n t rename d = (Inl e, d)) \<or>
   (\<exists>original doc2 d1. unifiedFile d = Some original \<and> writeUnifiedConfig h n doc2 d = (Inr (), d1) \<and>
      saveTopology h n t rename d = saveWritten h n t original d1)"
proof -
  let ?m = "attempt (validateTopology t) (\<lambda>_.
             attempt (some_or ''no such file or directory'' (unifiedFile d)) (\<lambda>original.
             attempt (parseINI original) (\<lambda>doc.
             attempt (applyTopologyToUnified doc t) (\<lambda>doc1. Inr (original, renamedSecret rename doc doc1)))))"
  show ?thesis
  proof (cases ?m)
    case (Inl e)
    then show ?thesis by (simp add: saveTopology_def)
  next
    case (Inr od)
    obtain original doc2 where od: "od = (original, doc2)" by force
    have stored: "unifiedFile d = Some original" using Inr od by (auto simp: early_return)
    obtain r d1 where w: "writeUnifiedConfig h n doc2 d = (r, d1)" by force
    have "saveTopology h n t rename d = (case r of Inl err \<Rightarrow> (Inl err, d1) | Inr _ \<Rightarrow> saveWritten h n t original d1)"
      unfolding saveTopology_def Inr od by (simp add: w)
    moreover have "d1 = d" if "r = Inl e" for e
      using w that by (auto simp: writeUnifiedConfig_def split: sum.splits if_splits)
    ultimately show ?thesis using stored w by (cases r) auto
  qed
qed

section \<open>Validation depends on the map only\<close>

lemma iterate_unit: "iterate f () xs = Inr () \<longleftrightarrow> (\<forall>x \<in> set xs. f () x = Inr ())"
  by (induction xs) (auto simp: attempt_Inr)

lemma get_same: "ini_view d = ini_view d' \<Longrightarrow> get d = get d'"
  by (intro ext) (simp add: get_view)

lemma secretLocation_same:
  assumes "ini_view d = ini_view d'"
  shows "secretLocationForID d = secretLocationForID d'"
proof -
  have "hasSection d = hasSection d'" by (intro ext) (simp add: hasSection_view assms)
  then show ?thesis unfolding secretLocationForID_def by (simp only:)
qed

lemma validate_same:
  assumes "keys_distinct d" and "keys_distinct d'" and "ini_view d = ini_view d'"
  shows "validateUnifiedConfig h d = Inr () \<longleftrightarrow> validateUnifiedConfig h d' = Inr ()"
proof -
  have g: "get d = get d'" using get_same [OF assms(3)] .
  have gi: "getInt d = getInt d'" by (intro ext) (simp add: getInt_def g)
  have t: "topologyFromUnified d = topologyFromUnified d'"
    using topology_view [OF assms] by (simp add: topologyFromUnified_def)
  have b: "boundedKey d = boundedKey d'" by (intro ext) (simp add: boundedKey_def g)
  have c: "checkSecret h d = checkSecret h d'"
    by (intro ext) (simp add: checkSecret_def secretLocation_same [OF assms(3)] g)
  have "set (filter (\<lambda>s. has_prefix s ''backend.'') (map fst d)) = set (filter (\<lambda>s. has_prefix s ''backend.'') (map fst d'))"
    using backendSections_view(3) [OF assms(1)] backendSections_view(3) [OF assms(2)] assms(3)
    by (simp add: backendSections_def)
  then have s: "validateUnifiedSecrets h d = Inr () \<longleftrightarrow> validateUnifiedSecrets h d' = Inr ()"
    unfolding validateUnifiedSecrets_def iterate_unit c by (simp only: set_append set_map ball_Un image_image bex_simps ball_simps)
  show ?thesis
    unfolding validateUnifiedConfig_def g gi t b
    by (simp add: attempt_Inr Let_def s split: if_splits)
qed

lemma validate_topology: "validateUnifiedConfig h doc = Inr u \<Longrightarrow> topologyFromUnified doc = Inr (unifiedTopology doc)"
  by (auto simp: validateUnifiedConfig_def attempt_Inr Let_def topologyFromUnified_Inr split: if_splits)

lemma writeAll_ok: "(\<And>k. n \<le> k \<Longrightarrow> ok k) \<Longrightarrow> writeAll ok n fs d = (Inr (), fold (\<lambda>f. f) fs d)"
  by (induction fs arbitrary: n d) simp_all

text \<open>What was printed is read back as a document that is as valid as the one printed.\<close>

lemma printed_document:
  assumes "ini_text doc" and "lines_fit doc" and "validateUnifiedConfig h doc = Inr ()"
  obtains doc' where "parseINI (renderUnifiedConfig doc) = Inr doc'" and "ini_view doc' = ini_view doc"
    and "keys_distinct doc'" and "validateUnifiedConfig h doc' = Inr ()"
proof -
  obtain doc' where d: "parseINI (renderUnifiedConfig doc) = Inr doc'" "ini_view doc' = ini_view doc"
    using parse_rendered [OF assms(1,2)] by blast
  have k: "keys_distinct doc'" "keys_distinct doc" using parseINI_text [OF d(1)] assms(1) by (simp_all add: ini_text_def)
  with that [OF d k(1)] validate_same [OF k d(2)] assms(3) show thesis by simp
qed

section \<open>A sample configuration\<close>

lemma getInt_absent: "(\<And>x. get doc s k x = x) \<Longrightarrow> in_int64 f \<Longrightarrow> getInt doc s k f lo hi = f"
  by (simp add: getInt_def)
lemma boundedKey_absent: "(\<And>x. get doc ''session_core'' k x = x) \<Longrightarrow> boundedKey doc u (k, lo, hi) = Inr ()"
  unfolding boundedKey_def Let_def case_prod_conv by (simp only: trim_space_Nil if_True refl)

text \<open>A document that sets neither versions, ports nor capture limits is valid when its topology and its secrets are.\<close>

lemma validate_short:
  assumes "\<And>x. get doc ''edge'' ''config_version'' x = x" and "\<And>k x. get doc ''transfer'' k x = x"
    and "\<And>k x. get doc ''session_core'' k x = x"
    and "topology_valid (unifiedTopology doc)" and "validateUnifiedSecrets h doc = Inr ()"
  shows "validateUnifiedConfig h doc = Inr ()"
proof -
  have packets: "capturePacketIDs key () ''30'' = Inr ()" "capturePacketIDs key () ''77'' = Inr ()"
    "split_on (CHR '','') ''30,77'' = [''30'', ''77'']" for key
  proof -
    have "split_on (CHR '','') ''30,77'' = [''30'', ''77'']" "trim_space ''30'' = ''30''" "trim_space ''77'' = ''77''"
      "atoi ''30'' = Some 30" "atoi ''77'' = Some 77" by code_simp+
    then show "capturePacketIDs key () ''30'' = Inr ()" "capturePacketIDs key () ''77'' = Inr ()"
      "split_on (CHR '','') ''30,77'' = [''30'', ''77'']" by (simp_all add: capturePacketIDs_def)
  qed
  have n: "in_int64 25572" "in_int64 25581" "in_int64 1" by (simp_all add: in_int64_def min_int64_def max_int64_def)
  have v: "topologyFromUnified doc = Inr (unifiedTopology doc)" "validateTopology (unifiedTopology doc) = Inr ()"
    using assms(4) by (simp_all add: topologyFromUnified_Inr validateTopology_Inr)
  show ?thesis
    unfolding validateUnifiedConfig_def
    by (simp add: assms(1-3,5) v getInt_absent boundedKey_absent packets n unifiedConfigVersion_def refuse_def)
qed

lemma secrets_unset:
  assumes "list_all (\<lambda>i. case secretLocationForID doc i of Inl _ \<Rightarrow> False | Inr l \<Rightarrow> get doc (slSection l) (slKey l) [] = [])
    (staticSecretIDs @ map (\<lambda>s. s @ ''.companion_secret'') (filter (\<lambda>s. has_prefix s ''backend.'') (map fst doc)))"
  shows "validateUnifiedSecrets h doc = Inr ()"
proof -
  have "checkSecret h doc () i = Inr ()"
    if "case secretLocationForID doc i of Inl _ \<Rightarrow> False | Inr l \<Rightarrow> get doc (slSection l) (slKey l) [] = []" for i
    using that by (cases "secretLocationForID doc i") (simp_all add: checkSecret_def)
  then show ?thesis using assms unfolding validateUnifiedSecrets_def iterate_unit list_all_iff by blast
qed

definition smallTopology :: "string \<Rightarrow> int \<Rightarrow> int \<Rightarrow> int \<Rightarrow> topologyConfig" where
  "smallTopology mode p q c = \<lparr>tVersion = 1, tPrimaryBackend = ''zoo'', tRoutingMode = mode,
     tBackends = [\<lparr>bID = ''zoo'', bDisplayName = ''Zoo'', bHost = ''h'', bBackendPort = p, bPublicPort = q,
          bFallback = False, bFallbackBackend = [], bProfile = ''zoo'', bEnabled = True,
          bConnectionMode = ''transparent'', bBackendAdapter = ''proxy_only'', bBackendOnlineMode = True,
          bRequireProxyIdentity = False, bCapacity = c, bCompanionSecretEnv = []\<rparr>]\<rparr>"

lemma smallTopology_valid:
  "mode \<in> {''primary'', ''failover''} \<Longrightarrow> p \<in> {1..65535} \<Longrightarrow> q \<in> {0..65535} \<Longrightarrow> c \<in> {1..100000} \<Longrightarrow>
   topology_valid (smallTopology mode p q c)"
proof -
  have p: "backendIDPattern ''zoo''" "trim_space ''Zoo'' \<noteq> []" "trim_space ''h'' \<noteq> []" "plain ''Zoo''" "plain ''h''" "plain ''zoo''" by code_simp+
  show "mode \<in> {''primary'', ''failover''} \<Longrightarrow> p \<in> {1..65535} \<Longrightarrow> q \<in> {0..65535} \<Longrightarrow> c \<in> {1..100000} \<Longrightarrow> ?thesis"
    using p by (auto simp: topology_valid_def smallTopology_def topologySchemaVersion_def backend_valid_def
        connectionMode_def backendAdapter_def assignedPorts_def)
qed

definition sampleDocument :: ini where
  "sampleDocument = [(''edge'', [(''primary_backend'', ''zoo'')]), (''backend.zoo'', [(''host'', ''h''), (''fallback'', [])])]"

definition savedDocument :: ini where
  "savedDocument = [(''edge'', [(''primary_backend'', ''zoo''), (''routing_mode'', ''primary'')]),
     (''backend.zoo'', backendKeys (hd (tBackends (smallTopology ''primary'' 9 8 5))) [])]"

lemma sample_topologies:
  "unifiedTopology sampleDocument = smallTopology ''primary'' 19132 0 50"
  "unifiedTopology savedDocument = smallTopology ''primary'' 9 8 5"
  by code_simp+

lemma sample_documents_valid:
  "validateUnifiedConfig h sampleDocument = Inr ()" "validateUnifiedConfig h savedDocument = Inr ()"
proof -
  have l: "to_lower ''edge'' = ''edge''" "to_lower ''config_version'' = ''config_version''"
    "to_lower ''transfer'' = ''transfer''" "to_lower ''session_core'' = ''session_core''" by code_simp+
  have s: "validateUnifiedSecrets h sampleDocument = Inr ()" "validateUnifiedSecrets h savedDocument = Inr ()"
    by (rule secrets_unset, code_simp)+
  have g: "get sampleDocument ''edge'' ''config_version'' x = x" "get sampleDocument ''transfer'' k x = x"
    "get sampleDocument ''session_core'' k x = x" "get savedDocument ''edge'' ''config_version'' x = x"
    "get savedDocument ''transfer'' k x = x" "get savedDocument ''session_core'' k x = x" for k x
    by (simp_all add: get_def l sampleDocument_def savedDocument_def map_get_def)
  show "validateUnifiedConfig h sampleDocument = Inr ()"
    by (rule validate_short) (simp_all add: s g sample_topologies smallTopology_valid)
  show "validateUnifiedConfig h savedDocument = Inr ()"
    by (rule validate_short) (simp_all add: s g sample_topologies smallTopology_valid)
qed

lemma sample_applied: "applyTopologyToUnified sampleDocument (smallTopology ''primary'' 9 8 5) = Inr savedDocument"
proof -
  let ?t = "smallTopology ''primary'' 9 8 5"
  have "validateTopology ?t = Inr ()" by (simp add: validateTopology_Inr smallTopology_valid)
  moreover have "foldl (writeBackend (existingSecrets sampleDocument))
     (setKey (setKey (filter (\<lambda>(s, kvs). \<not> has_prefix s ''backend.'') sampleDocument) ''edge'' ''primary_backend'' (tPrimaryBackend ?t)) ''edge'' ''routing_mode'' (tRoutingMode ?t))
     (tBackends ?t) = savedDocument" by code_simp
  ultimately show ?thesis by (simp add: applyTopologyToUnified_def)
qed

lemma sample_printable: "list_all printable (tBackends (smallTopology ''primary'' 9 8 5))" by code_simp
lemma sample_fits: "lines_fit savedDocument"
proof -
 have "list_all (\<lambda>l. length l < 50) (configLines savedDocument)" by code_simp
 then show ?thesis unfolding lines_fit_def by (auto simp: list_all_iff)
qed

lemma sample_prepared: "(\<And>k. diskOK h k) \<Longrightarrow> \<exists>d'. prepareUnifiedConfig h n (emptyDashboard\<lparr>unifiedFile := Some sampleConfig\<rparr>) = (Inr (), d')"
proof -
  assume "\<And>k. diskOK h k"
  moreover have "sampleConfig \<noteq> []" by (simp add: sampleConfig_def)
  ultimately show ?thesis
    using sample_documents_valid(1) sampleConfig_read
    by (simp add: prepareUnifiedConfig_def ensureUnifiedConfig_def loadINI_def writeAll_ok sampleDocument_def)
qed
section \<open>Properties\<close>

lemma saved_topology:
  assumes "\<And>k. n \<le> k \<Longrightarrow> diskOK h k" and "unifiedFile d = Some c" and "parseINI c = Inr doc"
    and "topologyFromUnified doc = Inr t0" and "applyTopologyToUnified doc t = Inr doc'"
    and "validateUnifiedConfig h doc' = Inr ()" and "list_all printable (tBackends t)" and "lines_fit doc'"
    and "renamedSecret rename doc doc' = doc'"
  shows "\<exists>d' t'. saveTopology h n t rename d = (Inr (), d') \<and> loadTopology True d' = (Inr t', d') \<and>
    normalizedTopology t' = normalizedTopology t"
proof -
  let ?content = "renderUnifiedConfig doc'" and ?d1 = "d\<lparr>unifiedFile := Some (renderUnifiedConfig doc')\<rparr>"
  have ok_text: "ini_text doc" "ini_text doc'"
    using parseINI_text [OF assms(3)] applied_text [OF assms(5) _ assms(7)] by auto
  then have kd: "keys_distinct doc" "keys_distinct doc'" by (simp_all add: ini_text_def)
  obtain doc3 where doc3: "parseINI ?content = Inr doc3" "ini_view doc3 = ini_view doc'"
    and kd3: "keys_distinct doc3" and valid3: "validateUnifiedConfig h doc3 = Inr ()"
    using printed_document [OF ok_text(2) assms(8,6)] .
  have st: "list_all storable (tBackends t)" using assms(7) by (auto simp: list_all_iff printable_def)
  obtain t' where t': "topologyFromUnified doc' = Inr t'" "normalizedTopology t' = normalizedTopology t"
    using topology_reads_back [OF assms(5) kd(1) references_of_valid [OF assms(4) kd(1)] st] by blast
  have same: "topologyFromUnified doc3 = Inr t'"
    using topology_view [OF kd3 kd(2) doc3(2)] t'(1) by (simp add: topologyFromUnified_def)
  have valid: "validateTopology t = Inr ()" using applied_view(1) [OF assms(5)] by (simp add: validateTopology_Inr)
  have w: "writeUnifiedConfig h n doc' d = (Inr (), ?d1)"
    using assms(1,6) by (simp add: writeUnifiedConfig_def serializeUnifiedConfig_def)
  obtain d2 where d2: "prepareUnifiedConfig h (n + 2) ?d1 = (Inr (), d2)"
    using assms(1) doc3(1) valid3 render_nonempty
    by (simp add: prepareUnifiedConfig_def ensureUnifiedConfig_def loadINI_def writeAll_ok)
  have stored: "unifiedFile d2 = Some ?content"
    using prepare_keeps(1) [of ?d1 ?content h "n + 2"] d2 render_nonempty by simp
  have load: "loadTopology ok d2 = (Inr t', d2)" for ok
    using loadTopology_present [OF stored] doc3(1) same by simp
  have "saveTopology h n t rename d = (Inr (), d2)"
    unfolding saveTopology_def saveWritten_def using valid assms(2,3,5) w d2 load t'(2) assms(9) by simp
  with load t'(2) show ?thesis by blast
qed

text \<open>C18: A topology that can be written is saved: when no write fails, the stored configuration is usable and
  the document with the new topology is valid, saving a printable topology succeeds, and what is
  loaded afterwards is that topology (up to order and secret references).  In particular the
  verification after the write never rejects a good save.\<close>

theorem good_topology_is_saved:
  assumes "\<And>k. diskOK h k" and "unifiedFile d = Some c" and "parseINI c = Inr doc"
    and "topologyFromUnified doc = Inr t0" and "applyTopologyToUnified doc t = Inr doc'"
    and "validateUnifiedConfig h doc' = Inr ()" and "list_all printable (tBackends t)" and "lines_fit doc'"
  shows "\<exists>d' t'. saveTopology h n t None d = (Inr (), d') \<and> loadTopology True d' = (Inr t', d') \<and>
    normalizedTopology t' = normalizedTopology t"
  by (rule saved_topology [OF _ assms(2-8)]) (simp_all add: assms(1) renamedSecret_def)

theorem good_topology_is_saved_witness:
  "\<exists>d t'. saveTopology sampleHost 0 (smallTopology ''primary'' 9 8 5) None (emptyDashboard\<lparr>unifiedFile := Some sampleConfig\<rparr>) = (Inr (), d) \<and>
     loadTopology True d = (Inr t', d) \<and> normalizedTopology t' = normalizedTopology (smallTopology ''primary'' 9 8 5)"
proof (rule good_topology_is_saved [OF _ _ sampleConfig_read])
  show "topologyFromUnified [(''edge'', [(''primary_backend'', ''zoo'')]), (''backend.zoo'', [(''host'', ''h''), (''fallback'', [])])] = Inr (unifiedTopology sampleDocument)"
   using validate_topology [OF sample_documents_valid(1)] by (simp only: sampleDocument_def)
  show "applyTopologyToUnified [(''edge'', [(''primary_backend'', ''zoo'')]), (''backend.zoo'', [(''host'', ''h''), (''fallback'', [])])] (smallTopology ''primary'' 9 8 5) = Inr savedDocument"
   using sample_applied by (simp only: sampleDocument_def)
qed (use sample_documents_valid(2) sample_printable sample_fits in \<open>simp_all add: sampleHost_def\<close>)
text \<open>C19: A save that fails leaves the configuration as it was: whatever goes wrong after the text was
  written, the previous text is back (if the write that restores it succeeds).\<close>

theorem failed_save_restores:
  assumes "saveTopology h n t rename d = (Inl err, d')" and "diskOK h (n + 20)" and "unifiedFile d \<noteq> Some []"
  shows "unifiedFile d' = unifiedFile d"
proof -
  have restore: "unifiedFile (snd (restoreConfig h (n + 20) c cause x)) = Some c" if "c \<noteq> []" for c cause x
    using assms(2) prepare_keeps(1) [of "x\<lparr>unifiedFile := Some c\<rparr>" c h "Suc (n + 20)"] that by (simp add: restoreConfig_def)
  show ?thesis
  proof (cases "\<exists>original doc2 d1. unifiedFile d = Some original \<and> writeUnifiedConfig h n doc2 d = (Inr (), d1) \<and>
      saveTopology h n t rename d = saveWritten h n t original d1")
    case True
    then obtain original doc2 d1 where w: "unifiedFile d = Some original"
      "saveWritten h n t original d1 = (Inl err, d')" using assms(1) by auto
    then have "original \<noteq> []" using assms(3) by auto
    from saveWritten_failed [OF w(2)] obtain cause x where "d' = snd (restoreConfig h (n + 20) original cause x)"
      by blast
    with restore [OF \<open>original \<noteq> []\<close>] w(1) show ?thesis by simp
  next
    case False
    then show ?thesis using assms(1) saveTopology_cases [of h n t rename d] by auto
  qed
qed

definition failingHost :: host where
  "failingHost = sampleHost\<lparr>diskOK := (\<lambda>k. k \<noteq> 3)\<rparr>"

theorem failed_save_restores_witness:
  "\<exists>err d'. saveTopology failingHost 0 (smallTopology ''primary'' 9 8 5) None (emptyDashboard\<lparr>unifiedFile := Some sampleConfig\<rparr>)
      = (Inl err, d') \<and> unifiedFile d' = Some sampleConfig"
proof -
  let ?t = "smallTopology ''primary'' 9 8 5" and ?d = "emptyDashboard\<lparr>unifiedFile := Some sampleConfig\<rparr>"
  let ?d1 = "?d\<lparr>unifiedFile := Some (renderUnifiedConfig savedDocument)\<rparr>"
  have ne: "sampleConfig \<noteq> []" by (simp add: sampleConfig_def)
  have read: "parseINI sampleConfig = Inr sampleDocument" using sampleConfig_read by (simp only: sampleDocument_def)
  have t: "validateTopology ?t = Inr ()" by (simp add: validateTopology_Inr smallTopology_valid)
  have "ini_text savedDocument" using applied_text [OF sample_applied parseINI_text [OF read] sample_printable] .
  then obtain doc3 where doc3: "parseINI (renderUnifiedConfig savedDocument) = Inr doc3" "validateUnifiedConfig failingHost doc3 = Inr ()"
    using printed_document [OF _ sample_fits sample_documents_valid(2)] by metis
  have w: "writeUnifiedConfig failingHost 0 savedDocument ?d = (Inr (), ?d1)"
    using sample_documents_valid(2) by (simp add: writeUnifiedConfig_def serializeUnifiedConfig_def failingHost_def)
  have p: "prepareUnifiedConfig failingHost 2 ?d1 = (Inl ''write error'', ?d1)"
    using doc3 render_nonempty
    by (simp add: prepareUnifiedConfig_def ensureUnifiedConfig_def loadINI_def preparedFiles_def Let_def failingHost_def)
  have "\<exists>err d'. saveTopology failingHost 0 ?t None ?d = (Inl err, d')"
    using t read sample_applied w p
    by (simp add: saveTopology_def saveWritten_def renamedSecret_def restoreConfig_def failingHost_def numeral_2_eq_2)
  then obtain err d' where f: "saveTopology failingHost 0 ?t None ?d = (Inl err, d')" by blast
  have "unifiedFile d' = unifiedFile ?d"
    by (rule failed_save_restores [OF f]) (use ne in \<open>simp_all add: failingHost_def\<close>)
  with f show ?thesis by auto
qed

section \<open>The secret of a configured backend\<close>

text \<open>The signature check uses the secret that the configuration gives: once the configuration has been
  applied, a request of a configured backend is verified with the companion secret of that backend's
  section, or with the default secret when the section has none; for secrets without hash signs and
  line breaks, and when no backend has the ID \<^verbatim>\<open>default\<close>.\<close>

theorem configured_secret_is_verified:
  assumes "prepareUnifiedConfig h n d = (Inr u, d')" and "unifiedFile d = Some c" and "c \<noteq> []" and "parseINI c = Inr doc"
    and "b \<in> set (tBackends (unifiedTopology doc))" and "backendSecret h doc b \<noteq> []"
    and "list_all (\<lambda>b. plainSecret (backendSecret h doc b) \<and> bID b \<noteq> ''default'') (tBackends (unifiedTopology doc))"
    and "plainSecret (defaultSecret h doc)"
  shows "companionSecret d' (bID b) = backendSecret h doc b"
proof -
  let ?t = "unifiedTopology doc"
  have "validateUnifiedConfig h doc = Inr ()" using prepare_success [OF assms(1-3)] assms(4) by auto
  then have valid: "topology_valid ?t"
    by (auto simp: validateUnifiedConfig_def attempt_Inr Let_def topologyFromUnified_Inr split: if_splits)
  then have v: "backend_valid b" "distinct (map bID (tBackends ?t))"
    using assms(5) by (simp_all add: topology_valid_def list_all_iff)
  have look: "map_of (foldl secretLine [] (split_on newline (companionFile h doc ?t))) (bID b) = Some (backendSecret h doc b)"
  proof -
    have "map_of (map (\<lambda>b. (bID b, backendSecret h doc b)) (tBackends ?t)) (bID b) = Some (backendSecret h doc b)"
      using assms(5) v(2) by (intro map_of_is_SomeI) (auto simp: comp_def)
    moreover have "bID b \<noteq> ''default''" using assms(5,7) by (auto simp: list_all_iff)
    moreover have "''default'' \<notin> set (map bID (tBackends ?t))" using assms(7) by (force simp: list_all_iff)
    ultimately show ?thesis
      using companionFile_read [OF valid, of h doc "bID b"] assms(7,8) by (simp add: list_all_iff)
  qed
  have "normalizeCompanionServerID (bID b) = bID b" using backendID_normal [OF backend_validD(1) [OF v(1)]] .
  then show ?thesis
    using look assms(6) prepared_companion_file(1) [OF assms(1-4)] by (simp add: companionSecret_def map_get_def Let_def)
qed

theorem configured_secret_is_verified_witness:
  "\<exists>h d'. prepareUnifiedConfig h 0 (emptyDashboard\<lparr>unifiedFile := Some sampleConfig\<rparr>) = (Inr (), d') \<and>
     companionSecret d' ''zoo'' = ''shared-secret''"
proof -
  let ?h = "sampleHost\<lparr>getenv := (\<lambda>_. ''shared-secret'')\<rparr>"
  let ?b = "hd (tBackends (smallTopology ''primary'' 19132 0 50))"
  obtain d' where p: "prepareUnifiedConfig ?h 0 (emptyDashboard\<lparr>unifiedFile := Some sampleConfig\<rparr>) = (Inr (), d')"
    using sample_prepared [of ?h 0] by (auto simp: sampleHost_def)
  have read: "parseINI sampleConfig = Inr sampleDocument" using sampleConfig_read by (simp only: sampleDocument_def)
  have v: "backendSecret ?h sampleDocument ?b = ''shared-secret''" "defaultSecret ?h sampleDocument = ''shared-secret''"
    "plainSecret ''shared-secret''" "bID ?b = ''zoo''" "''zoo'' \<noteq> ''default''" by code_simp+
  have "companionSecret d' (bID ?b) = backendSecret ?h sampleDocument ?b"
    by (rule configured_secret_is_verified [OF p _ _ read])
      (use v in \<open>simp_all add: sample_topologies, simp_all add: smallTopology_def sampleConfig_def\<close>)
  with p v show ?thesis by auto
qed

end
