(* ===== verification/Runtime_State.thy ===== *)
theory Runtime_State
  imports Config_Store
begin

text \<open>
  What the dashboard reads of its runtime directory: the JSON state that the gateway, the session core
  and the companions leave there, the rotated logs, and the combined view of backends and companions
  (\<^verbatim>\<open>dashboard/main.go\<close>).  A JSON number is a float and is printed by the library's format; a log is
  the sequence of its records, shorter than the 12 MiB window that is read.  Directory listings are
  arguments, in the order \<^verbatim>\<open>filepath.Glob\<close> returns them.
\<close>

section \<open>State files\<close>

definition safeMap :: "string \<Rightarrow> dashboard \<Rightarrow> jobject" where
  "safeMap name d = (case stateFiles d name of Decoded v \<Rightarrow> as_object v | _ \<Rightarrow> [])"

definition safeSlice :: "string \<Rightarrow> dashboard \<Rightarrow> json list" where
  "safeSlice name d = (case stateFiles d name of Decoded v \<Rightarrow> as_array v | _ \<Rightarrow> [])"

definition number :: "json \<Rightarrow> rat option" where
  "number v = (case v of JNum r \<Rightarrow> Some r | _ \<Rightarrow> None)"

definition textField :: "golib \<Rightarrow> jobject \<Rightarrow> string \<Rightarrow> string" where
  "textField G r key = (case map_of r key of None \<Rightarrow> [] | Some v \<Rightarrow> sprint G v)"

section \<open>Logs\<close>

text \<open>The loop over the lines of a log keeps a window of at most three times the limit.\<close>

definition tailStep :: "nat \<Rightarrow> jobject list \<Rightarrow> json \<Rightarrow> jobject list" where
  "tailStep limit window line =
     (case line of
        JObj record \<Rightarrow>
          let w = window @ [record]
          in if length w > limit * 3 then drop (length w - limit * 2) w else w
      | _ \<Rightarrow> window)"

definition tailJSONL :: "nat \<Rightarrow> json list \<Rightarrow> jobject list" where
  "tailJSONL limit ls = take limit (rev (foldl (tailStep limit) [] ls))"

definition readRotated :: "nat \<Rightarrow> jsonl \<Rightarrow> jobject list" where
  "readRotated limit f =
     (let a = tailJSONL limit (jlCurrent f)
      in if length a \<ge> limit then a else a @ tailJSONL (limit - length a) (jlRotated f))"

section \<open>Gateway and session core\<close>

definition mergeBackend :: "golib \<Rightarrow> (string \<times> jobject) list \<Rightarrow> json \<Rightarrow> (string \<times> jobject) list" where
  "mergeBackend G byID raw =
     (case raw of
        JObj backend \<Rightarrow>
          let i = normalizeCompanionServerID (textField G backend ''name'')
          in if i = [] then byID else AList.update i backend byID
      | _ \<Rightarrow> byID)"

text \<open>\<^verbatim>\<open>AList.update\<close> keeps the place of a known key and appends a new one, as \<^verbatim>\<open>order\<close> does.\<close>

definition combinedRuntimeState :: "golib \<Rightarrow> dashboard \<Rightarrow> jobject" where
  "combinedRuntimeState G d =
     (let gateway = safeMap ''gateway-state.json'' d;
          sessionCore = safeMap ''session-core-state.json'' d;
          byID = foldl (mergeBackend G) (foldl (mergeBackend G) [] (as_array (field gateway ''backends'')))
            (as_array (field sessionCore ''backends''));
          combined = (case field sessionCore ''protocolPacks'' of
              JArr packs \<Rightarrow> put_field ''protocolPacks'' (JArr packs) gateway | _ \<Rightarrow> gateway);
          combined1 = put_field ''backends'' (JArr (map (\<lambda>(i, b). JObj b) byID)) combined
      in case number (field sessionCore ''timestamp'') of
           None \<Rightarrow> combined1
         | Some timestamp \<Rightarrow>
             (case number (field combined1 ''timestamp'') of
                None \<Rightarrow> put_field ''timestamp'' (JNum timestamp) combined1
              | Some current \<Rightarrow>
                  if timestamp > current then put_field ''timestamp'' (JNum timestamp) combined1 else combined1))"

definition gatewayBackendMap :: "golib \<Rightarrow> jobject \<Rightarrow> (string \<times> jobject) list" where
  "gatewayBackendMap G gateway = foldl (mergeBackend G) [] (as_array (field gateway ''backends''))"

section \<open>Companions\<close>

definition safeFileID :: "string \<Rightarrow> string" where
  "safeFileID value =
     (let s = filter (\<lambda>c. is_lower_alpha c \<or> is_digit_char c \<or> c = CHR ''-'' \<or> c = CHR ''_'') (to_lower value)
      in if s = [] then ''unknown'' else s)"

definition companionState :: "int \<Rightarrow> jobject \<Rightarrow> jobject" where
  "companionState now state =
     (let timestamp = (case number (field state ''timestamp'') of None \<Rightarrow> 0 | Some t \<Rightarrow> t);
          connected = (timestamp > 0 \<and> now - trunc_rat timestamp \<le> 15000);
          metrics = as_object (field state ''metrics'');
          overloaded = (case number (field metrics ''queueDepth'') of None \<Rightarrow> False | Some q \<Rightarrow> q > 10000);
          status = (if \<not> connected then ''offline'' else if overloaded then ''degraded'' else ''healthy'')
      in put_field ''health'' (JStr status) (put_field ''connected'' (JBool connected) state))"

definition companionStates :: "golib \<Rightarrow> int \<Rightarrow> string list \<Rightarrow> dashboard \<Rightarrow> jobject list" where
  "companionStates G now paths d =
     sort_key (\<lambda>s. textField G s ''serverId'') (map (\<lambda>path. companionState now (safeMap path d)) paths)"

definition ageSeconds :: "int \<Rightarrow> rat \<Rightarrow> int" where
  "ageSeconds now timestamp = max 0 (now - trunc_rat timestamp) div 1000"

definition fleetItem ::
  "golib \<Rightarrow> int \<Rightarrow> (string \<times> jobject) list \<Rightarrow> (string \<times> jobject) list \<Rightarrow> dashboard \<Rightarrow> backendDefinition \<Rightarrow> jobject" where
  "fleetItem G now stateByID gatewayByID d b =
     (let i = normalizeCompanionServerID (bID b);
          item0 = [(''serverId'', JStr i),
            (''displayName'', JStr (if bDisplayName b = [] then bID b else valueOr [(''name'', bDisplayName b)] ''name'' (bID b))),
            (''configured'', JBool True), (''backendEnabled'', JBool (bEnabled b)), (''backendHost'', JStr (bHost b)),
            (''backendPort'', jint (bBackendPort b)), (''publicPort'', jint (bPublicPort b)), (''connected'', JBool False),
            (''health'', JStr ''offline''), (''reportStatus'', JStr ''never''), (''ageSeconds'', JNull),
            (''secretConfigured'', JBool False), (''metrics'', JObj [])];
          item1 = (case map_of stateByID i of None \<Rightarrow> item0 | Some state \<Rightarrow> foldl (\<lambda>it (k, v). put_field k v it) item0 state);
          item2 = (case map_of gatewayByID i of
              None \<Rightarrow> item1
            | Some g \<Rightarrow> put_field ''activeSessions'' (field g ''activeSessions'')
                (put_field ''gatewayLatencyMs'' (field g ''latencyMs'')
                  (put_field ''gatewayEnabled'' (field g ''enabled'')
                    (put_field ''gatewayHealthy'' (field g ''healthy'') item1))));
          secretValue = companionSecret d i;
          item3 = put_field ''secretConfigured'' (JBool (secretValue \<noteq> [] \<and> secretValue \<noteq> ''CHANGE_ME_NOW'')) item2
      in case number (field item3 ''timestamp'') of
           None \<Rightarrow> item3
         | Some timestamp \<Rightarrow>
             if timestamp > 0
             then put_field ''reportStatus'' (JStr (if as_bool (field item3 ''connected'') then ''live'' else ''stale''))
                    (put_field ''ageSeconds'' (jint (ageSeconds now timestamp)) item3)
             else item3)"

definition orphanItem :: "int \<Rightarrow> string \<Rightarrow> jobject \<Rightarrow> jobject" where
  "orphanItem now i state =
     (let item = put_field ''reportStatus'' (JStr ''orphaned'') (put_field ''configured'' (JBool False)
            (put_field ''displayName'' (JStr i) (put_field ''serverId'' (JStr i) state)))
      in case number (field item ''timestamp'') of
           None \<Rightarrow> item
         | Some timestamp \<Rightarrow> if timestamp > 0 then put_field ''ageSeconds'' (jint (ageSeconds now timestamp)) item else item)"

definition reportedID :: "golib \<Rightarrow> jobject \<Rightarrow> string" where
  "reportedID G state = normalizeCompanionServerID (textField G state ''serverId'')"

text \<open>\<open>t\<close> is the topology that was loaded, or nothing when loading it failed.\<close>

definition companionFleet ::
  "golib \<Rightarrow> int \<Rightarrow> topologyConfig result \<Rightarrow> jobject \<Rightarrow> jobject list \<Rightarrow> dashboard \<Rightarrow> jobject list" where
  "companionFleet G now t gateway states d =
     (let stateByID = foldl (\<lambda>m s. if reportedID G s = [] then m else AList.update (reportedID G s) s m) [] states;
          gatewayByID = gatewayBackendMap G gateway;
          configured = (case t of Inl _ \<Rightarrow> [] | Inr topology \<Rightarrow> tBackends topology);
          seen = map (\<lambda>b. normalizeCompanionServerID (bID b)) configured;
          orphans = filter (\<lambda>s. reportedID G s \<noteq> [] \<and> reportedID G s \<notin> set seen) states
      in sort_key (\<lambda>item. textField G item ''displayName'')
           (map (fleetItem G now stateByID gatewayByID d) configured @
            map (\<lambda>s. orphanItem now (reportedID G s) s) orphans))"

section \<open>The window of a log is its tail\<close>

definition records :: "json list \<Rightarrow> jobject list" where
  "records ls = objects ls"

lemma records_simps [simp]:
  "records [] = []" "records (JObj r # ls) = r # records ls"
  by (simp_all add: records_def objects_def as_object_def)

lemma records_other: "(\<And>r. v \<noteq> JObj r) \<Longrightarrow> records (v # ls) = records ls"
  by (cases v) (auto simp: records_def objects_def)

lemma tailStep_window:
  assumes "take limit (rev w) = take limit (rev past)" and "length w \<ge> limit \<or> w = past"
  shows "take limit (rev (tailStep limit w (JObj r))) = take limit (rev (past @ [r])) \<and>
    (length (tailStep limit w (JObj r)) \<ge> limit \<or> tailStep limit w (JObj r) = past @ [r])"
proof (cases limit)
  case 0
  then show ?thesis by simp
next
  case (Suc n)
  have t: "take limit (rev (w @ [r])) = take limit (rev (past @ [r]))"
  proof -
    have "take n (rev w) = take n (rev past)" using assms(1) Suc by (metis min.absorb1 le_SucI order_refl take_take)
    then show ?thesis by (simp add: Suc)
  qed
  show ?thesis
  proof (cases "length w + 1 > limit * 3")
    case True
    have "take limit (rev (drop (length (w @ [r]) - limit * 2) (w @ [r]))) = take limit (rev (w @ [r]))"
      using True by (simp only: rev_drop length_append take_take) (simp add: min_def)
    moreover have "tailStep limit w (JObj r) = drop (length (w @ [r]) - limit * 2) (w @ [r])"
      using True by (simp add: tailStep_def Let_def)
    moreover have "length (drop (length (w @ [r]) - limit * 2) (w @ [r])) \<ge> limit" using True by simp
    ultimately show ?thesis using t by metis
  next
    case False
    with t assms(2) show ?thesis by (auto simp: tailStep_def Let_def)
  qed
qed

text \<open>Reading the end of a log in bounded memory gives exactly its last records, newest first: the window
  that is cut back whenever it grows past three times the limit never loses one of them.\<close>

theorem log_window_is_tail: "tailJSONL limit ls = take limit (rev (records ls))"
proof -
  have "take limit (rev (foldl (tailStep limit) w ls)) = take limit (rev (past @ records ls)) \<and>
      (length (foldl (tailStep limit) w ls) \<ge> limit \<or> foldl (tailStep limit) w ls = past @ records ls)"
    if "take limit (rev w) = take limit (rev past)" "length w \<ge> limit \<or> w = past" for w past
    using that
  proof (induction ls arbitrary: w past)
    case (Cons v ls)
    show ?case
    proof (cases "\<exists>r. v = JObj r")
      case True
      then obtain r where r: "v = JObj r" ..
      have s: "take limit (rev (tailStep limit w v)) = take limit (rev (past @ [r]))"
        "length (tailStep limit w v) \<ge> limit \<or> tailStep limit w v = past @ [r]"
        using tailStep_window [OF Cons.prems] r by auto
      show ?thesis using Cons.IH [OF s] r by simp
    next
      case False
      then have "tailStep limit w v = w" by (cases v) (auto simp: tailStep_def)
      with Cons False show ?thesis by (simp add: records_other)
    qed
  qed simp
  from this [of "[]" "[]"] show ?thesis by (simp add: tailJSONL_def)
qed

end
