(* ===== verification/Tickets.thy ===== *)
theory Tickets
  imports Runtime_State
begin

text \<open>
  Transfer tickets (\<^verbatim>\<open>dashboard/main.go\<close>, \<^verbatim>\<open>dashboard/backends.go\<close>): the text file that the gateway reads,
  the choice of a port for a transfer, and the handlers of companions and operators.  The file's tickets
  are read back exactly; an issued ticket has a port of the pool that no live ticket and no static route
  uses.
\<close>

section \<open>The ticket file\<close>

record transferRequest =
  trqDestination :: string
  trqSourceIP :: string
  trqSourcePort :: int
  trqXUID :: string
  trqPlayerName :: string
  trqSourceServer :: string

definition sanitizeTicketField :: "string \<Rightarrow> string" where
  "sanitizeTicketField value =
     trim_space (replace_char carriage_return (CHR '' '') (replace_char newline (CHR '' '') (replace_char tab (CHR '' '') value)))"

definition ticketHeader :: string where
  "ticketHeader = join [CHR 0x5C, CHR ''t''] [''# ticketId'', ''port'', ''destination'', ''sourceIp'', ''xuid'', ''player'',
     ''sourceServer'', ''expiresAt'', ''createdAt'']"

definition ticketLine :: "transferTicket \<Rightarrow> string" where
  "ticketLine t = join [tab] [sanitizeTicketField (tkID t), itoa (tkPort t), sanitizeTicketField (tkDestination t),
     sanitizeTicketField (tkSourceIP t), sanitizeTicketField (tkXUID t), sanitizeTicketField (tkPlayerName t),
     sanitizeTicketField (tkSourceServer t), itoa (tkExpiresAt t), itoa (tkCreatedAt t)]"

definition ticketsText :: "transferTicket list \<Rightarrow> string" where
  "ticketsText tickets = concat (map (\<lambda>l. l @ [newline]) (ticketHeader # map ticketLine tickets))"

definition writeTransferTickets :: "bool \<Rightarrow> transferTicket list \<Rightarrow> dashboard \<Rightarrow> dashboard result" where
  "writeTransferTickets ok tickets d =
     (if ok then Inr (d\<lparr>ticketsFile := Some (ticketsText tickets)\<rparr>)
      else Inl ''write error'')"

definition readTicket :: "int \<Rightarrow> string \<Rightarrow> transferTicket option" where
  "readTicket now line =
     (if trim_space line = [] \<or> has_prefix line ''#'' then None
      else case split_on tab line of
        i # p # dest # ip # xuid # name # server # expires # created # rest \<Rightarrow>
          (case (atoi p, atoi expires, atoi created) of
             (Some portNumber, Some expiresAt, Some createdAt) \<Rightarrow>
               if expiresAt \<le> now then None
               else Some \<lparr>tkID = i, tkPort = portNumber, tkDestination = dest, tkSourceIP = ip, tkXUID = xuid,
                 tkPlayerName = name, tkSourceServer = server, tkExpiresAt = expiresAt, tkCreatedAt = createdAt\<rparr>
           | _ \<Rightarrow> None)
      | _ \<Rightarrow> None)"

definition loadTransferTickets :: "int \<Rightarrow> dashboard \<Rightarrow> transferTicket list" where
  "loadTransferTickets now d =
     List.map_filter (readTicket now) (split_on newline (case ticketsFile d of None \<Rightarrow> [] | Some content \<Rightarrow> content))"

section \<open>Issuing a ticket\<close>

definition backendAvailable :: "golib \<Rightarrow> dashboard \<Rightarrow> string \<Rightarrow> bool \<times> string" where
  "backendAvailable G d destination =
     (case find (\<lambda>b. textField G b ''name'' = destination) (objects (as_array (field (combinedRuntimeState G d) ''backends''))) of
        None \<Rightarrow> (False, ''Unknown destination backend'')
      | Some backend \<Rightarrow>
          if \<not> as_bool (field backend ''enabled'') then (False, ''Destination backend is disabled'')
          else if \<not> as_bool (field backend ''healthy'') then (False, ''Destination backend is unhealthy'')
          else (True, []))"

definition resolveGatewaySourceIP :: "golib \<Rightarrow> dashboard \<Rightarrow> string \<Rightarrow> int \<Rightarrow> string" where
  "resolveGatewaySourceIP G d sourceServer sourcePort =
     (if sourcePort \<le> 0 then []
      else case find (\<lambda>s. (case number (field s ''upstreamLocalPort'') of None \<Rightarrow> False | Some p \<Rightarrow> trunc_rat p = sourcePort) \<and>
                 (sourceServer = [] \<or> textField G s ''backend'' = sourceServer)) (objects (safeSlice ''sessions.json'' d)) of
             None \<Rightarrow> [] | Some s \<Rightarrow> textField G s ''ip'')"

definition sanitizeRequest :: "golib \<Rightarrow> dashboard \<Rightarrow> transferRequest \<Rightarrow> transferRequest" where
  "sanitizeRequest G d q =
     (let q1 = q\<lparr>trqDestination := sanitizeTicketField (trqDestination q), trqSourceIP := sanitizeTicketField (trqSourceIP q),
            trqXUID := sanitizeTicketField (trqXUID q), trqPlayerName := sanitizeTicketField (trqPlayerName q),
            trqSourceServer := sanitizeTicketField (trqSourceServer q)\<rparr>;
          resolved = resolveGatewaySourceIP G d (trqSourceServer q1) (trqSourcePort q1)
      in if resolved \<noteq> [] then q1\<lparr>trqSourceIP := resolved\<rparr> else q1)"

definition selectPort :: "int list \<Rightarrow> (int \<times> string) list \<Rightarrow> int \<times> int \<Rightarrow> int" where
  "selectPort used assigned pool =
     (case find (\<lambda>p. p \<notin> set used \<and> p \<notin> fst ` set assigned) [fst pool..snd pool] of None \<Rightarrow> 0 | Some p \<Rightarrow> p)"

definition ticketEvent :: "string \<Rightarrow> transferTicket \<Rightarrow> json" where
  "ticketEvent publicHost t =
     JObj [(''timestamp'', jint (tkCreatedAt t)), (''type'', JStr ''transfer.ticket_created''), (''severity'', JStr ''info''),
       (''ticketId'', JStr (tkID t)), (''port'', jint (tkPort t)), (''destination'', JStr (tkDestination t)),
       (''sourceIp'', JStr (tkSourceIP t)), (''xuid'', JStr (tkXUID t)), (''player'', JStr (tkPlayerName t)),
       (''sourceServer'', JStr (tkSourceServer t)), (''expiresAt'', jint (tkExpiresAt t)),
       (''message'', JStr (''Transfer ticket created for '' @ tkPlayerName t @ '': '' @ tkSourceServer t @ '' -> '' @
          tkDestination t @ '' via '' @ publicHost @ '':'' @ itoa (tkPort t)))]"

text \<open>The part under the file lock; readings of the host start at index \<open>n\<close>.\<close>

definition issueTicket :: "host \<Rightarrow> nat \<Rightarrow> transferRequest \<Rightarrow> dashboard \<Rightarrow> transferTicket result \<times> dashboard" where
  "issueTicket h n request d =
     (let tickets = loadTransferTickets (clock h n) d;
          (topology, d1) = loadTopology (diskOK h n) d;
          assigned = (case topology of Inl _ \<Rightarrow> [] | Inr t \<Rightarrow> staticPublicPorts t);
          selectedPort = selectPort (map tkPort tickets) assigned (transferPoolRange d1)
      in if selectedPort = 0 then (Inl ''No transfer ports are currently available'', d1)
         else case randomTicketID (random h n) of
           None \<Rightarrow> (Inl ''rand'', d1)
         | Some i \<Rightarrow>
             let now = clock h (Suc n);
                 ticket = \<lparr>tkID = i, tkPort = selectedPort, tkDestination = trqDestination request,
                   tkSourceIP = trqSourceIP request, tkXUID = trqXUID request, tkPlayerName = trqPlayerName request,
                   tkSourceServer = trqSourceServer request, tkExpiresAt = now + transferTTL d1, tkCreatedAt = now\<rparr>
             in case writeTransferTickets (diskOK h (Suc n)) (tickets @ [ticket]) d1 of
                  Inl err \<Rightarrow> (Inl err, d1)
                | Inr d2 \<Rightarrow>
                    let event = ticketEvent (transferHost d2) ticket
                    in (Inr ticket,
                        d2\<lparr>transfersFile := appendJSONL False event (transfersFile d2),
                           eventsFile := appendJSONL False event (eventsFile d2),
                           db := createTransfer (db d2) ticket\<rparr>))"

definition createTransferTicket ::
  "golib \<Rightarrow> host \<Rightarrow> nat \<Rightarrow> transferRequest \<Rightarrow> dashboard \<Rightarrow> transferTicket result \<times> dashboard" where
  "createTransferTicket G h n request0 d =
     (let request = sanitizeRequest G d request0;
          (available, reason) = backendAvailable G d (trqDestination request);
          (allowed, denied) = profileAccess (db d) (trqXUID request) (trqDestination request)
      in case refuse [(trqDestination request = [], ''Destination is required''),
                      (transferRequireIP d \<and> trqSourceIP request = [], ''Source IP is required''),
                      (\<not> available, reason), (\<not> allowed, denied)] of
           Inl err \<Rightarrow> (Inl err, d)
         | Inr _ \<Rightarrow> issueTicket h n request d)"

section \<open>Handlers\<close>

definition jticket :: "transferTicket \<Rightarrow> json" where
  "jticket t = JObj [(''ticketId'', JStr (tkID t)), (''port'', jint (tkPort t)), (''destination'', JStr (tkDestination t)),
     (''sourceIp'', JStr (tkSourceIP t)), (''xuid'', JStr (tkXUID t)), (''playerName'', JStr (tkPlayerName t)),
     (''sourceServer'', JStr (tkSourceServer t)), (''expiresAt'', jint (tkExpiresAt t)), (''createdAt'', jint (tkCreatedAt t))]"

text \<open>The end of both handlers: an error of \<^verbatim>\<open>createTransferTicket\<close> is a conflict.\<close>

definition ticketReply ::
  "transferTicket result \<times> dashboard \<Rightarrow> (transferTicket \<Rightarrow> dashboard \<Rightarrow> reply) \<Rightarrow> reply \<times> dashboard" where
  "ticketReply created ok =
     (case created of (Inl err, d) \<Rightarrow> (error_reply 409 err, d) | (Inr ticket, d) \<Rightarrow> (ok ticket d, d))"

lemma ticketReply_eq:
  "ticketReply created ok = (rep, d') \<longleftrightarrow> (\<exists>err. created = (Inl err, d') \<and> rep = error_reply 409 err) \<or>
     (\<exists>t. created = (Inr t, d') \<and> rep = ok t d')"
  by (cases created; cases "fst created") (auto simp: ticketReply_def)

definition handleTransferRequest ::
  "golib \<Rightarrow> string option \<Rightarrow> (string \<Rightarrow> transferRequest option) \<Rightarrow> handler" where
  "handleTransferRequest G readBody decode h r d = finish d (
     attempt (check (verb r = ''POST'') (error_reply 405 ''Method not allowed'')) (\<lambda>_.
     attempt (some_or (error_reply 400 ''Invalid request'') readBody) (\<lambda>body.
     Inr (case verifySignedBody G (clock h 0) (clock h 1) r body d of
       (Inl err, d1) \<Rightarrow> (error_reply (if err = ''Replay rejected'' then 409 else 401) err, d1)
     | (Inr _, d1) \<Rightarrow> finish d1 (
         attempt (some_or (error_reply 400 ''Invalid JSON'') (decode body)) (\<lambda>request0.
         let headerServer = normalizeCompanionServerID (header r ''X-NinjOS-Server'');
             named = normalizeCompanionServerID (trqSourceServer request0);
             request = request0\<lparr>trqSourceServer := (if named = [] then headerServer else named)\<rparr> in
         attempt (check (trqSourceServer request = headerServer)
           (error_reply 401 ''Source server does not match signed companion identity'')) (\<lambda>_.
         Inr (ticketReply (createTransferTicket G h 2 request d1) (\<lambda>ticket d2.
             (200, JObj [(''ticketId'', JStr (tkID ticket)), (''host'', JStr (transferHost d2)),
                (''port'', jint (tkPort ticket)), (''destination'', JStr (tkDestination ticket)),
                (''expiresAt'', jint (tkExpiresAt ticket)), (''expiresInSeconds'', jint (transferTTL d2 div 1000))]))))))))))"

definition handleTransfersAPI :: "golib \<Rightarrow> transferRequest option \<Rightarrow> handler" where
  "handleTransfersAPI G decoded h r d =
     (if verb r = ''POST'' then finish d (
        attempt (check (roleRank (pRole (principalFromRequest r)) \<ge> roleRank ''operator'')
          (error_reply 403 ''Operator role required'')) (\<lambda>_.
        attempt (some_or (error_reply 400 ''Invalid JSON'') decoded) (\<lambda>request.
        Inr (ticketReply (createTransferTicket G h 0 request d) (\<lambda>ticket d1.
          (201, JObj [(''ticket'', jticket ticket), (''host'', JStr (transferHost d1))]))))))
      else if verb r \<noteq> ''GET'' then (error_reply 405 ''Method not allowed'', d)
      else
        let tickets = loadTransferTickets (clock h 0) d;
            d1 = (case writeTransferTickets (diskOK h 0) tickets d of Inl _ \<Rightarrow> d | Inr d' \<Rightarrow> d');
            (start, stop) = transferPoolRange d1
        in ((200, JObj [(''host'', JStr (transferHost d1)), (''portStart'', jint start), (''portEnd'', jint stop),
               (''availablePorts'', JArr (map jint (availableTransferPorts (diskOK h 1) d1))),
               (''ttlSeconds'', jint (transferTTL d1 div 1000)), (''active'', JArr (map jticket tickets)),
               (''history'', JArr (map JObj (readRotated 500 (transfersFile d1))))]),
            snd (loadTopology (diskOK h 1) d1)))"

section \<open>Tickets whose port became a static route\<close>

definition failConflict :: "host \<Rightarrow> (int \<times> string) list \<Rightarrow> ledger \<Rightarrow> nat \<times> transferTicket \<Rightarrow> ledger" where
  "failConflict h assigned l nt = (let (n, t) = nt in
     case map_of assigned (tkPort t) of
        None \<Rightarrow> l
      | Some backendID \<Rightarrow>
          updateTransfer l (clock h n) (tkID t) ''failed'' (''port assigned permanently to backend '' @ backendID) (clock h n))"

definition removeTicketsForStaticPorts :: "host \<Rightarrow> nat \<Rightarrow> topologyConfig \<Rightarrow> dashboard \<Rightarrow> unit result \<times> dashboard" where
  "removeTicketsForStaticPorts h n t d =
     (let assigned = staticPublicPorts t
      in if assigned = [] then (Inr (), d)
         else
           let tickets = loadTransferTickets (clock h n) d;
               kept = filter (\<lambda>k. map_of assigned (tkPort k) = None) tickets;
               d1 = d\<lparr>db := foldl (failConflict h assigned) (db d) (enumerate (Suc n) tickets)\<rparr>
           in case writeTransferTickets (diskOK h n) kept d1 of
                Inl err \<Rightarrow> (Inl err, d1)
              | Inr d2 \<Rightarrow> (Inr (), d2))"

section \<open>Reading a printed file\<close>

definition sanitizeTicket :: "transferTicket \<Rightarrow> transferTicket" where
  "sanitizeTicket t = t\<lparr>tkID := sanitizeTicketField (tkID t), tkDestination := sanitizeTicketField (tkDestination t),
     tkSourceIP := sanitizeTicketField (tkSourceIP t), tkXUID := sanitizeTicketField (tkXUID t),
     tkPlayerName := sanitizeTicketField (tkPlayerName t), tkSourceServer := sanitizeTicketField (tkSourceServer t)\<rparr>"

text \<open>A ticket whose line is read back: its numbers are 64-bit and its line is no comment.\<close>

definition writable :: "transferTicket \<Rightarrow> bool" where
  "writable t \<longleftrightarrow> in_int64 (tkPort t) \<and> in_int64 (tkExpiresAt t) \<and> in_int64 (tkCreatedAt t) \<and>
     \<not> has_prefix (sanitizeTicketField (tkID t)) ''#''"

lemma strip_by_keeps: "c \<in> set s \<Longrightarrow> \<forall>w \<in> set ws. c \<notin> set w \<Longrightarrow> c \<in> set (strip_by ws s)"
proof (induction ws s rule: strip_by.induct)
  case (1 ws s)
  show ?case
  proof (cases "find (\<lambda>w. w \<noteq> [] \<and> prefix w s) ws")
    case None
    then show ?thesis using 1 by (subst strip_by.simps) simp
  next
    case (Some w)
    then have w: "w \<in> set ws" "prefix w s" by (auto simp: find_Some_iff)
    then have "c \<in> set (drop (length w) s)" using "1.prems" by (auto simp: prefix_def)
    with 1 Some w show ?thesis by (subst strip_by.simps) simp
  qed
qed

lemma sanitizeTicketField_out:
  "tab \<notin> set (sanitizeTicketField v)" "newline \<notin> set (sanitizeTicketField v)"
proof -
  have "c \<in> set (replace_char carriage_return (CHR '' '') (replace_char newline (CHR '' '') (replace_char tab (CHR '' '') v))) \<Longrightarrow>
      c \<noteq> tab \<and> c \<noteq> newline" for c
    by (auto simp: replace_char_def newline_def carriage_return_def tab_def split: if_splits)
  then show "tab \<notin> set (sanitizeTicketField v)" "newline \<notin> set (sanitizeTicketField v)"
    using set_trim_space unfolding sanitizeTicketField_def by blast+
qed

lemma itoa_out: "tab \<notin> set (itoa i)" "newline \<notin> set (itoa i)"
  by (auto dest!: itoa_chars simp: is_digit_char_def byte_val_def newline_def tab_def)


lemma digit_not_space: "is_digit_char c \<Longrightarrow> \<forall>w \<in> set space_runes. c \<notin> set w"
proof -
  have "list_all (list_all (\<lambda>c. \<not> is_digit_char c)) space_runes" by code_simp
  then show "is_digit_char c \<Longrightarrow> \<forall>w \<in> set space_runes. c \<notin> set w" by (auto simp: list_all_iff)
qed

lemma trim_space_digit: "c \<in> set s \<Longrightarrow> is_digit_char c \<Longrightarrow> trim_space s \<noteq> []"
proof -
  assume a: "c \<in> set s" "is_digit_char c"
  then have "c \<in> set (trim_left s)" unfolding trim_left_def by (intro strip_by_keeps digit_not_space)
  then have "c \<in> set (rev (trim_left s))" by simp
  then have "c \<in> set (strip_by (map rev space_runes) (rev (trim_left s)))"
    using digit_not_space [OF a(2)] by (intro strip_by_keeps) auto
  then show "trim_space s \<noteq> []" by (auto simp: trim_space_def trim_right_def)
qed

lemma itoa_digit: "\<exists>c \<in> set (itoa i). is_digit_char c"
proof -
  obtain n where "set (show_nat n) \<subseteq> set (itoa i)"
  proof
    show "set (show_nat (nat \<bar>i\<bar>)) \<subseteq> set (itoa i)" by (auto simp: itoa_def)
  qed
  moreover obtain c where "c \<in> set (show_nat n)" using show_nat_nonempty [of n] by (cases "show_nat n") auto
  moreover have "is_digit_char c" using \<open>c \<in> set (show_nat n)\<close> show_nat_digits [of n] by (simp add: list_all_iff)
  ultimately show ?thesis by blast
qed

lemma has_prefix_hash: "has_prefix (a @ tab # b) ''#'' \<longleftrightarrow> has_prefix a ''#''"
  by (cases a) (auto simp: has_prefix_def tab_def)

lemma readTicket_line:
  assumes "writable t"
  shows "readTicket now (ticketLine t) = (if tkExpiresAt t \<le> now then None else Some (sanitizeTicket t))"
proof -
  let ?fs = "[sanitizeTicketField (tkID t), itoa (tkPort t), sanitizeTicketField (tkDestination t),
     sanitizeTicketField (tkSourceIP t), sanitizeTicketField (tkXUID t), sanitizeTicketField (tkPlayerName t),
     sanitizeTicketField (tkSourceServer t), itoa (tkExpiresAt t), itoa (tkCreatedAt t)]"
  have s: "split_on tab (ticketLine t) = ?fs"
    unfolding ticketLine_def using sanitizeTicketField_out itoa_out by (intro split_on_join) auto
  obtain c where c: "c \<in> set (itoa (tkPort t))" "is_digit_char c" using itoa_digit by blast
  have "c \<in> set (ticketLine t)" using c(1) by (simp add: ticketLine_def)
  with c(2) have nonblank: "trim_space (ticketLine t) \<noteq> []" by (rule trim_space_digit [rotated])
  have "\<exists>rest. ticketLine t = sanitizeTicketField (tkID t) @ tab # rest" by (simp add: ticketLine_def)
  then have nohash: "\<not> has_prefix (ticketLine t) ''#''" using assms has_prefix_hash by (auto simp: writable_def)
  show ?thesis
    unfolding readTicket_def s using nonblank nohash assms by (simp add: writable_def sanitizeTicket_def)
qed

lemma newline_ticketLine: "newline \<notin> set (ticketLine t)"
  using sanitizeTicketField_out itoa_out by (auto simp: ticketLine_def tab_def newline_def)

lemma newline_ticketHeader: "newline \<notin> set ticketHeader" and readTicket_header: "readTicket now ticketHeader = None"
proof -
  have "newline \<notin> set ticketHeader" "has_prefix ticketHeader ''#''" by code_simp+
  then show "newline \<notin> set ticketHeader" "readTicket now ticketHeader = None" by (simp_all add: readTicket_def)
qed

lemma load_ticketsText:
  assumes "ticketsFile d = Some (ticketsText ts)" and "list_all writable ts"
  shows "loadTransferTickets now d = filter (\<lambda>t. now < tkExpiresAt t) (map sanitizeTicket ts)"
proof -
  have "split_on newline (ticketsText ts) = (ticketHeader # map ticketLine ts) @ [[]]"
    unfolding ticketsText_def using newline_ticketLine newline_ticketHeader by (intro split_on_terminated) auto
  moreover have "readTicket now [] = None" by (simp add: readTicket_def)
  moreover have "List.map_filter (readTicket now) (map ticketLine ts @ [[]]) = filter (\<lambda>t. now < tkExpiresAt t) (map sanitizeTicket ts)"
    using assms(2) \<open>readTicket now [] = None\<close>
    by (induction ts) (auto simp: map_filter_simps readTicket_line sanitizeTicket_def)
  ultimately show ?thesis using assms(1) by (simp add: loadTransferTickets_def map_filter_simps readTicket_header)
qed

section \<open>Issued tickets\<close>

lemma selectPort_range:
  assumes "selectPort used assigned pool = p" and "p \<noteq> 0"
  shows "p \<in> {fst pool..snd pool}" and "p \<notin> set used" and "p \<notin> fst ` set assigned"
  using assms by (auto simp: selectPort_def find_Some_iff split: option.splits dest: nth_mem)

lemma set_staticPublicPorts: "fst ` set (staticPublicPorts t) = {p \<in> bPublicPort ` set (tBackends t). p > 0}"
proof -
  have "fst ` set (foldl (\<lambda>ports b. if bPublicPort b > 0 then AList.update (bPublicPort b) (bID b) ports else ports) acc bs) =
      fst ` set acc \<union> {p \<in> bPublicPort ` set bs. p > 0}" for acc and bs :: "backendDefinition list"
    by (induction bs arbitrary: acc) (auto simp: dom_update)
  then show ?thesis by (simp add: staticPublicPorts_def)
qed

lemma loadTopology_frame:
  assumes "loadTopology ok d = (res, d1)"
  shows "ticketsFile d1 = ticketsFile d" "db d1 = db d" "transferTTL d1 = transferTTL d"
    "transferPortStart d1 = transferPortStart d" "transferPortEnd d1 = transferPortEnd d"
  using assms by (auto simp: loadTopology_def ensureUnifiedConfig_def split: option.splits if_splits sum.splits prod.splits)

lemma issueTicket_Inr:
  assumes "issueTicket h n request d = (Inr t, d')"
  obtains topology d1 where "loadTopology (diskOK h n) d = (topology, d1)"
    and "tkPort t = selectPort (map tkPort (loadTransferTickets (clock h n) d))
      (case topology of Inl _ \<Rightarrow> [] | Inr x \<Rightarrow> staticPublicPorts x) (transferPoolRange d1)"
    and "tkPort t \<noteq> 0" and "randomTicketID (random h n) = Some (tkID t)"
    and "tkDestination t = trqDestination request" and "tkSourceIP t = trqSourceIP request" and "tkXUID t = trqXUID request"
    and "tkSourceServer t = trqSourceServer request"
    and "tkCreatedAt t = clock h (Suc n)" and "tkExpiresAt t = clock h (Suc n) + transferTTL d"
    and "ticketsFile d' = Some (ticketsText (loadTransferTickets (clock h n) d @ [t]))"
    and "db d' = createTransfer (db d) t" and "unifiedFile d' = unifiedFile d1"
    and "transferTTL d' = transferTTL d" and "transferPortStart d' = transferPortStart d" and "transferPortEnd d' = transferPortEnd d"
proof -
  obtain topology d1 where l: "loadTopology (diskOK h n) d = (topology, d1)" by force
  show thesis
    using assms loadTopology_frame [OF l]
    by (intro that [OF l]) (auto simp: issueTicket_def l Let_def writeTransferTickets_def split: if_splits option.splits)
qed

lemma createTransferTicket_cases:
  assumes "createTransferTicket G h n q d = (res, d')"
  obtains (refused) err where "res = Inl err" and "d' = d"
    | (tried) "issueTicket h n (sanitizeRequest G d q) d = (res, d')"
      and "trqDestination (sanitizeRequest G d q) \<noteq> []"
      and "transferRequireIP d \<Longrightarrow> trqSourceIP (sanitizeRequest G d q) \<noteq> []"
      and "fst (backendAvailable G d (trqDestination (sanitizeRequest G d q)))"
      and "fst (profileAccess (db d) (trqXUID (sanitizeRequest G d q)) (trqDestination (sanitizeRequest G d q)))"
  using assms
  by (auto simp: createTransferTicket_def Let_def refuse_def split: prod.splits sum.splits option.splits if_splits)

text \<open>C16: A transfer ticket is issued only when it may be: its destination is a backend that reports itself enabled
  and healthy, the player's profile admits it there, a source address is known when the
  configuration demands one; and its port lies in the transfer pool, is used by no live ticket and is
  no backend's public port.\<close>

theorem issued_ticket_is_admissible:
  assumes "createTransferTicket G h n q d = (Inr t, d')" and "loadTopology (diskOK h n) d = (topology, d1)"
  shows "fst (backendAvailable G d (tkDestination t)) \<and> fst (profileAccess (db d) (tkXUID t) (tkDestination t)) \<and>
    (transferRequireIP d \<longrightarrow> tkSourceIP t \<noteq> []) \<and>
    tkPort t \<in> {fst (transferPoolRange d1)..snd (transferPoolRange d1)} \<and>
    tkPort t \<notin> tkPort ` set (loadTransferTickets (clock h n) d) \<and>
    (\<forall>x. topology = Inr x \<longrightarrow> 0 < tkPort t \<longrightarrow> tkPort t \<notin> bPublicPort ` set (tBackends x)) \<and>
    tkExpiresAt t = tkCreatedAt t + transferTTL d"
  using assms(1)
proof (cases rule: createTransferTicket_cases)
  case tried
  show ?thesis
  proof (rule issueTicket_Inr [OF tried(1)])
    fix topology' d1'
    assume l: "loadTopology (diskOK h n) d = (topology', d1')"
      and p: "tkPort t = selectPort (map tkPort (loadTransferTickets (clock h n) d))
        (case topology' of Inl _ \<Rightarrow> [] | Inr x \<Rightarrow> staticPublicPorts x) (transferPoolRange d1')" "tkPort t \<noteq> 0"
      and f: "tkDestination t = trqDestination (sanitizeRequest G d q)" "tkSourceIP t = trqSourceIP (sanitizeRequest G d q)"
        "tkXUID t = trqXUID (sanitizeRequest G d q)" "tkCreatedAt t = clock h (Suc n)"
        "tkExpiresAt t = clock h (Suc n) + transferTTL d"
    have same: "topology' = topology" "d1' = d1" using l assms(2) by auto
    note range = selectPort_range [OF p(1) [symmetric] p(2)]
    have "tkPort t \<notin> bPublicPort ` set (tBackends x)" if "topology = Inr x" "0 < tkPort t" for x
      using range(3) that same by (auto simp: set_staticPublicPorts)
    then show ?thesis using range(1,2) tried(3-5) f same by auto
  qed
qed simp

section \<open>Live tickets\<close>

text \<open>The integers of the state and the clock are 64-bit, as Go's types make them.\<close>

definition fits :: "host \<Rightarrow> dashboard \<Rightarrow> bool" where
  "fits h d \<longleftrightarrow> in_int64 (transferPortStart d) \<and> in_int64 (transferPortEnd d) \<and>
     (\<forall>k. in_int64 (clock h k) \<and> in_int64 (clock h k + transferTTL d))"

definition tickets_wf :: "dashboard \<Rightarrow> bool" where
  "tickets_wf d \<longleftrightarrow> ticketsFile d = None \<or>
     (\<exists>ts. ticketsFile d = Some (ticketsText ts) \<and> list_all writable ts \<and> distinct (map tkPort ts))"

inductive ticket_step :: "dashboard \<Rightarrow> dashboard \<Rightarrow> bool" where
  requested: "handleTransferRequest G readBody decode h r d = (rep, d') \<Longrightarrow> fits h d \<Longrightarrow> ticket_step d d'"
| operated: "handleTransfersAPI G decoded h r d = (rep, d') \<Longrightarrow> fits h d \<Longrightarrow> ticket_step d d'"
| pruned: "removeTicketsForStaticPorts h n t d = (res, d') \<Longrightarrow> ticket_step d d'"

lemma sanitizeTicketField_idem [simp]: "sanitizeTicketField (sanitizeTicketField v) = sanitizeTicketField v"
proof -
  let ?r = "replace_char carriage_return (CHR '' '') (replace_char newline (CHR '' '') (replace_char tab (CHR '' '') v))"
  have "carriage_return \<notin> set ?r" by (rule replace_char_notin) (simp add: carriage_return_def)
  then have cr: "carriage_return \<notin> set (sanitizeTicketField v)" using set_trim_space unfolding sanitizeTicketField_def by blast
  show ?thesis
    using sanitizeTicketField_out [of v] cr
    by (simp add: sanitizeTicketField_def [of "sanitizeTicketField v"] replace_char_id) (simp add: sanitizeTicketField_def)
qed

lemma writable_sanitizeTicket [simp]: "writable (sanitizeTicket t) \<longleftrightarrow> writable t"
  by (simp add: writable_def sanitizeTicket_def)

lemma tkPort_sanitizeTicket [simp]: "tkPort (sanitizeTicket t) = tkPort t" "tkExpiresAt (sanitizeTicket t) = tkExpiresAt t"
  by (simp_all add: sanitizeTicket_def)

lemma tickets_wf_load:
  assumes "tickets_wf d"
  shows "list_all writable (loadTransferTickets now d)" and "distinct (map tkPort (loadTransferTickets now d))"
proof -
  have "list_all writable (loadTransferTickets now d) \<and> distinct (map tkPort (loadTransferTickets now d))"
  proof (cases "ticketsFile d")
    case None
    then show ?thesis by (simp add: loadTransferTickets_def map_filter_simps readTicket_def)
  next
    case (Some c)
    then obtain ts where ts: "ticketsFile d = Some (ticketsText ts)" "list_all writable ts" "distinct (map tkPort ts)"
      using assms by (auto simp: tickets_wf_def)
    have "distinct (map tkPort (map sanitizeTicket ts))" using ts(3) by (simp add: comp_def)
    then have "distinct (map tkPort (filter (\<lambda>t. now < tkExpiresAt t) (map sanitizeTicket ts)))" by (rule distinct_map_filter)
    then show ?thesis
      unfolding load_ticketsText [OF ts(1,2)] using ts(2) by (auto simp: list_all_iff)
  qed
  then show "list_all writable (loadTransferTickets now d)" "distinct (map tkPort (loadTransferTickets now d))" by auto
qed

lemma tickets_wf_written:
  assumes "writeTransferTickets ok ts d = Inr d'" and "list_all writable ts" and "distinct (map tkPort ts)"
  shows "tickets_wf d'"
  using assms by (auto simp: writeTransferTickets_def tickets_wf_def split: if_splits)

lemma transferPoolRange_int64:
  assumes "in_int64 (transferPortStart d)" and "in_int64 (transferPortEnd d)" and "p \<in> {fst (transferPoolRange d)..snd (transferPoolRange d)}"
  shows "in_int64 p"
proof -
  have g: "in_int64 (getInt doc s k f 1 65535)" if "in_int64 f" for doc s k f
    using that by (auto simp: getInt_def in_int64_def min_int64_def max_int64_def split: option.splits)
  have "in_int64 (fst (transferPoolRange d)) \<and> in_int64 (snd (transferPoolRange d))"
    using assms(1,2) g by (auto simp: transferPoolRange_def Let_def split: sum.splits)
  then show ?thesis using assms(3) by (auto simp: in_int64_def)
qed

lemma hex_no_hash: "\<not> has_prefix (sanitizeTicketField (hex_encode x)) ''#''"
proof -
  have "CHR ''#'' \<notin> set hex_alphabet" by code_simp
  then have "CHR ''#'' \<notin> set (hex_encode x)" using hex_encode_set by blast
  then have "CHR ''#'' \<notin> set (replace_char carriage_return (CHR '' '') (replace_char newline (CHR '' '')
      (replace_char tab (CHR '' '') (hex_encode x))))"
    by (intro replace_char_keeps_out) simp_all
  then have "CHR ''#'' \<notin> set (sanitizeTicketField (hex_encode x))"
    using set_trim_space unfolding sanitizeTicketField_def by blast
  then show ?thesis by (auto simp: has_prefix_def prefix_def)
qed

lemma issueTicket_wf:
  assumes "issueTicket h n q d = (res, d')" and "fits h d" and "tickets_wf d"
  shows "tickets_wf d'"
proof (cases res)
  case (Inl err)
  have "ticketsFile d' = ticketsFile d"
    using assms(1) Inl loadTopology_frame(1)
    by (auto simp: issueTicket_def Let_def split: prod.splits if_splits option.splits sum.splits)
  then show ?thesis using assms(3) by (simp add: tickets_wf_def)
next
  case (Inr t)
  show ?thesis
  proof (rule issueTicket_Inr [OF assms(1) [unfolded Inr]])
    fix topology d1
    assume l: "loadTopology (diskOK h n) d = (topology, d1)"
      and p: "tkPort t = selectPort (map tkPort (loadTransferTickets (clock h n) d))
        (case topology of Inl _ \<Rightarrow> [] | Inr x \<Rightarrow> staticPublicPorts x) (transferPoolRange d1)" "tkPort t \<noteq> 0"
      and i: "randomTicketID (random h n) = Some (tkID t)"
      and c: "tkCreatedAt t = clock h (Suc n)" "tkExpiresAt t = clock h (Suc n) + transferTTL d"
      and f: "ticketsFile d' = Some (ticketsText (loadTransferTickets (clock h n) d @ [t]))"
    note range = selectPort_range [OF p(1) [symmetric] p(2)]
    have "in_int64 (tkPort t)"
      using transferPoolRange_int64 [OF _ _ range(1)] assms(2) loadTopology_frame [OF l] by (simp add: fits_def)
    moreover obtain z where "tkID t = hex_encode z" using i unfolding randomTicketID_def by (metis map_option_eq_Some)
    ultimately have "writable t" using assms(2) c hex_no_hash by (simp add: writable_def fits_def)
    then show ?thesis
      using f tickets_wf_load [OF assms(3)] range(2) unfolding tickets_wf_def by (intro disjI2 exI conjI) auto
  qed
qed

lemma createTransferTicket_wf:
  assumes "createTransferTicket G h n q d = (res, d')" and "fits h d" and "tickets_wf d"
  shows "tickets_wf d'"
  using assms(1) by (cases rule: createTransferTicket_cases) (use assms issueTicket_wf in auto)

lemma verifySignedBody_frame:
  assumes "verifySignedBody G t t' r body d = (res, d1)"
  obtains seen where "d1 = d\<lparr>replaySeen := seen\<rparr>"
proof -
  have "d1 = d \<or> (\<exists>seen. d1 = d\<lparr>replaySeen := seen\<rparr>)"
    using assms by (auto simp: verifySignedBody_def Let_def split: option.splits prod.splits if_splits)
  moreover have "d = d\<lparr>replaySeen := replaySeen d\<rparr>" by simp
  ultimately show thesis using that by blast
qed

lemma removeTickets_wf:
  assumes "removeTicketsForStaticPorts h n t d = (res, d')" and "tickets_wf d"
  shows "tickets_wf d'"
proof -
  let ?ts = "loadTransferTickets (clock h n) d"
  have "list_all writable (filter P ?ts) \<and> distinct (map tkPort (filter P ?ts))" for P
    using tickets_wf_load [OF assms(2)] by (auto simp: list_all_iff intro: distinct_map_filter)
  then show ?thesis
    using assms by (auto simp: removeTicketsForStaticPorts_def writeTransferTickets_def tickets_wf_def Let_def split: if_splits)
qed

lemma ticket_step_wf: "ticket_step d d' \<Longrightarrow> tickets_wf d \<Longrightarrow> tickets_wf d'"
proof (induction rule: ticket_step.induct)
  case (requested G readBody decode h r d rep d')
  show ?case
  proof (cases "verb r = ''POST'' \<and> readBody \<noteq> None")
    case True
    then obtain body where body: "readBody = Some body" by auto
    obtain res d1 where v: "verifySignedBody G (clock h 0) (clock h 1) r body d = (res, d1)" by force
    obtain seen where "d1 = d\<lparr>replaySeen := seen\<rparr>" using verifySignedBody_frame [OF v] .
    then have d1: "tickets_wf d1" "fits h d1"
      using requested.prems requested.hyps(2) by (simp_all add: tickets_wf_def fits_def)
    show ?thesis
    proof (cases "d' = d1")
      case False
      then obtain q res2 where "createTransferTicket G h 2 q d1 = (res2, d')"
        using requested.hyps(1) True body v
        by (cases res) (auto simp: handleTransferRequest_def finish_eq early_return Let_def ticketReply_eq)
      then show ?thesis using createTransferTicket_wf d1 by blast
    qed (use d1 in simp)
  next
    case False
    then have "d' = d" using requested.hyps(1) by (auto simp: handleTransferRequest_def finish_eq early_return)
    then show ?thesis using requested.prems by simp
  qed
next
  case (operated G decoded h r d rep d')
  show ?case
  proof (cases "verb r = ''GET''")
    case True
    let ?d1 = "case writeTransferTickets (diskOK h 0) (loadTransferTickets (clock h 0) d) d of Inl _ \<Rightarrow> d | Inr d' \<Rightarrow> d'"
    have "tickets_wf ?d1"
      using tickets_wf_load [OF operated.prems] operated.prems tickets_wf_written by (auto split: sum.splits)
    moreover have "d' = snd (loadTopology (diskOK h 1) ?d1)"
      using operated.hyps(1) True by (simp add: handleTransfersAPI_def Let_def split: prod.splits)
    ultimately show ?thesis
      using loadTopology_frame(1) [OF surjective_pairing] by (simp add: tickets_wf_def)
  next
    case False
    then have "d' = d \<or> (\<exists>q res2. createTransferTicket G h 0 q d = (res2, d'))"
      using operated.hyps(1)
      by (auto simp: handleTransfersAPI_def finish_eq early_return ticketReply_eq split: if_splits)
    then show ?thesis using operated createTransferTicket_wf by blast
  qed
next
  case (pruned h n t d res d')
  then show ?case by (rule removeTickets_wf)
qed

interpretation tickets: invariant_system "\<lambda>d. ticketsFile d = None" ticket_step tickets_wf
  by unfold_locales (simp add: tickets_wf_def, rule ticket_step_wf)

section \<open>Properties of the ticket file\<close>

text \<open>The ticket file keeps tickets exactly: what was written is read back, with the fields sanitized and
  without the tickets that have expired, whatever characters the fields held; the numbers being 64-bit
  and no ID reading as a comment.\<close>

theorem ticket_file_round_trip:
  assumes "writeTransferTickets ok ts d = Inr d'" and "list_all writable ts"
  shows "loadTransferTickets now d' = filter (\<lambda>t. now < tkExpiresAt t) (map sanitizeTicket ts)"
  using assms load_ticketsText [of d' ts now] by (auto simp: writeTransferTickets_def split: if_splits)

theorem ticket_file_round_trip_witness:
  "loadTransferTickets 20999 (emptyDashboard\<lparr>ticketsFile := Some (ticketsText [sampleTicket])\<rparr>) = [sampleTicket] \<and>
   loadTransferTickets 21000 (emptyDashboard\<lparr>ticketsFile := Some (ticketsText [sampleTicket])\<rparr>) = []"
proof -
  have "writeTransferTickets True [sampleTicket] emptyDashboard = Inr (emptyDashboard\<lparr>ticketsFile := Some (ticketsText [sampleTicket])\<rparr>)"
    by (simp add: writeTransferTickets_def)
  moreover have "sanitizeTicket sampleTicket = sampleTicket" by code_simp
  moreover have "\<not> has_prefix (sanitizeTicketField (tkID sampleTicket)) ''#''" by code_simp
  then have "list_all writable [sampleTicket]"
    by (simp add: writable_def in_int64_def min_int64_def max_int64_def) (simp add: sampleTicket_def)
  ultimately show ?thesis
    using ticket_file_round_trip [of True "[sampleTicket]" emptyDashboard _ 20999]
      ticket_file_round_trip [of True "[sampleTicket]" emptyDashboard _ 21000] by (simp add: sampleTicket_def)
qed

text \<open>C9: At every moment the live tickets have pairwise different ports, so a connection on a transfer port
  belongs to one ticket: whatever requests of companions and operators and changes of static routes
  happened since the dashboard started without a ticket file.\<close>

theorem live_tickets_have_own_ports:
  assumes "reachable (\<lambda>d. ticketsFile d = None) ticket_step d"
  shows "distinct (map tkPort (loadTransferTickets now d))"
  using tickets_wf_load(2) [OF tickets.inv_reachable [OF assms]] .

text \<open>A companion can request transfers only for its own server: a ticket that a signed request obtained
  names, as its source server, the server whose secret signed the request.\<close>

theorem signed_transfer_names_signer:
  assumes "handleTransferRequest G readBody decode h r d = ((200, body), d')"
  shows "\<exists>t content rows. readBody = Some content \<and>
    header r ''X-NinjOS-Signature'' =
      signature G (companionSecret d (normalizeCompanionServerID (header r ''X-NinjOS-Server''))) (header r ''X-NinjOS-Timestamp'') content \<and>
    ticketsFile d' = Some (ticketsText (rows @ [t])) \<and>
    tkSourceServer t = sanitizeTicketField (normalizeCompanionServerID (header r ''X-NinjOS-Server''))"
proof -
  let ?server = "normalizeCompanionServerID (header r ''X-NinjOS-Server'')"
  obtain content where c: "readBody = Some content" "verb r = ''POST''"
    using assms by (auto simp: handleTransferRequest_def finish_eq early_return error_reply_def)
  obtain res d1 where v: "verifySignedBody G (clock h 0) (clock h 1) r content d = (res, d1)" by force
  have ok: "res = Inr ()" using assms c v by (cases res) (auto simp: handleTransferRequest_def error_reply_def split: if_splits)
  obtain x t where q: "createTransferTicket G h 2 (x\<lparr>trqSourceServer := ?server\<rparr>) d1 = (Inr t, d')"
    using assms c v ok
    by (auto simp: handleTransferRequest_def finish_eq early_return Let_def ticketReply_eq error_reply_def)
  let ?q = "x\<lparr>trqSourceServer := ?server\<rparr>"
  from q have "issueTicket h 2 (sanitizeRequest G d1 ?q) d1 = (Inr t, d')" by (cases rule: createTransferTicket_cases) auto
  then have "tkSourceServer t = trqSourceServer (sanitizeRequest G d1 ?q)"
    "ticketsFile d' = Some (ticketsText (loadTransferTickets (clock h 2) d1 @ [t]))"
    using issueTicket_Inr by metis+
  moreover have "trqSourceServer (sanitizeRequest G d1 ?q) = sanitizeTicketField ?server"
    by (simp add: sanitizeRequest_def Let_def)
  ultimately show ?thesis using c(1) verifySignedBody_Inr(3) [OF v [unfolded ok]] by metis
qed

text \<open>A change of the static routes withdraws the tickets on their ports: afterwards no live ticket has a
  backend's public port, and every other live ticket is still there.\<close>

theorem static_routes_free_of_tickets:
  assumes "removeTicketsForStaticPorts h n t d = (Inr (), d')" and "tickets_wf d" and "clock h n \<le> now"
  shows "loadTransferTickets now d' =
    filter (\<lambda>k. tkPort k \<le> 0 \<or> tkPort k \<notin> bPublicPort ` set (tBackends t)) (loadTransferTickets now d)"
proof (cases "staticPublicPorts t = []")
  case True
  then have "fst ` set (staticPublicPorts t) = {}" by simp
  then have "\<forall>p. p \<le> 0 \<or> p \<notin> bPublicPort ` set (tBackends t)"
    unfolding set_staticPublicPorts by (auto simp: not_le)
  then show ?thesis using assms(1) True by (simp add: removeTicketsForStaticPorts_def)
next
  case False
  let ?old = "loadTransferTickets (clock h n) d" and ?P = "\<lambda>k. map_of (staticPublicPorts t) (tkPort k) = None"
  have P: "?P k \<longleftrightarrow> tkPort k \<le> 0 \<or> tkPort k \<notin> bPublicPort ` set (tBackends t)" for k
    unfolding map_of_eq_None_iff set_staticPublicPorts by (auto simp: not_le)
  have stored: "ticketsFile d' = Some (ticketsText (filter ?P ?old))"
    using assms(1) False by (auto simp: removeTicketsForStaticPorts_def Let_def writeTransferTickets_def split: if_splits)
  have "list_all writable (filter ?P ?old)" using tickets_wf_load(1) [OF assms(2)] by (auto simp: list_all_iff)
  note new = load_ticketsText [OF stored this, of now]
  show ?thesis
  proof (cases "ticketsFile d")
    case None
    then have "loadTransferTickets x d = []" for x by (simp add: loadTransferTickets_def map_filter_simps readTicket_def)
    then show ?thesis using new by simp
  next
    case (Some c)
    then obtain ts where ts: "ticketsFile d = Some (ticketsText ts)" "list_all writable ts"
      using assms(2) by (auto simp: tickets_wf_def)
    have "sanitizeTicket (sanitizeTicket x) = sanitizeTicket x" for x by (simp add: sanitizeTicket_def)
    then show ?thesis
      unfolding new load_ticketsText [OF ts] P using assms(3)
      by (induction ts) auto
  qed
qed

section \<open>Witnesses\<close>

definition ticketDashboard :: "(string \<times> int) list \<Rightarrow> dashboard" where
  "ticketDashboard seen = emptyDashboard\<lparr>replaySeen := seen, unifiedFile := Some sampleConfig, transferRequireIP := False,
     stateFiles := (\<lambda>_. Absent)(''gateway-state.json'' := Decoded (JObj [(''backends'',
       JArr [JObj [(''name'', JStr ''zoo''), (''enabled'', JBool True), (''healthy'', JBool True)]])]))\<rparr>"

definition zooRequest :: transferRequest where
  "zooRequest = \<lparr>trqDestination = ''zoo'', trqSourceIP = [], trqSourcePort = 0, trqXUID = ''2535'', trqPlayerName = ''Alex'',
     trqSourceServer = ''kingdom''\<rparr>"

lemma sample_pool: "transferPoolRange (ticketDashboard seen) = (25600, 25619)"
proof -
  have "to_lower ''transfer'' = ''transfer''" by code_simp
  then have g: "get sampleDocument ''transfer'' k x = x" for k x by (simp add: get_def sampleDocument_def)
  have "loadINI (ticketDashboard seen) = Inr sampleDocument"
    using sampleConfig_read by (simp add: loadINI_def ticketDashboard_def sampleDocument_def)
  moreover have pool: "transferPortStart (ticketDashboard seen) = 25600" "transferPortEnd (ticketDashboard seen) = 25619"
    by (simp_all add: ticketDashboard_def emptyDashboard_def)
  moreover have "in_int64 25600" "in_int64 25619" by (simp_all add: in_int64_def min_int64_def max_int64_def)
  ultimately show ?thesis
    by (simp add: transferPoolRange_def Let_def pool g getInt_absent)
qed

lemma sample_loaded:
  "loadTopology ok (ticketDashboard seen) = (Inr (smallTopology ''primary'' 19132 0 50), ticketDashboard seen)"
  using validate_topology [OF sample_documents_valid(1)] sampleConfig_read sample_topologies(1)
  by (simp add: loadTopology_def ticketDashboard_def sampleDocument_def)

lemma sample_issued:
  assumes "random h n = Some x" and "diskOK h (Suc n)"
  shows "\<exists>t d'. createTransferTicket sample_golib h n (zooRequest\<lparr>trqSourceServer := src\<rparr>) (ticketDashboard seen) = (Inr t, d') \<and>
     tkPort t = 25600"
proof -
  have n: "sanitizeTicketField ''zoo'' = ''zoo''" "sanitizeTicketField ''2535'' = ''2535''" "normalizeCompanionServerID ''zoo'' = ''zoo''"
    by code_simp+
  let ?q = "sanitizeRequest sample_golib (ticketDashboard seen) (zooRequest\<lparr>trqSourceServer := src\<rparr>)"
  have s: "trqDestination ?q = ''zoo''" "trqXUID ?q = ''2535''"
    by (simp_all add: sanitizeRequest_def zooRequest_def resolveGatewaySourceIP_def n)
  have a: "backendAvailable sample_golib (ticketDashboard seen) ''zoo'' = (True, [])"
    by (simp add: backendAvailable_def combinedRuntimeState_def safeMap_def ticketDashboard_def field_def as_array_def as_object_def
        as_bool_def objects_def mergeBackend_def textField_def number_def Let_def n)
  have "profileAccess emptyLedger ''2535'' ''zoo'' = (True, [])" by code_simp
  then have p: "profileAccess (db (ticketDashboard seen)) ''2535'' ''zoo'' = (True, [])"
    by (simp add: ticketDashboard_def emptyDashboard_def)
  have "loadTransferTickets x (ticketDashboard seen) = []" for x
    by (simp add: loadTransferTickets_def ticketDashboard_def emptyDashboard_def map_filter_simps readTicket_def)
  moreover have "selectPort [] (staticPublicPorts (smallTopology ''primary'' 19132 0 50)) (25600, 25619) = 25600"
    by (simp add: selectPort_def staticPublicPorts_def smallTopology_def upto_rec1)
  moreover have "\<not> transferRequireIP (ticketDashboard seen)" by (simp add: ticketDashboard_def)
  ultimately show ?thesis
    using assms
    by (simp add: createTransferTicket_def s a p refuse_def issueTicket_def sample_loaded sample_pool randomTicketID_def
        writeTransferTickets_def Let_def)
qed

definition zooHost :: host where
  "zooHost = sampleHost\<lparr>clock := (\<lambda>_. 1100)\<rparr>"

lemma sample_hosts:
  "random sampleHost n = Some ''0123456789abcdef''" "diskOK sampleHost n"
  "random zooHost n = Some ''0123456789abcdef''" "diskOK zooHost n" "clock zooHost n = 1100"
  by (simp_all add: sampleHost_def zooHost_def)

theorem issued_ticket_is_admissible_witness:
  "\<exists>t d'. createTransferTicket sample_golib sampleHost 0 (zooRequest\<lparr>trqSourceServer := []\<rparr>) (ticketDashboard []) = (Inr t, d') \<and>
     tkPort t \<in> {25600..25619}"
proof -
  obtain t d' where t: "createTransferTicket sample_golib sampleHost 0 (zooRequest\<lparr>trqSourceServer := []\<rparr>) (ticketDashboard []) = (Inr t, d')"
    using sample_issued [OF sample_hosts(1,2)] by blast
  from issued_ticket_is_admissible [OF t sample_loaded] show ?thesis using t by (auto simp: sample_pool)
qed

lemma sample_signed:
  "\<exists>body d'. handleTransferRequest sample_golib (Some ''{}'') (\<lambda>_. Some (zooRequest\<lparr>trqSourceServer := []\<rparr>)) zooHost signedRequest
     (ticketDashboard []) = ((200, body), d')"
proof -
  have z: "normalizeCompanionServerID ''zoo'' = ''zoo''" "normalizeCompanionServerID [] = []" by code_simp+
  have signed_verb: "verb signedRequest = ''POST''" by (simp add: signedRequest_def postRequest_def)
  have v: "companionSecret (ticketDashboard []) s = ''CHANGE_ME_NOW''" for s
    by (simp add: companionSecret_def ticketDashboard_def emptyDashboard_def map_get_def)
  have "\<not> stale 1100 100"
    using stale_iff [of 1100 100] by (simp add: in_int64_def max_int64_def min_int64_def)
  then obtain seen where "verifySignedBody sample_golib 1100 1100 signedRequest ''{}'' (ticketDashboard []) = (Inr (), ticketDashboard seen)"
    using z v signedRequest_time
    by (simp add: verifySignedBody_def signedRequest_headers Let_def case_prod_beta acceptReplayKey_def ticketDashboard_def emptyDashboard_def)
  moreover obtain t d' where "createTransferTicket sample_golib zooHost 2 (zooRequest\<lparr>trqSourceServer := ''zoo''\<rparr>) (ticketDashboard seen) = (Inr t, d')"
    using sample_issued [OF sample_hosts(3,4)] by blast
  ultimately show ?thesis
    using z signed_verb by (simp add: handleTransferRequest_def sample_hosts signedRequest_headers ticketReply_def Let_def)
qed

theorem live_tickets_have_own_ports_witness:
  "\<exists>body d'. handleTransferRequest sample_golib (Some ''{}'') (\<lambda>_. Some (zooRequest\<lparr>trqSourceServer := []\<rparr>)) zooHost signedRequest
     (ticketDashboard []) = ((200, body), d') \<and> distinct (map tkPort (loadTransferTickets 0 d'))"
proof -
  obtain body d' where s: "handleTransferRequest sample_golib (Some ''{}'') (\<lambda>_. Some (zooRequest\<lparr>trqSourceServer := []\<rparr>)) zooHost signedRequest
     (ticketDashboard []) = ((200, body), d')" using sample_signed by blast
  have "fits zooHost (ticketDashboard [])"
    by (simp add: fits_def zooHost_def ticketDashboard_def emptyDashboard_def in_int64_def min_int64_def max_int64_def)
  with s have "ticket_step (ticketDashboard []) d'" by (rule requested)
  moreover have "reachable (\<lambda>d. ticketsFile d = None) ticket_step (ticketDashboard [])"
    by (rule reach_init) (simp add: ticketDashboard_def emptyDashboard_def)
  ultimately have "reachable (\<lambda>d. ticketsFile d = None) ticket_step d'" by (rule reach_step [rotated])
  from live_tickets_have_own_ports [OF this] s show ?thesis by blast
qed

theorem signed_transfer_names_signer_witness:
  "\<exists>t rows body d'. handleTransferRequest sample_golib (Some ''{}'') (\<lambda>_. Some (zooRequest\<lparr>trqSourceServer := []\<rparr>)) zooHost signedRequest
     (ticketDashboard []) = ((200, body), d') \<and> ticketsFile d' = Some (ticketsText (rows @ [t])) \<and> tkSourceServer t = ''zoo''"
proof -
  obtain body d' where s: "handleTransferRequest sample_golib (Some ''{}'') (\<lambda>_. Some (zooRequest\<lparr>trqSourceServer := []\<rparr>)) zooHost signedRequest
     (ticketDashboard []) = ((200, body), d')" using sample_signed by blast
  have "sanitizeTicketField (normalizeCompanionServerID ''zoo'') = ''zoo''" by code_simp
  with signed_transfer_names_signer [OF s] s show ?thesis by (simp add: signedRequest_headers)
qed

theorem static_routes_free_of_tickets_witness:
  "\<exists>d'. removeTicketsForStaticPorts zooHost 0 (smallTopology ''primary'' 19132 25572 50)
      (emptyDashboard\<lparr>ticketsFile := Some (ticketsText [sampleTicket])\<rparr>) = (Inr (), d') \<and> loadTransferTickets 2000 d' = []"
proof -
  let ?d = "emptyDashboard\<lparr>ticketsFile := Some (ticketsText [sampleTicket])\<rparr>" and ?t = "smallTopology ''primary'' 19132 25572 50"
  have "\<exists>d'. removeTicketsForStaticPorts zooHost 0 ?t ?d = (Inr (), d')"
    by (simp add: removeTicketsForStaticPorts_def writeTransferTickets_def sample_hosts Let_def)
  then obtain d' where d': "removeTicketsForStaticPorts zooHost 0 ?t ?d = (Inr (), d')" by blast
  have "\<not> has_prefix (sanitizeTicketField (tkID sampleTicket)) ''#''" by code_simp
  then have w: "writable sampleTicket"
    by (simp add: writable_def in_int64_def min_int64_def max_int64_def) (simp add: sampleTicket_def)
  then have wf: "tickets_wf ?d" unfolding tickets_wf_def by (intro disjI2 exI [of _ "[sampleTicket]"]) simp
  have "loadTransferTickets 2000 ?d = [sanitizeTicket sampleTicket]"
    using load_ticketsText [of ?d "[sampleTicket]" 2000] w by (simp add: sampleTicket_def)
  with static_routes_free_of_tickets [OF d' wf, of 2000] d' show ?thesis
    by (auto simp: zooHost_def smallTopology_def sampleTicket_def)
qed

end
