(* ===== verification/Backends.thy ===== *)
theory Backends
  imports Tickets
begin

text \<open>
  The backend registry of \<^verbatim>\<open>dashboard/backends.go\<close>: creating, changing and deleting backends and the
  routing settings, each of them a change of the topology that is validated, saved with its
  verification, applied to the tickets and announced to the gateway.  Indices of the host's readings
  follow the order of the calls; those between the writes of \<^verbatim>\<open>saveTopology\<close> and the next one are
  unused.
\<close>

section \<open>Applying a change\<close>

definition putRuntime :: "string \<Rightarrow> string \<Rightarrow> dashboard \<Rightarrow> dashboard" where
  "putRuntime name content d = d\<lparr>runtimeFiles := (runtimeFiles d)(name := Some content)\<rparr>"

definition managedPorts :: "dashboard \<Rightarrow> unit \<Rightarrow> backendDefinition \<Rightarrow> unit result" where
  "managedPorts d u b = (if bEnabled b then validateManagedPort d (bPublicPort b) else Inr ())"

text \<open>Tickets on the new static ports are withdrawn; a failure is only reported as an event.\<close>

definition cleanupTickets :: "host \<Rightarrow> nat \<Rightarrow> topologyConfig \<Rightarrow> dashboard \<Rightarrow> dashboard" where
  "cleanupTickets h n t d =
     (case removeTicketsForStaticPorts h n t d of
        (Inr _, d1) \<Rightarrow> d1
      | (Inl err, d1) \<Rightarrow>
          appendEvent h [(''timestamp'', jint (clock h (n + 1 + length (loadTransferTickets (clock h n) d)))),
            (''type'', JStr ''transfer.pool_cleanup_failed''), (''severity'', JStr ''warning''), (''message'', JStr err)] d1)"

text \<open>The part after the topology was saved.\<close>

definition announceChange ::
  "host \<Rightarrow> http_request \<Rightarrow> topologyConfig \<Rightarrow> string \<Rightarrow> json \<Rightarrow> dashboard \<Rightarrow> unit result \<times> dashboard" where
  "announceChange h r t action details d =
     (let m = 2 + length (loadTransferTickets (clock h 0) d);
          d1 = cleanupTickets h 0 t d
      in if \<not> diskOK h 1 then (Inl ''write error'', d1)
         else
           let d2 = putRuntime ''topology-restart.pending'' (itoa (clock h m)) d1
           in case queueCommand (diskOK h 2) (clock h (m + 1)) ''topology_restart'' [] [] d2 of
                Inl err \<Rightarrow> (Inl err, d2)
              | Inr d3 \<Rightarrow> (Inr (), appendAudit h (clock h (m + 2)) r (principalFromRequest r) action ''restart_queued'' details d3))"

definition applyTopologyChange ::
  "host \<Rightarrow> http_request \<Rightarrow> topologyConfig \<Rightarrow> string \<Rightarrow> json \<Rightarrow> (string \<times> string) option \<Rightarrow> dashboard \<Rightarrow> unit result \<times> dashboard" where
  "applyTopologyChange h r t action details secretRename d =
     (case attempt (validateTopology t) (\<lambda>_. iterate (managedPorts d) () (tBackends t)) of
        Inl err \<Rightarrow> (Inl err, d)
      | Inr _ \<Rightarrow>
          case saveTopology h 3 t secretRename d of
            (Inl err, d1) \<Rightarrow> (Inl err, d1)
          | (Inr _, d1) \<Rightarrow> announceChange h r t action details d1)"

section \<open>Requests\<close>

definition normalDefinition :: "backendDefinition \<Rightarrow> backendDefinition" where
  "normalDefinition b =
     (let legacyRequest = (trim_space (bConnectionMode b) = []);
          i = to_lower (trim_space (bID b));
          mode = to_lower (trim_space (bConnectionMode b));
          adapter = to_lower (trim_space (bBackendAdapter b));
          profile = trim_space (bProfile b)
      in b\<lparr>bID := i, bDisplayName := trim_space (bDisplayName b), bHost := trim_space (bHost b),
           bFallbackBackend := to_lower (trim_space (bFallbackBackend b)), bCompanionSecretEnv := [],
           bConnectionMode := (if mode = [] then ''transparent'' else mode),
           bBackendAdapter := (if adapter = [] then ''proxy_only'' else adapter),
           bCapacity := (if bCapacity b = 0 then 50 else bCapacity b),
           bBackendOnlineMode := (legacyRequest \<or> bBackendOnlineMode b),
           bProfile := (if profile = [] then i else profile)\<rparr>)"

text \<open>The decoder's outcome on the body is an argument, its error a text.\<close>

definition decodeBackendDefinition :: "backendDefinition result \<Rightarrow> backendDefinition result" where
  "decodeBackendDefinition decoded =
     (case decoded of Inl err \<Rightarrow> Inl (''invalid backend request: '' @ err) | Inr b \<Rightarrow> Inr (normalDefinition b))"

definition zeroTopology :: topologyConfig where
  "zeroTopology = \<lparr>tVersion = 0, tPrimaryBackend = [], tRoutingMode = [], tBackends = []\<rparr>"

text \<open>The topology that \<^verbatim>\<open>persisted, _ := d.loadTopology()\<close> gives: also an invalid one when the document can be read.\<close>

definition persistedTopology :: "dashboard \<Rightarrow> topologyConfig" where
  "persistedTopology d = (case loadINI d of Inl _ \<Rightarrow> zeroTopology | Inr doc \<Rightarrow> unifiedTopology doc)"

text \<open>The end of every change: an error is a bad request, otherwise the persisted topology is shown.\<close>

definition changeReply :: "unit result \<times> dashboard \<Rightarrow> nat \<Rightarrow> jobject \<Rightarrow> reply \<times> dashboard" where
  "changeReply outcome code extra =
     (case outcome of
        (Inl err, d) \<Rightarrow> (error_reply 400 err, d)
      | (Inr _, d) \<Rightarrow>
          ((code, JObj ([(''saved'', JBool True)] @ extra @ [(''topology'', jtopology (persistedTopology d)),
              (''gatewayRestartQueued'', JBool True), (''configPath'', JStr (configPath d))])), d))"

definition createBackend :: "backendDefinition result \<Rightarrow> handler" where
  "createBackend decoded h r d = finish d (
     attempt (or_reply 400 (decodeBackendDefinition decoded)) (\<lambda>definition0.
     attempt (or_reply 400 (validateManagedPort d (bPublicPort definition0))) (\<lambda>_.
     Inr (case loadTopology (diskOK h 0) d of
       (Inl err, d1) \<Rightarrow> (error_reply 500 err, d1)
     | (Inr topology, d1) \<Rightarrow>
         if bID definition0 \<in> bID ` set (tBackends topology)
         then (error_reply 409 ''A backend with that ID already exists'', d1)
         else changeReply (applyTopologyChange h r (topology\<lparr>tBackends := tBackends topology @ [definition0]\<rparr>)
                ''backend.create'' (jbackend definition0) None d1) 201 [(''backend'', jbackend definition0)]))))"

text \<open>The loop that replaces the first backend with the old ID.\<close>

fun replaceBackend :: "string \<Rightarrow> backendDefinition \<Rightarrow> backendDefinition list \<Rightarrow> backendDefinition list option" where
  "replaceBackend i b [] = None"
| "replaceBackend i b (x # xs) = (if bID x = i then Some (b # xs) else map_option ((#) x) (replaceBackend i b xs))"

definition updateBackend :: "backendDefinition result \<Rightarrow> handler" where
  "updateBackend decoded h r d =
     (let originalID = to_lower (trim_space (query r ''id'')) in finish d (
      attempt (check (originalID \<noteq> []) (error_reply 400 ''The id query parameter is required'')) (\<lambda>_.
      attempt (or_reply 400 (decodeBackendDefinition decoded)) (\<lambda>definition0.
      attempt (or_reply 400 (validateManagedPort d (bPublicPort definition0))) (\<lambda>_.
      Inr (case loadTopology (diskOK h 0) d of
        (Inl err, d1) \<Rightarrow> (error_reply 500 err, d1)
      | (Inr topology, d1) \<Rightarrow>
          if bID definition0 \<noteq> originalID \<and> bID definition0 \<in> bID ` set (tBackends topology)
          then (error_reply 409 ''The new backend ID is already in use'', d1)
          else case replaceBackend originalID definition0 (tBackends topology) of
            None \<Rightarrow> (error_reply 404 ''Backend not found'', d1)
          | Some backends \<Rightarrow>
              changeReply (applyTopologyChange h r
                (topology\<lparr>tBackends := backends,
                   tPrimaryBackend := (if tPrimaryBackend topology = originalID then bID definition0 else tPrimaryBackend topology)\<rparr>)
                ''backend.update'' (JObj [(''from'', JStr originalID), (''backend'', jbackend definition0)])
                (Some (originalID, bID definition0)) d1) 200 [(''backend'', jbackend definition0)]))))))"

definition deleteBackend :: handler where
  "deleteBackend h r d =
     (let i = to_lower (trim_space (query r ''id'')) in finish d (
      attempt (check (i \<noteq> []) (error_reply 400 ''The id query parameter is required'')) (\<lambda>_.
      Inr (case loadTopology (diskOK h 0) d of
        (Inl err, d1) \<Rightarrow> (error_reply 500 err, d1)
      | (Inr topology, d1) \<Rightarrow>
          if length (tBackends topology) = 1 then (error_reply 409 ''The last backend cannot be deleted'', d1)
          else if i \<notin> bID ` set (tBackends topology) then (error_reply 404 ''Backend not found'', d1)
          else
            let next = filter (\<lambda>b. bID b \<noteq> i) (tBackends topology) in
            changeReply (applyTopologyChange h r
              (topology\<lparr>tBackends := next,
                 tPrimaryBackend := (if tPrimaryBackend topology = i then bID (hd next) else tPrimaryBackend topology)\<rparr>)
              ''backend.delete'' (JObj [(''id'', JStr i)]) None d1) 200 [(''deleted'', JStr i)]))))"

record topologySettings =
  tsPrimaryBackend :: string
  tsRoutingMode :: string

definition handleTopologySettings :: "topologySettings option \<Rightarrow> handler" where
  "handleTopologySettings decoded h r d = finish d (
     attempt (check (verb r = ''PUT'') (error_reply 405 ''Method not allowed'')) (\<lambda>_.
     attempt (some_or (error_reply 400 ''Invalid settings request'') decoded) (\<lambda>request.
     Inr (case loadTopology (diskOK h 0) d of
       (Inl err, d1) \<Rightarrow> (error_reply 500 err, d1)
     | (Inr topology, d1) \<Rightarrow>
         changeReply (applyTopologyChange h r
           (topology\<lparr>tPrimaryBackend := trim_space (tsPrimaryBackend request), tRoutingMode := trim_space (tsRoutingMode request)\<rparr>)
           ''topology.settings''
           (JObj [(''primaryBackend'', JStr (tsPrimaryBackend request)), (''routingMode'', JStr (tsRoutingMode request))])
           None d1) 200 []))))"

definition handleBackendRegistry :: "backendDefinition result \<Rightarrow> handler" where
  "handleBackendRegistry decoded h r d =
     (if verb r = ''GET'' then
        (case loadTopology (diskOK h 0) d of
           (Inl err, d1) \<Rightarrow> (error_reply 500 err, d1)
         | (Inr topology, d1) \<Rightarrow>
             ((200, JObj [(''topology'', jtopology topology), (''allowedPublicPorts'', JArr (map jint (allowedPublicPorts d1))),
                (''availableTransferPorts'', JArr (map jint (availableTransferPorts (diskOK h 1) d1))),
                (''restartPending'', JBool (runtimeFiles d1 ''topology-restart.pending'' \<noteq> None)),
                (''path'', JStr (configPath d1))]), d1))
      else if verb r = ''POST'' then createBackend decoded h r d
      else if verb r = ''PUT'' then updateBackend decoded h r d
      else if verb r = ''DELETE'' then deleteBackend h r d
      else (error_reply 405 ''Method not allowed'', d))"

section \<open>Saving and announcing\<close>

lemma restoreConfig_fails: "restoreConfig h n original cause d \<noteq> (Inr u, d')"
  by (simp add: restoreConfig_def)

lemma saveWritten_success:
  assumes "saveWritten h n t original d1 = (Inr u, d')"
  obtains d2 persisted where "prepareUnifiedConfig h (n + 2) d1 = (Inr (), d2)"
    and "loadTopology (diskOK h (n + 19)) d2 = (Inr persisted, d')" and "normalizedTopology persisted = normalizedTopology t"
proof -
  obtain r d2 where p: "prepareUnifiedConfig h (n + 2) d1 = (r, d2)" by force
  obtain r2 d3 where q: "loadTopology (diskOK h (n + 19)) d2 = (r2, d3)" by force
  note steps = assms [unfolded saveWritten_def p case_prod_conv q]
  have r: "r = Inr ()" using steps restoreConfig_fails by (cases r) (force split: sum.splits)+
  note steps = steps [unfolded r sum.case]
  obtain persisted where r2: "r2 = Inr persisted" using steps restoreConfig_fails by (cases r2) force+
  note steps = steps [unfolded r2 sum.case]
  show thesis
  proof (cases "normalizedTopology persisted = normalizedTopology t")
    case True
    with steps have "d3 = d'" by simp
    with that p q r r2 True show thesis by blast
  next
    case False
    with steps restoreConfig_fails show thesis by simp
  qed
qed

lemma saveTopology_success:
  assumes "saveTopology h n t rename d = (Inr u, d')"
  obtains t' where "\<And>ok. loadTopology ok d' = (Inr t', d')" and "normalizedTopology t' = normalizedTopology t"
    and "topology_valid t'"
proof -
  from assms obtain original d1 doc2 where w: "writeUnifiedConfig h n doc2 d = (Inr (), d1)"
    "saveWritten h n t original d1 = (Inr u, d')"
    using saveTopology_cases [of h n t rename d] by force
  from w(1) obtain c where c: "unifiedFile d1 = Some c" "c \<noteq> []"
    using render_nonempty by (auto simp: writeUnifiedConfig_def serializeUnifiedConfig_def attempt_Inr split: sum.splits if_splits)
  obtain d2 persisted where s: "prepareUnifiedConfig h (n + 2) d1 = (Inr (), d2)"
    "loadTopology (diskOK h (n + 19)) d2 = (Inr persisted, d')" "normalizedTopology persisted = normalizedTopology t"
    using saveWritten_success [OF w(2)] .
  have "unifiedFile d2 = Some c" using prepare_keeps(1) [OF c, of h "n + 2"] s(1) by simp
  note l = loadTopology_present [OF this]
  have "loadTopology ok d' = (Inr persisted, d')" for ok using l s(2) by auto
  moreover have "topology_valid persisted" using l s(2) by (auto simp: attempt_Inr topologyFromUnified_Inr)
  ultimately show thesis using that s(3) by blast
qed

lemma removeTickets_frame:
  "unifiedFile (snd (removeTicketsForStaticPorts h n t d)) = unifiedFile d"
  "commandsLog (snd (removeTicketsForStaticPorts h n t d)) = commandsLog d"
  by (auto simp: removeTicketsForStaticPorts_def Let_def writeTransferTickets_def)

lemma unifiedFile_log [simp]:
  "unifiedFile (appendEvent h v d) = unifiedFile d" "unifiedFile (appendAudit h ts r p a res det d) = unifiedFile d"
  "unifiedFile (putRuntime name c d) = unifiedFile d" "commandsLog (putRuntime name c d) = commandsLog d"
  by (simp_all add: appendEvent_def appendAudit_def putRuntime_def)

lemma cleanupTickets_frame [simp]:
  "unifiedFile (cleanupTickets h n t d) = unifiedFile d" "commandsLog (cleanupTickets h n t d) = commandsLog d"
  using removeTickets_frame [of h n t d] by (auto simp: cleanupTickets_def split: prod.splits sum.splits)

lemma announceChange_frame:
  assumes "announceChange h r t action details d = (res, d')"
  shows "unifiedFile d' = unifiedFile d" and "res = Inr () \<Longrightarrow> length (commandsLog d) < length (commandsLog d')"
  using assms by (auto simp: announceChange_def Let_def queueCommand_def split: if_splits)

lemma applyTopologyChange_success:
  assumes "applyTopologyChange h r t action details rename d = (Inr u, d')"
  obtains t' where "\<And>ok. loadTopology ok d' = (Inr t', d')" and "normalizedTopology t' = normalizedTopology t"
    and "topology_valid t'" and "topology_valid t"
    and "\<And>b. b \<in> set (tBackends t) \<Longrightarrow> bEnabled b \<Longrightarrow> validateManagedPort d (bPublicPort b) = Inr ()"
proof -
  let ?v = "attempt (validateTopology t) (\<lambda>_. iterate (managedPorts d) () (tBackends t))"
  obtain s d1 where s: "saveTopology h 3 t rename d = (s, d1)" by force
  have v: "?v = Inr ()" using assms by (cases ?v) (simp_all add: applyTopologyChange_def)
  note steps = assms [unfolded applyTopologyChange_def v sum.case s case_prod_conv]
  have ok: "s = Inr ()" using steps by (cases s) simp_all
  note steps = steps [unfolded ok sum.case]
  obtain t' where t': "\<And>ok. loadTopology ok d1 = (Inr t', d1)" "normalizedTopology t' = normalizedTopology t" "topology_valid t'"
    using saveTopology_success [OF s [unfolded ok]] by blast
  have "unifiedFile d' = unifiedFile d1" using announceChange_frame(1) [OF steps] .
  moreover obtain c where "unifiedFile d1 = Some c"
    using t'(1) [of False] by (cases "unifiedFile d1") (auto simp: loadTopology_def ensureUnifiedConfig_def)
  ultimately have "loadTopology ok d' = (Inr t', d')" for ok
    using t'(1) [of ok] loadTopology_present by (metis prod.inject)
  moreover have "validateManagedPort d (bPublicPort b) = Inr ()" if "b \<in> set (tBackends t)" "bEnabled b" for b
    using v that by (auto simp: attempt_Inr iterate_unit managedPorts_def)
  ultimately show thesis using that t' v by (auto simp: attempt_Inr validateTopology_Inr)
qed

section \<open>The registry as a map\<close>

text \<open>What the registry promises: a primary backend, a routing mode and a map from IDs to backends, whose
  secret references are not its business.\<close>

type_synonym registry_view = "string \<times> string \<times> (string \<rightharpoonup> backendDefinition)"

definition withoutSecret :: "backendDefinition \<Rightarrow> backendDefinition" where
  "withoutSecret b = b\<lparr>bCompanionSecretEnv := []\<rparr>"

definition registry_view :: "topologyConfig \<Rightarrow> registry_view" where
  "registry_view t = (tPrimaryBackend t, tRoutingMode t, map_of (map (\<lambda>b. (bID b, withoutSecret b)) (tBackends t)))"

definition registry_spec :: "string \<Rightarrow> string \<Rightarrow> backendDefinition \<Rightarrow> registry_view \<Rightarrow> registry_view \<Rightarrow> bool" where
  "registry_spec call i b old new \<longleftrightarrow>
     (let (p, m, M) = old; (p', m', M') = new in
      m' = m \<and>
      (if call = ''POST'' then M (bID b) = None \<and> M' = M(bID b \<mapsto> b) \<and> p' = p
       else if call = ''PUT'' then
         M i \<noteq> None \<and> (bID b = i \<or> M (bID b) = None) \<and> M' = (M(i := None))(bID b \<mapsto> b) \<and>
         p' = (if p = i then bID b else p)
       else if call = ''DELETE'' then
         M i \<noteq> None \<and> M' = M(i := None) \<and> (if p = i then M' p' \<noteq> None else p' = p)
       else False))"

lemma withoutSecret_fun: "withoutSecret = bCompanionSecretEnv_update (\<lambda>_. [])"
  by (intro ext) (simp add: withoutSecret_def)

lemma registry_view_normalized:
  assumes "normalizedTopology t = normalizedTopology t'" and "topology_valid t" and "topology_valid t'"
  shows "registry_view t = registry_view t'"
proof -
  have p: "tPrimaryBackend t = tPrimaryBackend t'" "tRoutingMode t = tRoutingMode t'"
    using assms(1) by (auto simp: normalizedTopology_def dest: arg_cong [of _ _ tPrimaryBackend] arg_cong [of _ _ tRoutingMode])
  have "sort_key bID (map withoutSecret (tBackends t)) = sort_key bID (map withoutSecret (tBackends t'))"
    using arg_cong [OF assms(1), of tBackends] by (simp add: normalizedTopology_def withoutSecret_fun)
  from arg_cong [OF this, of set] have "set (map withoutSecret (tBackends t)) = set (map withoutSecret (tBackends t'))" by simp
  then have "(\<lambda>b. (bID b, b)) ` set (map withoutSecret (tBackends t)) = (\<lambda>b. (bID b, b)) ` set (map withoutSecret (tBackends t'))"
    by (rule arg_cong)
  then have "set (map (\<lambda>b. (bID b, withoutSecret b)) (tBackends t)) = set (map (\<lambda>b. (bID b, withoutSecret b)) (tBackends t'))"
    by (simp add: image_image withoutSecret_def)
  moreover have "distinct (map fst (map (\<lambda>b. (bID b, withoutSecret b)) (tBackends x)))" if "topology_valid x" for x
    using that by (simp add: topology_valid_def comp_def)
  ultimately show ?thesis using p assms(2,3) by (simp add: registry_view_def map_of_inject_set)
qed

lemma dom_registry: "map_of (map (\<lambda>b. (bID b, withoutSecret b)) bs) i = None \<longleftrightarrow> i \<notin> bID ` set bs"
  by (auto simp: map_of_eq_None_iff image_image)

lemma replaceBackend_Some:
  assumes "replaceBackend i b xs = Some ys"
  obtains us x vs where "xs = us @ x # vs" and "bID x = i" and "ys = us @ b # vs"
proof -
  from assms have "\<exists>us x vs. xs = us @ x # vs \<and> bID x = i \<and> ys = us @ b # vs"
  proof (induction xs arbitrary: ys)
    case (Cons y xs)
    show ?case
    proof (cases "bID y = i")
      case True
      then show ?thesis using Cons.prems by (intro exI [of _ "[]"]) auto
    next
      case False
      then obtain zs where "replaceBackend i b xs = Some zs" "ys = y # zs" using Cons.prems by auto
      with Cons.IH show ?thesis by (metis append_Cons)
    qed
  qed simp
  with that show thesis by blast
qed

lemma replace_registry:
  assumes "replaceBackend i b xs = Some ys" and "distinct (map bID xs)" and "bID b = i \<or> bID b \<notin> bID ` set xs"
  shows "i \<in> bID ` set xs"
    and "map_of (map (\<lambda>b. (bID b, withoutSecret b)) ys) =
      (map_of (map (\<lambda>b. (bID b, withoutSecret b)) xs))(i := None, bID b \<mapsto> withoutSecret b)"
proof -
  let ?m = "\<lambda>bs. map_of (map (\<lambda>b. (bID b, withoutSecret b)) bs)"
  obtain us x vs where xs: "xs = us @ x # vs" "bID x = i" "ys = us @ b # vs" using replaceBackend_Some [OF assms(1)] .
  then show "i \<in> bID ` set xs" by auto
  have "?m us i = None" "?m vs i = None" "?m us (bID b) = None" "?m vs (bID b) = None"
    unfolding dom_registry using assms(2,3) xs by auto
  then show "?m ys = (?m xs)(i := None, bID b \<mapsto> withoutSecret b)"
    using xs by (intro ext) (auto simp: map_add_def split: option.splits)
qed

lemma filter_registry:
  "map_of (map (\<lambda>b. (bID b, withoutSecret b)) (filter (\<lambda>b. bID b \<noteq> i) xs)) =
     (map_of (map (\<lambda>b. (bID b, withoutSecret b)) xs))(i := None)"
  by (induction xs) (auto simp: fun_upd_twist)

lemma append_registry:
  "bID b \<notin> bID ` set xs \<Longrightarrow> [bID b \<mapsto> v] ++ map_of (map (\<lambda>b. (bID b, withoutSecret b)) xs) =
     (map_of (map (\<lambda>b. (bID b, withoutSecret b)) xs))(bID b \<mapsto> v)"
  unfolding dom_registry [symmetric] by (intro ext) (auto simp: map_add_def split: option.splits)

lemma changeReply_ok:
  assumes "changeReply outcome code extra = (rep, d')" and "\<not> is_error rep"
  shows "outcome = (Inr (), d')"
  using assms by (cases outcome; cases "fst outcome") (auto simp: changeReply_def)

lemma loaded_topology:
  assumes "loadTopology ok d = (Inr t, d1)"
  shows "topology_valid t"
  using assms
  by (auto simp: loadTopology_def attempt_Inr topologyFromUnified_Inr split: option.splits prod.splits sum.splits)

lemma normalDefinition_secret [simp]: "withoutSecret (normalDefinition b) = normalDefinition b"
  by (simp add: normalDefinition_def withoutSecret_def Let_def)

text \<open>A change that was applied turns the view of the old topology into the view of the new one.\<close>

lemma change_view:
  assumes "changeReply (applyTopologyChange h r t action details rename d) code extra = (rep, d')" and "\<not> is_error rep"
  obtains t' where "\<And>ok. loadTopology ok d' = (Inr t', d')" and "registry_view t' = registry_view t" and "topology_valid t"
proof -
  have "applyTopologyChange h r t action details rename d = (Inr (), d')" using changeReply_ok [OF assms] .
  then obtain t' where t': "\<And>ok. loadTopology ok d' = (Inr t', d')" "normalizedTopology t' = normalizedTopology t"
    "topology_valid t'" "topology_valid t"
    using applyTopologyChange_success by metis
  from registry_view_normalized [OF t'(2-4)] that t' show thesis by blast
qed

lemma createBackend_view:
  assumes "createBackend decoded h r d = (rep, d')" and "\<not> is_error rep"
  obtains b t d1 t' where "decoded = Inr b" and "loadTopology (diskOK h 0) d = (Inr t, d1)"
    and "\<And>ok. loadTopology ok d' = (Inr t', d')"
    and "registry_spec ''POST'' i (normalDefinition b) (registry_view t) (registry_view t')"
proof -
  obtain b where b: "decoded = Inr b" and p: "validateManagedPort d (bPublicPort (normalDefinition b)) = Inr ()"
    using assms by (auto simp: createBackend_def finish_eq early_return decodeBackendDefinition_def split: sum.splits)
  obtain res d1 where l: "loadTopology (diskOK h 0) d = (res, d1)" by force
  obtain t where t: "res = Inr t"
    using assms b p l by (cases res) (auto simp: createBackend_def decodeBackendDefinition_def)
  note steps = assms(1) [unfolded createBackend_def b decodeBackendDefinition_def sum.case p l t case_prod_conv early_return_simps attempt_simps]
  have fresh: "bID (normalDefinition b) \<notin> bID ` set (tBackends t)"
    using steps assms(2) by (auto split: if_splits)
  note steps = steps [unfolded if_not_P [OF fresh]]
  obtain t' where t': "\<And>ok. loadTopology ok d' = (Inr t', d')"
    "registry_view t' = registry_view (t\<lparr>tBackends := tBackends t @ [normalDefinition b]\<rparr>)"
    using change_view [OF steps assms(2)] by blast
  have "registry_spec ''POST'' i (normalDefinition b) (registry_view t) (registry_view t')"
    using fresh dom_registry unfolding t'(2) by (simp add: registry_spec_def registry_view_def append_registry)
  with that b l t t'(1) show thesis by blast
qed

lemma updateBackend_view:
  assumes "updateBackend decoded h r d = (rep, d')" and "\<not> is_error rep"
  obtains b t d1 t' where "decoded = Inr b" and "loadTopology (diskOK h 0) d = (Inr t, d1)"
    and "\<And>ok. loadTopology ok d' = (Inr t', d')"
    and "registry_spec ''PUT'' (to_lower (trim_space (query r ''id''))) (normalDefinition b) (registry_view t) (registry_view t')"
proof -
  let ?i = "to_lower (trim_space (query r ''id''))"
  obtain b where b: "decoded = Inr b" and p: "validateManagedPort d (bPublicPort (normalDefinition b)) = Inr ()" and i: "(?i \<noteq> []) = True"
    using assms by (auto simp: updateBackend_def Let_def finish_eq early_return decodeBackendDefinition_def split: sum.splits)
  obtain res d1 where l: "loadTopology (diskOK h 0) d = (res, d1)" by force
  obtain t where t: "res = Inr t"
    using assms b p l i by (cases res) (auto simp: updateBackend_def decodeBackendDefinition_def)
  let ?nb = "normalDefinition b"
  note steps = assms(1) [unfolded updateBackend_def Let_def b decodeBackendDefinition_def sum.case p l t case_prod_conv i early_return_simps attempt_simps]
  have free: "\<not> (bID ?nb \<noteq> ?i \<and> bID ?nb \<in> bID ` set (tBackends t))"
    using steps assms(2) by (auto split: if_splits)
  note steps = steps [unfolded if_not_P [OF free]]
  obtain bs where bs: "replaceBackend ?i ?nb (tBackends t) = Some bs"
    using steps assms(2) by (cases "replaceBackend ?i ?nb (tBackends t)") auto
  note steps = steps [unfolded bs option.case]
  obtain t' where t': "\<And>ok. loadTopology ok d' = (Inr t', d')" "registry_view t' = registry_view (t\<lparr>tBackends := bs,
      tPrimaryBackend := (if tPrimaryBackend t = ?i then bID ?nb else tPrimaryBackend t)\<rparr>)"
    using change_view [OF steps assms(2)] by blast
  have "distinct (map bID (tBackends t))" using loaded_topology l t by (auto simp: topology_valid_def)
  note rep = replace_registry [OF bs this]
  have "registry_spec ''PUT'' ?i ?nb (registry_view t) (registry_view t')"
    using free dom_registry rep unfolding t'(2) by (auto simp: registry_spec_def registry_view_def)
  with that b l t t'(1) show thesis by blast
qed

lemma deleteBackend_view:
  assumes "deleteBackend h r d = (rep, d')" and "\<not> is_error rep"
  obtains t d1 t' where "loadTopology (diskOK h 0) d = (Inr t, d1)" and "\<And>ok. loadTopology ok d' = (Inr t', d')"
    and "registry_spec ''DELETE'' (to_lower (trim_space (query r ''id''))) b (registry_view t) (registry_view t')"
proof -
  let ?i = "to_lower (trim_space (query r ''id''))"
  have i: "(?i \<noteq> []) = True" using assms by (auto simp: deleteBackend_def Let_def finish_eq early_return)
  obtain res d1 where l: "loadTopology (diskOK h 0) d = (res, d1)" by force
  obtain t where t: "res = Inr t" using assms l i by (cases res) (auto simp: deleteBackend_def)
  note steps = assms(1) [unfolded deleteBackend_def Let_def l t case_prod_conv sum.case i early_return_simps attempt_simps]
  have several: "length (tBackends t) \<noteq> 1" using steps assms(2) by (auto split: if_splits)
  note steps = steps [unfolded if_not_P [OF several]]
  have there: "\<not> ?i \<notin> bID ` set (tBackends t)" using steps assms(2) by (auto split: if_splits)
  note steps = steps [unfolded if_not_P [OF there]]
  let ?next = "filter (\<lambda>b. bID b \<noteq> ?i) (tBackends t)"
  obtain t' where t': "\<And>ok. loadTopology ok d' = (Inr t', d')" "registry_view t' = registry_view (t\<lparr>tBackends := ?next,
      tPrimaryBackend := (if tPrimaryBackend t = ?i then bID (hd ?next) else tPrimaryBackend t)\<rparr>)"
    and v: "topology_valid (t\<lparr>tBackends := ?next,
      tPrimaryBackend := (if tPrimaryBackend t = ?i then bID (hd ?next) else tPrimaryBackend t)\<rparr>)"
    using change_view [OF steps assms(2)] by blast
  let ?M = "map_of (map (\<lambda>b. (bID b, withoutSecret b)) (tBackends t))"
  have known: "?M ?i \<noteq> None" using there dom_registry by blast
  have "bID (hd ?next) \<in> bID ` set ?next" if "tPrimaryBackend t = ?i"
    using v that by (simp only: topology_valid_def) simp
  then have "bID (hd ?next) \<noteq> ?i \<and> ?M (bID (hd ?next)) \<noteq> None" if "tPrimaryBackend t = ?i"
    unfolding dom_registry using that by auto
  with known have "registry_spec ''DELETE'' ?i b (registry_view t) (registry_view t')"
    unfolding t'(2) by (simp add: registry_spec_def registry_view_def filter_registry)
  with that l t t'(1) show thesis by blast
qed

section \<open>Properties\<close>

text \<open>C10: The registry implements a map of backends: when a request to create, change or delete a backend
  succeeds, the stored topology was loaded before and is loaded after it, and its view as a primary
  backend, a routing mode and a map from IDs changed as the request says and in no other way.  A new
  or changed ID was free, a deleted or changed one was there, and the primary backend follows a renaming
  and moves to a remaining backend on deletion.\<close>

theorem registry_refines_map:
  assumes "handleBackendRegistry decoded h r d = (rep, d')" and "\<not> is_error rep" and "verb r \<noteq> ''GET''"
  shows "\<exists>t d1 t'. loadTopology (diskOK h 0) d = (Inr t, d1) \<and> loadTopology ok d' = (Inr t', d') \<and>
    registry_spec (verb r) (to_lower (trim_space (query r ''id'')))
      (normalDefinition (case decoded of Inr b \<Rightarrow> b | Inl _ \<Rightarrow> b0)) (registry_view t) (registry_view t')"
proof -
  note cases = assms(1) [unfolded handleBackendRegistry_def if_not_P [OF assms(3)]]
  consider (post) "verb r = ''POST''" | (put) "verb r = ''PUT''" | (delete) "verb r = ''DELETE''"
    using cases assms(2) by (auto split: if_splits)
  then show ?thesis
  proof cases
    case post
    then have "createBackend decoded h r d = (rep, d')" using cases by simp
    then show ?thesis unfolding post by (rule createBackend_view [OF _ assms(2)]) auto
  next
    case put
    then have "updateBackend decoded h r d = (rep, d')" using cases by simp
    then show ?thesis unfolding put by (rule updateBackend_view [OF _ assms(2)]) auto
  next
    case delete
    then have "deleteBackend h r d = (rep, d')" using cases by simp
    then show ?thesis unfolding delete by (rule deleteBackend_view [OF _ assms(2)]) auto
  qed
qed

section \<open>A sample change\<close>

definition zooBackend :: backendDefinition where
  "zooBackend = hd (tBackends (smallTopology ''primary'' 9 8 5))"

definition putZoo :: http_request where
  "putZoo = postRequest\<lparr>verb := ''PUT'', query := (\<lambda>_. ''zoo'')\<rparr>"

definition zooDashboard :: dashboard where
  "zooDashboard = emptyDashboard\<lparr>unifiedFile := Some sampleConfig\<rparr>"

lemma zoo_parsed: "parseINI sampleConfig = Inr sampleDocument"
  using sampleConfig_read by (simp only: sampleDocument_def)

lemma zoo_loaded: "loadTopology ok zooDashboard = (Inr (smallTopology ''primary'' 19132 0 50), zooDashboard)"
  using validate_topology [OF sample_documents_valid(1)] zoo_parsed sample_topologies(1)
  by (simp add: loadTopology_def zooDashboard_def)

lemma zoo_ports: "validateManagedPort zooDashboard p = Inr ()"
proof -
  have "get sampleDocument ''edge'' ''managed_public_udp_ports'' [] = []" "parsePortList [] = []" by code_simp+
  then have "allowedPublicPorts zooDashboard = []"
    using zoo_parsed by (simp add: allowedPublicPorts_def loadINI_def zooDashboard_def Let_def) (simp add: emptyDashboard_def)
  then show ?thesis by (simp add: validateManagedPort_def)
qed

lemma zoo_saved:
  assumes "\<And>k. n \<le> k \<Longrightarrow> diskOK h k"
  shows "\<exists>d'. saveTopology h n (smallTopology ''primary'' 9 8 5) (Some (''zoo'', ''zoo'')) zooDashboard = (Inr (), d')"
proof -
  have "unifiedFile zooDashboard = Some sampleConfig" "renamedSecret (Some (''zoo'', ''zoo'')) sampleDocument savedDocument = savedDocument"
    by (simp_all add: zooDashboard_def renamedSecret_def)
  from saved_topology [OF assms this(1) zoo_parsed validate_topology [OF sample_documents_valid(1)] sample_applied
      sample_documents_valid(2) sample_printable sample_fits this(2)]
  show ?thesis by blast
qed

lemma zoo_updated:
  "\<exists>rep d'. handleBackendRegistry (Inr zooBackend) sampleHost putZoo zooDashboard = (rep, d') \<and> fst rep = 200"
proof -
  have n: "normalDefinition zooBackend = zooBackend" "to_lower (trim_space ''zoo'') = ''zoo''" "bID zooBackend = ''zoo''" by code_simp+
  have r: "replaceBackend ''zoo'' zooBackend (tBackends (smallTopology ''primary'' 19132 0 50)) = Some [zooBackend]"
    by (simp add: smallTopology_def)
  have t: "(smallTopology ''primary'' 19132 0 50)\<lparr>tBackends := [zooBackend], tPrimaryBackend := ''zoo''\<rparr> = smallTopology ''primary'' 9 8 5"
    by (simp add: smallTopology_def zooBackend_def)
  have p: "tPrimaryBackend (smallTopology ''primary'' 19132 0 50) = ''zoo''" by (simp add: smallTopology_def)
  have disk: "diskOK sampleHost k" for k by (simp add: sampleHost_def)
  obtain d1 where s: "saveTopology sampleHost 3 (smallTopology ''primary'' 9 8 5) (Some (''zoo'', ''zoo'')) zooDashboard = (Inr (), d1)"
    using zoo_saved [OF disk] by blast
  have v: "validateTopology (smallTopology ''primary'' 9 8 5) = Inr ()" by (simp add: validateTopology_Inr smallTopology_valid)
  have m: "iterate (managedPorts zooDashboard) () bs = Inr ()" for bs
    by (simp add: iterate_unit managedPorts_def zoo_ports)
  have "\<exists>d'. announceChange sampleHost putZoo t' a det d1 = (Inr (), d')" for t' a det
    by (simp add: announceChange_def Let_def disk queueCommand_def)
  then have "\<exists>d'. applyTopologyChange sampleHost putZoo (smallTopology ''primary'' 9 8 5) a det (Some (''zoo'', ''zoo'')) zooDashboard = (Inr (), d')" for a det
    by (simp add: applyTopologyChange_def v m s)
  then obtain d' where "applyTopologyChange sampleHost putZoo (smallTopology ''primary'' 9 8 5) ''backend.update''
      (JObj [(''from'', JStr ''zoo''), (''backend'', jbackend zooBackend)]) (Some (''zoo'', ''zoo'')) zooDashboard = (Inr (), d')" by blast
  then show ?thesis
    by (simp add: handleBackendRegistry_def putZoo_def [THEN arg_cong, of verb] updateBackend_def
        putZoo_def [THEN arg_cong, of query] n decodeBackendDefinition_def zoo_ports zoo_loaded r p t changeReply_def)
qed

theorem registry_refines_map_witness:
  "\<exists>rep d' t'. handleBackendRegistry (Inr zooBackend) sampleHost putZoo zooDashboard = (rep, d') \<and>
     loadTopology True d' = (Inr t', d') \<and>
     registry_spec ''PUT'' ''zoo'' zooBackend (registry_view (smallTopology ''primary'' 19132 0 50)) (registry_view t')"
proof -
  have n: "normalDefinition zooBackend = zooBackend" "to_lower (trim_space ''zoo'') = ''zoo''" by code_simp+
  obtain rep d' where u: "handleBackendRegistry (Inr zooBackend) sampleHost putZoo zooDashboard = (rep, d')" "fst rep = 200"
    using zoo_updated by blast
  have q: "verb putZoo = ''PUT''" "query putZoo ''id'' = ''zoo''" by (simp_all add: putZoo_def)
  from registry_refines_map [OF u(1), of True undefined] u(2) obtain t' where
    "loadTopology True d' = (Inr t', d')"
    "registry_spec ''PUT'' ''zoo'' zooBackend (registry_view (smallTopology ''primary'' 19132 0 50)) (registry_view t')"
    by (auto simp: is_error_def q n zoo_loaded)
  with u(1) show ?thesis by blast
qed

text \<open>The target of a fallback is not checked: a valid topology stays valid when a backend's fallback is set to
  any text other than its own ID, so also to a backend that does not exist or was deleted.\<close>

theorem fallback_target_is_unchecked:
  assumes "validateTopology (t\<lparr>tBackends := us @ b # vs\<rparr>) = Inr ()" and "f \<noteq> bID b"
  shows "validateTopology (t\<lparr>tBackends := us @ b\<lparr>bFallbackBackend := f\<rparr> # vs\<rparr>) = Inr ()"
proof -
  have m: "connectionMode (b\<lparr>bFallbackBackend := f\<rparr>) = connectionMode b" "backendAdapter (b\<lparr>bFallbackBackend := f\<rparr>) = backendAdapter b"
    by (simp_all add: connectionMode_def backendAdapter_def)
  have "backend_valid (b\<lparr>bFallbackBackend := f\<rparr>)" if "backend_valid b"
    using that assms(2) unfolding backend_valid_def m by simp
  then show ?thesis using assms(1) by (simp add: validateTopology_Inr topology_valid_def assignedPorts_def)
qed

theorem fallback_target_is_unchecked_witness:
  "validateTopology (defaultTopology\<lparr>tBackends := (hd (tBackends defaultTopology))\<lparr>bFallbackBackend := ''nowhere''\<rparr> # tl (tBackends defaultTopology)\<rparr>) = Inr ()"
proof -
  have "validateTopology (defaultTopology\<lparr>tBackends := [] @ hd (tBackends defaultTopology) # tl (tBackends defaultTopology)\<rparr>) = Inr ()"
    using defaultTopology_valid by (simp add: validateTopology_Inr) (simp add: defaultTopology_def)
  from fallback_target_is_unchecked [OF this, of "''nowhere''"] show ?thesis by (simp add: defaultTopology_def)
qed

text \<open>A change can be stored and still be answered as a failure: when the topology was saved and the marker of
  the pending restart cannot be written, the caller gets an error and no restart is queued, while the
  new topology stays in the configuration.\<close>

theorem unannounced_change_is_stored:
  assumes "saveTopology h 3 t rename d = (Inr (), d1)" and "validateTopology t = Inr ()"
    and "iterate (managedPorts d) () (tBackends t) = Inr ()" and "\<not> diskOK h 1"
  shows "\<exists>d'. changeReply (applyTopologyChange h r t action details rename d) code extra = (error_reply 400 ''write error'', d') \<and>
    unifiedFile d' = unifiedFile d1 \<and> commandsLog d' = commandsLog d1"
  using assms by (simp add: applyTopologyChange_def announceChange_def changeReply_def Let_def)

theorem unannounced_change_is_stored_witness:
  "\<exists>h d1 d'. saveTopology h 3 (smallTopology ''primary'' 9 8 5) (Some (''zoo'', ''zoo'')) zooDashboard = (Inr (), d1) \<and>
     changeReply (applyTopologyChange h putZoo (smallTopology ''primary'' 9 8 5) ''backend.update'' JNull (Some (''zoo'', ''zoo'')) zooDashboard) 200 []
       = (error_reply 400 ''write error'', d') \<and> unifiedFile d' = unifiedFile d1"
proof -
  let ?t = "smallTopology ''primary'' 9 8 5" and ?h = "sampleHost\<lparr>diskOK := (\<lambda>k. k \<noteq> 1)\<rparr>"
  have "\<exists>d1. saveTopology ?h 3 ?t (Some (''zoo'', ''zoo'')) zooDashboard = (Inr (), d1)"
    by (rule zoo_saved) simp
  then obtain d1 where s: "saveTopology ?h 3 ?t (Some (''zoo'', ''zoo'')) zooDashboard = (Inr (), d1)" by blast
  have v: "validateTopology ?t = Inr ()" by (simp add: validateTopology_Inr smallTopology_valid)
  have m: "iterate (managedPorts zooDashboard) () (tBackends ?t) = Inr ()"
    by (simp add: iterate_unit managedPorts_def zoo_ports)
  have "\<not> diskOK ?h 1" by simp
  from unannounced_change_is_stored [OF s v m this, of putZoo "''backend.update''" JNull 200 "[]"] s show ?thesis by blast
qed

end
