(* ===== verification/Settings.thy ===== *)
theory Settings
  imports Backends
begin

text \<open>
  Saving the unified configuration from the dashboard: the verified write with its rollback
  (\<^verbatim>\<open>dashboard/config.go\<close>) and the managed settings (\<^verbatim>\<open>dashboard/management.go\<close>).  Decoded bodies are
  arguments; the values of a settings request come in the order in which the map is iterated.  A command scheduled for later is a delay in milliseconds
  and a command; it is queued when its delay is over (\<open>runScheduled\<close>).
\<close>

section \<open>The verified write\<close>

definition rollbackConfig :: "host \<Rightarrow> nat \<Rightarrow> string \<Rightarrow> string \<Rightarrow> dashboard \<Rightarrow> unit result \<times> dashboard" where
  "rollbackConfig h n currentContent cause d =
     (Inl cause,
      if currentContent = [] then d
      else snd (prepareUnifiedConfig h (Suc n) (if diskOK h n then d\<lparr>unifiedFile := Some currentContent\<rparr> else d)))"

definition contentOf :: "host \<Rightarrow> ini \<Rightarrow> string" where
  "contentOf h doc = (case serializeUnifiedConfig h doc of Inl _ \<Rightarrow> [] | Inr content \<Rightarrow> content)"

text \<open>What follows once the candidate is written.\<close>

definition verifyWritten :: "host \<Rightarrow> nat \<Rightarrow> ini \<Rightarrow> ini \<Rightarrow> dashboard \<Rightarrow> unit result \<times> dashboard" where
  "verifyWritten h n candidate current d1 =
     (case prepareUnifiedConfig h (n + 2) d1 of
        (Inl err, d2) \<Rightarrow> rollbackConfig h (n + 20) (contentOf h current) (''configuration generation failed: '' @ err) d2
      | (Inr _, d2) \<Rightarrow>
          case loadINI d2 of
            Inl err \<Rightarrow> rollbackConfig h (n + 20) (contentOf h current) (''configuration could not be read back: '' @ err) d2
          | Inr persisted \<Rightarrow>
              if contentOf h candidate \<noteq> contentOf h persisted
              then rollbackConfig h (n + 20) (contentOf h current)
                ''configuration verification failed; previous configuration restored'' d2
              else (Inr (), case topologyFromUnified candidate of
                  Inl _ \<Rightarrow> d2 | Inr topology \<Rightarrow> cleanupTickets h (n + 40) topology d2))"

definition writeAndVerifyUnifiedConfig :: "host \<Rightarrow> nat \<Rightarrow> ini \<Rightarrow> ini \<Rightarrow> dashboard \<Rightarrow> unit result \<times> dashboard" where
  "writeAndVerifyUnifiedConfig h n candidate current d =
     (case writeUnifiedConfig h n candidate d of
        (Inl err, d1) \<Rightarrow> (Inl err, d1)
      | (Inr _, d1) \<Rightarrow> verifyWritten h n candidate current d1)"

definition writeConfigSaveStatus :: "bool \<Rightarrow> int \<Rightarrow> string \<Rightarrow> string \<Rightarrow> string \<Rightarrow> dashboard \<Rightarrow> dashboard result" where
  "writeConfigSaveStatus ok now revision action restartScope d =
     (if ok
      then Inr (putState ''config-save-status.json'' (JObj [(''revision'', JStr revision), (''action'', JStr action),
             (''restartScope'', JStr restartScope), (''savedAt'', jint now)]) d)
      else Inl ''write error'')"

definition scheduleCommand :: "int \<Rightarrow> string \<Rightarrow> dashboard \<Rightarrow> dashboard" where
  "scheduleCommand delay command d = d\<lparr>scheduled := scheduled d @ [(delay, command)]\<rparr>"

definition runScheduled :: "bool \<Rightarrow> int \<Rightarrow> nat \<Rightarrow> dashboard \<Rightarrow> dashboard" where
  "runScheduled ok now i d =
     (if i < length (scheduled d)
      then case queueCommand ok now (snd (scheduled d ! i)) [] [] d of
             Inl _ \<Rightarrow> d\<lparr>scheduled := take i (scheduled d) @ drop (Suc i) (scheduled d)\<rparr>
           | Inr d1 \<Rightarrow> d1\<lparr>scheduled := take i (scheduled d) @ drop (Suc i) (scheduled d)\<rparr>
      else d)"

text \<open>The clock is read at the indices \<open>100\<close> to \<open>102\<close>; the readings only become time stamps.\<close>

definition persistUnifiedDocument ::
  "golib \<Rightarrow> host \<Rightarrow> http_request \<Rightarrow> ini \<Rightarrow> string \<Rightarrow> json \<Rightarrow> dashboard \<Rightarrow> unit result \<times> dashboard" where
  "persistUnifiedDocument G h r document action details d =
     (case attempt (validateUnifiedConfig h document) (\<lambda>_. loadINI d) of
        Inl err \<Rightarrow> (Inl err, d)
      | Inr current \<Rightarrow>
          let restartScope = unifiedConfigRestartScope current document in
          case writeAndVerifyUnifiedConfig h 2 document current d of
            (Inl err, d1) \<Rightarrow> (Inl err, d1)
          | (Inr _, d1) \<Rightarrow>
              let revision = configRevision G h document in
              case writeConfigSaveStatus (diskOK h 0) (clock h 100) revision action restartScope d1 of
                Inl err \<Rightarrow> (Inl err, d1)
              | Inr d2 \<Rightarrow>
                  if \<not> diskOK h 1 then (Inl ''write error'', d2)
                  else
                    let d3 = putRuntime ''topology-restart.pending'' (itoa (clock h 101)) d2;
                        d4 = (if restartScope = ''services'' then scheduleCommand 1500 ''service_restart'' d3
                              else scheduleCommand 750 ''topology_restart'' d3)
                    in (Inr (), appendAudit h (clock h 102) r (principalFromRequest r) action (restartScope @ ''_restart_scheduled'')
                          (JObj [(''details'', details), (''revision'', JStr revision)]) d4))"

section \<open>Managed settings\<close>

record settingDescriptor =
  stID :: string
  stSection :: string
  stKey :: string
  stLabel :: string
  stDescription :: string
  stType :: string
  stValue :: string
  stOptions :: "string list"
  stMinimum :: "int option"
  stMaximum :: "int option"
  stRestart :: bool

text \<open>An entry of the schema; every ID is its section and its key joined by a dot.\<close>

definition setting ::
  "string \<Rightarrow> string \<Rightarrow> string \<Rightarrow> string \<Rightarrow> string \<Rightarrow> string list \<Rightarrow> int option \<Rightarrow> int option \<Rightarrow> bool \<Rightarrow> settingDescriptor" where
  "setting s key label description kind options lo hi restart =
     \<lparr>stID = s @ ''.'' @ key, stSection = s, stKey = key, stLabel = label, stDescription = description, stType = kind,
      stValue = [], stOptions = options, stMinimum = lo, stMaximum = hi, stRestart = restart\<rparr>"

definition managedSettingSchema :: "settingDescriptor list" where
  "managedSettingSchema = [
      setting ''edge'' ''instance_name'' ''Instance name''
        ''Name shown in the dashboard and console.'' ''text'' [] None None True,
      setting ''edge'' ''public_host'' ''Public host''
        ''Public IP address or DNS name players use.'' ''text'' [] None None True,
      setting ''edge'' ''primary_allocation_port'' ''Primary allocation UDP port''
        ''Primary gateway listener used when no static route is selected.'' ''number'' [] (Some 1) (Some 65535) True,
      setting ''edge'' ''managed_public_udp_ports'' ''Managed public UDP ports''
        ''Comma-separated ports and ranges already assigned in Pterodactyl.'' ''text'' [] None None True,
      setting ''dashboard'' ''port'' ''Dashboard TCP port''
        ''TCP listener for the dashboard and companion API.'' ''number'' [] (Some 1) (Some 65535) True,
      setting ''dashboard'' ''public_host'' ''Dashboard public host''
        ''Address companions use to reach the dashboard API.'' ''text'' [] None None True,
      setting ''dashboard'' ''session_minutes'' ''Dashboard session minutes''
        ''Lifetime of browser session tokens.'' ''number'' [] (Some 15) (Some 10080) True,
      setting ''session_core'' ''protocol_capture_enabled'' ''Protocol inspection enabled''
        ''Record bounded Full Proxy protocol observations.'' ''boolean'' [] None None True,
      setting ''session_core'' ''protocol_capture_mode'' ''Protocol inspection tier''
        ''Metadata only, redacted decoded values, selected wire bytes, or all safe tiers.'' ''select'' [''metadata'', ''decoded'', ''wire'', ''full''] None None True,
      setting ''session_core'' ''protocol_capture_packet_ids'' ''Wire and round-trip packet IDs''
        ''Comma-separated application packet IDs allowed for wire capture and round-trip checks.'' ''text'' [] None None True,
      setting ''session_core'' ''protocol_capture_max_packet_bytes'' ''Maximum captured bytes per packet''
        ''Hard limit for each selected wire or decode-failure sample.'' ''number'' [] (Some 64) (Some 1048576) True,
      setting ''session_core'' ''protocol_capture_decode_failures'' ''Capture decode failures''
        ''Record bounded failure details before an undecodable packet is discarded.'' ''boolean'' [] None None True,
      setting ''session_core'' ''protocol_observation_max_bytes'' ''Protocol observation log size''
        ''Maximum bytes per backend observation log before rotation.'' ''number'' [] (Some 65536) (Some 1073741824) True,
      setting ''companion'' ''presence_ttl_seconds'' ''Presence TTL seconds''
        ''How long a companion/player heartbeat remains current.'' ''number'' [] (Some 30) (Some 3600) True,
      setting ''companion'' ''capture_mode'' ''Companion capture mode''
        ''Default gameplay packet capture mode for downloaded configs.'' ''select'' [''off'', ''metadata'', ''selected'', ''all''] None None False,
      setting ''companion'' ''selected_packet_ids'' ''Selected packet IDs''
        ''Comma-separated packet IDs captured in selected mode.'' ''text'' [] None None False,
      setting ''companion'' ''payload_limit'' ''Payload preview limit''
        ''Maximum gameplay payload bytes included per record.'' ''number'' [] (Some 0) (Some 65536) False,
      setting ''companion'' ''redact_packet_ids'' ''Redacted packet IDs''
        ''Packet IDs whose payloads are never exported.'' ''text'' [] None None False,
      setting ''companion'' ''queue_capacity'' ''Companion queue capacity''
        ''Maximum queued companion records.'' ''number'' [] (Some 100) (Some 1000000) False,
      setting ''companion'' ''batch_size'' ''Companion batch size''
        ''Records sent per dashboard upload.'' ''number'' [] (Some 1) (Some 10000) False,
      setting ''companion'' ''flush_ms'' ''Companion flush interval''
        ''Maximum milliseconds before queued data is uploaded.'' ''number'' [] (Some 10) (Some 60000) False,
      setting ''companion'' ''movement_sample_rate'' ''Movement sample rate''
        ''Capture one movement packet out of this many.'' ''number'' [] (Some 1) (Some 10000) False,
      setting ''companion'' ''metrics_interval_ticks'' ''Metrics interval ticks''
        ''Server ticks between companion metric snapshots.'' ''number'' [] (Some 1) (Some 12000) False,
      setting ''companion'' ''reconnect_seconds'' ''Companion reconnect seconds''
        ''Delay after a failed dashboard upload.'' ''number'' [] (Some 1) (Some 600) False,
      setting ''companion'' ''presence_enabled'' ''Presence enabled''
        ''Include online-player presence in downloaded companion configs.'' ''boolean'' [] None None False,
      setting ''companion'' ''presence_include_address'' ''Include player address''
        ''Include player addresses in companion presence records.'' ''boolean'' [] None None False,
      setting ''companion'' ''transfer_enabled'' ''Companion transfers enabled''
        ''Allow companion transfer commands.'' ''boolean'' [] None None False,
      setting ''companion'' ''drop_receive_ids'' ''Dropped receive packet IDs''
        ''Comma-separated incoming packet IDs cancelled by downloaded configs.'' ''text'' [] None None False,
      setting ''companion'' ''drop_send_ids'' ''Dropped send packet IDs''
        ''Comma-separated outgoing packet IDs cancelled by downloaded configs.'' ''text'' [] None None False,
      setting ''transfer'' ''enabled'' ''Transfer broker enabled''
        ''Enable one-use transfer tickets.'' ''boolean'' [] None None True,
      setting ''transfer'' ''public_host'' ''Transfer public host''
        ''Host returned in transfer tickets.'' ''text'' [] None None True,
      setting ''transfer'' ''port_start'' ''Transfer port start''
        ''First temporary UDP transfer port.'' ''number'' [] (Some 1) (Some 65535) True,
      setting ''transfer'' ''port_end'' ''Transfer port end''
        ''Last temporary UDP transfer port.'' ''number'' [] (Some 1) (Some 65535) True,
      setting ''transfer'' ''ticket_ttl_seconds'' ''Transfer ticket TTL''
        ''Seconds a one-use route remains valid.'' ''number'' [] (Some 5) (Some 300) True,
      setting ''transfer'' ''require_source_ip'' ''Require source IP''
        ''Bind transfer tickets to the requesting address.'' ''boolean'' [] None None True,
      setting ''firewall'' ''enabled'' ''Firewall enabled''
        ''Enable gateway traffic protection.'' ''boolean'' [] None None True,
      setting ''firewall'' ''adaptive'' ''Adaptive risk scoring''
        ''Enable weighted risk and progressive bans.'' ''boolean'' [] None None True,
      setting ''firewall'' ''risk_decay_per_minute'' ''Risk decay per minute''
        ''Risk points removed each minute.'' ''number'' [] (Some 0) (Some 1000) True,
      setting ''firewall'' ''risk_warning_threshold'' ''Risk warning threshold''
        ''Score that creates a warning event.'' ''number'' [] (Some 1) (Some 10000) True,
      setting ''firewall'' ''risk_ban_threshold'' ''Risk ban threshold''
        ''Score that creates a progressive ban.'' ''number'' [] (Some 2) (Some 10000) True,
      setting ''firewall'' ''progressive_ban_seconds'' ''Progressive ban schedule''
        ''Comma-separated ban lengths in seconds.'' ''text'' [] None None True,
      setting ''firewall'' ''max_datagram_size'' ''Maximum datagram size''
        ''Global fallback UDP datagram limit.'' ''number'' [] (Some 512) (Some 65535) True,
      setting ''firewall'' ''max_packets_per_second_per_ip'' ''Packets/sec per IP''
        ''Global fallback per-address packet limit.'' ''number'' [] (Some 100) (Some 1000000) True,
      setting ''firewall'' ''global_packets_per_second'' ''Global packets/sec''
        ''Whole-gateway packet ceiling.'' ''number'' [] (Some 1000) (Some 10000000) True,
      setting ''firewall'' ''max_handshakes_per_minute'' ''Handshakes/min per IP''
        ''Fallback new-session handshake limit.'' ''number'' [] (Some 1) (Some 100000) True,
      setting ''firewall'' ''max_sessions'' ''Maximum sessions''
        ''Maximum concurrent gateway sessions.'' ''number'' [] (Some 1) (Some 100000) True,
      setting ''firewall'' ''max_sessions_per_ip'' ''Sessions per IP''
        ''Fallback concurrent-session limit per address.'' ''number'' [] (Some 1) (Some 1000) True,
      setting ''incident'' ''enabled'' ''Incident mode enabled''
        ''Automatically tighten limits during attacks.'' ''boolean'' [] None None True,
      setting ''incident'' ''trigger_packets_per_second'' ''Incident trigger PPS''
        ''Immediate global traffic trigger.'' ''number'' [] (Some 1000) (Some 10000000) True,
      setting ''incident'' ''trigger_drop_ratio'' ''Incident drop ratio''
        ''Dropped fraction used with the minimum PPS trigger.'' ''text'' [] None None True,
      setting ''incident'' ''minimum_packets_per_second'' ''Incident minimum PPS''
        ''Minimum traffic before drop-ratio detection applies.'' ''number'' [] (Some 100) (Some 10000000) True,
      setting ''incident'' ''recovery_seconds'' ''Incident recovery seconds''
        ''Stable traffic required before clearing incident mode.'' ''number'' [] (Some 5) (Some 3600) True,
      setting ''incident'' ''rate_divisor'' ''Incident rate divisor''
        ''Divides packet limits during incident mode.'' ''number'' [] (Some 1) (Some 100) True,
      setting ''incident'' ''handshake_divisor'' ''Incident handshake divisor''
        ''Divides handshake limits during incident mode.'' ''number'' [] (Some 1) (Some 100) True,
      setting ''health'' ''enabled'' ''Backend health checks''
        ''Probe configured backends.'' ''boolean'' [] None None True,
      setting ''health'' ''interval_seconds'' ''Health interval seconds''
        ''Seconds between backend checks.'' ''number'' [] (Some 1) (Some 300) True,
      setting ''health'' ''timeout_ms'' ''Health timeout ms''
        ''Timeout for a backend probe.'' ''number'' [] (Some 100) (Some 30000) True,
      setting ''health'' ''failure_threshold'' ''Health failure threshold''
        ''Consecutive failures before marking unhealthy.'' ''number'' [] (Some 1) (Some 100) True,
      setting ''health'' ''recovery_threshold'' ''Health recovery threshold''
        ''Consecutive successes before recovery.'' ''number'' [] (Some 1) (Some 100) True,
      setting ''health'' ''automatic_actions'' ''Automatic health actions''
        ''Disable and restore routes based on health.'' ''boolean'' [] None None True,
      setting ''health'' ''require_companion'' ''Require companion health''
        ''Treat a missing companion as unhealthy.'' ''boolean'' [] None None True,
      setting ''health'' ''companion_stale_seconds'' ''Companion stale seconds''
        ''Age before a companion heartbeat is stale.'' ''number'' [] (Some 5) (Some 3600) True,
      setting ''health'' ''degraded_after_seconds'' ''Degraded action delay''
        ''Unhealthy duration before disabling transfers.'' ''number'' [] (Some 5) (Some 3600) True,
      setting ''health'' ''stable_recovery_seconds'' ''Stable recovery seconds''
        ''Healthy duration before restoring transfers.'' ''number'' [] (Some 5) (Some 3600) True,
      setting ''health'' ''minimum_tps'' ''Minimum TPS''
        ''TPS floor for automated health actions.'' ''number'' [] (Some 1) (Some 20) True,
      setting ''health'' ''maximum_mspt'' ''Maximum MSPT''
        ''MSPT ceiling for automated health actions.'' ''number'' [] (Some 1) (Some 10000) True,
      setting ''logging'' ''packet_capture'' ''Transport packet capture''
        ''Record transport packet metadata.'' ''boolean'' [] None None True,
      setting ''logging'' ''capture_outgoing'' ''Capture outgoing packets''
        ''Record gateway-to-client transport metadata.'' ''boolean'' [] None None True,
      setting ''logging'' ''packet_hex_preview_bytes'' ''Transport hex preview bytes''
        ''Bytes included in transport previews. Zero disables previews.'' ''number'' [] (Some 0) (Some 2048) True,
      setting ''logging'' ''packet_log_max_bytes'' ''Packet log maximum bytes''
        ''Maximum transport log size before rotation.'' ''number'' [] (Some 1048576) (Some 1073741824) True,
      setting ''logging'' ''event_log_max_bytes'' ''Event log maximum bytes''
        ''Maximum event log size before rotation.'' ''number'' [] (Some 1048576) (Some 1073741824) True,
      setting ''logging'' ''audit_log_max_bytes'' ''Audit log maximum bytes''
        ''Maximum administrative audit log size.'' ''number'' [] (Some 1048576) (Some 1073741824) True,
      setting ''logging'' ''metric_sample_seconds'' ''Metric sample seconds''
        ''Historical metrics sampling interval.'' ''number'' [] (Some 1) (Some 3600) True,
      setting ''logging'' ''metric_retention_days'' ''Metric retention days''
        ''Historical metric retention.'' ''number'' [] (Some 1) (Some 3650) True,
      setting ''discord'' ''channel_id'' ''Discord channel ID''
        ''Channel used by bot-token delivery.'' ''text'' [] None None True,
      setting ''discord'' ''summary_minutes'' ''Discord summary minutes''
        ''Interval between periodic summaries.'' ''number'' [] (Some 1) (Some 1440) True]"

definition checkSetting :: "settingDescriptor \<Rightarrow> string \<Rightarrow> unit result" where
  "checkSetting s value =
     attempt (check (\<not> contains_any value [carriage_return, newline]) (stLabel s @ '' cannot contain line breaks'')) (\<lambda>_.
     attempt (check (stType s = ''boolean'' \<longrightarrow> value = ''true'' \<or> value = ''false'') (stLabel s @ '' must be true or false'')) (\<lambda>_.
     attempt (if stType s = ''number'' then
         (case atoi value of
            None \<Rightarrow> Inl (stLabel s @ '' must be an integer'')
          | Some i \<Rightarrow>
              (case stMinimum s of
                 Some lo \<Rightarrow> if i < lo then Inl (stLabel s @ '' must be at least '' @ itoa lo)
                   else (case stMaximum s of Some hi \<Rightarrow> check (\<not> i > hi) (stLabel s @ '' must be at most '' @ itoa hi) | None \<Rightarrow> Inr ())
               | None \<Rightarrow> (case stMaximum s of Some hi \<Rightarrow> check (\<not> i > hi) (stLabel s @ '' must be at most '' @ itoa hi) | None \<Rightarrow> Inr ())))
       else Inr ()) (\<lambda>_.
     check (stType s = ''select'' \<longrightarrow> value \<in> set (stOptions s)) (stLabel s @ '' contains an unsupported option''))))"

definition applySetting :: "ini \<Rightarrow> string \<times> string \<Rightarrow> ini result" where
  "applySetting document iv =
     (case find (\<lambda>s. stID s = fst iv) (rev managedSettingSchema) of
        None \<Rightarrow> Inl (''Unsupported managed setting: '' @ fst iv)
      | Some s \<Rightarrow> attempt (checkSetting s (trim_space (snd iv))) (\<lambda>_.
          Inr (setKey document (stSection s) (stKey s) (trim_space (snd iv)))))"

definition jsetting :: "settingDescriptor \<Rightarrow> json" where
  "jsetting s =
     JObj ([(''id'', JStr (stID s)), (''section'', JStr (stSection s)), (''key'', JStr (stKey s)), (''label'', JStr (stLabel s)),
       (''description'', JStr (stDescription s)), (''type'', JStr (stType s)), (''value'', JStr (stValue s))] @
       (if stOptions s = [] then [] else [(''options'', JArr (map JStr (stOptions s)))]) @
       (case stMinimum s of None \<Rightarrow> [] | Some i \<Rightarrow> [(''minimum'', jint i)]) @
       (case stMaximum s of None \<Rightarrow> [] | Some i \<Rightarrow> [(''maximum'', jint i)]) @
       [(''restartRequired'', JBool (stRestart s))])"

definition handleManagedSettings :: "golib \<Rightarrow> (string \<times> string) list option \<Rightarrow> handler" where
  "handleManagedSettings G decoded h r d =
     (if verb r = ''GET'' then
        (case loadINI d of
           Inl err \<Rightarrow> (error_reply 500 err, d)
         | Inr document \<Rightarrow>
             ((200, JObj [(''settings'', JArr (map (\<lambda>s. jsetting (s\<lparr>stValue := get document (stSection s) (stKey s) []\<rparr>)) managedSettingSchema)),
                (''advancedEditorAvailable'', JBool True)]), d))
      else if verb r = ''PUT'' then finish d (
        attempt (some_or (error_reply 400 ''Invalid settings request'') decoded) (\<lambda>updates.
        attempt (or_reply 500 (loadINI d)) (\<lambda>document0.
        attempt (or_reply 400 (iterate applySetting document0 updates)) (\<lambda>document.
        Inr (case persistUnifiedDocument G h r document ''config.settings.apply'' (JObj [(''updated'', jint (int (length updates)))]) d of
          (Inl err, d1) \<Rightarrow> (error_reply 400 err, d1)
        | (Inr _, d1) \<Rightarrow>
            ((202, JObj [(''queued'', JBool True), (''saved'', JBool True), (''updated'', jint (int (length updates))),
               (''revision'', JStr (configRevision G h document))]), d1))))))
      else (error_reply 405 ''Method not allowed'', d))"

section \<open>What a verified write leaves on disk\<close>

lemma parsed_fits:
  assumes "parseINI (renderUnifiedConfig doc) = Inr doc'" and "ini_text doc"
  shows "lines_fit doc"
proof -
  have "\<forall>x \<in> set ([''# Ninj-OS Edge Fabric unified configuration'',
    ''# Use env:VARIABLE for secrets stored in Pterodactyl Startup.'', []] @ configLines doc). newline \<notin> set x"
    using configLines_text [OF assms(2)] by (auto simp: newline_def)
  note raw = raw_lines_terminated [OF this]
  have "\<not> snd (scan_lines (renderUnifiedConfig doc))"
    using assms(1) by (auto simp: parseINI_def attempt_Inr split: prod.splits if_splits)
  then show ?thesis
    unfolding renderUnifiedConfig_lines scan_lines_def Let_def raw lines_fit_def list_all_iff list_ex_iff by auto
qed

lemma written_document:
  assumes "writeUnifiedConfig h n doc d = (Inr u, d1)"
  shows "validateUnifiedConfig h doc = Inr ()" and "d1 = d\<lparr>unifiedFile := Some (renderUnifiedConfig doc)\<rparr>"
  using assms by (auto simp: writeUnifiedConfig_def serializeUnifiedConfig_def attempt_Inr split: sum.splits if_splits)

lemma failConflict_frame:
  "dbOpen (foldl (failConflict h assigned) l ts) = dbOpen l \<and> sessions (foldl (failConflict h assigned) l ts) = sessions l"
  by (induction ts arbitrary: l)
    (auto simp: failConflict_def updateTransfer_def Let_def exec_ignored_eq split: prod.splits option.splits)

lemma cleanupTickets_db [simp]:
  "dbOpen (db (cleanupTickets h n t d)) = dbOpen (db d)" "sessions (db (cleanupTickets h n t d)) = sessions (db d)"
  by (auto simp: cleanupTickets_def removeTicketsForStaticPorts_def writeTransferTickets_def appendEvent_def Let_def failConflict_frame
      split: prod.splits sum.splits)

lemma verified_write:
  assumes "writeAndVerifyUnifiedConfig h n doc current d = (Inr u, d')" and "ini_text doc"
  obtains doc' where "loadINI d' = Inr doc'" and "ini_view doc' = ini_view doc"
    and "dbOpen (db d') = dbOpen (db d)" and "sessions (db d') = sessions (db d)"
    and "unifiedFile d' = Some (renderUnifiedConfig doc)"
proof -
  obtain v d1 where w: "writeUnifiedConfig h n doc d = (v, d1)" by force
  with assms(1) obtain u' where v: "v = Inr u'" by (cases v) (auto simp: writeAndVerifyUnifiedConfig_def)
  note written = written_document [OF w [unfolded v]]
  obtain p d2 where p: "prepareUnifiedConfig h (n + 2) d1 = (p, d2)" by force
  note steps = assms(1) [unfolded writeAndVerifyUnifiedConfig_def w v verifyWritten_def p case_prod_conv sum.case]
  from steps obtain u2 where p2: "p = Inr u2" by (cases p) (auto simp: rollbackConfig_def)
  have stored: "unifiedFile d2 = Some (renderUnifiedConfig doc)" "db d2 = db d"
    using prepare_keeps(1,3) [of d1 "renderUnifiedConfig doc" h "n + 2"] p written(2) render_nonempty by simp_all
  obtain x where x: "loadINI d2 = Inr x"
    using steps unfolding p2 by (cases "loadINI d2") (auto simp: rollbackConfig_def)
  then have "lines_fit doc" using parsed_fits [OF _ assms(2)] stored(1) by (simp add: loadINI_def)
  then obtain doc' where doc': "parseINI (renderUnifiedConfig doc) = Inr doc'" "ini_view doc' = ini_view doc"
    using parse_rendered [OF assms(2)] by blast
  have "unifiedFile d' = unifiedFile d2 \<and> dbOpen (db d') = dbOpen (db d2) \<and> sessions (db d') = sessions (db d2)"
    using steps unfolding p2 x by (auto simp: rollbackConfig_def split: sum.splits if_splits)
  with stored doc' that [of doc'] show thesis by (simp add: loadINI_def)
qed

text \<open>A document that can be printed and is valid is never rejected by the verification.\<close>

lemma good_write:
  assumes "\<And>k. n \<le> k \<Longrightarrow> diskOK h k" and "ini_text doc" and "lines_fit doc" and "validateUnifiedConfig h doc = Inr ()"
  shows "\<exists>d'. writeAndVerifyUnifiedConfig h n doc current d = (Inr (), d')"
proof -
  let ?d1 = "d\<lparr>unifiedFile := Some (renderUnifiedConfig doc)\<rparr>"
  obtain doc' where doc': "parseINI (renderUnifiedConfig doc) = Inr doc'" "ini_view doc' = ini_view doc"
    and valid: "validateUnifiedConfig h doc' = Inr ()"
    using printed_document [OF assms(2-4)] by metis
  have "ini_text doc' \<and> lines_fit doc'"
    using ini_format.parse_print [of doc] assms(2,3) doc'(1) by auto
  then have same: "renderUnifiedConfig doc' = renderUnifiedConfig doc"
    using ini_format.print_view assms(2,3) doc'(2) by blast
  have w: "writeUnifiedConfig h n doc d = (Inr (), ?d1)"
    using assms(1,4) by (simp add: writeUnifiedConfig_def serializeUnifiedConfig_def)
  obtain d2 where d2: "prepareUnifiedConfig h (n + 2) ?d1 = (Inr (), d2)"
    using assms(1) doc'(1) valid render_nonempty
    by (simp add: prepareUnifiedConfig_def ensureUnifiedConfig_def loadINI_def writeAll_ok)
  then have "loadINI d2 = Inr doc'"
    using prepare_keeps(1) [of ?d1 "renderUnifiedConfig doc" h "n + 2"] doc'(1) render_nonempty by (simp add: loadINI_def)
  moreover have "contentOf h doc = contentOf h doc'"
    using assms(4) valid same by (simp add: contentOf_def serializeUnifiedConfig_def)
  ultimately show ?thesis unfolding writeAndVerifyUnifiedConfig_def w verifyWritten_def d2 case_prod_conv sum.case by simp
qed

lemma stored_frame [simp]:
  "loadINI (appendAudit h ts r p a res det d) = loadINI d" "loadINI (putRuntime name c d) = loadINI d"
  "loadINI (scheduleCommand t cmd d) = loadINI d" "loadINI (putState name v d) = loadINI d"
  "sessions (db (appendAudit h ts r p a res det d)) = sessions (db d)" "dbOpen (db (appendAudit h ts r p a res det d)) = dbOpen (db d)"
  "db (putRuntime name c d) = db d" "db (scheduleCommand t cmd d) = db d" "db (putState name v d) = db d"
  by (auto simp: loadINI_def appendAudit_def putRuntime_def scheduleCommand_def putState_def recordAudit_def exec_ignored_eq)

lemma persisted:
  assumes "persistUnifiedDocument G h r doc action details d = (Inr u, d')" and "ini_text doc"
  obtains doc' where "loadINI d' = Inr doc'" and "ini_view doc' = ini_view doc"
    and "dbOpen (db d') = dbOpen (db d)" and "sessions (db d') = sessions (db d)" and "validateUnifiedConfig h doc = Inr ()"
proof -
  obtain current where c: "validateUnifiedConfig h doc = Inr ()" "loadINI d = Inr current"
    using assms(1) by (auto simp: persistUnifiedDocument_def attempt_Inr split: sum.splits)
  obtain v d1 where w: "writeAndVerifyUnifiedConfig h 2 doc current d = (v, d1)" by force
  note steps = assms(1) [unfolded persistUnifiedDocument_def c attempt_simps sum.case Let_def w case_prod_conv]
  from steps obtain u' where v: "v = Inr u'" by (cases v) auto
  from verified_write [OF w [unfolded v] assms(2)] obtain doc' where doc': "loadINI d1 = Inr doc'" "ini_view doc' = ini_view doc"
    "dbOpen (db d1) = dbOpen (db d)" "sessions (db d1) = sessions (db d)" by metis
  have "loadINI d' = loadINI d1 \<and> dbOpen (db d') = dbOpen (db d1) \<and> sessions (db d') = sessions (db d1)"
    using steps unfolding v writeConfigSaveStatus_def by (auto split: if_splits)
  with doc' c(1) that show thesis by simp
qed

lemma persist_good:
  assumes "\<And>k. diskOK h k" and "ini_text doc" and "lines_fit doc" and "validateUnifiedConfig h doc = Inr ()" and "loadINI d = Inr current"
  shows "\<exists>d'. persistUnifiedDocument G h r doc action details d = (Inr (), d')"
  using good_write [OF _ assms(2-4), of 2 current d] assms(1,4,5)
  by (auto simp: persistUnifiedDocument_def writeConfigSaveStatus_def Let_def)

section \<open>Settings\<close>

text \<open>What a setting may be set to.\<close>

definition allowedValue :: "settingDescriptor \<Rightarrow> string \<Rightarrow> bool" where
  "allowedValue s v \<longleftrightarrow> newline \<notin> set v \<and> carriage_return \<notin> set v \<and>
     (stType s = ''boolean'' \<longrightarrow> v = ''true'' \<or> v = ''false'') \<and>
     (stType s = ''number'' \<longrightarrow> (\<exists>i. atoi v = Some i \<and> (\<forall>lo. stMinimum s = Some lo \<longrightarrow> lo \<le> i) \<and> (\<forall>hi. stMaximum s = Some hi \<longrightarrow> i \<le> hi))) \<and>
     (stType s = ''select'' \<longrightarrow> v \<in> set (stOptions s))"

lemma checkSetting_allowed: "checkSetting s v = Inr () \<longleftrightarrow> allowedValue s v"
proof -
  have number: "(case atoi v of None \<Rightarrow> Inl a
          | Some i \<Rightarrow>
              (case stMinimum s of
                 Some lo \<Rightarrow> if i < lo then Inl (b lo)
                   else (case stMaximum s of Some hi \<Rightarrow> check (\<not> i > hi) (c hi) | None \<Rightarrow> Inr ())
               | None \<Rightarrow> (case stMaximum s of Some hi \<Rightarrow> check (\<not> i > hi) (c hi) | None \<Rightarrow> Inr ()))) = Inr () \<longleftrightarrow>
     (\<exists>i. atoi v = Some i \<and> (\<forall>lo. stMinimum s = Some lo \<longrightarrow> lo \<le> i) \<and> (\<forall>hi. stMaximum s = Some hi \<longrightarrow> i \<le> hi))"
    for a :: string and b c
    by (auto simp: check_Inr split: option.splits)
  show ?thesis
    unfolding checkSetting_def allowedValue_def attempt_Inr check_Inr using number
    by (auto simp: contains_any_def list_ex_iff)
qed

lemma lower_name:
  assumes "s \<noteq> []" and "list_all (\<lambda>c. c \<in> set ''abcdefghijklmnopqrstuvwxyz_'') s"
  shows "name_text s \<and> key_ok s \<and> to_lower (trim_space s) = s"
proof -
  have "list_all (\<lambda>c. (is_lower_alpha c \<or> c = CHR ''_'') \<and> \<not> is_upper_alpha c \<and> c \<notin> set ''=#;['' \<and> c \<noteq> newline)
      ''abcdefghijklmnopqrstuvwxyz_''" by code_simp
  then have letters: "(is_lower_alpha c \<or> c = CHR ''_'') \<and> \<not> is_upper_alpha c \<and> c \<notin> set ''=#;['' \<and> c \<noteq> newline" if "c \<in> set s" for c
    using assms(2) that unfolding list_all_iff by blast
  then have c: "clean s" and l: "\<forall>c \<in> set s. \<not> is_upper_alpha c"
    using clean_ascii [OF assms(1)] by blast+
  have "to_lower s = s" using lower_id [OF l] .
  moreover have "CHR ''='' \<notin> set s" "CHR ''#'' \<notin> set s" "CHR '';'' \<notin> set s" "CHR ''['' \<notin> set s" "newline \<notin> set s"
    using letters by fastforce+
  moreover from this have "hd s \<notin> {CHR ''#'', CHR '';'', CHR ''[''}" using hd_in_set [OF assms(1)] by fastforce
  ultimately show ?thesis using c assms(1) clean_trim [OF c]
    by (auto simp: name_text_def key_ok_def clean_def)
qed

lemma schema_distinct: "distinct (map stID managedSettingSchema)"
  by code_simp

lemma schema_letters:
  "list_all (\<lambda>s. stSection s \<noteq> [] \<and> stKey s \<noteq> [] \<and> list_all (\<lambda>c. c \<in> set ''abcdefghijklmnopqrstuvwxyz_'') (stSection s) \<and>
     list_all (\<lambda>c. c \<in> set ''abcdefghijklmnopqrstuvwxyz_'') (stKey s) \<and> stID s = stSection s @ ''.'' @ stKey s) managedSettingSchema"
  by code_simp

definition settingAt :: "string \<Rightarrow> string \<Rightarrow> settingDescriptor option" where
  "settingAt s k = find (\<lambda>e. stSection e = s \<and> stKey e = k) managedSettingSchema"

lemma schema_inj: "x \<in> set managedSettingSchema \<Longrightarrow> y \<in> set managedSettingSchema \<Longrightarrow> stID x = stID y \<Longrightarrow> x = y"
  using schema_distinct unfolding distinct_map by (meson inj_onD)

lemma schema_id: "e \<in> set managedSettingSchema \<Longrightarrow> stID e = stSection e @ ''.'' @ stKey e"
  using schema_letters unfolding list_all_iff by blast

lemma settingAt_member: "settingAt s k = Some e \<longleftrightarrow> e \<in> set managedSettingSchema \<and> stSection e = s \<and> stKey e = k"
proof
  assume "settingAt s k = Some e"
  then show "e \<in> set managedSettingSchema \<and> stSection e = s \<and> stKey e = k" unfolding settingAt_def using find_in by fast
next
  assume e: "e \<in> set managedSettingSchema \<and> stSection e = s \<and> stKey e = k"
  then obtain x where x: "settingAt s k = Some x"
    unfolding settingAt_def by (cases "find (\<lambda>e. stSection e = s \<and> stKey e = k) managedSettingSchema") (auto simp: find_None_iff)
  then have "x \<in> set managedSettingSchema \<and> stSection x = s \<and> stKey x = k" unfolding settingAt_def using find_in by fast
  with e x schema_inj [of x e] schema_id show "settingAt s k = Some e" by simp
qed

lemma applySetting_Inr:
  assumes "applySetting doc (i, v) = Inr doc'"
  obtains e where "e \<in> set managedSettingSchema" and "stID e = i" and "allowedValue e (trim_space v)"
    and "doc' = putKey doc (stSection e) (stKey e) (trim_space v)"
proof -
  obtain e where e: "find (\<lambda>s. stID s = i) (rev managedSettingSchema) = Some e"
    using assms by (auto simp: applySetting_def split: option.splits)
  then have m: "e \<in> set managedSettingSchema" "stID e = i" using find_in [OF e] by simp_all
  then have "to_lower (trim_space (stSection e)) = stSection e" using schema_letters lower_name by (auto simp: list_all_iff)
  then show thesis
    using assms that [OF m] by (auto simp: applySetting_def e attempt_Inr checkSetting_allowed setKey_def)
qed

lemma applySettings:
  assumes "iterate applySetting doc us = Inr doc'" and "distinct (map fst us)" and "ini_text doc"
  shows "ini_text doc'"
    and "\<forall>(i, v) \<in> set us. \<exists>e \<in> set managedSettingSchema. stID e = i \<and> allowedValue e (trim_space v)"
    and "config_value doc' s k = (case Option.bind (settingAt s k) (\<lambda>e. map_of us (stID e)) of
       Some v \<Rightarrow> Some (trim_space v) | None \<Rightarrow> config_value doc s k)"
proof -
  have "ini_text doc' \<and> (\<forall>(i, v) \<in> set us. \<exists>e \<in> set managedSettingSchema. stID e = i \<and> allowedValue e (trim_space v)) \<and>
    config_value doc' s k = (case Option.bind (settingAt s k) (\<lambda>e. map_of us (stID e)) of
       Some v \<Rightarrow> Some (trim_space v) | None \<Rightarrow> config_value doc s k)"
    using assms
  proof (induction us arbitrary: doc)
    case (Cons u us)
    obtain i v where u: "u = (i, v)" by force
    obtain doc1 where doc1: "applySetting doc (i, v) = Inr doc1" "iterate applySetting doc1 us = Inr doc'"
      using Cons.prems(1) u by (auto simp: attempt_Inr)
    obtain e where e: "e \<in> set managedSettingSchema" "stID e = i" "allowedValue e (trim_space v)"
      "doc1 = putKey doc (stSection e) (stKey e) (trim_space v)" using applySetting_Inr [OF doc1(1)] .
    have n: "name_text (stSection e)" "key_ok (stKey e)" using e(1) schema_letters lower_name by (auto simp: list_all_iff)
    have "entry_text (stKey e, trim_space v)" using entry_text_key [OF n(2)] e(3) by (auto simp: allowedValue_def)
    then have t: "ini_text doc1" unfolding e(4) using ini_text_putKey [OF Cons.prems(3) n(1)] by blast
    note IH = Cons.IH [OF doc1(2) _ t]
    have at: "settingAt s k = Some e \<longleftrightarrow> s = stSection e \<and> k = stKey e" using settingAt_member e(1) by auto
    have one: "config_value doc1 s k = (if settingAt s k = Some e then Some (trim_space v) else config_value doc s k)"
      unfolding at e(4) by (auto simp: config_value_def ini_view_putKey view_put_def split: option.splits)
    have none: "map_of us i = None" using Cons.prems(2) u by (simp add: map_of_eq_None_iff)
    have us: "distinct (map fst us)" using Cons.prems(2) by simp
    have "config_value doc' s k = (case Option.bind (settingAt s k) (\<lambda>e. map_of (u # us) (stID e)) of
       Some v \<Rightarrow> Some (trim_space v) | None \<Rightarrow> config_value doc s k)"
    proof (cases "settingAt s k")
      case None
      then show ?thesis using IH [OF us] one by simp
    next
      case (Some x)
      show ?thesis
      proof (cases "x = e")
        case True
        then show ?thesis using IH [OF us] one Some none e(2) u by simp
      next
        case False
        then have "stID x \<noteq> i" using Some e(1,2) settingAt_member schema_inj by blast
        then show ?thesis using IH [OF us] one Some False u by (simp split: option.splits)
      qed
    qed
    moreover have "\<exists>e \<in> set managedSettingSchema. stID e = i \<and> allowedValue e (trim_space v)" using e(1-3) by blast
    ultimately show ?case using IH [OF us] u by simp
  qed simp
  then show "ini_text doc'"
    and "\<forall>(i, v) \<in> set us. \<exists>e \<in> set managedSettingSchema. stID e = i \<and> allowedValue e (trim_space v)"
    and "config_value doc' s k = (case Option.bind (settingAt s k) (\<lambda>e. map_of us (stID e)) of
       Some v \<Rightarrow> Some (trim_space v) | None \<Rightarrow> config_value doc s k)" by blast+
qed

lemma applied_settings:
  assumes "handleManagedSettings G (Some us) h r d = ((202, body), d')" and "verb r = ''PUT''"
  obtains doc doc' u where "loadINI d = Inr doc" and "iterate applySetting doc us = Inr doc'"
    and "persistUnifiedDocument G h r doc' ''config.settings.apply'' (JObj [(''updated'', jint (int (length us)))]) d = (Inr u, d')"
proof -
  have nonget: "verb r \<noteq> ''GET''" using assms(2) by simp
  note m = assms(1) [unfolded handleManagedSettings_def if_not_P [OF nonget] if_P [OF assms(2)] early_return_simps attempt_simps]
  from m obtain doc where doc: "loadINI d = Inr doc" by (cases "loadINI d") (auto simp: finish_def error_reply_def)
  note m2 = m [unfolded doc early_return_simps attempt_simps]
  from m2 obtain doc' where doc': "iterate applySetting doc us = Inr doc'"
    by (cases "iterate applySetting doc us") (auto simp: finish_def error_reply_def)
  obtain v d1 where p: "persistUnifiedDocument G h r doc' ''config.settings.apply'' (JObj [(''updated'', jint (int (length us)))]) d = (v, d1)"
    by force
  note m3 = m2 [unfolded doc' early_return_simps attempt_simps p case_prod_conv]
  then obtain u where "v = Inr u" "d1 = d'" by (cases v) (auto simp: finish_def error_reply_def)
  with p doc doc' that show thesis by blast
qed

text \<open>C13: Managed settings change what they name and nothing else: once a request is accepted, the configuration
  on disk has the submitted value at the section and key of every submitted setting, each value is one that the
  setting's type, range or list of options allows, and every other key has its old value.\<close>

theorem settings_change_only_what_they_name:
  assumes "handleManagedSettings G (Some us) h r d = ((202, body), d')" and "verb r = ''PUT''"
    and "distinct (map fst us)" and "loadINI d = Inr doc"
  shows "(\<forall>(i, v) \<in> set us. \<exists>e \<in> set managedSettingSchema. stID e = i \<and> allowedValue e (trim_space v)) \<and>
    (\<exists>doc'. loadINI d' = Inr doc' \<and>
      (\<forall>s k. config_value doc' s k = (case Option.bind (settingAt s k) (\<lambda>e. map_of us (stID e)) of
         Some v \<Rightarrow> Some (trim_space v) | None \<Rightarrow> config_value doc s k)))"
proof -
  obtain doc1 u where doc1: "iterate applySetting doc us = Inr doc1"
    and p: "persistUnifiedDocument G h r doc1 ''config.settings.apply'' (JObj [(''updated'', jint (int (length us)))]) d = (Inr u, d')"
    using applied_settings [OF assms(1,2)] assms(4) by (metis Inr_inject)
  have "ini_text doc" using assms(4) parseINI_text by (auto simp: loadINI_def split: option.splits)
  note applied = applySettings [OF doc1 assms(3) this]
  obtain doc' where doc': "loadINI d' = Inr doc'" "ini_view doc' = ini_view doc1"
    using persisted [OF p applied(1)] by metis
  have "config_value doc' = config_value doc1" by (intro ext) (simp add: config_value_def doc'(2))
  with doc'(1) applied(2,3) show ?thesis by auto
qed

definition healthDocument :: ini where
  "healthDocument = sampleDocument @ [(''health'', [(''interval_seconds'', ''30'')])]"

lemma health_applied: "iterate applySetting sampleDocument [(''health.interval_seconds'', '' 30 '')] = Inr healthDocument"
  by code_simp

lemma health_valid: "validateUnifiedConfig h healthDocument = Inr ()"
proof -
  have l: "to_lower ''edge'' = ''edge''" "to_lower ''config_version'' = ''config_version''"
    "to_lower ''transfer'' = ''transfer''" "to_lower ''session_core'' = ''session_core''" by code_simp+
  have g: "get healthDocument ''edge'' ''config_version'' x = x" "get healthDocument ''transfer'' k x = x"
    "get healthDocument ''session_core'' k x = x" for k x
    by (simp_all add: get_def l healthDocument_def sampleDocument_def map_get_def)
  have "unifiedTopology healthDocument = smallTopology ''primary'' 19132 0 50" by code_simp
  moreover have "validateUnifiedSecrets h healthDocument = Inr ()" by (rule secrets_unset) code_simp
  ultimately show ?thesis using g by (intro validate_short) (simp_all add: smallTopology_valid)
qed

lemma lines_fit_short: "list_all (\<lambda>l. length l < 100) (configLines doc) \<Longrightarrow> lines_fit doc"
  by (auto simp: lines_fit_def list_all_iff)

lemma zoo_stored: "loadINI zooDashboard = Inr sampleDocument"
  by (simp add: loadINI_def zooDashboard_def zoo_parsed)

theorem settings_change_only_what_they_name_witness:
  "\<exists>body d' doc'. handleManagedSettings sample_golib (Some [(''health.interval_seconds'', '' 30 '')]) sampleHost putZoo zooDashboard = ((202, body), d') \<and>
     loadINI d' = Inr doc' \<and> config_value doc' ''health'' ''interval_seconds'' = Some ''30'' \<and>
     config_value doc' ''edge'' ''primary_backend'' = Some ''zoo''"
proof -
  let ?us = "[(''health.interval_seconds'', '' 30 '')]"
  have t: "ini_text healthDocument" using applySettings(1) [OF health_applied] parseINI_text [OF zoo_parsed] by simp
  have fit: "lines_fit healthDocument" by (rule lines_fit_short) code_simp
  have disk: "\<And>k. diskOK sampleHost k" by (simp add: sampleHost_def)
  obtain d' where p: "persistUnifiedDocument sample_golib sampleHost putZoo healthDocument ''config.settings.apply''
      (JObj [(''updated'', jint (int (length ?us)))]) zooDashboard = (Inr (), d')"
    using persist_good [OF _ t fit health_valid zoo_stored, of sampleHost] disk by blast
  have verb: "verb putZoo = ''PUT''" by (simp add: putZoo_def)
  then have nonget: "verb putZoo \<noteq> ''GET''" by simp
  have "\<exists>body. handleManagedSettings sample_golib (Some ?us) sampleHost putZoo zooDashboard = ((202, body), d')"
    unfolding handleManagedSettings_def if_not_P [OF nonget] if_P [OF verb] zoo_stored
    by (simp only: early_return_simps attempt_simps health_applied p case_prod_conv sum.case prod.inject simp_thms)
  then obtain body where body: "handleManagedSettings sample_golib (Some ?us) sampleHost putZoo zooDashboard = ((202, body), d')" by blast
  have at: "map_option stID (settingAt ''health'' ''interval_seconds'') = Some ''health.interval_seconds''"
    "settingAt ''edge'' ''primary_backend'' = None" "trim_space '' 30 '' = ''30''" by code_simp+
  have old: "config_value sampleDocument ''edge'' ''primary_backend'' = Some ''zoo''"
    by (simp add: config_value_def ini_view_def sampleDocument_def)
  obtain doc' where doc': "loadINI d' = Inr doc'"
    and c: "config_value doc' s k = (case Option.bind (settingAt s k) (\<lambda>e. map_of ?us (stID e)) of
         Some v \<Rightarrow> Some (trim_space v) | None \<Rightarrow> config_value sampleDocument s k)" for s k
    using settings_change_only_what_they_name [OF body verb _ zoo_stored] by auto
  have "config_value doc' ''health'' ''interval_seconds'' = Some ''30''" using at(1,3) unfolding c by auto
  moreover have "config_value doc' ''edge'' ''primary_backend'' = Some ''zoo''" unfolding c at(2) using old by simp
  ultimately show ?thesis using body doc' by blast
qed

end
