(* ===== verification/Editor.thy ===== *)
theory Editor
  imports Settings
begin

text \<open>
  The two ways in which credentials and the configuration meet in the dashboard: the configuration
  editor (\<^verbatim>\<open>handleUnifiedConfig\<close> of \<^verbatim>\<open>dashboard/config.go\<close>), which must neither show nor change them, and the
  secret vault (\<^verbatim>\<open>handleManagedSecrets\<close> of \<^verbatim>\<open>dashboard/management.go\<close>), which changes one at a time.
\<close>

section \<open>The configuration editor\<close>

definition handleUnifiedConfig :: "golib \<Rightarrow> string option \<Rightarrow> handler" where
  "handleUnifiedConfig G content h r d =
     (if verb r = ''GET'' then
        (case loadINI d of
           Inl err \<Rightarrow> (error_reply 500 err, d)
         | Inr document \<Rightarrow>
             ((200, JObj [(''path'', JStr (configPath d)),
                (''content'', JStr (renderUnifiedConfig (redactUnifiedDocument document))),
                (''revision'', JStr (configRevision G h document)),
                (''note'', JStr ''Credentials are redacted and read-only here. Use the Secret Vault to set, rotate, inherit, or bind every managed credential.'')]), d))
      else if verb r = ''POST'' \<or> verb r = ''PUT'' then finish d (
        attempt (some_or (error_reply 400 ''Invalid configuration request'') content) (\<lambda>submitted.
        attempt (or_reply 400 (parseINI submitted)) (\<lambda>candidate0.
        attempt (or_reply 500 (loadINI d)) (\<lambda>current.
        let candidate = preserveVaultManagedSecrets (mergeRedactedSecrets candidate0 current) current in
        attempt (or_reply 400 (validateUnifiedConfig h candidate)) (\<lambda>_.
        let restartScope = unifiedConfigRestartScope current candidate in
        Inr (case writeAndVerifyUnifiedConfig h 2 candidate current d of
          (Inl err, d1) \<Rightarrow> (error_reply 500 err, d1)
        | (Inr _, d1) \<Rightarrow>
            if \<not> diskOK h 0 then (error_reply 500 ''write error'', d1)
            else
              let d2 = putRuntime ''topology-restart.pending'' (itoa (clock h 100)) d1;
                  services = (restartScope = ''services'');
                  revision = configRevision G h candidate;
                  d3 = appendAudit h (clock h 101) r (principalFromRequest r) ''config.unified.apply''
                    (restartScope @ ''_restart_scheduled'') (JObj [(''path'', JStr (configPath d))]) d2;
                  d4 = (case writeConfigSaveStatus (diskOK h 1) (clock h 102) revision ''config.unified.apply'' restartScope d3 of
                      Inl _ \<Rightarrow> d3 | Inr x \<Rightarrow> x)
              in ((202, JObj [(''saved'', JBool True), (''restartScope'', JStr restartScope), (''path'', JStr (configPath d)),
                     (''revision'', JStr revision),
                     (''message'', JStr (if services
                        then ''Configuration saved and verified. Dashboard and gateway restart is scheduled.''
                        else ''Configuration saved and verified. Only the gateway will restart; the dashboard stays online.''))]),
                  if services then scheduleCommand 3000 ''service_restart'' d4 else scheduleCommand 750 ''topology_restart'' d4)))))))
      else (error_reply 405 ''Method not allowed'', d))"

definition handleSecuritySources :: "golib \<Rightarrow> handler" where
  "handleSecuritySources G h r d = finish d (
     attempt (check (verb r = ''GET'') (error_reply 405 ''Method not allowed'')) (\<lambda>_.
     attempt (or_reply 500 (loadINI d)) (\<lambda>document.
     Inr ((200, JObj [(''sources'', JArr (map (\<lambda>s. JObj [(''id'', JStr (sdID s)), (''component'', JStr (sdComponent s)),
       (''label'', JStr (sdLabel s)), (''reference'', JStr (sdReference s)),
       (''environmentVariable'', JStr (sdEnvironmentVariable s)), (''configured'', JBool (sdConfigured s)),
       (''fingerprint'', JStr (sdFingerprint s)), (''mode'', JStr (sdMode s))]) (secretDescriptors G h document)))]), d))))"

section \<open>The secret vault\<close>

record secretRequest =
  sqID :: string
  sqMode :: string
  sqValue :: string
  sqEnvironmentVariable :: string
  sqGenerate :: bool

definition jdescriptor :: "secretDescriptor \<Rightarrow> json" where
  "jdescriptor s =
     JObj ([(''id'', JStr (sdID s)), (''component'', JStr (sdComponent s)), (''label'', JStr (sdLabel s)), (''mode'', JStr (sdMode s)),
       (''reference'', JStr (sdReference s))] @
       (if sdEnvironmentVariable s = [] then [] else [(''environmentVariable'', JStr (sdEnvironmentVariable s))]) @
       (if sdSuggestedEnvironmentVariable s = [] then [] else [(''suggestedEnvironmentVariable'', JStr (sdSuggestedEnvironmentVariable s))]) @
       [(''configured'', JBool (sdConfigured s))] @
       (if sdFingerprint s = [] then [] else [(''fingerprint'', JStr (sdFingerprint s))]) @
       [(''canGenerate'', JBool (sdCanGenerate s)), (''canInherit'', JBool (sdCanInherit s)),
        (''restartRequired'', JBool (sdRestartRequired s)), (''minimumLength'', jint (sdMinimumLength s))])"

text \<open>The value the request asks for and its mode, after generation.\<close>

definition requestedSecret :: "host \<Rightarrow> secretLocation \<Rightarrow> secretRequest \<Rightarrow> reply + string \<times> string" where
  "requestedSecret h location q =
     (if sqGenerate q
      then attempt (check (slCanGenerate location) (error_reply 400 ''This key cannot be generated automatically'')) (\<lambda>_.
           attempt (or_reply 500 (generateManagedSecret (slKind location) (random h 0))) (\<lambda>value. Inr (''dashboard'', value)))
      else Inr (to_lower (trim_space (sqMode q)), trim_space (sqValue q)))"

text \<open>What is stored under the location's key.\<close>

definition storedSecret :: "host \<Rightarrow> secretLocation \<Rightarrow> secretRequest \<Rightarrow> string \<Rightarrow> string \<Rightarrow> string result" where
  "storedSecret h location q mode value =
     (if mode = ''dashboard'' then
        attempt (validateManagedSecret location value) (\<lambda>_.
        attempt (check (\<not> (slRequired location \<and> value = [])) (slLabel location @ '' cannot be empty'')) (\<lambda>_. Inr value))
      else if mode = ''environment'' then
        let variable0 = to_upper (trim_space (sqEnvironmentVariable q));
            variable = (if variable0 = [] then slDefaultEnv location else variable0);
            resolved = trim_space (getenv h variable) in
        attempt (check (environmentVariablePattern variable) ''Invalid environment variable name'') (\<lambda>_.
        attempt (check (resolved \<noteq> []) (''Environment variable '' @ variable @
          '' is empty in the running service. Set it in Pterodactyl Startup/systemd first, or use Dashboard-managed mode.'')) (\<lambda>_.
        (case validateManagedSecret location resolved of
           Inl err \<Rightarrow> Inl (''Environment variable '' @ variable @ '': '' @ err)
         | Inr _ \<Rightarrow> Inr (''env:'' @ variable))))
      else if mode = ''inherit'' then
        attempt (check (slCanInherit location) ''This key cannot inherit another key'') (\<lambda>_. Inr [])
      else if mode = ''clear'' \<or> mode = ''unset'' then
        attempt (check (\<not> slRequired location) (slLabel location @ '' cannot be cleared'')) (\<lambda>_. Inr [])
      else Inl ''Mode must be dashboard, environment, inherit, or clear'')"

definition endsSessions :: "string \<Rightarrow> bool" where
  "endsSessions sid \<longleftrightarrow> sid = ''dashboard.owner_token'' \<or> sid = ''dashboard.totp_secret''"

definition handleManagedSecrets :: "golib \<Rightarrow> secretRequest option \<Rightarrow> handler" where
  "handleManagedSecrets G decoded h r d =
     (if verb r = ''GET'' then
        (case loadINI d of
           Inl err \<Rightarrow> (error_reply 500 err, d)
         | Inr document \<Rightarrow>
             ((200, JObj [(''secrets'', JArr (map jdescriptor (secretDescriptors G h document))),
                (''storage'', JStr ''Dashboard-managed values are stored in config/edge-fabric.ini with mode 0600 and are never returned by this API.'')]), d))
      else if verb r = ''PUT'' then finish d (
        attempt (some_or (error_reply 400 ''Invalid secret request'') decoded) (\<lambda>q.
        attempt (or_reply 500 (loadINI d)) (\<lambda>document0.
        attempt (or_reply 400 (secretLocationForID document0 (trim_space (sqID q)))) (\<lambda>location.
        attempt (requestedSecret h location q) (\<lambda>(mode, value).
        attempt (or_reply 400 (storedSecret h location q mode value)) (\<lambda>stored.
        let document = setKey document0 (slSection location) (slKey location) stored in
        Inr (case persistUnifiedDocument G h r document ''security.secret.rotate''
               (JObj [(''id'', JStr (sqID q)), (''mode'', JStr mode), (''fingerprint'', JStr (secretFingerprint G value))]) d of
          (Inl err, d1) \<Rightarrow> (error_reply 400 err, d1)
        | (Inr _, d1) \<Rightarrow>
            let d2 = (if endsSessions (sqID q) then d1\<lparr>db := clearSessions (db d1)\<rparr> else d1)
            in ((202, JObj ([(''queued'', JBool True), (''saved'', JBool True),
                   (''secret'', jdescriptor (secretDescriptorFor G h document (sqID q) location)),
                   (''revision'', JStr (configRevision G h document)), (''sessionWillEnd'', JBool (endsSessions (sqID q)))] @
                   (if sqGenerate q then [(''generatedValue'', JStr value), (''oneTimeReveal'', JBool True)] else []))), d2))))))))
      else (error_reply 405 ''Method not allowed'', d))"

section \<open>The vault changes one credential\<close>

lemma staticSecrets_names:
  "list_all (\<lambda>(i, l). slSection l \<noteq> [] \<and> slKey l \<noteq> [] \<and> list_all (\<lambda>c. c \<in> set ''abcdefghijklmnopqrstuvwxyz_'') (slSection l) \<and>
     list_all (\<lambda>c. c \<in> set ''abcdefghijklmnopqrstuvwxyz_'') (slKey l) \<and> isSecretConfigKey (slSection l) (slKey l)) staticSecrets"
  by code_simp

lemma secret_location:
  assumes "secretLocationForID doc i = Inr l"
  shows "name_text (slSection l) \<and> key_ok (slKey l) \<and> to_lower (trim_space (slSection l)) = slSection l \<and>
    isSecretConfigKey (slSection l) (slKey l)"
proof (cases "map_of staticSecrets i")
  case (Some l')
  then have "l' = l" using assms by (simp add: secretLocationForID_def)
  with Some have "(i, l) \<in> set staticSecrets" by (simp add: map_of_SomeD)
  then show ?thesis using staticSecrets_names lower_name by (fastforce simp: list_all_iff)
next
  case None
  then obtain b where b: "backendIDPattern b" "slSection l = ''backend.'' @ b" "slKey l = ''companion_secret''"
    using assms by (auto simp: secretLocationForID_def Let_def split: if_splits)
  have n: "to_lower (trim_space (slSection l)) = slSection l" unfolding b(2) by (rule backend_section_name [OF b(1)])
  have "newline \<notin> set (slSection l)"
    unfolding b(2) using clean_excludes [OF clean_backendID [OF b(1)]] by (auto simp: newline_def)
  from name_text_read [OF this] have "name_text (slSection l)" unfolding n by (simp add: b(2))
  moreover have "key_ok ''companion_secret''" "to_lower ''companion_secret'' = ''companion_secret''" by code_simp+
  moreover have "to_lower (''backend.'' @ b) = ''backend.'' @ b"
    using n unfolding b(2) by (metis \<open>name_text (slSection l)\<close> b(2) name_text_def)
  then have "has_prefix (to_lower (''backend.'' @ b)) ''backend.''" by (simp add: has_prefix_def)
  ultimately show ?thesis using n unfolding b(2,3) isSecretConfigKey_def Let_def by simp
qed

lemma trimmed_base32: "trimmed (base32_encode b) \<and> newline \<notin> set (base32_encode b)"
proof -
  have a: "\<forall>c \<in> set base32_alphabet. is_ascii c \<and> c \<notin> set ascii_spaces \<and> c \<noteq> newline" by code_simp
  have "set (base32_encode b) \<subseteq> set base32_alphabet"
    unfolding base32_encode_def by (rule encode_with_set) (simp add: alphabet32)
  with a show ?thesis by (blast intro: trimmed_ascii)
qed

lemma environment_reference: "environmentVariablePattern v \<Longrightarrow> trimmed (''env:'' @ v) \<and> newline \<notin> set (''env:'' @ v)"
proof -
  assume "environmentVariablePattern v"
  then have "\<forall>c \<in> set v. is_upper_alpha c \<or> is_digit_char c \<or> c = CHR ''_''"
    by (auto simp: environmentVariablePattern_def list_all_iff split: list.splits)
  then have "\<forall>c \<in> set (''env:'' @ v). is_ascii c \<and> c \<notin> set ascii_spaces \<and> c \<noteq> newline"
    by (auto simp: is_upper_alpha_def is_digit_char_def is_ascii_def byte_val_def ascii_spaces_def newline_def)
  then show ?thesis by (blast intro: trimmed_ascii)
qed

lemma stored_text:
  assumes "requestedSecret h l q = Inr (mode, v)" and "storedSecret h l q mode v = Inr stored"
  shows "trimmed stored \<and> newline \<notin> set stored"
proof -
  have tv: "trimmed v"
    using assms(1) trimmed_base32 trimmed_hex
    by (auto simp: requestedSecret_def generateManagedSecret_def early_return split: if_splits option.splits)
  consider (dashboard) "mode = ''dashboard''" "stored = v" "validateManagedSecret l v = Inr ()"
    | (environment) x where "stored = ''env:'' @ x" "environmentVariablePattern x" | (empty) "stored = []"
    using assms(2) unfolding storedSecret_def Let_def
    by (auto simp: early_return split: if_splits sum.splits)
  then show ?thesis
  proof cases
    case dashboard
    then have "newline \<notin> set v"
      using trim_space_id [OF tv]
      by (auto simp: validateManagedSecret_def Let_def contains_any_def list_ex_iff split: if_splits)
    with dashboard tv show ?thesis by simp
  qed (use environment_reference in auto)
qed

lemma rotated:
  assumes "handleManagedSecrets G (Some q) h r d = ((202, body), d')" and "verb r = ''PUT''" and "loadINI d = Inr doc"
  obtains l mode v stored u d1 where "secretLocationForID doc (trim_space (sqID q)) = Inr l"
    and "requestedSecret h l q = Inr (mode, v)" and "storedSecret h l q mode v = Inr stored"
    and "persistUnifiedDocument G h r (putKey doc (slSection l) (slKey l) stored) ''security.secret.rotate''
       (JObj [(''id'', JStr (sqID q)), (''mode'', JStr mode), (''fingerprint'', JStr (secretFingerprint G v))]) d = (Inr u, d1)"
    and "d' = (if endsSessions (sqID q) then d1\<lparr>db := clearSessions (db d1)\<rparr> else d1)"
proof -
  have nonget: "verb r \<noteq> ''GET''" using assms(2) by simp
  note m = assms(1) [unfolded handleManagedSecrets_def if_not_P [OF nonget] if_P [OF assms(2)] assms(3) early_return_simps attempt_simps]
  from m obtain l where l: "secretLocationForID doc (trim_space (sqID q)) = Inr l"
    by (cases "secretLocationForID doc (trim_space (sqID q))") (auto simp: error_reply_def)
  note m2 = m [unfolded l early_return_simps attempt_simps]
  from m2 obtain mode v where v: "requestedSecret h l q = Inr (mode, v)"
  proof (cases "requestedSecret h l q")
    case (Inl rep)
    then have "fst rep \<noteq> 202" by (auto simp: requestedSecret_def early_return error_reply_def split: if_splits)
    moreover have "rep = (202, body)" using m2 unfolding Inl by simp
    ultimately show thesis by simp
  qed (auto simp: prod_eq_iff)
  note m3 = m2 [unfolded v attempt_simps case_prod_conv]
  from m3 obtain stored where s: "storedSecret h l q mode v = Inr stored"
    by (cases "storedSecret h l q mode v") (auto simp: error_reply_def)
  have set: "setKey doc (slSection l) (slKey l) x = putKey doc (slSection l) (slKey l) x" for x
    using secret_location [OF l] by (simp add: setKey_def)
  obtain w d1 where p: "persistUnifiedDocument G h r (putKey doc (slSection l) (slKey l) stored) ''security.secret.rotate''
       (JObj [(''id'', JStr (sqID q)), (''mode'', JStr mode), (''fingerprint'', JStr (secretFingerprint G v))]) d = (w, d1)" by force
  note m4 = m3 [unfolded s early_return_simps attempt_simps Let_def set p case_prod_conv]
  then obtain u where "w = Inr u" by (cases w) (auto simp: error_reply_def)
  moreover from this have "d' = (if endsSessions (sqID q) then d1\<lparr>db := clearSessions (db d1)\<rparr> else d1)"
    using m4 by simp
  ultimately show thesis using that [OF l v s] p by blast
qed

lemma ini_text_loaded: "loadINI d = Inr doc \<Longrightarrow> ini_text doc"
  using parseINI_text by (auto simp: loadINI_def split: option.splits)

lemma rotated_text:
  assumes "loadINI d = Inr doc" and "secretLocationForID doc i = Inr l"
    and "requestedSecret h l q = Inr (mode, v)" and "storedSecret h l q mode v = Inr stored"
  shows "ini_text (putKey doc (slSection l) (slKey l) stored)"
  using ini_text_putKey [OF ini_text_loaded [OF assms(1)]] entry_text_key stored_text [OF assms(3,4)] secret_location [OF assms(2)]
  by blast

text \<open>C24: The vault changes one credential: once a request is accepted, the configuration on disk has at the
  place of the named credential what the request asks to store there (the value, a reference to a checked
  environment variable, or nothing), that place is a credential key, and every other key keeps its value.\<close>

theorem vault_sets_one_credential:
  assumes "handleManagedSecrets G (Some q) h r d = ((202, body), d')" and "verb r = ''PUT''" and "loadINI d = Inr doc"
  shows "\<exists>l mode v stored doc'. secretLocationForID doc (trim_space (sqID q)) = Inr l \<and>
    requestedSecret h l q = Inr (mode, v) \<and> storedSecret h l q mode v = Inr stored \<and>
    isSecretConfigKey (slSection l) (slKey l) \<and> loadINI d' = Inr doc' \<and>
    (\<forall>s k. config_value doc' s k = (if s = slSection l \<and> k = slKey l then Some stored else config_value doc s k))"
proof -
  from rotated [OF assms] obtain l mode v stored u d1 where l: "secretLocationForID doc (trim_space (sqID q)) = Inr l"
    and v: "requestedSecret h l q = Inr (mode, v)" "storedSecret h l q mode v = Inr stored"
    and p: "persistUnifiedDocument G h r (putKey doc (slSection l) (slKey l) stored) ''security.secret.rotate''
       (JObj [(''id'', JStr (sqID q)), (''mode'', JStr mode), (''fingerprint'', JStr (secretFingerprint G v))]) d = (Inr u, d1)"
    and d': "d' = (if endsSessions (sqID q) then d1\<lparr>db := clearSessions (db d1)\<rparr> else d1)" .
  note place = secret_location [OF l]
  from persisted [OF p rotated_text [OF assms(3) l v]] obtain doc' where doc': "loadINI d1 = Inr doc'"
    "ini_view doc' = ini_view (putKey doc (slSection l) (slKey l) stored)" by metis
  have "loadINI d' = Inr doc'" using doc'(1) d' by (simp add: loadINI_def)
  moreover have "config_value doc' s k = (if s = slSection l \<and> k = slKey l then Some stored else config_value doc s k)" for s k
    by (auto simp: config_value_def doc'(2) ini_view_putKey view_put_def split: option.splits)
  ultimately show ?thesis using l v place by blast
qed


section \<open>A rotation under a padded ID\<close>

definition paddedRequest :: secretRequest where
  "paddedRequest = \<lparr>sqID = '' dashboard.totp_secret'', sqMode = ''clear'', sqValue = [], sqEnvironmentVariable = [], sqGenerate = False\<rparr>"

definition sessionDashboard :: dashboard where
  "sessionDashboard = zooDashboard\<lparr>db := emptyLedger\<lparr>sessions :=
     [\<lparr>ses_token_hash = ''t'', ses_username = ''Owner'', ses_role = ''owner'', ses_created_at = 0, ses_expires_at = 1,
       ses_last_seen = 0, ses_totp_verified = True\<rparr>]\<rparr>\<rparr>"

definition totpDocument :: ini where
  "totpDocument = sampleDocument @ [(''dashboard'', [(''totp_secret'', [])])]"

lemma session_stored: "loadINI sessionDashboard = Inr sampleDocument"
  using zoo_stored by (simp add: sessionDashboard_def loadINI_def)

lemma padded_location:
  "map_option (\<lambda>l. (slSection l, slKey l)) (case secretLocationForID sampleDocument (trim_space (sqID paddedRequest)) of Inl e \<Rightarrow> None | Inr l \<Rightarrow> Some l)
     = Some (''dashboard'', ''totp_secret'')"
  "(case secretLocationForID sampleDocument (trim_space (sqID paddedRequest)) of Inl e \<Rightarrow> False | Inr l \<Rightarrow>
     requestedSecret h l paddedRequest = Inr (''clear'', []) \<and> storedSecret h l paddedRequest ''clear'' [] = Inr [] \<and>
     setKey sampleDocument (slSection l) (slKey l) [] = totpDocument)"
  "endsSessions (trim_space (sqID paddedRequest))" "\<not> endsSessions (sqID paddedRequest)"
  by code_simp+

lemma totp_valid: "validateUnifiedConfig h totpDocument = Inr ()"
proof -
  have l: "to_lower ''edge'' = ''edge''" "to_lower ''config_version'' = ''config_version''"
    "to_lower ''transfer'' = ''transfer''" "to_lower ''session_core'' = ''session_core''" by code_simp+
  have g: "get totpDocument ''edge'' ''config_version'' x = x" "get totpDocument ''transfer'' k x = x"
    "get totpDocument ''session_core'' k x = x" for k x
    by (simp_all add: get_def l totpDocument_def sampleDocument_def map_get_def)
  have "unifiedTopology totpDocument = smallTopology ''primary'' 19132 0 50" by code_simp
  moreover have "validateUnifiedSecrets h totpDocument = Inr ()" by (rule secrets_unset) code_simp
  ultimately show ?thesis using g by (intro validate_short) (simp_all add: smallTopology_valid)
qed

lemma padded_rotation:
  "\<exists>body d'. handleManagedSecrets sample_golib (Some paddedRequest) sampleHost putZoo sessionDashboard = ((202, body), d')"
proof -
  obtain l where l: "secretLocationForID sampleDocument (trim_space (sqID paddedRequest)) = Inr l"
    using padded_location(1) by (cases "secretLocationForID sampleDocument (trim_space (sqID paddedRequest))") auto
  have q: "requestedSecret sampleHost l paddedRequest = Inr (''clear'', [])" "storedSecret sampleHost l paddedRequest ''clear'' [] = Inr []"
    "setKey sampleDocument (slSection l) (slKey l) [] = totpDocument"
    using padded_location(2) [of sampleHost] unfolding l sum.case by blast+
  have "ini_text totpDocument"
    using rotated_text [OF session_stored l q(1,2)] q(3) secret_location [OF l] by (simp add: setKey_def)
  moreover have "lines_fit totpDocument" by (rule lines_fit_short) code_simp
  moreover have "diskOK sampleHost k" for k by (simp add: sampleHost_def)
  ultimately have "\<exists>d'. persistUnifiedDocument sample_golib sampleHost putZoo totpDocument a x sessionDashboard = (Inr (), d')" for a x
    using persist_good [OF _ _ _ totp_valid session_stored] by blast
  then obtain d' where p: "persistUnifiedDocument sample_golib sampleHost putZoo totpDocument ''security.secret.rotate''
       (JObj [(''id'', JStr (sqID paddedRequest)), (''mode'', JStr ''clear''), (''fingerprint'', JStr (secretFingerprint sample_golib []))])
       sessionDashboard = (Inr (), d')" by blast
  have verb: "verb putZoo = ''PUT''" by (simp add: putZoo_def)
  then have nonget: "verb putZoo \<noteq> ''GET''" by simp
  show ?thesis
    unfolding handleManagedSecrets_def if_not_P [OF nonget] if_P [OF verb] session_stored
    by (simp only: early_return_simps attempt_simps l q case_prod_conv Let_def p sum.case prod.inject simp_thms) blast
qed

theorem vault_sets_one_credential_witness:
  "\<exists>body d' doc'. handleManagedSecrets sample_golib (Some paddedRequest) sampleHost putZoo sessionDashboard = ((202, body), d') \<and>
     loadINI d' = Inr doc' \<and> config_value doc' ''dashboard'' ''totp_secret'' = Some [] \<and>
     config_value doc' ''edge'' ''primary_backend'' = Some ''zoo''"
proof -
  obtain body d' where h: "handleManagedSecrets sample_golib (Some paddedRequest) sampleHost putZoo sessionDashboard = ((202, body), d')"
    using padded_rotation by blast
  have verb: "verb putZoo = ''PUT''" by (simp add: putZoo_def)
  from vault_sets_one_credential [OF h verb session_stored] obtain l mode v x doc'
    where l: "secretLocationForID sampleDocument (trim_space (sqID paddedRequest)) = Inr l"
      and q: "requestedSecret sampleHost l paddedRequest = Inr (mode, v)" "storedSecret sampleHost l paddedRequest mode v = Inr x"
      and doc': "loadINI d' = Inr doc'"
      and c: "\<And>s k. config_value doc' s k = (if s = slSection l \<and> k = slKey l then Some x else config_value sampleDocument s k)" by blast
  have "slSection l = ''dashboard''" "slKey l = ''totp_secret''" "x = []"
    using padded_location(1) padded_location(2) [of sampleHost] q unfolding l by auto
  moreover have "config_value sampleDocument ''edge'' ''primary_backend'' = Some ''zoo''"
    by (simp add: config_value_def ini_view_def sampleDocument_def)
  ultimately have "config_value doc' ''dashboard'' ''totp_secret'' = Some []" "config_value doc' ''edge'' ''primary_backend'' = Some ''zoo''"
    unfolding c by simp_all
  with h doc' show ?thesis by blast
qed


section \<open>The editor keeps credentials\<close>

lemma fst_map_values: "map fst (map (\<lambda>(k, v). (k, g k v)) kvs) = map fst kvs"
  by (induction kvs) auto

lemma ini_text_map:
  assumes "ini_text doc" and "\<And>s kvs. (s, kvs) \<in> set doc \<Longrightarrow> distinct (map fst (f s kvs)) \<and> list_all entry_text (f s kvs)"
  shows "ini_text (map (\<lambda>(s, kvs). (s, f s kvs)) doc)"
proof -
  have "map_of (map (\<lambda>(s, kvs). (s, f s kvs)) doc) x = map_option (f x) (map_of doc x)" for x by (rule map_of_map_values)
  moreover have "\<forall>(s, kvs) \<in> set (map (\<lambda>(s, kvs). (s, f s kvs)) doc). distinct (map fst kvs) \<and> name_text s \<and> list_all entry_text kvs"
    using assms by (auto simp: ini_text_def)
  ultimately show ?thesis using assms(1) unfolding ini_text_def keys_distinct_def hasSection_def fst_map_values by fastforce
qed

lemma map_get_text:
  assumes "ini_text doc"
  shows "trimmed (map_get (sectionValues doc s) k) \<and> newline \<notin> set (map_get (sectionValues doc s) k)"
proof (cases "map_of (sectionValues doc s) k")
  case (Some v)
  then have "(k, v) \<in> set (sectionValues doc s)" by (rule map_of_SomeD)
  moreover have "list_all entry_text (sectionValues doc s)"
    using assms by (auto simp: ini_text_def sectionValues_def split: option.splits dest: map_of_SomeD)
  ultimately have "entry_text (k, v)" by (simp add: list_all_iff)
  with Some show ?thesis by (simp add: map_get_def entry_text_def)
qed (simp add: map_get_def)

lemma ini_text_section:
  "ini_text doc \<Longrightarrow> (s, kvs) \<in> set doc \<Longrightarrow> distinct (map fst kvs) \<and> list_all entry_text kvs"
  by (auto simp: ini_text_def keys_distinct_def)

lemma ini_text_merge:
  assumes "ini_text candidate" and "ini_text current"
  shows "ini_text (mergeRedactedSecrets candidate current)"
  unfolding mergeRedactedSecrets_def
proof (rule ini_text_map [OF assms(1)])
  fix s kvs
  assume "(s, kvs) \<in> set candidate"
  note kvs = ini_text_section [OF assms(1) this]
  let ?g = "\<lambda>(k, v). (k, if v = redacted \<and> isSecretConfigKey s k \<and> hasSection current s then map_get (sectionValues current s) k else v)"
  have "entry_text (?g e)" if "entry_text e" for e
    using that map_get_text [OF assms(2), of s "fst e"] by (cases e) (auto simp: entry_text_def redacted_def)
  then show "distinct (map fst (map ?g kvs)) \<and> list_all entry_text (map ?g kvs)"
    unfolding fst_map_values using kvs by (auto simp: list_all_iff)
qed

lemma ini_text_preserve:
  assumes "ini_text candidate" and "ini_text current"
  shows "ini_text (preserveVaultManagedSecrets candidate current)"
  unfolding preserveVaultManagedSecrets_def
proof (rule ini_text_map [OF assms(1)])
  fix s kvs
  assume "(s, kvs) \<in> set candidate"
  note kvs = ini_text_section [OF assms(1) this]
  let ?f = "\<lambda>m (k, v). if isSecretConfigKey s k then AList.update k v m else m" and ?g = "\<lambda>(k, v). (k, if isSecretConfigKey s k then [] else v)"
  have "list_all entry_text (sectionValues current s)"
    using assms(2) ini_text_section [OF assms(2)] by (auto simp: sectionValues_def split: option.splits dest: map_of_SomeD)
  then have fold: "distinct (map fst (foldl ?f m xs)) \<and> list_all entry_text (foldl ?f m xs)"
    if "set xs \<subseteq> set (sectionValues current s)" "distinct (map fst m) \<and> list_all entry_text m" for m xs
    using that
  proof (induction xs arbitrary: m)
    case (Cons x xs)
    have "distinct (map fst (?f m x)) \<and> list_all entry_text (?f m x)"
      using Cons.prems set_update_subset [of "fst x" "snd x" m] by (cases x) (auto simp: list_all_iff intro: distinct_update)
    then show ?case using Cons by simp
  qed simp
  have "entry_text (?g e)" if "entry_text e" for e using that by (cases e) (auto simp: entry_text_def)
  then have "distinct (map fst (map ?g kvs)) \<and> list_all entry_text (map ?g kvs)"
    unfolding fst_map_values using kvs by (auto simp: list_all_iff)
  with fold [OF subset_refl kvs]
  show "distinct (map fst (if hasSection current s then foldl ?f kvs (sectionValues current s) else map ?g kvs)) \<and>
      list_all entry_text (if hasSection current s then foldl ?f kvs (sectionValues current s) else map ?g kvs)" by simp
qed

lemma edited:
  assumes "handleUnifiedConfig G (Some submitted) h r d = ((202, body), d')" and "verb r = ''POST'' \<or> verb r = ''PUT''" and "loadINI d = Inr current"
  obtains candidate doc' where "parseINI submitted = Inr candidate" and "loadINI d' = Inr doc'"
    and "ini_view doc' = ini_view (preserveVaultManagedSecrets (mergeRedactedSecrets candidate current) current)"
proof -
  have nonget: "verb r \<noteq> ''GET''" using assms(2) by auto
  note m = assms(1) [unfolded handleUnifiedConfig_def if_not_P [OF nonget] if_P [OF assms(2)] early_return_simps attempt_simps]
  from m obtain candidate where c: "parseINI submitted = Inr candidate" by (cases "parseINI submitted") (auto simp: error_reply_def)
  let ?doc = "preserveVaultManagedSecrets (mergeRedactedSecrets candidate current) current"
  have t: "ini_text ?doc"
    using ini_text_preserve ini_text_merge parseINI_text [OF c] ini_text_loaded [OF assms(3)] by blast
  note m2 = m [unfolded c assms(3) early_return_simps attempt_simps Let_def]
  from m2 obtain u where v: "validateUnifiedConfig h ?doc = Inr u"
    by (cases "validateUnifiedConfig h ?doc") (auto simp: error_reply_def)
  obtain w d1 where p: "writeAndVerifyUnifiedConfig h 2 ?doc current d = (w, d1)" by force
  note m3 = m2 [unfolded v early_return_simps attempt_simps p case_prod_conv]
  then obtain u' where w: "w = Inr u'" by (cases w) (auto simp: error_reply_def)
  from verified_write [OF p [unfolded w] t] obtain doc' where doc': "loadINI d1 = Inr doc'" "ini_view doc' = ini_view ?doc" by metis
  have "loadINI d' = loadINI d1"
    using m3 unfolding w writeConfigSaveStatus_def by (auto simp: error_reply_def split: if_splits)
  with doc' c that show thesis by simp
qed

text \<open>C12: The configuration editor cannot change a credential the vault holds, nor bring one in with a new
  section: after any accepted edit, in a section the edit keeps, every credential on disk has the value it had;
  in a section that is new every credential is empty.\<close>

theorem edit_keeps_credentials:
  assumes "handleUnifiedConfig G (Some submitted) h r d = ((202, body), d')" and "verb r = ''POST'' \<or> verb r = ''PUT''"
    and "loadINI d = Inr current"
  shows "\<exists>candidate doc'. parseINI submitted = Inr candidate \<and> loadINI d' = Inr doc' \<and>
    (\<forall>s k v. hasSection candidate s \<and> isSecretConfigKey s k \<longrightarrow>
      (config_value current s k = Some v \<longrightarrow> config_value doc' s k = Some v) \<and>
      (\<not> hasSection current s \<longrightarrow> config_value doc' s k \<in> {None, Some []}))"
proof -
  obtain candidate doc' where c: "parseINI submitted = Inr candidate" "loadINI d' = Inr doc'"
    and view: "ini_view doc' = ini_view (preserveVaultManagedSecrets (mergeRedactedSecrets candidate current) current)"
    using edited [OF assms] .
  have k: "keys_distinct current" using ini_text_loaded [OF assms(3)] by (simp add: ini_text_def)
  have "(config_value current s k = Some v \<longrightarrow> config_value doc' s k = Some v) \<and>
      (\<not> hasSection current s \<longrightarrow> config_value doc' s k \<in> {None, Some []})"
    if sec: "hasSection candidate s" and cred: "isSecretConfigKey s k" for s k v
  proof -
    obtain z where "ini_view candidate s = Some z" using sec by (auto simp: hasSection_view)
    then have "\<exists>f. ini_view (mergeRedactedSecrets candidate current) s = Some f" by (simp add: merge_view)
    then show ?thesis
      using cred preserve_view [OF k, of "mergeRedactedSecrets candidate current" s]
      by (auto simp: config_value_def view hasSection_view ini_view_sectionValues split: bind_splits)
  qed
  with c show ?thesis by blast
qed

definition editLines :: "string \<Rightarrow> string list" where
  "editLines v = [''[edge]'', ''primary_backend = zoo'', ''[backend.zoo]'', ''host = h'', ''fallback ='', ''[dashboard]'', ''operator_token = '' @ v]"

definition editText :: "string \<Rightarrow> string" where
  "editText v = concat (map (\<lambda>l. l @ [newline]) (editLines v))"

definition editDocument :: "string \<Rightarrow> ini" where
  "editDocument v = sampleDocument @ [(''dashboard'', [(''operator_token'', v)])]"

lemma edit_parsed:
  "parseINI (editText ''correct-horse-battery'') = Inr (editDocument ''correct-horse-battery'')"
  "parseINI (editText ''stolen-by-the-editor'') = Inr (editDocument ''stolen-by-the-editor'')"
proof -
  have short: "\<forall>x \<in> set (editLines v). newline \<notin> set x \<and> (x = [] \<or> last x \<noteq> carriage_return) \<and> length x < 65536"
    if "v \<in> {''correct-horse-battery'', ''stolen-by-the-editor''}" for v
    using that by (auto simp: editLines_def newline_def carriage_return_def)
  have loop: "map_option snd (case iniLoop 1 (''edge'', [(''edge'', [])]) (editLines v) of Inl e \<Rightarrow> None | Inr x \<Rightarrow> Some x) = Some (editDocument v)"
    if "v \<in> {''correct-horse-battery'', ''stolen-by-the-editor''}" for v
    using that by (elim insertE emptyE; simp only:) code_simp+
  have "parseINI (editText v) = Inr (editDocument v)" if "v \<in> {''correct-horse-battery'', ''stolen-by-the-editor''}" for v
    using loop [OF that] unfolding parseINI_def editText_def scan_lines_printed [OF short [OF that]]
    by (auto split: sum.splits)
  then show "parseINI (editText ''correct-horse-battery'') = Inr (editDocument ''correct-horse-battery'')"
    "parseINI (editText ''stolen-by-the-editor'') = Inr (editDocument ''stolen-by-the-editor'')" by simp_all
qed

lemma secrets_literal:
  assumes "list_all (\<lambda>i. case secretLocationForID doc i of Inl _ \<Rightarrow> False | Inr l \<Rightarrow>
      (let reference = trim_space (get doc (slSection l) (slKey l) []) in
       reference = [] \<or> envNameFromReference reference = [] \<and> validateManagedSecret l reference = Inr ()))
    (staticSecretIDs @ map (\<lambda>s. s @ ''.companion_secret'') (filter (\<lambda>s. has_prefix s ''backend.'') (map fst doc)))"
  shows "validateUnifiedSecrets h doc = Inr ()"
proof -
  have "checkSecret h doc () i = Inr ()"
    if "case secretLocationForID doc i of Inl _ \<Rightarrow> False | Inr l \<Rightarrow>
      (let reference = trim_space (get doc (slSection l) (slKey l) []) in
       reference = [] \<or> envNameFromReference reference = [] \<and> validateManagedSecret l reference = Inr ())" for i
    using that by (cases "secretLocationForID doc i") (auto simp: checkSecret_def Let_def)
  then show ?thesis using assms unfolding validateUnifiedSecrets_def iterate_unit list_all_iff by blast
qed

lemma edit_valid: "validateUnifiedConfig h (editDocument ''correct-horse-battery'') = Inr ()"
proof -
  let ?doc = "editDocument ''correct-horse-battery''"
  have l: "to_lower ''edge'' = ''edge''" "to_lower ''config_version'' = ''config_version''"
    "to_lower ''transfer'' = ''transfer''" "to_lower ''session_core'' = ''session_core''" by code_simp+
  have g: "get ?doc ''edge'' ''config_version'' x = x" "get ?doc ''transfer'' k x = x" "get ?doc ''session_core'' k x = x" for k x
    by (simp_all add: get_def l editDocument_def sampleDocument_def map_get_def)
  have "unifiedTopology ?doc = smallTopology ''primary'' 19132 0 50" by code_simp
  moreover have "validateUnifiedSecrets h ?doc = Inr ()" by (rule secrets_literal) code_simp
  ultimately show ?thesis using g by (intro validate_short) (simp_all add: smallTopology_valid)
qed

theorem edit_keeps_credentials_witness:
  "\<exists>body d' doc'. handleUnifiedConfig sample_golib (Some (editText ''stolen-by-the-editor'')) sampleHost putZoo
      (emptyDashboard\<lparr>unifiedFile := Some (editText ''correct-horse-battery'')\<rparr>) = ((202, body), d') \<and>
     loadINI d' = Inr doc' \<and> config_value doc' ''dashboard'' ''operator_token'' = Some ''correct-horse-battery''"
proof -
  let ?d = "emptyDashboard\<lparr>unifiedFile := Some (editText ''correct-horse-battery'')\<rparr>" and ?doc = "editDocument ''correct-horse-battery''"
  let ?new = "editDocument ''stolen-by-the-editor''"
  have stored: "loadINI ?d = Inr ?doc" by (simp add: loadINI_def edit_parsed)
  have same: "preserveVaultManagedSecrets (mergeRedactedSecrets ?new ?doc) ?doc = ?doc" by code_simp
  have "ini_text ?doc" using parseINI_text [OF edit_parsed(1)] .
  moreover have "lines_fit ?doc" by (rule lines_fit_short) code_simp
  moreover have disk: "diskOK sampleHost k" for k by (simp add: sampleHost_def)
  ultimately obtain d1 where w: "writeAndVerifyUnifiedConfig sampleHost 2 ?doc ?doc ?d = (Inr (), d1)"
    using good_write [OF _ _ _ edit_valid] by blast
  have verb: "verb putZoo = ''POST'' \<or> verb putZoo = ''PUT''" by (simp add: putZoo_def)
  have nonget: "verb putZoo \<noteq> ''GET''" by (simp add: putZoo_def)
  have "\<exists>body d'. handleUnifiedConfig sample_golib (Some (editText ''stolen-by-the-editor'')) sampleHost putZoo ?d = ((202, body), d')"
    unfolding handleUnifiedConfig_def if_not_P [OF nonget] if_P [OF verb]
    by (simp only: early_return_simps attempt_simps edit_parsed stored Let_def same edit_valid w case_prod_conv sum.case disk
        simp_thms if_False prod.inject) blast
  then obtain body d' where h: "handleUnifiedConfig sample_golib (Some (editText ''stolen-by-the-editor'')) sampleHost putZoo ?d = ((202, body), d')"
    by blast
  have facts: "hasSection ?new ''dashboard''" "isSecretConfigKey ''dashboard'' ''operator_token''" by code_simp+
  have old: "config_value ?doc ''dashboard'' ''operator_token'' = Some ''correct-horse-battery''"
    by (simp add: config_value_def ini_view_def editDocument_def sampleDocument_def)
  from edit_keeps_credentials [OF h verb stored] obtain doc' where "loadINI d' = Inr doc'"
    "config_value doc' ''dashboard'' ''operator_token'' = Some ''correct-horse-battery''"
    using facts old unfolding edit_parsed by auto
  with h show ?thesis by blast
qed

end
