(* ===== verification/Live_Config.thy ===== *)
theory Live_Config
  imports Editor
begin

text \<open>
  The configuration that the gateway reloads while it runs: parsing and applying it, rolling it back
  (\<^verbatim>\<open>dashboard/main.go\<close>) and the protection profiles (\<^verbatim>\<open>dashboard/control_plane.go\<close>).  The files lie in the
  runtime directory and are named there; \<^verbatim>\<open>strconv.ParseFloat\<close> is the argument \<open>PF\<close>, which gives the float
  (an exact rational or a special value) and whether there was no error.  A write that fails leaves the old file.
\<close>

section \<open>Numbers\<close>

datatype go_float = Finite rat | PosInf | NegInf | NaN

text \<open>\<^verbatim>\<open>x < c\<close> and \<^verbatim>\<open>x > c\<close> for a finite \<open>c\<close>: both are false of NaN.\<close>

fun float_less :: "go_float \<Rightarrow> rat \<Rightarrow> bool" where
  "float_less (Finite x) c = (x < c)"
| "float_less NegInf c = True"
| "float_less _ c = False"

fun float_greater :: "go_float \<Rightarrow> rat \<Rightarrow> bool" where
  "float_greater (Finite x) c = (x > c)"
| "float_greater PosInf c = True"
| "float_greater _ c = False"

text \<open>The float that the literal \<^verbatim>\<open>0.01\<close> denotes.\<close>

definition hundredth :: rat where "hundredth = 5764607523034235 / 576460752303423488"

section \<open>Lines\<close>

text \<open>\<^verbatim>\<open>strings.TrimSpace(strings.SplitN(line, "#", 2)[0])\<close>.\<close>

definition strippedLine :: "string \<Rightarrow> string" where
  "strippedLine raw = trim_space (hd (split2 (CHR ''#'') raw))"

definition liveConfigKeys :: "(string \<times> string) list" where
  "liveConfigKeys = [
     (''routing_mode'', ''enum''), (''firewall_enabled'', ''bool''), (''adaptive_firewall_enabled'', ''bool''),
     (''max_datagram_size'', ''uint''), (''max_packets_per_second_per_ip'', ''uint''),
     (''global_packets_per_second'', ''uint''), (''max_handshakes_per_minute'', ''uint''),
     (''ping_limit_per_second_per_ip'', ''uint''), (''risk_decay_per_minute'', ''uint''),
     (''risk_warning_threshold'', ''uint''), (''risk_ban_threshold'', ''uint''),
     (''progressive_ban_seconds'', ''list''), (''health_failure_threshold'', ''uint''),
     (''health_recovery_threshold'', ''uint''), (''incident_mode_enabled'', ''bool''),
     (''incident_trigger_packets_per_second'', ''uint''), (''incident_trigger_drop_ratio'', ''ratio''),
     (''incident_min_packets_per_second'', ''uint''), (''incident_recovery_seconds'', ''uint''),
     (''incident_rate_divisor'', ''uint''), (''incident_handshake_divisor'', ''uint''),
     (''packet_capture_enabled'', ''bool''), (''capture_outgoing'', ''bool''), (''packet_hex_preview_bytes'', ''uint''),
     (''stats_interval_seconds'', ''uint''), (''state_interval_ms'', ''uint'')]"

definition boolText :: "string \<Rightarrow> bool" where
  "boolText v \<longleftrightarrow> v = ''true'' \<or> v = ''false'' \<or> v = ''1'' \<or> v = ''0''"

definition liveValue :: "(string \<Rightarrow> go_float \<times> bool) \<Rightarrow> string \<Rightarrow> string \<Rightarrow> string \<Rightarrow> unit result" where
  "liveValue PF kind key value =
     (if kind = ''bool'' then check (boolText value) (key @ '' must be true or false'')
      else if kind = ''uint'' then check (parse_uint value \<noteq> None) (key @ '' must be an unsigned number'')
      else if kind = ''ratio'' then
        check (snd (PF value) \<and> \<not> float_less (fst (PF value)) hundredth \<and> \<not> float_greater (fst (PF value)) 1)
          (key @ '' must be between 0.01 and 1'')
      else if kind = ''list'' then
        check (list_all (\<lambda>item. parse_uint (trim_space item) \<noteq> None) (split_on (CHR '','') value))
          (key @ '' contains an invalid duration'')
      else if kind = ''enum'' then
        check (value \<in> {''primary'', ''failover'', ''round_robin'', ''least_sessions''}) ''invalid routing_mode''
      else Inr ())"

definition liveLine ::
  "(string \<Rightarrow> go_float \<times> bool) \<Rightarrow> (string \<times> string) list \<Rightarrow> nat \<times> string \<Rightarrow> (string \<times> string) list result" where
  "liveLine PF m nl =
     (let l = strippedLine (snd nl) in
      if l = [] then Inr m
      else case split2 (CHR ''='') l of
        [f0, f1] \<Rightarrow>
          let key = trim_space f0; value = trim_space f1 in
          (case map_of liveConfigKeys key of
             None \<Rightarrow> Inl (''unsupported live key: '' @ key)
           | Some kind \<Rightarrow> attempt (liveValue PF kind key value) (\<lambda>_. Inr (AList.update key value m)))
      | _ \<Rightarrow> Inl (''line '' @ itoa (int (fst nl) + 1) @ '' must use key=value''))"

definition parseLiveConfig :: "(string \<Rightarrow> go_float \<times> bool) \<Rightarrow> string \<Rightarrow> (string \<times> string) list result" where
  "parseLiveConfig PF content =
     attempt (iterate (liveLine PF) [] (enumerate 0 (split_on newline content))) (\<lambda>m.
     case map_of m ''risk_warning_threshold'' of
       None \<Rightarrow> Inr m
     | Some warning \<Rightarrow>
         (case map_of m ''risk_ban_threshold'' of
            None \<Rightarrow> Inr m
          | Some ban \<Rightarrow>
              if atoi_value ban \<le> atoi_value warning
              then Inl ''risk_ban_threshold must exceed risk_warning_threshold'' else Inr m))"

section \<open>Applying and rolling back\<close>

definition recordPolicyVersion :: "golib \<Rightarrow> int \<Rightarrow> string \<Rightarrow> string \<Rightarrow> string \<Rightarrow> bool \<Rightarrow> dashboard \<Rightarrow> dashboard" where
  "recordPolicyVersion G now who content result active d =
     d\<lparr>db := recordPolicy (db d) now who content (hex_encode (sha256 G content)) result active\<rparr>"

definition jtexts :: "(string \<times> string) list \<Rightarrow> json" where
  "jtexts m = JObj (map (\<lambda>(k, v). (k, JStr v)) m)"

definition liveFile :: string where "liveFile = ''live-config.properties''"

definition backupFile :: string where "backupFile = ''live-config.properties.bak''"

text \<open>The file is replaced, the old text goes to the backup (a failure of that write is ignored), and the
  gateway is told; the writes are numbered \<open>0\<close> (backup), \<open>1\<close> (file) and \<open>2\<close> (command).\<close>

definition replaceAndReload :: "host \<Rightarrow> bool \<Rightarrow> string \<Rightarrow> string \<Rightarrow> string \<Rightarrow> dashboard \<Rightarrow> unit result \<times> dashboard" where
  "replaceAndReload h backedUp name backup content d =
     (let d1 = (if backedUp \<and> diskOK h 0 then d\<lparr>runtimeFiles := (runtimeFiles d)(backup := runtimeFiles d name)\<rparr> else d) in
      if \<not> diskOK h 1 then (Inl ''write error'', d1)
      else
        let d2 = putText name content d1 in
        case queueCommand (diskOK h 2) (clock h 0) ''reload'' [] [] d2 of
          Inl err \<Rightarrow> (Inl err, d2)
        | Inr d3 \<Rightarrow> (Inr (), d3))"

definition fileText :: "string \<Rightarrow> dashboard \<Rightarrow> string" where
  "fileText name d = (case runtimeFiles d name of None \<Rightarrow> [] | Some content \<Rightarrow> content)"

definition handleConfig :: "golib \<Rightarrow> (string \<Rightarrow> go_float \<times> bool) \<Rightarrow> string option \<Rightarrow> handler" where
  "handleConfig G PF decoded h r d =
     (let who = principalFromRequest r in
      if verb r = ''GET'' then
        ((200, JObj [(''content'', JStr (fileText liveFile d)),
           (''values'', case parseLiveConfig PF (fileText liveFile d) of Inl _ \<Rightarrow> JNull | Inr m \<Rightarrow> jtexts m),
           (''path'', JStr (pathJoin (runtimeDir d) liveFile)),
           (''backupAvailable'', JBool (runtimeFiles d backupFile \<noteq> None))]), d)
      else if verb r \<noteq> ''POST'' then (error_reply 405 ''Method not allowed'', d)
      else case decoded of
        None \<Rightarrow> (error_reply 400 ''Invalid JSON'', d)
      | Some content \<Rightarrow>
          (case parseLiveConfig PF content of
             Inl err \<Rightarrow>
               (error_reply 400 err,
                appendAudit h (clock h 1) r who ''config.apply'' ''rejected'' (JObj [(''error'', JStr err)])
                  (recordPolicyVersion G (clock h 0) (pUsername who) content (''rejected: '' @ err) False d))
           | Inr m \<Rightarrow>
               (case replaceAndReload h (runtimeFiles d liveFile \<noteq> None) liveFile backupFile content d of
                  (Inl err, d1) \<Rightarrow>
                    (error_reply 500 err,
                     appendAudit h (clock h 1) r who ''config.apply'' ''failed'' (JObj [(''error'', JStr err)]) d1)
                | (Inr _, d1) \<Rightarrow>
                    ((202, JObj [(''queued'', JBool True), (''values'', jtexts m)]),
                     appendAudit h (clock h 2) r who ''config.apply'' ''queued'' (jtexts m)
                       (recordPolicyVersion G (clock h 1) (pUsername who) content ''queued'' True d1)))))"

definition handleConfigRollback :: "golib \<Rightarrow> (string \<Rightarrow> go_float \<times> bool) \<Rightarrow> handler" where
  "handleConfigRollback G PF h r d =
     (if verb r \<noteq> ''POST'' then (error_reply 405 ''Method not allowed'', d)
      else
        let who = principalFromRequest r in
        case runtimeFiles d backupFile of
          None \<Rightarrow> (error_reply 404 ''No configuration backup is available'', d)
        | Some content \<Rightarrow>
            (case parseLiveConfig PF content of
               Inl err \<Rightarrow> (error_reply 409 (''Backup is invalid: '' @ err), d)
             | Inr _ \<Rightarrow>
                 (case replaceAndReload h False liveFile backupFile content d of
                    (Inl err, d1) \<Rightarrow>
                      (error_reply 500 err,
                       appendAudit h (clock h 1) r who ''config.rollback'' ''failed'' (JObj [(''error'', JStr err)]) d1)
                  | (Inr _, d1) \<Rightarrow>
                      ((202, JObj [(''queued'', JBool True)]),
                       appendAudit h (clock h 2) r who ''config.rollback'' ''queued''
                         (JObj [(''path'', JStr (pathJoin (runtimeDir d) backupFile))])
                         (recordPolicyVersion G (clock h 1) (pUsername who) content ''rollback queued'' True d1)))))"

section \<open>Protection profiles\<close>

definition profileFields :: "(string \<times> string) list" where
  "profileFields = [(''max_datagram_size'', ''uint''), (''max_packets_per_second_per_ip'', ''uint''),
     (''max_handshakes_per_minute'', ''uint''), (''max_sessions_per_ip'', ''uint''),
     (''allow_new_sessions_during_incident'', ''bool'')]"

text \<open>\<^verbatim>\<open>strings.LastIndex(key, ".")\<close> as the texts around the last dot.\<close>

definition lastDot :: "string \<Rightarrow> (string \<times> string) option" where
  "lastDot key =
     (if CHR ''.'' \<in> set key
      then let rest = rev (takeWhile (\<lambda>c. c \<noteq> CHR ''.'') (rev key))
           in Some (take (length key - length rest - 1) key, rest)
      else None)"

definition profileLine :: "unit \<Rightarrow> nat \<times> string \<Rightarrow> unit result" where
  "profileLine u nl =
     (let l = strippedLine (snd nl);
          malformed = Inl (''line '' @ itoa (int (fst nl) + 1) @ '' must use profile.key=value'') in
      if l = [] then Inr ()
      else case split2 (CHR ''='') l of
        [f0, f1] \<Rightarrow>
          let key = trim_space f0; value = trim_space f1 in
          (case lastDot key of
             None \<Rightarrow> malformed
           | Some (profile, fld) \<Rightarrow>
               if profile = [] \<or> fld = [] then malformed
               else case map_of profileFields fld of
                 None \<Rightarrow> Inl (''unsupported protection profile field: '' @ fld)
               | Some kind \<Rightarrow>
                   if kind = ''uint''
                   then check (case parse_uint value of None \<Rightarrow> False | Some n \<Rightarrow> n \<noteq> 0) (key @ '' must be a positive integer'')
                   else if kind = ''bool'' then check (boolText value) (key @ '' must be true or false'')
                   else Inr ())
      | _ \<Rightarrow> malformed)"

definition validateProtectionProfiles :: "string \<Rightarrow> unit result" where
  "validateProtectionProfiles content = iterate profileLine () (enumerate 0 (split_on newline content))"

definition profilesName :: string where "profilesName = ''protection-profiles.properties''"

definition handleProtectionProfiles :: "string option \<Rightarrow> handler" where
  "handleProtectionProfiles decoded h r d =
     (let path = pathJoin (runtimeDir d) profilesName in
      if verb r = ''GET'' then ((200, JObj [(''content'', JStr (fileText profilesName d)), (''path'', JStr path)]), d)
      else if verb r \<noteq> ''POST'' then (error_reply 405 ''Method not allowed'', d)
      else case decoded of
        None \<Rightarrow> (error_reply 400 ''Invalid JSON'', d)
      | Some content \<Rightarrow>
          (case validateProtectionProfiles content of
             Inl err \<Rightarrow> (error_reply 400 err, d)
           | Inr _ \<Rightarrow>
               (case replaceAndReload h (fileText profilesName d \<noteq> []) profilesName (profilesName @ ''.bak'') content d of
                  (Inl err, d1) \<Rightarrow> (error_reply 500 err, d1)
                | (Inr _, d1) \<Rightarrow>
                    ((202, JObj [(''queued'', JBool True)]),
                     appendAudit h (clock h 1) r (principalFromRequest r) ''protection_profiles.apply'' ''queued''
                       (JObj [(''path'', JStr path)]) d1))))"

section \<open>What an accepted live configuration holds\<close>

text \<open>The values a key of each kind may have.\<close>

definition liveAllowed :: "(string \<Rightarrow> go_float \<times> bool) \<Rightarrow> string \<Rightarrow> string \<Rightarrow> bool" where
  "liveAllowed PF kind v \<longleftrightarrow>
     (kind = ''bool'' \<longrightarrow> boolText v) \<and> (kind = ''uint'' \<longrightarrow> (\<exists>n < 2 ^ 64. parse_nat v = Some n)) \<and>
     (kind = ''ratio'' \<longrightarrow> PF v = (NaN, True) \<or> (\<exists>x. PF v = (Finite x, True) \<and> hundredth \<le> x \<and> x \<le> 1)) \<and>
     (kind = ''list'' \<longrightarrow> (\<forall>item \<in> set (split_on (CHR '','') v). \<exists>n < 2 ^ 64. parse_nat (trim_space item) = Some n)) \<and>
     (kind = ''enum'' \<longrightarrow> v \<in> {''primary'', ''failover'', ''round_robin'', ''least_sessions''})"

lemma parse_uint_Some: "parse_uint v = Some n \<longleftrightarrow> parse_nat v = Some n \<and> n < 2 ^ 64"
  by (auto simp: parse_uint_def split: option.splits if_splits)

lemma parse_uint_ex: "parse_uint v \<noteq> None \<longleftrightarrow> (\<exists>n < 2 ^ 64. parse_nat v = Some n)"
  unfolding not_None_eq parse_uint_Some by blast

lemma ratio_allowed:
  "snd (PF v) \<and> \<not> float_less (fst (PF v)) hundredth \<and> \<not> float_greater (fst (PF v)) 1 \<longleftrightarrow>
   PF v = (NaN, True) \<or> (\<exists>x. PF v = (Finite x, True) \<and> hundredth \<le> x \<and> x \<le> 1)"
  by (cases "PF v"; cases "fst (PF v)") auto

lemma liveValue_allowed: "liveValue PF kind key v = Inr () \<longleftrightarrow> liveAllowed PF kind v"
  unfolding liveValue_def liveAllowed_def ratio_allowed parse_uint_ex list_all_iff
  by (simp add: check_Inr del: insert_iff)

definition liveTyped :: "(string \<Rightarrow> go_float \<times> bool) \<Rightarrow> (string \<times> string) list \<Rightarrow> bool" where
  "liveTyped PF m \<longleftrightarrow> distinct (map fst m) \<and> (\<forall>(k, v) \<in> set m. \<exists>kind. map_of liveConfigKeys k = Some kind \<and> liveAllowed PF kind v)"

lemma liveTyped_update:
  assumes "liveTyped PF m" and "map_of liveConfigKeys k = Some kind" and "liveAllowed PF kind v"
  shows "liveTyped PF (AList.update k v m)"
  using assms set_update_subset [of k v m] unfolding liveTyped_def by (auto intro: distinct_update)

lemma liveLine_typed: "liveLine PF m nl = Inr m' \<Longrightarrow> liveTyped PF m \<Longrightarrow> liveTyped PF m'"
  by (cases rule: split2_cases [of "CHR ''=''" "strippedLine (snd nl)"])
    (auto simp: liveLine_def Let_def attempt_Inr liveValue_allowed intro: liveTyped_update split: if_splits option.splits)

lemma iterate_invariant: "iterate f x ys = Inr x' \<Longrightarrow> (\<And>x y x'. f x y = Inr x' \<Longrightarrow> P x \<Longrightarrow> P x') \<Longrightarrow> P x \<Longrightarrow> P x'"
  by (induction ys arbitrary: x) (auto simp: attempt_Inr)

text \<open>C25: An accepted live configuration is well typed: it has known keys only, each once, every number fits in 64 bits,
  every ratio is a number between the float 0.01 and 1 or NaN, the routing mode is one of the four, and the ban
  threshold is above the warning threshold when both are set.\<close>

theorem live_config_is_typed:
  assumes "parseLiveConfig PF content = Inr m"
  shows "liveTyped PF m \<and>
    (\<forall>w b. map_of m ''risk_warning_threshold'' = Some w \<and> map_of m ''risk_ban_threshold'' = Some b \<longrightarrow>
       (\<exists>i j. parse_nat w = Some i \<and> parse_nat b = Some j \<and> i < j))"
proof -
  have "liveTyped PF []" by (simp add: liveTyped_def)
  moreover have it: "iterate (liveLine PF) [] (enumerate 0 (split_on newline content)) = Inr m"
    using assms by (auto simp: parseLiveConfig_def attempt_Inr split: option.splits if_splits)
  ultimately have typed: "liveTyped PF m" using iterate_invariant [OF it, of "liveTyped PF"] liveLine_typed by blast
  have kinds: "map_of liveConfigKeys ''risk_warning_threshold'' = Some ''uint''" "map_of liveConfigKeys ''risk_ban_threshold'' = Some ''uint''"
    by code_simp+
  have uint: "\<exists>n. parse_nat v = Some n" if "map_of m k = Some v" "map_of liveConfigKeys k = Some ''uint''" for k v
    using typed that map_of_SomeD [OF that(1)] by (fastforce simp: liveTyped_def liveAllowed_def)
  have "\<exists>i j. parse_nat w = Some i \<and> parse_nat b = Some j \<and> i < j"
    if wb: "map_of m ''risk_warning_threshold'' = Some w" "map_of m ''risk_ban_threshold'' = Some b" for w b
  proof -
    obtain i j where ij: "parse_nat w = Some i" "parse_nat b = Some j" using uint wb kinds by blast
    have "atoi_value w < atoi_value b" using assms it wb by (simp add: parseLiveConfig_def split: if_splits)
    with ij show ?thesis by (auto simp: atoi_value_nat min_def split: if_splits)
  qed
  with typed show ?thesis by blast
qed

text \<open>NaN is accepted as a drop ratio, which the error message bounds by 0.01 and 1: no traffic ratio is ever
  above it.\<close>

theorem nan_ratio_is_accepted:
  assumes "PF ''NaN'' = (NaN, True)"
  shows "parseLiveConfig PF ''incident_trigger_drop_ratio=NaN'' = Inr [(''incident_trigger_drop_ratio'', ''NaN'')]"
proof -
  have e: "enumerate 0 (split_on newline ''incident_trigger_drop_ratio=NaN'') = [(0, ''incident_trigger_drop_ratio=NaN'')]"
    "strippedLine ''incident_trigger_drop_ratio=NaN'' = ''incident_trigger_drop_ratio=NaN''"
    "split2 (CHR ''='') ''incident_trigger_drop_ratio=NaN'' = [''incident_trigger_drop_ratio'', ''NaN'']"
    "trim_space ''incident_trigger_drop_ratio'' = ''incident_trigger_drop_ratio''" "trim_space ''NaN'' = ''NaN''"
    "map_of liveConfigKeys ''incident_trigger_drop_ratio'' = Some ''ratio''" by code_simp+
  have "liveValue PF ''ratio'' key ''NaN'' = Inr ()" for key using assms by (simp add: liveValue_def)
  then have "liveLine PF [] (0, ''incident_trigger_drop_ratio=NaN'') = Inr [(''incident_trigger_drop_ratio'', ''NaN'')]"
    unfolding liveLine_def snd_conv e Let_def by (simp add: e)
  then show ?thesis unfolding parseLiveConfig_def e by simp
qed

definition samplePF :: "string \<Rightarrow> go_float \<times> bool" where
  "samplePF s = (if s = ''NaN'' then (NaN, True) else if s = ''0.5'' then (Finite (1 / 2), True) else (Finite 0, False))"

theorem nan_ratio_is_accepted_witness:
  "parseLiveConfig samplePF ''incident_trigger_drop_ratio=NaN'' = Inr [(''incident_trigger_drop_ratio'', ''NaN'')]"
  by (rule nan_ratio_is_accepted) (simp add: samplePF_def)

text \<open>A configuration with both thresholds.\<close>

definition thresholds :: string where
  "thresholds = ''risk_warning_threshold = 50 # warn'' @ [newline] @ ''risk_ban_threshold=100''"

lemma thresholds_parsed:
  "parseLiveConfig PF thresholds = Inr [(''risk_warning_threshold'', ''50''), (''risk_ban_threshold'', ''100'')]"
proof -
  have lines: "enumerate 0 (split_on newline thresholds) = [(0, ''risk_warning_threshold = 50 # warn''), (1, ''risk_ban_threshold=100'')]"
    "strippedLine ''risk_warning_threshold = 50 # warn'' = ''risk_warning_threshold = 50''"
    "strippedLine ''risk_ban_threshold=100'' = ''risk_ban_threshold=100''"
    "split2 (CHR ''='') ''risk_warning_threshold = 50'' = [''risk_warning_threshold '', '' 50'']"
    "split2 (CHR ''='') ''risk_ban_threshold=100'' = [''risk_ban_threshold'', ''100'']" by code_simp+
  have words: "trim_space ''risk_warning_threshold '' = ''risk_warning_threshold''" "trim_space '' 50'' = ''50''"
    "trim_space ''risk_ban_threshold'' = ''risk_ban_threshold''" "trim_space ''100'' = ''100''"
    "map_of liveConfigKeys ''risk_warning_threshold'' = Some ''uint''" "map_of liveConfigKeys ''risk_ban_threshold'' = Some ''uint''"
    by code_simp+
  have n: "parse_nat ''50'' = Some 50" "parse_nat ''100'' = Some 100" by code_simp+
  then have ok: "liveValue PF ''uint'' key ''50'' = Inr ()" "liveValue PF ''uint'' key ''100'' = Inr ()" for key
    by (simp_all add: liveValue_def parse_uint_def)
  have "atoi_value ''50'' = 50" "atoi_value ''100'' = 100" using n by (simp_all add: atoi_value_nat max_int64_def)
  moreover have "iterate (liveLine PF) [] (enumerate 0 (split_on newline thresholds)) =
      Inr [(''risk_warning_threshold'', ''50''), (''risk_ban_threshold'', ''100'')]"
    unfolding lines by (simp add: liveLine_def Let_def lines words ok)
  ultimately show ?thesis by (simp add: parseLiveConfig_def)
qed

theorem live_config_is_typed_witness:
  "liveTyped samplePF [(''risk_warning_threshold'', ''50''), (''risk_ban_threshold'', ''100'')] \<and>
   (\<exists>i j. parse_nat ''50'' = Some i \<and> parse_nat ''100'' = Some j \<and> i < j)"
  using live_config_is_typed [OF thresholds_parsed, of samplePF] by simp

section \<open>Rolling back\<close>

lemma replaced:
  assumes "replaceAndReload h b name backup content d = (Inr u, d')" and "backup \<noteq> name"
  shows "runtimeFiles d' name = Some content" and "runtimeDir d' = runtimeDir d" and "db d' = db d"
    and "runtimeFiles d' backup = (if b \<and> diskOK h 0 then runtimeFiles d name else runtimeFiles d backup)"
    and "length (commandsLog d) < length (commandsLog d')"
  using assms by (auto simp: replaceAndReload_def Let_def queueCommand_def putText_def split: if_splits)

lemma replaced_ok:
  "diskOK h 1 \<Longrightarrow> diskOK h 2 \<Longrightarrow> \<exists>d'. replaceAndReload h b name backup content d = (Inr (), d')"
  by (simp add: replaceAndReload_def Let_def queueCommand_def)

lemma runtimeFiles_log [simp]:
  "runtimeFiles (appendAudit h ts r p a res det d) = runtimeFiles d" "runtimeFiles (recordPolicyVersion G now w c res x d) = runtimeFiles d"
  "commandsLog (recordPolicyVersion G now w c res x d) = commandsLog d"
  by (simp_all add: appendAudit_def recordPolicyVersion_def)

definition activePolicy :: "ledger \<Rightarrow> string list" where
  "activePolicy l = map po_content (filter po_active (policies l))"

lemma activePolicy_record:
  "dbOpen l \<Longrightarrow> activePolicy (recordPolicy l ts act c hash res True) = [c]"
proof -
  assume "dbOpen l"
  moreover have "filter po_active (update_where po_active (po_active_update (\<lambda>_. False)) rs) = []" for rs
    by (auto simp: update_where_def filter_empty_conv)
  ultimately show ?thesis by (simp add: activePolicy_def recordPolicy_def Let_def exec_ignored_eq)
qed

lemma files_differ: "backupFile \<noteq> liveFile"
  by (simp add: backupFile_def liveFile_def)

lemma applied_live:
  assumes "handleConfig G PF (Some content) h r d = ((202, body), d')" and "verb r = ''POST''"
  shows "runtimeFiles d' liveFile = Some content"
    and "runtimeFiles d liveFile \<noteq> None \<Longrightarrow> diskOK h 0 \<Longrightarrow> runtimeFiles d' backupFile = runtimeFiles d liveFile"
    and "dbOpen (db d) \<Longrightarrow> activePolicy (db d') = [content] \<and> dbOpen (db d')"
proof -
  let ?b = "runtimeFiles d liveFile \<noteq> None"
  have nonget: "verb r \<noteq> ''GET''" "\<not> verb r \<noteq> ''POST''" using assms(2) by simp_all
  note m = assms(1) [unfolded handleConfig_def Let_def if_not_P [OF nonget(1)] if_not_P [OF nonget(2)] option.case]
  from m obtain v where v: "parseLiveConfig PF content = Inr v" by (cases "parseLiveConfig PF content") (auto simp: error_reply_def)
  obtain w d1 where w: "replaceAndReload h ?b liveFile backupFile content d = (w, d1)" by force
  note m2 = m [unfolded v sum.case w case_prod_conv]
  from m2 obtain u where u: "w = Inr u" by (cases w) (auto simp: error_reply_def)
  note rep = replaced [OF w [unfolded u] files_differ]
  have d': "d' = appendAudit h (clock h 2) r (principalFromRequest r) ''config.apply'' ''queued'' (jtexts v)
      (recordPolicyVersion G (clock h 1) (pUsername (principalFromRequest r)) content ''queued'' True d1)"
    using m2 unfolding u by simp
  show "runtimeFiles d' liveFile = Some content" unfolding d' using rep(1) by simp
  show "runtimeFiles d liveFile \<noteq> None \<Longrightarrow> diskOK h 0 \<Longrightarrow> runtimeFiles d' backupFile = runtimeFiles d liveFile"
    unfolding d' using rep(4) by simp
  show "dbOpen (db d) \<Longrightarrow> activePolicy (db d') = [content] \<and> dbOpen (db d')"
    using activePolicy_record [of "db d"] rep(3)
    by (simp add: d' appendAudit_def recordPolicyVersion_def recordAudit_def recordPolicy_def exec_ignored_eq activePolicy_def Let_def)
qed

text \<open>A rollback undoes the last change: when a live configuration was replaced by an accepted one and its
  backup was written, rolling back (with a working disk) succeeds, leaves the old text as the live
  configuration and makes it the only active policy version.\<close>

theorem rollback_undoes_apply:
  assumes "handleConfig G PF (Some content) h r d = ((202, body), d1)" and "verb r = ''POST''"
    and "runtimeFiles d liveFile = Some old" and "diskOK h 0" and "parseLiveConfig PF old = Inr m"
    and "verb r2 = ''POST''" and "diskOK h2 1" and "diskOK h2 2" and "dbOpen (db d)"
  shows "\<exists>body2 d2. handleConfigRollback G PF h2 r2 d1 = ((202, body2), d2) \<and> runtimeFiles d2 liveFile = Some old \<and>
    activePolicy (db d2) = [old] \<and> length (commandsLog d1) < length (commandsLog d2)"
proof -
  have backup: "runtimeFiles d1 backupFile = Some old" and db_open: "dbOpen (db d1)"
    using applied_live [OF assms(1,2)] assms(3,4,9) by auto
  obtain d2 where d2: "replaceAndReload h2 False liveFile backupFile old d1 = (Inr (), d2)" using replaced_ok assms(7,8) by blast
  note rep = replaced [OF d2 files_differ]
  have post: "\<not> verb r2 \<noteq> ''POST''" using assms(6) by simp
  let ?d = "appendAudit h2 (clock h2 2) r2 (principalFromRequest r2) ''config.rollback'' ''queued''
      (JObj [(''path'', JStr (pathJoin (runtimeDir d1) backupFile))])
      (recordPolicyVersion G (clock h2 1) (pUsername (principalFromRequest r2)) old ''rollback queued'' True d2)"
  have "handleConfigRollback G PF h2 r2 d1 = ((202, JObj [(''queued'', JBool True)]), ?d)"
    unfolding handleConfigRollback_def if_not_P [OF post] Let_def backup option.case assms(5) sum.case d2 case_prod_conv ..
  moreover have "runtimeFiles ?d liveFile = Some old" using rep(1) by simp
  moreover have "activePolicy (db ?d) = [old]"
    using activePolicy_record [of "db d2"] rep(3) db_open
    by (simp add: appendAudit_def recordPolicyVersion_def recordAudit_def recordPolicy_def exec_ignored_eq activePolicy_def Let_def)
  moreover have "length (commandsLog d1) < length (commandsLog ?d)" using rep(5) by simp
  ultimately show ?thesis by blast
qed

lemma empty_parsed: "parseLiveConfig PF [] = Inr []"
proof -
  have "enumerate 0 (split_on newline []) = [(0, [])]" "strippedLine [] = []" by code_simp+
  then show ?thesis by (simp add: parseLiveConfig_def liveLine_def)
qed

definition liveDashboard :: dashboard where
  "liveDashboard = emptyDashboard\<lparr>runtimeFiles := [liveFile \<mapsto> thresholds]\<rparr>"

lemma live_applied:
  assumes "diskOK h 1" and "diskOK h 2"
  shows "\<exists>body d'. handleConfig sample_golib samplePF (Some []) h postRequest liveDashboard = ((202, body), d')"
proof -
  have "\<exists>d'. replaceAndReload h (runtimeFiles liveDashboard liveFile \<noteq> None) liveFile backupFile [] liveDashboard = (Inr (), d')"
    by (rule replaced_ok [OF assms])
  then show ?thesis by (auto simp: handleConfig_def Let_def empty_parsed postRequest_def)
qed

theorem rollback_undoes_apply_witness:
  "\<exists>body d1 body2 d2. handleConfig sample_golib samplePF (Some []) sampleHost postRequest liveDashboard = ((202, body), d1) \<and>
     handleConfigRollback sample_golib samplePF sampleHost postRequest d1 = ((202, body2), d2) \<and>
     runtimeFiles d2 liveFile = Some thresholds \<and> activePolicy (db d2) = [thresholds]"
proof -
  have disk: "diskOK sampleHost k" for k by (simp add: sampleHost_def)
  obtain body d1 where a: "handleConfig sample_golib samplePF (Some []) sampleHost postRequest liveDashboard = ((202, body), d1)"
    using live_applied [OF disk disk] by blast
  have "verb postRequest = ''POST''" "runtimeFiles liveDashboard liveFile = Some thresholds" "dbOpen (db liveDashboard)"
    by (simp_all add: postRequest_def liveDashboard_def emptyDashboard_def emptyLedger_def)
  with rollback_undoes_apply [OF a _ _ disk thresholds_parsed _ disk disk] a show ?thesis by blast
qed

text \<open>A change that the caller is told has failed may stand: when the command queue cannot be written, an accepted
  configuration is answered with an error although it has replaced the live file, and no policy version
  is recorded for it.\<close>

theorem failed_reload_keeps_change:
  assumes "verb r = ''POST''" and "parseLiveConfig PF content = Inr m" and "diskOK h 1" and "\<not> diskOK h 2"
  shows "\<exists>d'. handleConfig G PF (Some content) h r d = (error_reply 500 ''write commands.log'', d') \<and>
    runtimeFiles d' liveFile = Some content \<and> policies (db d') = policies (db d)"
proof -
  have nonget: "verb r \<noteq> ''GET''" "\<not> verb r \<noteq> ''POST''" using assms(1) by simp_all
  let ?b = "runtimeFiles d liveFile \<noteq> None"
  obtain d1 where d1: "replaceAndReload h ?b liveFile backupFile content d = (Inl ''write commands.log'', d1)"
    "runtimeFiles d1 liveFile = Some content" "db d1 = db d"
    using assms(3,4) by (auto simp: replaceAndReload_def Let_def queueCommand_def putText_def)
  show ?thesis
    unfolding handleConfig_def Let_def if_not_P [OF nonget(1)] if_not_P [OF nonget(2)] option.case assms(2) sum.case d1(1) case_prod_conv
    using d1(2,3) by (simp add: appendAudit_def recordAudit_def exec_ignored_eq)
qed

theorem failed_reload_keeps_change_witness:
  "\<exists>h d'. handleConfig sample_golib samplePF (Some []) h postRequest liveDashboard = (error_reply 500 ''write commands.log'', d') \<and>
     runtimeFiles liveDashboard liveFile = Some thresholds \<and> runtimeFiles d' liveFile = Some []"
proof -
  let ?h = "sampleHost\<lparr>diskOK := (\<lambda>k. k \<noteq> 2)\<rparr>"
  have "verb postRequest = ''POST''" by (simp add: postRequest_def)
  from failed_reload_keeps_change [OF this empty_parsed, of ?h sample_golib samplePF liveDashboard] show ?thesis
    by (auto simp: liveDashboard_def)
qed

end
