(* ===== verification/Health.thy ===== *)
theory Health
  imports Live_Config
begin

text \<open>
  The automated health actions (\<^verbatim>\<open>healthActionLoop\<close> of \<^verbatim>\<open>dashboard/control_plane.go\<close>): a backend that stays
  unhealthy is shut for new transfers, and opened again when it has been healthy for long enough.
  One tick of the loop is a function of the state; \<open>nextHealth\<close> is the automaton it implements for one
  backend.  Settings are converted to floats exactly, which holds up to \<open>2\<close> to the \<open>53\<close>; a float outside
  the range of 64-bit integers becomes the smallest one, as on amd64.
\<close>

section \<open>Numbers\<close>

definition wrap64 :: "int \<Rightarrow> int" where
  "wrap64 i = (i + 2 ^ 63) mod 2 ^ 64 - 2 ^ 63"

lemma wrap64_id: "in_int64 i \<Longrightarrow> wrap64 i = i"
  by (simp add: wrap64_def in_int64_def min_int64_def max_int64_def)

fun int_of_float :: "go_float \<Rightarrow> int" where
  "int_of_float (Finite x) = (if in_int64 (trunc_rat x) then trunc_rat x else min_int64)"
| "int_of_float _ = min_int64"

definition numberValue :: "(string \<Rightarrow> go_float \<times> bool) \<Rightarrow> json \<Rightarrow> go_float \<times> bool" where
  "numberValue PF v = (case v of JNum r \<Rightarrow> (Finite r, True) | JStr s \<Rightarrow> PF s | _ \<Rightarrow> (Finite 0, False))"

text \<open>\<^verbatim>\<open>%.2f\<close>: the value is rounded to even at a tie.\<close>

definition round_even :: "rat \<Rightarrow> int" where
  "round_even x =
     (let f = \<lfloor>x\<rfloor>; r = x - of_int f
      in if r < 1 / 2 then f else if r > 1 / 2 then f + 1 else if even f then f else f + 1)"

fun fixed2 :: "go_float \<Rightarrow> string" where
  "fixed2 (Finite x) =
     (let n = nat (round_even (\<bar>x\<bar> * 100)); cents = n mod 100
      in (if x < 0 then ''-'' else []) @ itoa (int (n div 100)) @ ''.'' @ (if cents < 10 then ''0'' else []) @ itoa (int cents))"
| "fixed2 PosInf = ''+Inf''"
| "fixed2 NegInf = ''-Inf''"
| "fixed2 NaN = ''NaN''"

section \<open>Settings\<close>

definition simpleProperty :: "(string \<times> string) list \<Rightarrow> string \<Rightarrow> (string \<times> string) list" where
  "simpleProperty m raw =
     (let l = strippedLine raw in
      if l = [] then m
      else case split2 (CHR ''='') l of
        [f0, f1] \<Rightarrow> AList.update (trim_space f0) (trim_space f1) m
      | _ \<Rightarrow> m)"

definition parseSimpleProperties :: "string \<Rightarrow> dashboard \<Rightarrow> (string \<times> string) list" where
  "parseSimpleProperties name d = foldl simpleProperty [] (split_on newline (fileText name d))"

definition propertyBool :: "(string \<times> string) list \<Rightarrow> string \<Rightarrow> bool \<Rightarrow> bool" where
  "propertyBool m key fallback =
     (case map_of m key of
        None \<Rightarrow> fallback
      | Some v \<Rightarrow> v = ''true'' \<or> v = ''1'' \<or> v = ''yes'' \<or> v = ''on'')"

definition propertyInt :: "(string \<times> string) list \<Rightarrow> string \<Rightarrow> int \<Rightarrow> int" where
  "propertyInt m key fallback = (case atoi (map_get m key) of None \<Rightarrow> fallback | Some i \<Rightarrow> i)"

record healthSettings =
  heRequireCompanion :: bool
  heStaleAfter :: int
  heDegradedAfter :: int
  heRecoveryAfter :: int
  heMinimumTPS :: int
  heMaximumMSPT :: int

definition healthSettingsOf :: "(string \<times> string) list \<Rightarrow> healthSettings" where
  "healthSettingsOf m =
     \<lparr>heRequireCompanion = propertyBool m ''require_companion'' False,
      heStaleAfter = wrap64 (propertyInt m ''companion_stale_seconds'' 45 * 1000),
      heDegradedAfter = wrap64 (propertyInt m ''degraded_after_seconds'' 30 * 1000),
      heRecoveryAfter = wrap64 (propertyInt m ''recovery_seconds'' 60 * 1000),
      heMinimumTPS = propertyInt m ''minimum_tps'' 12,
      heMaximumMSPT = propertyInt m ''maximum_mspt'' 80\<rparr>"

section \<open>The stored state\<close>

record healthActionState =
  haDisabled :: "(string \<times> bool) list"
  haUnhealthyFrom :: "(string \<times> int) list"
  haHealthyFrom :: "(string \<times> int) list"

text \<open>A member of the wrong type leaves the zero value in the decoded map.\<close>

definition decodeFlags :: "json \<Rightarrow> (string \<times> bool) list" where
  "decodeFlags v = map (\<lambda>(k, x). (k, x = JBool True)) (as_object v)"

definition decodeTimes :: "json \<Rightarrow> (string \<times> int) list" where
  "decodeTimes v =
     map (\<lambda>(k, x). (k, case x of JNum r \<Rightarrow> if r = of_int \<lfloor>r\<rfloor> \<and> in_int64 \<lfloor>r\<rfloor> then \<lfloor>r\<rfloor> else 0 | _ \<Rightarrow> 0)) (as_object v)"

definition loadHealthActionState :: "dashboard \<Rightarrow> healthActionState" where
  "loadHealthActionState d =
     (let s = safeMap ''health-action-state.json'' d
      in \<lparr>haDisabled = decodeFlags (field s ''disabled''), haUnhealthyFrom = decodeTimes (field s ''unhealthyFrom''),
          haHealthyFrom = decodeTimes (field s ''healthyFrom'')\<rparr>)"

definition saveHealthActionState :: "bool \<Rightarrow> healthActionState \<Rightarrow> dashboard \<Rightarrow> dashboard" where
  "saveHealthActionState ok state d =
     (if ok
      then putState ''health-action-state.json''
        (JObj [(''disabled'', JObj (map (\<lambda>(k, b). (k, JBool b)) (haDisabled state))),
           (''unhealthyFrom'', JObj (map (\<lambda>(k, t). (k, jint t)) (haUnhealthyFrom state))),
           (''healthyFrom'', JObj (map (\<lambda>(k, t). (k, jint t)) (haHealthyFrom state)))]) d
      else d)"

definition flagOf :: "(string \<times> bool) list \<Rightarrow> string \<Rightarrow> bool" where
  "flagOf m k \<longleftrightarrow> map_of m k = Some True"

definition timeOf :: "(string \<times> int) list \<Rightarrow> string \<Rightarrow> int" where
  "timeOf m k = (case map_of m k of None \<Rightarrow> 0 | Some t \<Rightarrow> t)"

section \<open>One backend\<close>

text \<open>Whether a backend is healthy, and why it is not.\<close>

definition assessBackend ::
  "(string \<Rightarrow> go_float \<times> bool) \<Rightarrow> healthSettings \<Rightarrow> int \<Rightarrow> jobject option \<Rightarrow> bool \<Rightarrow> bool \<times> string" where
  "assessBackend PF c now companion gatewayHealthy =
     (let (healthy, reason) =
        (case companion of
           None \<Rightarrow> if heRequireCompanion c then (False, ''companion missing'') else (gatewayHealthy, [])
         | Some state0 \<Rightarrow>
             let timestamp = int_of_float (fst (numberValue PF (field state0 ''timestamp'')));
                 s1 = (if wrap64 (now - timestamp) > heStaleAfter c then (False, ''companion stale'') else (gatewayHealthy, []));
                 metrics = as_object (field state0 ''metrics'');
                 (tps, hasTPS) = numberValue PF (field metrics ''currentTps'');
                 s2 = (if hasTPS \<and> float_less tps (of_int (heMinimumTPS c))
                       then (False, ''TPS '' @ fixed2 tps @ '' below '' @ fixed2 (Finite (of_int (heMinimumTPS c)))) else s1);
                 (mspt, hasMSPT) = numberValue PF (field metrics ''currentMspt'')
             in if hasMSPT \<and> float_greater mspt (of_int (heMaximumMSPT c))
                then (False, ''MSPT '' @ fixed2 mspt @ '' above '' @ fixed2 (Finite (of_int (heMaximumMSPT c)))) else s2)
      in (healthy, if \<not> gatewayHealthy then ''gateway backend health failed'' else reason))"

text \<open>The command's failure is ignored.  The readings of the clock and the writes are numbered by the
  backend's position.\<close>

definition announceHealth ::
  "host \<Rightarrow> nat \<Rightarrow> int \<Rightarrow> string \<Rightarrow> string \<Rightarrow> string \<Rightarrow> string \<Rightarrow> string \<Rightarrow> string \<Rightarrow> dashboard \<Rightarrow> dashboard" where
  "announceHealth h i now server argument rule severity kind message d =
     (let d1 = (case queueCommand (diskOK h (Suc i)) (clock h (2 + 2 * i)) ''backend'' server argument d of Inl _ \<Rightarrow> d | Inr x \<Rightarrow> x);
          d2 = d1\<lparr>db := recordAlert (db d1) (clock h (3 + 2 * i)) rule severity server message\<rparr>
      in appendEvent h [(''timestamp'', jint now), (''type'', JStr kind), (''severity'', JStr severity),
           (''serverId'', JStr server), (''message'', JStr message)] d2)"

definition backendTick ::
  "golib \<Rightarrow> (string \<Rightarrow> go_float \<times> bool) \<Rightarrow> host \<Rightarrow> healthSettings \<Rightarrow> int \<Rightarrow> (string \<times> jobject) list \<Rightarrow>
   healthActionState \<times> dashboard \<Rightarrow> nat \<times> json \<Rightarrow> healthActionState \<times> dashboard" where
  "backendTick G PF h c now companions sd ib =
     (let (state, d) = sd; (i, raw) = ib in
      case raw of
        JObj backend \<Rightarrow>
          let server = textField G backend ''name'';
              gatewayHealthy = (field backend ''healthy'' = JBool True);
              (healthy, reason) = assessBackend PF c now (map_of companions server) gatewayHealthy in
          if \<not> healthy then
            let s1 = state\<lparr>haHealthyFrom := AList.update server 0 (haHealthyFrom state)\<rparr>;
                s2 = (if timeOf (haUnhealthyFrom s1) server = 0
                      then s1\<lparr>haUnhealthyFrom := AList.update server now (haUnhealthyFrom s1)\<rparr> else s1) in
            if \<not> flagOf (haDisabled s2) server \<and> wrap64 (now - timeOf (haUnhealthyFrom s2) server) \<ge> heDegradedAfter c
            then (s2\<lparr>haDisabled := AList.update server True (haDisabled s2)\<rparr>,
                  announceHealth h i now server ''false'' ''backend-auto-disable'' ''warning'' ''health.backend_disabled''
                    (''Automatically disabled new transfers to '' @ server @ '': '' @ reason) d)
            else (s2, d)
          else
            let s1 = state\<lparr>haUnhealthyFrom := AList.update server 0 (haUnhealthyFrom state)\<rparr> in
            if flagOf (haDisabled s1) server then
              let s2 = (if timeOf (haHealthyFrom s1) server = 0
                        then s1\<lparr>haHealthyFrom := AList.update server now (haHealthyFrom s1)\<rparr> else s1) in
              if wrap64 (now - timeOf (haHealthyFrom s2) server) \<ge> heRecoveryAfter c
              then (s2\<lparr>haDisabled := AList.update server False (haDisabled s2),
                       haHealthyFrom := AList.update server 0 (haHealthyFrom s2)\<rparr>,
                    announceHealth h i now server ''true'' ''backend-auto-recovery'' ''info'' ''health.backend_recovered''
                      (''Automatically restored transfers to '' @ server @ '' after stable health'') d)
              else (s2, d)
            else (s1, d)
      | _ \<Rightarrow> (state, d))"

section \<open>One tick\<close>

definition companionsByServer :: "golib \<Rightarrow> int \<Rightarrow> string list \<Rightarrow> dashboard \<Rightarrow> (string \<times> jobject) list" where
  "companionsByServer G now paths d =
     foldl (\<lambda>m state0. AList.update (textField G state0 ''serverId'') state0 m) [] (companionStates G now paths d)"

definition healthTick ::
  "golib \<Rightarrow> (string \<Rightarrow> go_float \<times> bool) \<Rightarrow> string list \<Rightarrow> host \<Rightarrow> dashboard \<Rightarrow> dashboard" where
  "healthTick G PF paths h d =
     (let m = parseSimpleProperties ''health-actions.properties'' d in
      if \<not> propertyBool m ''enabled'' True then d
      else
        let c = healthSettingsOf m; now = clock h 0;
            raw = as_array (field (combinedRuntimeState G d) ''backends'');
            companions = companionsByServer G (clock h 1) paths d;
            (state, d1) = foldl (backendTick G PF h c now companions) (loadHealthActionState d, d) (enumerate 0 raw)
        in saveHealthActionState (diskOK h 0) state d1)"

section \<open>The automaton of one backend\<close>

datatype healthAction = NoAction | Disable | Restore

type_synonym healthCell = "bool \<times> int \<times> int"

text \<open>Closed or not, since when unhealthy, since when healthy while shut (zero: not).\<close>

definition nextHealth :: "healthSettings \<Rightarrow> int \<Rightarrow> bool \<Rightarrow> healthCell \<Rightarrow> healthAction \<times> healthCell" where
  "nextHealth c now healthy cell =
     (let (shut, uf, hf) = cell in
      if \<not> healthy then
        let uf' = (if uf = 0 then now else uf) in
        if \<not> shut \<and> now - uf' \<ge> heDegradedAfter c then (Disable, True, uf', 0) else (NoAction, shut, uf', 0)
      else if shut then
        let hf' = (if hf = 0 then now else hf) in
        if now - hf' \<ge> heRecoveryAfter c then (Restore, False, 0, 0) else (NoAction, True, 0, hf')
      else (NoAction, False, 0, hf))"

definition cellOf :: "healthActionState \<Rightarrow> string \<Rightarrow> healthCell" where
  "cellOf st s = (flagOf (haDisabled st) s, timeOf (haUnhealthyFrom st) s, timeOf (haHealthyFrom st) s)"

definition time_ok :: "int \<Rightarrow> bool" where "time_ok t \<longleftrightarrow> 0 \<le> t \<and> t \<le> max_int64"

definition times_ok :: "healthActionState \<Rightarrow> bool" where
  "times_ok st \<longleftrightarrow> list_all (\<lambda>(k, t). time_ok t) (haUnhealthyFrom st) \<and> list_all (\<lambda>(k, t). time_ok t) (haHealthyFrom st)"

lemma time_ok_zero: "time_ok 0"
  by (simp add: time_ok_def max_int64_def)

lemma wrap64_difference: "time_ok a \<Longrightarrow> time_ok b \<Longrightarrow> wrap64 (a - b) = a - b"
  by (rule wrap64_id) (auto simp: time_ok_def in_int64_def min_int64_def max_int64_def)

lemma flagOf_update [simp]: "flagOf (AList.update k v m) k' = (if k' = k then v else flagOf m k')"
  by (simp add: flagOf_def update_conv')

lemma timeOf_update [simp]: "timeOf (AList.update k v m) k' = (if k' = k then v else timeOf m k')"
  by (simp add: timeOf_def update_conv')

lemma timeOf_ok: "list_all (\<lambda>(k, t). time_ok t) m \<Longrightarrow> time_ok (timeOf m s)"
  using time_ok_zero by (auto simp: timeOf_def list_all_iff split: option.splits dest: map_of_SomeD)

lemma times_update: "list_all (\<lambda>(k, t). time_ok t) m \<Longrightarrow> time_ok v \<Longrightarrow> list_all (\<lambda>(k, t). time_ok t) (AList.update k v m)"
  using set_update_subset [of k v m] unfolding list_all_iff by blast

definition backendHealth ::
  "golib \<Rightarrow> (string \<Rightarrow> go_float \<times> bool) \<Rightarrow> healthSettings \<Rightarrow> int \<Rightarrow> (string \<times> jobject) list \<Rightarrow> jobject \<Rightarrow> bool" where
  "backendHealth G PF c now companions b =
     fst (assessBackend PF c now (map_of companions (textField G b ''name'')) (field b ''healthy'' = JBool True))"

lemma backendTick_cells:
  assumes "backendTick G PF h c now companions (st, d) (i, JObj b) = (st', d')" and "times_ok st" and "time_ok now"
  shows "cellOf st' (textField G b ''name'') = snd (nextHealth c now (backendHealth G PF c now companions b) (cellOf st (textField G b ''name'')))"
    and "s \<noteq> textField G b ''name'' \<Longrightarrow> cellOf st' s = cellOf st s"
    and "times_ok st'"
proof -
  let ?s = "textField G b ''name''"
  obtain healthy reason where a: "assessBackend PF c now (map_of companions ?s) (field b ''healthy'' = JBool True) = (healthy, reason)" by force
  then have bh: "backendHealth G PF c now companions b = healthy" by (simp add: backendHealth_def)
  have t: "time_ok (timeOf (haUnhealthyFrom st) ?s)" "time_ok (timeOf (haHealthyFrom st) ?s)"
    using assms(2) timeOf_ok by (auto simp: times_ok_def)
  note w = wrap64_difference [OF assms(3) t(1)] wrap64_difference [OF assms(3) t(2)] wrap64_difference [OF assms(3) assms(3)]
  note st' = assms(1) [unfolded backendTick_def Let_def case_prod_conv json.case a]
  show "cellOf st' ?s = snd (nextHealth c now (backendHealth G PF c now companions b) (cellOf st ?s))"
    unfolding bh using st' w
    by (auto simp: cellOf_def nextHealth_def Let_def split: if_splits)
  show "s \<noteq> ?s \<Longrightarrow> cellOf st' s = cellOf st s"
    using st' by (auto simp: cellOf_def split: if_splits)
  show "times_ok st'"
    using st' assms(2,3) time_ok_zero by (auto simp: times_ok_def intro!: times_update split: if_splits)
qed

lemma backendTick_skips: "\<forall>b. raw \<noteq> JObj b \<Longrightarrow> backendTick G PF h c now companions sd (i, raw) = sd"
  by (cases raw) (auto simp: backendTick_def split: prod.splits)

section \<open>The whole tick\<close>

definition namedBackend :: "golib \<Rightarrow> json list \<Rightarrow> string \<Rightarrow> jobject option" where
  "namedBackend G raw s = find (\<lambda>b. textField G b ''name'' = s) (objects raw)"

lemma objects_Cons: "objects (x # xs) = (case x of JObj b \<Rightarrow> b # objects xs | _ \<Rightarrow> objects xs)"
  by (cases x) (simp_all add: objects_def as_object_def)

lemma backends_cells:
  assumes "foldl (backendTick G PF h c now companions) (st, d) (enumerate n raw) = (st', d')" and "times_ok st" and "time_ok now"
    and "distinct (map (\<lambda>b. textField G b ''name'') (objects raw))"
  shows "times_ok st' \<and> cellOf st' s = (case namedBackend G raw s of
      None \<Rightarrow> cellOf st s
    | Some b \<Rightarrow> snd (nextHealth c now (backendHealth G PF c now companions b) (cellOf st s)))"
  using assms
proof (induction raw arbitrary: st d n)
  case Nil
  then show ?case by (simp add: namedBackend_def objects_def)
next
  case (Cons x raw)
  show ?case
  proof (cases "\<exists>b. x = JObj b")
    case True
    then obtain b where b: "x = JObj b" by blast
    obtain st1 d1 where one: "backendTick G PF h c now companions (st, d) (n, JObj b) = (st1, d1)" by force
    have rest: "foldl (backendTick G PF h c now companions) (st1, d1) (enumerate (Suc n) raw) = (st', d')"
      using Cons.prems(1) one b by simp
    note cells = backendTick_cells [OF one Cons.prems(2,3)]
    have dist: "distinct (map (\<lambda>b. textField G b ''name'') (objects raw))"
      "textField G b ''name'' \<notin> set (map (\<lambda>b. textField G b ''name'') (objects raw))"
      using Cons.prems(4) b by (simp_all add: objects_Cons)
    note IH = Cons.IH [OF rest cells(3) Cons.prems(3) dist(1)]
    show ?thesis
    proof (cases "textField G b ''name'' = s")
      case here: True
      have "namedBackend G raw s = None" using dist(2) unfolding namedBackend_def find_None_iff here set_map by (metis imageI)
      then show ?thesis using IH cells(1) here b by (simp add: namedBackend_def objects_Cons)
    next
      case False
      then show ?thesis using IH cells(2) [of s] b by (simp add: namedBackend_def objects_Cons split: option.splits)
    qed
  next
    case False
    then have skip: "backendTick G PF h c now companions (st, d) (n, x) = (st, d)" by (intro backendTick_skips) blast
    have "objects (x # raw) = objects raw" using False by (cases x) (auto simp: objects_Cons)
    then show ?thesis using Cons skip by (simp add: namedBackend_def)
  qed
qed

lemma decode_saved:
  assumes "times_ok st"
  shows "loadHealthActionState (saveHealthActionState True st d) = st"
proof -
  have t: "decodeTimes (JObj (map (\<lambda>(k, t). (k, jint t)) m)) = m" if "list_all (\<lambda>(k, t). time_ok t) m" for m
    using that by (induction m) (auto simp: decodeTimes_def as_object_def jint_def time_ok_def in_int64_def min_int64_def)
  have f: "decodeFlags (JObj (map (\<lambda>(k, b). (k, JBool b)) m)) = m" for m
    by (induction m) (auto simp: decodeFlags_def as_object_def)
  show ?thesis
    using t assms f by (simp add: loadHealthActionState_def saveHealthActionState_def putState_def safeMap_def as_object_def field_def times_ok_def Let_def)
qed

text \<open>What a tick sees of a backend.\<close>

definition tickBackends :: "golib \<Rightarrow> dashboard \<Rightarrow> json list" where
  "tickBackends G d = as_array (field (combinedRuntimeState G d) ''backends'')"

definition tickSettings :: "dashboard \<Rightarrow> healthSettings" where
  "tickSettings d = healthSettingsOf (parseSimpleProperties ''health-actions.properties'' d)"

definition tickEnabled :: "dashboard \<Rightarrow> bool" where
  "tickEnabled d = propertyBool (parseSimpleProperties ''health-actions.properties'' d) ''enabled'' True"

definition observed ::
  "golib \<Rightarrow> (string \<Rightarrow> go_float \<times> bool) \<Rightarrow> string list \<Rightarrow> host \<Rightarrow> dashboard \<Rightarrow> string \<Rightarrow> bool option" where
  "observed G PF paths h d s =
     map_option (backendHealth G PF (tickSettings d) (clock h 0) (companionsByServer G (clock h 1) paths d))
       (namedBackend G (tickBackends G d) s)"

lemma announceHealth_state [simp]: "stateFiles (announceHealth h i now s a rl sv k m d) = stateFiles d"
  by (simp add: announceHealth_def Let_def queueCommand_def appendEvent_def)

lemma backendTick_state: "stateFiles (snd (backendTick G PF h c now companions sd ib)) = stateFiles (snd sd)"
  by (cases sd; cases ib; cases "snd ib") (auto simp: backendTick_def Let_def split: prod.splits)

lemma tick_cells:
  assumes "tickEnabled d" and "diskOK h 0" and "times_ok (loadHealthActionState d)" and "time_ok (clock h 0)"
    and "distinct (map (\<lambda>b. textField G b ''name'') (objects (tickBackends G d)))"
  shows "times_ok (loadHealthActionState (healthTick G PF paths h d))"
    and "cellOf (loadHealthActionState (healthTick G PF paths h d)) s = (case observed G PF paths h d s of
      None \<Rightarrow> cellOf (loadHealthActionState d) s
    | Some healthy \<Rightarrow> snd (nextHealth (tickSettings d) (clock h 0) healthy (cellOf (loadHealthActionState d) s)))"
proof -
  obtain st d1 where f: "foldl (backendTick G PF h (tickSettings d) (clock h 0) (companionsByServer G (clock h 1) paths d))
      (loadHealthActionState d, d) (enumerate 0 (tickBackends G d)) = (st, d1)" by force
  have tick: "healthTick G PF paths h d = saveHealthActionState True st d1"
    using assms(1,2) f by (simp add: healthTick_def tickEnabled_def tickSettings_def tickBackends_def Let_def)
  note cells = backends_cells [OF f assms(3-5), of s]
  show "times_ok (loadHealthActionState (healthTick G PF paths h d))" unfolding tick using cells decode_saved by simp
  show "cellOf (loadHealthActionState (healthTick G PF paths h d)) s = (case observed G PF paths h d s of
      None \<Rightarrow> cellOf (loadHealthActionState d) s
    | Some healthy \<Rightarrow> snd (nextHealth (tickSettings d) (clock h 0) healthy (cellOf (loadHealthActionState d) s)))"
    unfolding tick using cells decode_saved by (simp add: observed_def split: option.splits)
qed

section \<open>Runs\<close>

text \<open>A run of the dashboard seen by one backend: ticks of the loop (with the observation each of them made of the
  backend), and whatever else leaves the stored health state alone.\<close>

inductive health_run :: "golib \<Rightarrow> (string \<Rightarrow> go_float \<times> bool) \<Rightarrow> healthSettings \<Rightarrow> string \<Rightarrow> (int \<times> bool) list \<Rightarrow> dashboard \<Rightarrow> bool"
  for G PF c s where
  start: "stateFiles d ''health-action-state.json'' = Absent \<Longrightarrow> health_run G PF c s [] d"
| tick: "health_run G PF c s obs d \<Longrightarrow> tickEnabled d \<Longrightarrow> tickSettings d = c \<Longrightarrow> diskOK h 0 \<Longrightarrow>
    0 < clock h 0 \<Longrightarrow> clock h 0 \<le> max_int64 \<Longrightarrow>
    distinct (map (\<lambda>b. textField G b ''name'') (objects (tickBackends G d))) \<Longrightarrow>
    observed G PF paths h d s = Some healthy \<Longrightarrow>
    health_run G PF c s (obs @ [(clock h 0, healthy)]) (healthTick G PF paths h d)"
| other: "health_run G PF c s obs d \<Longrightarrow>
    stateFiles d' ''health-action-state.json'' = stateFiles d ''health-action-state.json'' \<Longrightarrow> health_run G PF c s obs d'"

definition streak :: "bool \<Rightarrow> (int \<times> bool) list \<Rightarrow> nat \<Rightarrow> nat \<Rightarrow> bool" where
  "streak b obs i j \<longleftrightarrow> i \<le> j \<and> j < length obs \<and> (\<forall>k \<in> {i..j}. snd (obs ! k) = b)"

definition stretch :: "bool \<Rightarrow> (int \<times> bool) list \<Rightarrow> int \<Rightarrow> bool" where
  "stretch b obs t \<longleftrightarrow> (\<exists>i. streak b obs i (length obs - 1) \<and> fst (obs ! i) = t)"

definition sustained :: "bool \<Rightarrow> int \<Rightarrow> (int \<times> bool) list \<Rightarrow> bool" where
  "sustained b len obs \<longleftrightarrow> (\<exists>i j. streak b obs i j \<and> len \<le> fst (obs ! j) - fst (obs ! i))"

definition explained :: "healthSettings \<Rightarrow> (int \<times> bool) list \<Rightarrow> healthCell \<Rightarrow> bool" where
  "explained c obs cell \<longleftrightarrow> (case cell of (shut, uf, hf) \<Rightarrow>
     (uf \<noteq> 0 \<longrightarrow> stretch False obs uf) \<and> (hf \<noteq> 0 \<longrightarrow> stretch True obs hf) \<and> (shut \<longrightarrow> sustained False (heDegradedAfter c) obs))"

lemma streak_append: "streak b obs i j \<Longrightarrow> streak b (obs @ xs) i j"
  by (auto simp: streak_def nth_append)

lemma sustained_append: "sustained b len obs \<Longrightarrow> sustained b len (obs @ xs)"
proof -
  assume "sustained b len obs"
  then obtain i j where "streak b obs i j" "len \<le> fst (obs ! j) - fst (obs ! i)" by (auto simp: sustained_def)
  moreover from this have "i < length obs" "j < length obs" by (auto simp: streak_def)
  ultimately show ?thesis
    unfolding sustained_def by (intro exI [of _ i] exI [of _ j]) (simp add: streak_append nth_append)
qed

lemma stretch_new: "stretch b (obs @ [(t, b)]) t"
  unfolding stretch_def by (rule exI [of _ "length obs"]) (simp add: streak_def)

lemma stretch_extend:
  assumes "stretch b obs t0"
  shows "stretch b (obs @ [(t, b)]) t0"
proof -
  obtain i where i: "streak b obs i (length obs - 1)" "fst (obs ! i) = t0" using assms by (auto simp: stretch_def)
  then have "i < length obs" by (auto simp: streak_def)
  moreover have "snd ((obs @ [(t, b)]) ! k) = b" if "k \<in> {i..length obs}" for k
    using i(1) that by (cases "k = length obs") (auto simp: streak_def nth_append)
  ultimately show ?thesis unfolding stretch_def using i(2) by (intro exI [of _ i]) (auto simp: streak_def nth_append)
qed

lemma stretch_sustained:
  assumes "stretch b (obs @ [(t, b)]) t0" and "len \<le> t - t0"
  shows "sustained b len (obs @ [(t, b)])"
proof -
  obtain i where "streak b (obs @ [(t, b)]) i (length obs)" "fst ((obs @ [(t, b)]) ! i) = t0"
    using assms(1) by (auto simp: stretch_def)
  then show ?thesis using assms(2) unfolding sustained_def by (intro exI [of _ i] exI [of _ "length obs"]) simp
qed

text \<open>The automaton keeps what the observations explain, and reopens only after a healthy stretch.\<close>

lemma nextHealth_explained:
  assumes "explained c obs cell" and "nextHealth c now healthy cell = (act, cell')"
  shows "explained c (obs @ [(now, healthy)]) cell'"
    and "act = Disable \<Longrightarrow> sustained False (heDegradedAfter c) (obs @ [(now, healthy)])"
    and "act = Restore \<Longrightarrow> sustained True (heRecoveryAfter c) (obs @ [(now, healthy)])"
proof -
  obtain shut uf hf where cell: "cell = (shut, uf, hf)" by (cases cell)
  have e: "uf \<noteq> 0 \<longrightarrow> stretch False obs uf" "hf \<noteq> 0 \<longrightarrow> stretch True obs hf" "shut \<longrightarrow> sustained False (heDegradedAfter c) obs"
    using assms(1) cell by (simp_all add: explained_def)
  have uf: "stretch False (obs @ [(now, healthy)]) (if uf = 0 then now else uf)" if "\<not> healthy"
    using that e(1) stretch_new [of False] stretch_extend [of False] by auto
  have hf: "stretch True (obs @ [(now, healthy)]) (if hf = 0 then now else hf)" if "healthy"
    using that e(2) stretch_new [of True] stretch_extend [of True] by auto
  have bad: "sustained False (heDegradedAfter c) (obs @ [(now, healthy)])"
    if "\<not> healthy" "heDegradedAfter c \<le> now - (if uf = 0 then now else uf)"
    using stretch_sustained [of False] uf that by simp
  have good: "sustained True (heRecoveryAfter c) (obs @ [(now, healthy)])"
    if "healthy" "heRecoveryAfter c \<le> now - (if hf = 0 then now else hf)"
    using stretch_sustained [of True] hf that by simp
  have keep: "shut \<longrightarrow> sustained False (heDegradedAfter c) (obs @ [(now, healthy)])" using e(3) sustained_append by blast
  note step = assms(2) [unfolded nextHealth_def cell Let_def case_prod_conv]
  show "explained c (obs @ [(now, healthy)]) cell'"
    using step uf hf bad keep e(2) stretch_extend [of True obs hf now]
    by (cases healthy) (auto simp: explained_def split: if_splits)
  show "act = Disable \<Longrightarrow> sustained False (heDegradedAfter c) (obs @ [(now, healthy)])"
    using step bad by (auto split: if_splits)
  show "act = Restore \<Longrightarrow> sustained True (heRecoveryAfter c) (obs @ [(now, healthy)])"
    using step good by (auto split: if_splits)
qed

lemma fresh_state:
  "stateFiles d ''health-action-state.json'' = Absent \<Longrightarrow> cellOf (loadHealthActionState d) s = (False, 0, 0) \<and> times_ok (loadHealthActionState d)"
  by (simp add: loadHealthActionState_def safeMap_def field_def decodeFlags_def decodeTimes_def as_object_def
      cellOf_def flagOf_def timeOf_def times_ok_def)

lemma load_same:
  "stateFiles d' ''health-action-state.json'' = stateFiles d ''health-action-state.json'' \<Longrightarrow>
   loadHealthActionState d' = loadHealthActionState d"
  by (simp add: loadHealthActionState_def safeMap_def)

lemma health_run_explained:
  "health_run G PF c s obs d \<Longrightarrow> times_ok (loadHealthActionState d) \<and> explained c obs (cellOf (loadHealthActionState d) s)"
proof (induction rule: health_run.induct)
  case (start d)
  then show ?case using fresh_state [of d s] by (simp add: explained_def)
next
  case (tick obs d h paths healthy)
  have t: "time_ok (clock h 0)" using tick.hyps by (simp add: time_ok_def)
  note cells = tick_cells [OF tick.hyps(2,4) conjunct1 [OF tick.IH] t tick.hyps(7), of PF paths]
  obtain act cell' where n: "nextHealth c (clock h 0) healthy (cellOf (loadHealthActionState d) s) = (act, cell')"
    by (cases "nextHealth c (clock h 0) healthy (cellOf (loadHealthActionState d) s)")
  have "cellOf (loadHealthActionState (healthTick G PF paths h d)) s = cell'"
    using cells(2) [of s] tick.hyps(3,8) n by simp
  with cells(1) nextHealth_explained(1) [OF conjunct2 [OF tick.IH] n] show ?case by simp
next
  case (other obs d d')
  then show ?case using load_same [of d' d] by simp
qed


text \<open>While the last observation is unhealthy, the automaton remembers where the unhealthy stretch began.\<close>

definition prompt :: "healthSettings \<Rightarrow> (int \<times> bool) list \<Rightarrow> healthCell \<Rightarrow> bool" where
  "prompt c obs cell \<longleftrightarrow> (case cell of (shut, uf, hf) \<Rightarrow>
     if obs \<noteq> [] \<and> \<not> snd (last obs)
     then uf \<noteq> 0 \<and> (\<forall>i. streak False obs i (length obs - 1) \<longrightarrow> uf \<le> fst (obs ! i)) \<and>
       (shut \<or> fst (last obs) - uf < heDegradedAfter c)
     else uf = 0)"

lemma streak_last: "streak b obs i (length obs - 1) \<Longrightarrow> obs \<noteq> [] \<and> snd (last obs) = b"
proof -
  assume a: "streak b obs i (length obs - 1)"
  then have "obs \<noteq> []" by (auto simp: streak_def)
  with a show ?thesis unfolding streak_def by (simp add: last_conv_nth)
qed

lemma streak_snoc:
  assumes "streak b (obs @ [x]) i (length obs)" and "i \<noteq> length obs"
  shows "streak b obs i (length obs - 1)"
proof -
  have "i < length obs" using assms by (auto simp: streak_def)
  moreover have "snd (obs ! k) = b" if "k \<in> {i..length obs - 1}" for k
  proof -
    have "k \<in> {i..length obs}" "k < length obs" using that \<open>i < length obs\<close> by auto
    then have "snd ((obs @ [x]) ! k) = b" using assms(1) unfolding streak_def by blast
    with \<open>k < length obs\<close> show ?thesis by (simp add: nth_append)
  qed
  ultimately show ?thesis by (auto simp: streak_def)
qed

lemma nextHealth_prompt:
  assumes "prompt c obs cell" and "0 < now" and "obs \<noteq> [] \<Longrightarrow> fst (last obs) \<le> now" and "nextHealth c now healthy cell = (act, cell')"
  shows "prompt c (obs @ [(now, healthy)]) cell'"
proof -
  obtain shut uf hf where cell: "cell = (shut, uf, hf)" by (cases cell)
  let ?u = "if uf = 0 then now else uf"
  note step = assms(4) [unfolded nextHealth_def cell Let_def case_prod_conv]
  have start: "?u \<le> fst ((obs @ [(now, False)]) ! i)" if "streak False (obs @ [(now, False)]) i (length obs)" for i
  proof (cases "i = length obs")
    case True
    show ?thesis
    proof (cases "uf = 0")
      case False
      then have bad: "obs \<noteq> []" "\<not> snd (last obs)" using assms(1) cell by (auto simp: prompt_def split: if_splits)
      then have "streak False obs (length obs - 1) (length obs - 1)" by (auto simp: streak_def last_conv_nth)
      then have "uf \<le> fst (obs ! (length obs - 1))" using assms(1) cell bad by (auto simp: prompt_def)
      also have "\<dots> = fst (last obs)" using bad(1) by (simp add: last_conv_nth)
      finally show ?thesis using True False assms(3) bad(1) by simp
    qed (simp add: True)
  next
    case False
    note tail = streak_snoc [OF that False]
    have "i < length obs" using tail by (auto simp: streak_def)
    then show ?thesis using tail streak_last [OF tail] assms(1) cell by (auto simp: prompt_def nth_append)
  qed
  show ?thesis
  proof (cases healthy)
    case True
    then show ?thesis using step by (auto simp: prompt_def split: if_splits)
  next
    case False
    then show ?thesis using step start assms(2) by (auto simp: prompt_def split: if_splits)
  qed
qed

lemma health_run_prompt:
  "health_run G PF c s obs d \<Longrightarrow> sorted (map fst obs) \<Longrightarrow> prompt c obs (cellOf (loadHealthActionState d) s)"
proof (induction rule: health_run.induct)
  case (start d)
  then show ?case using fresh_state [of d s] by (simp add: prompt_def)
next
  case (tick obs d h paths healthy)
  have t: "time_ok (clock h 0)" using tick.hyps by (simp add: time_ok_def)
  have ok: "times_ok (loadHealthActionState d)" using health_run_explained [OF tick.hyps(1)] by simp
  obtain act cell' where n: "nextHealth c (clock h 0) healthy (cellOf (loadHealthActionState d) s) = (act, cell')"
    by (cases "nextHealth c (clock h 0) healthy (cellOf (loadHealthActionState d) s)")
  have "cellOf (loadHealthActionState (healthTick G PF paths h d)) s = cell'"
    using tick_cells(2) [OF tick.hyps(2,4) ok t tick.hyps(7), of PF paths s] tick.hyps(3,8) n by simp
  moreover have "fst (last obs) \<le> clock h 0" if "obs \<noteq> []" using tick.prems that by (simp add: sorted_append)
  ultimately show ?case using nextHealth_prompt [OF _ tick.hyps(5) _ n] tick.IH tick.prems by (simp add: sorted_append)
next
  case (other obs d d')
  then show ?case using load_same [of d' d] by simp
qed


section \<open>A backend that fails and recovers\<close>

definition zooHealth :: "bool \<Rightarrow> json json_file \<Rightarrow> dashboard" where
  "zooHealth b x = emptyDashboard\<lparr>stateFiles := (\<lambda>n. if n = ''gateway-state.json''
       then Decoded (JObj [(''backends'', JArr [JObj [(''name'', JStr ''zoo''), (''healthy'', JBool b)]])])
       else if n = ''health-action-state.json'' then x else Absent)\<rparr>"

definition zooSettings :: healthSettings where
  "zooSettings = \<lparr>heRequireCompanion = False, heStaleAfter = 45000, heDegradedAfter = 30000, heRecoveryAfter = 60000,
     heMinimumTPS = 12, heMaximumMSPT = 80\<rparr>"

definition hostAt :: "int \<Rightarrow> host" where
  "hostAt t = sampleHost\<lparr>clock := (\<lambda>_. t)\<rparr>"

lemma zoo_tick:
  "tickEnabled (zooHealth b x)" "tickSettings (zooHealth b x) = zooSettings"
  "tickBackends G (zooHealth b x) = [JObj [(''name'', JStr ''zoo''), (''healthy'', JBool b)]]"
  "observed G PF [] (hostAt t) (zooHealth b x) ''zoo'' = Some b"
proof -
  have m: "parseSimpleProperties name (zooHealth b x) = []" for name
  proof -
    have "split_on newline [] = [[]]" "strippedLine [] = []" by code_simp+
    then show ?thesis by (simp add: parseSimpleProperties_def fileText_def zooHealth_def emptyDashboard_def simpleProperty_def)
  qed
  show "tickEnabled (zooHealth b x)" by (simp add: tickEnabled_def m propertyBool_def)
  show settings: "tickSettings (zooHealth b x) = zooSettings"
    using m by (simp add: tickSettings_def healthSettingsOf_def propertyBool_def propertyInt_def map_get_def atoi_def parse_nat_def
        zooSettings_def wrap64_def)
  have norm: "normalizeCompanionServerID ''zoo'' = ''zoo''" by code_simp
  show backends: "tickBackends G (zooHealth b x) = [JObj [(''name'', JStr ''zoo''), (''healthy'', JBool b)]]"
    by (simp add: tickBackends_def combinedRuntimeState_def zooHealth_def safeMap_def as_object_def as_array_def field_def
        mergeBackend_def textField_def norm number_def Let_def)
  have "companionsByServer G now [] (zooHealth b x) = []" for now
    by (simp add: companionsByServer_def companionStates_def)
  then show "observed G PF [] (hostAt t) (zooHealth b x) ''zoo'' = Some b"
    by (simp add: observed_def namedBackend_def backends objects_def as_object_def textField_def backendHealth_def
        assessBackend_def settings zooSettings_def field_def)
qed

lemma zoo_extend:
  assumes "\<exists>d. health_run G PF zooSettings ''zoo'' obs d \<and> cellOf (loadHealthActionState d) ''zoo'' = cell"
    and "0 < t" and "t \<le> max_int64"
  shows "\<exists>x. health_run G PF zooSettings ''zoo'' obs (zooHealth b x) \<and> cellOf (loadHealthActionState (zooHealth b x)) ''zoo'' = cell \<and>
    health_run G PF zooSettings ''zoo'' (obs @ [(t, b)]) (healthTick G PF [] (hostAt t) (zooHealth b x)) \<and>
    cellOf (loadHealthActionState (healthTick G PF [] (hostAt t) (zooHealth b x))) ''zoo'' = snd (nextHealth zooSettings t b cell)"
proof -
  obtain d where d: "health_run G PF zooSettings ''zoo'' obs d" "cellOf (loadHealthActionState d) ''zoo'' = cell" using assms(1) by blast
  let ?d = "zooHealth b (stateFiles d ''health-action-state.json'')"
  have same: "stateFiles ?d ''health-action-state.json'' = stateFiles d ''health-action-state.json''" by (simp add: zooHealth_def)
  note run = health_run.other [OF d(1) same]
  have clk: "clock (hostAt t) k = t" "diskOK (hostAt t) k" for k by (simp_all add: hostAt_def sampleHost_def)
  have dist: "distinct (map (\<lambda>b. textField G b ''name'') (objects (tickBackends G ?d)))" by (simp add: zoo_tick objects_def)
  have t: "time_ok (clock (hostAt t) 0)" using assms(2,3) clk by (simp add: time_ok_def)
  have "health_run G PF zooSettings ''zoo'' (obs @ [(clock (hostAt t) 0, b)]) (healthTick G PF [] (hostAt t) ?d)"
    by (rule health_run.tick [OF run zoo_tick(1,2) _ _ _ dist zoo_tick(4)]) (use assms(2,3) clk in simp_all)
  moreover have "cellOf (loadHealthActionState (healthTick G PF [] (hostAt t) ?d)) ''zoo'' = snd (nextHealth zooSettings t b cell)"
    using tick_cells(2) [OF zoo_tick(1) clk(2) _ t dist, of PF "[]" "''zoo''"] health_run_explained [OF run] zoo_tick clk d(2) load_same [OF same]
    by simp
  ultimately show ?thesis using run load_same [OF same] d(2) clk by auto
qed

lemma zoo_start: "\<exists>d. health_run G PF zooSettings ''zoo'' [] d \<and> cellOf (loadHealthActionState d) ''zoo'' = (False, 0, 0)"
  using fresh_state [of "zooHealth True Absent" "''zoo''"] health_run.start [of "zooHealth True Absent"]
  by (fastforce simp: zooHealth_def)

lemma zoo_failed:
  "\<exists>d. health_run G PF zooSettings ''zoo'' [(1000, False), (31001, False)] d \<and> cellOf (loadHealthActionState d) ''zoo'' = (True, 1000, 0)"
proof -
  have m: "(1000::int) \<le> max_int64" "(31001::int) \<le> max_int64" by (simp_all add: max_int64_def)
  have "\<exists>d. health_run G PF zooSettings ''zoo'' [(1000, False)] d \<and> cellOf (loadHealthActionState d) ''zoo'' = (False, 1000, 0)"
    using zoo_extend [OF zoo_start _ m(1), of G PF False] by (auto simp: nextHealth_def zooSettings_def)
  from zoo_extend [OF this _ m(2), of False] show ?thesis by (auto simp: nextHealth_def zooSettings_def)
qed



section \<open>The settings of the unified configuration\<close>

lemma simpleProperty_eq: "simpleProperty = secretLine"
  by (intro ext) (simp add: simpleProperty_def secretLine_def strippedLine_def)

definition healthEntries :: "ini \<Rightarrow> (string \<times> string) list" where
  "healthEntries doc =
     [(''enabled'', format_bool (getBool doc ''health'' ''automatic_actions'' True)),
      (''require_companion'', format_bool (getBool doc ''health'' ''require_companion'' False)),
      (''companion_stale_seconds'', itoa (getInt doc ''health'' ''companion_stale_seconds'' 45 5 3600)),
      (''degraded_after_seconds'', itoa (getInt doc ''health'' ''degraded_after_seconds'' 30 5 3600)),
      (''recovery_seconds'', itoa (getInt doc ''health'' ''stable_recovery_seconds'' 60 5 3600)),
      (''minimum_tps'', itoa (getInt doc ''health'' ''minimum_tps'' 12 1 20)),
      (''maximum_mspt'', itoa (getInt doc ''health'' ''maximum_mspt'' 80 1 10000))]"

lemma healthEntries_plain: "list_all plainEntry (healthEntries doc)"
proof -
  have keys: "list_all (\<lambda>k. k \<noteq> [] \<and> plainSecret k \<and> CHR ''='' \<notin> set k) (map fst (healthEntries doc))"
    unfolding healthEntries_def list.map fst_conv by code_simp
  have "list_all plainSecret (map snd (healthEntries doc))"
    using clean_plainSecret [OF clean_itoa] clean_plainSecret [OF clean_format_bool] by (simp add: healthEntries_def)
  with keys show ?thesis by (auto simp: list_all_iff plainEntry_def)
qed

lemma healthFile_read:
  assumes "runtimeFiles d ''health-actions.properties'' = Some (healthActionsFile doc)"
  shows "map_of (parseSimpleProperties ''health-actions.properties'' d) = map_of (healthEntries doc)"
proof -
  have printed: "healthActionsFile doc = concat (map (\<lambda>l. l @ [newline]) (map entryLine (healthEntries doc)))"
    by (simp add: healthActionsFile_def healthEntries_def entryLine_def)
  have "split_on newline (healthActionsFile doc) = map entryLine (healthEntries doc) @ [[]]"
    unfolding printed by (rule split_on_terminated) (rule entryLines_no_newline [OF healthEntries_plain])
  then have "map_of (parseSimpleProperties ''health-actions.properties'' d) = map_of (rev (healthEntries doc))"
    using foldl_secretLine [OF healthEntries_plain, of "[]"] assms
    by (intro ext) (simp add: parseSimpleProperties_def fileText_def simpleProperty_eq secretLine_skip)
  moreover have "distinct (map fst (healthEntries doc))" unfolding healthEntries_def list.map fst_conv by code_simp
  then have "map_of (rev (healthEntries doc)) = map_of (healthEntries doc)"
    by (subst map_of_inject_set) (simp_all add: rev_map [symmetric])
  ultimately show ?thesis by simp
qed

lemma getInt_bounds: "lo \<le> f \<Longrightarrow> f \<le> hi \<Longrightarrow> lo \<le> getInt doc s k f lo hi \<and> getInt doc s k f lo hi \<le> hi"
  by (auto simp: getInt_def split: option.splits)

text \<open>The health loop runs with the configured settings: once the unified configuration has been applied, the loop
  reads from the generated file whether it is enabled and every delay and limit of the \<^verbatim>\<open>health\<close> section, in
  milliseconds and within their bounds.\<close>

theorem health_loop_uses_configuration:
  assumes "prepareUnifiedConfig h n d = (Inr u, d')" and "unifiedFile d = Some content" and "content \<noteq> []" and "parseINI content = Inr doc"
  shows "tickEnabled d' = getBool doc ''health'' ''automatic_actions'' True \<and>
    tickSettings d' = \<lparr>heRequireCompanion = getBool doc ''health'' ''require_companion'' False,
      heStaleAfter = getInt doc ''health'' ''companion_stale_seconds'' 45 5 3600 * 1000,
      heDegradedAfter = getInt doc ''health'' ''degraded_after_seconds'' 30 5 3600 * 1000,
      heRecoveryAfter = getInt doc ''health'' ''stable_recovery_seconds'' 60 5 3600 * 1000,
      heMinimumTPS = getInt doc ''health'' ''minimum_tps'' 12 1 20,
      heMaximumMSPT = getInt doc ''health'' ''maximum_mspt'' 80 1 10000\<rparr> \<and>
    heDegradedAfter (tickSettings d') \<in> {5000..3600000} \<and> heRecoveryAfter (tickSettings d') \<in> {5000..3600000}"
proof -
  have "d' = fold (\<lambda>f. f) (preparedFiles h doc d) d" using prepare_success [OF assms(1-3)] assms(4) by auto
  then have "runtimeFiles d' ''health-actions.properties'' = Some (healthActionsFile doc)"
    by (simp add: preparedFiles_def Let_def putText_def putState_def)
  note m = healthFile_read [OF this]
  have int: "propertyInt (parseSimpleProperties ''health-actions.properties'' d') k fb = i"
    if "map_of (healthEntries doc) k = Some (itoa i)" "in_int64 i" for k i fb
    using that by (simp add: propertyInt_def map_get_def m)
  have bool: "propertyBool (parseSimpleProperties ''health-actions.properties'' d') k fb = b"
    if "map_of (healthEntries doc) k = Some (format_bool b)" for k b fb
    using that by (simp add: propertyBool_def m format_bool_def split: if_splits)
  note b = getInt_bounds [of 5 45 3600 doc "''health''" "''companion_stale_seconds''"]
    getInt_bounds [of 5 30 3600 doc "''health''" "''degraded_after_seconds''"]
    getInt_bounds [of 5 60 3600 doc "''health''" "''stable_recovery_seconds''"]
    getInt_bounds [of 1 12 20 doc "''health''" "''minimum_tps''"] getInt_bounds [of 1 80 10000 doc "''health''" "''maximum_mspt''"]
  have range: "in_int64 i \<and> wrap64 (i * 1000) = i * 1000" if "1 \<le> i" "i \<le> 10000" for i
    using that wrap64_id [of "i * 1000"] by (auto simp: in_int64_def min_int64_def max_int64_def)
  have e: "map_of (healthEntries doc) ''enabled'' = Some (format_bool (getBool doc ''health'' ''automatic_actions'' True))"
    "map_of (healthEntries doc) ''require_companion'' = Some (format_bool (getBool doc ''health'' ''require_companion'' False))"
    "map_of (healthEntries doc) ''companion_stale_seconds'' = Some (itoa (getInt doc ''health'' ''companion_stale_seconds'' 45 5 3600))"
    "map_of (healthEntries doc) ''degraded_after_seconds'' = Some (itoa (getInt doc ''health'' ''degraded_after_seconds'' 30 5 3600))"
    "map_of (healthEntries doc) ''recovery_seconds'' = Some (itoa (getInt doc ''health'' ''stable_recovery_seconds'' 60 5 3600))"
    "map_of (healthEntries doc) ''minimum_tps'' = Some (itoa (getInt doc ''health'' ''minimum_tps'' 12 1 20))"
    "map_of (healthEntries doc) ''maximum_mspt'' = Some (itoa (getInt doc ''health'' ''maximum_mspt'' 80 1 10000))"
    by (simp_all add: healthEntries_def)
  have settings: "tickSettings d' = \<lparr>heRequireCompanion = getBool doc ''health'' ''require_companion'' False,
      heStaleAfter = getInt doc ''health'' ''companion_stale_seconds'' 45 5 3600 * 1000,
      heDegradedAfter = getInt doc ''health'' ''degraded_after_seconds'' 30 5 3600 * 1000,
      heRecoveryAfter = getInt doc ''health'' ''stable_recovery_seconds'' 60 5 3600 * 1000,
      heMinimumTPS = getInt doc ''health'' ''minimum_tps'' 12 1 20,
      heMaximumMSPT = getInt doc ''health'' ''maximum_mspt'' 80 1 10000\<rparr>"
    unfolding tickSettings_def healthSettingsOf_def using b range
    by (simp add: bool [OF e(2)] int [OF e(3)] int [OF e(4)] int [OF e(5)] int [OF e(6)] int [OF e(7)])
  then show ?thesis using b(2,3) bool [OF e(1)] by (simp add: tickEnabled_def)
qed

theorem health_loop_uses_configuration_witness:
  "\<exists>d'. prepareUnifiedConfig sampleHost 0 (emptyDashboard\<lparr>unifiedFile := Some sampleConfig\<rparr>) = (Inr (), d') \<and>
     tickEnabled d' \<and> heDegradedAfter (tickSettings d') = 30000"
proof -
  obtain d' where p: "prepareUnifiedConfig sampleHost 0 (emptyDashboard\<lparr>unifiedFile := Some sampleConfig\<rparr>) = (Inr (), d')"
    using sample_prepared [of sampleHost 0] by (auto simp: sampleHost_def)
  have l: "to_lower ''health'' = ''health''" by code_simp
  have g: "get sampleDocument ''health'' k x = x" for k x by (simp add: get_def l sampleDocument_def map_get_def)
  have "getBool sampleDocument ''health'' ''automatic_actions'' True" "getInt sampleDocument ''health'' ''degraded_after_seconds'' 30 5 3600 = 30"
    using getInt_absent [of sampleDocument "''health''"] g
    by (simp_all add: getBool_def in_int64_def min_int64_def max_int64_def) code_simp
  then show ?thesis
    using p health_loop_uses_configuration [OF p _ _ zoo_parsed] by (auto simp: sampleConfig_def)
qed

section \<open>A lost command\<close>

text \<open>A command that cannot be queued is lost: when the write of the command fails in the tick that closes a
  backend, the backend is recorded as closed although the gateway was not told, and no later tick that still
  sees it unhealthy queues the command again.\<close>

theorem lost_command_is_not_repeated:
  assumes "backendTick G PF h c now companions (st, d) (i, JObj b) = (st1, d1)" and "times_ok st" and "time_ok now"
    and "fst (nextHealth c now (backendHealth G PF c now companions b) (cellOf st (textField G b ''name''))) = Disable"
    and "\<not> diskOK h (Suc i)"
  shows "commandsLog d1 = commandsLog d \<and> flagOf (haDisabled st1) (textField G b ''name'') \<and>
    (\<forall>h2 now2 companions2 d2 b2 i2. textField G b2 ''name'' = textField G b ''name'' \<and> \<not> backendHealth G PF c now2 companions2 b2 \<longrightarrow>
       snd (backendTick G PF h2 c now2 companions2 (st1, d2) (i2, JObj b2)) = d2)"
proof -
  let ?s = "textField G b ''name''"
  have shut: "flagOf (haDisabled st1) ?s"
    using backendTick_cells(1) [OF assms(1-3)] assms(4)
    by (auto simp: cellOf_def nextHealth_def Let_def split: if_splits)
  have "commandsLog d1 = commandsLog d"
  proof -
    have quiet: "commandsLog (announceHealth h i now x a rl sv k m d) = commandsLog d" for x a rl sv k m
      using assms(5) by (simp add: announceHealth_def queueCommand_def appendEvent_def Let_def)
    obtain healthy reason where a: "assessBackend PF c now (map_of companions ?s) (field b ''healthy'' = JBool True) = (healthy, reason)" by force
    note steps = assms(1) [unfolded backendTick_def Let_def case_prod_conv json.case a]
    then show ?thesis using quiet by (auto split: if_splits)
  qed
  moreover have "snd (backendTick G PF h2 c now2 companions2 (st1, d2) (i2, JObj b2)) = d2"
    if b2: "textField G b2 ''name'' = ?s" "\<not> backendHealth G PF c now2 companions2 b2" for h2 now2 companions2 d2 b2 i2
  proof -
    obtain reason where a: "assessBackend PF c now2 (map_of companions2 ?s) (field b2 ''healthy'' = JBool True) = (False, reason)"
      using b2 by (cases "assessBackend PF c now2 (map_of companions2 ?s) (field b2 ''healthy'' = JBool True)") (auto simp: backendHealth_def)
    show ?thesis unfolding backendTick_def Let_def case_prod_conv json.case b2(1) a using shut by simp
  qed
  ultimately show ?thesis using shut by blast
qed

theorem lost_command_is_not_repeated_witness:
  "\<exists>st1 d1. backendTick sample_golib samplePF (sampleHost\<lparr>diskOK := (\<lambda>_. False)\<rparr>) zooSettings 31001 []
      (\<lparr>haDisabled = [], haUnhealthyFrom = [(''zoo'', 1000)], haHealthyFrom = []\<rparr>, emptyDashboard) (0, JObj [(''name'', JStr ''zoo'')]) = (st1, d1) \<and>
     commandsLog d1 = [] \<and> flagOf (haDisabled st1) ''zoo''"
proof -
  let ?st = "\<lparr>haDisabled = [], haUnhealthyFrom = [(''zoo'', 1000)], haHealthyFrom = []\<rparr> :: healthActionState"
  let ?h = "sampleHost\<lparr>diskOK := (\<lambda>_. False)\<rparr>" and ?b = "[(''name'', JStr ''zoo'')]"
  obtain st1 d1 where s: "backendTick sample_golib samplePF ?h zooSettings 31001 [] (?st, emptyDashboard) (0, JObj ?b) = (st1, d1)" by force
  have n: "textField sample_golib ?b ''name'' = ''zoo''" by (simp add: textField_def)
  have bad: "\<not> backendHealth sample_golib samplePF zooSettings 31001 [] ?b"
    by (simp add: backendHealth_def assessBackend_def zooSettings_def field_def)
  have "times_ok ?st" "time_ok 31001" by (simp_all add: times_ok_def time_ok_def max_int64_def)
  moreover have "fst (nextHealth zooSettings 31001 (backendHealth sample_golib samplePF zooSettings 31001 [] ?b) (cellOf ?st ''zoo'')) = Disable"
    using bad by (simp add: nextHealth_def cellOf_def flagOf_def timeOf_def zooSettings_def)
  ultimately show ?thesis
    using lost_command_is_not_repeated [OF s] s unfolding n by (simp add: emptyDashboard_def)
qed

end
