(* ===== verification/Presence.thy ===== *)
theory Presence
  imports Health
begin

text \<open>
  What companions report: the signed ingest of packets, metrics and events, the presence of players it
  keeps (\<^verbatim>\<open>dashboard/main.go\<close>) and the profiles it feeds (\<^verbatim>\<open>dashboard/control_plane.go\<close>), and the pages that show
  presence, packets and events.  The decoded body is an argument; a record that is \<^verbatim>\<open>null\<close> is decoded as a nil
  map (\<open>None\<close>), and assigning to it panics, which ends the request without a reply.  Maps are iterated in
  the order of the model's lists.
\<close>

definition firstNonempty :: "string list \<Rightarrow> string" where
  "firstNonempty vs = (case find (\<lambda>v. v \<noteq> []) vs of None \<Rightarrow> [] | Some v \<Rightarrow> v)"

section \<open>Presence\<close>

record presenceEntry =
  peKey :: string
  peXUID :: string
  pePlayerName :: string
  peServerID :: string
  peAddress :: string
  peSubClient :: string
  peLastSeen :: int
  peFirstSeen :: int
  peLastType :: string

definition zeroPresence :: presenceEntry where
  "zeroPresence = \<lparr>peKey = [], peXUID = [], pePlayerName = [], peServerID = [], peAddress = [], peSubClient = [],
     peLastSeen = 0, peFirstSeen = 0, peLastType = []\<rparr>"

text \<open>Decoding into a typed field: its value, and whether the type fits (\<^verbatim>\<open>null\<close> and a missing key leave the zero value).\<close>

definition decodeText :: "json \<Rightarrow> string \<times> bool" where
  "decodeText v = (case v of JStr s \<Rightarrow> (s, True) | JNull \<Rightarrow> ([], True) | _ \<Rightarrow> ([], False))"

definition decodeInt :: "json \<Rightarrow> int \<times> bool" where
  "decodeInt v =
     (case v of
        JNum r \<Rightarrow> if r = of_int \<lfloor>r\<rfloor> \<and> in_int64 \<lfloor>r\<rfloor> then (\<lfloor>r\<rfloor>, True) else (0, False)
      | JNull \<Rightarrow> (0, True)
      | _ \<Rightarrow> (0, False))"

definition decodeEntry :: "json \<Rightarrow> presenceEntry \<times> bool" where
  "decodeEntry v =
     (case v of
        JObj e \<Rightarrow>
          let t = (\<lambda>k. decodeText (field e k)); i = (\<lambda>k. decodeInt (field e k)) in
          (\<lparr>peKey = fst (t ''key''), peXUID = fst (t ''xuid''), pePlayerName = fst (t ''playerName''),
            peServerID = fst (t ''serverId''), peAddress = fst (t ''address''), peSubClient = fst (t ''subClientId''),
            peLastSeen = fst (i ''lastSeen''), peFirstSeen = fst (i ''firstSeen''), peLastType = fst (t ''lastType'')\<rparr>,
           list_all (\<lambda>k. snd (t k)) [''key'', ''xuid'', ''playerName'', ''serverId'', ''address'', ''subClientId'', ''lastType''] \<and>
           snd (i ''lastSeen'') \<and> snd (i ''firstSeen''))
      | JNull \<Rightarrow> (zeroPresence, True)
      | _ \<Rightarrow> (zeroPresence, False))"

definition decodePresence :: "json json_file \<Rightarrow> (string \<times> presenceEntry) list \<times> bool" where
  "decodePresence f =
     (case f of
        Decoded (JObj m) \<Rightarrow> (map (\<lambda>(k, v). (k, fst (decodeEntry v))) m, list_all (\<lambda>(k, v). snd (decodeEntry v)) m)
      | Decoded JNull \<Rightarrow> ([], True)
      | _ \<Rightarrow> ([], False))"

text \<open>\<^verbatim>\<open>omitempty\<close> leaves out empty texts.\<close>

definition jentry :: "presenceEntry \<Rightarrow> json" where
  "jentry e =
     (let opt = (\<lambda>k v. if v = [] then [] else [(k, JStr v)]) in
      JObj ([(''key'', JStr (peKey e))] @ opt ''xuid'' (peXUID e) @ opt ''playerName'' (pePlayerName e) @
        [(''serverId'', JStr (peServerID e))] @ opt ''address'' (peAddress e) @ opt ''subClientId'' (peSubClient e) @
        [(''lastSeen'', jint (peLastSeen e)), (''firstSeen'', jint (peFirstSeen e))] @ opt ''lastType'' (peLastType e)))"

text \<open>The entry that a report leaves under a key, given the one that was there.\<close>

definition seenEntry :: "golib \<Rightarrow> string \<Rightarrow> int \<Rightarrow> jobject \<Rightarrow> string \<Rightarrow> string \<Rightarrow> string \<Rightarrow> presenceEntry \<Rightarrow> presenceEntry" where
  "seenEntry G serverID now record xuid name key old =
     \<lparr>peKey = key, peXUID = xuid, pePlayerName = name, peServerID = serverID,
      peAddress = firstNonempty [textField G record ''address'', textField G record ''client''],
      peSubClient = firstNonempty [textField G record ''subClientId'', textField G record ''subClient''],
      peLastSeen = now, peFirstSeen = (if peFirstSeen old = 0 then now else peFirstSeen old),
      peLastType = textField G record ''type''\<rparr>"

definition presenceStep ::
  "golib \<Rightarrow> string \<Rightarrow> int \<Rightarrow> (string \<times> presenceEntry) list \<Rightarrow> jobject \<Rightarrow> (string \<times> presenceEntry) list" where
  "presenceStep G serverID now m record =
     (let xuid = firstNonempty [textField G record ''xuid'', textField G record ''XUID''];
          name = firstNonempty [textField G record ''playerName'', textField G record ''player'', textField G record ''name''] in
      if xuid = [] \<and> name = [] then m
      else
        let key = (if xuid = [] then serverID @ '':'' @ to_lower name else xuid);
            old = (case map_of m key of None \<Rightarrow> zeroPresence | Some e \<Rightarrow> e)
        in AList.update key (seenEntry G serverID now record xuid name key old) m)"

definition presenceWindow :: int where "presenceWindow = 7 * 24 * 60 * 60 * 1000"

definition updatedPresence ::
  "golib \<Rightarrow> string \<Rightarrow> int \<Rightarrow> jobject list \<Rightarrow> dashboard \<Rightarrow> (string \<times> presenceEntry) list" where
  "updatedPresence G serverID now reports d =
     filter (\<lambda>(k, e). \<not> wrap64 (now - peLastSeen e) > presenceWindow)
       (foldl (presenceStep G serverID now) (fst (decodePresence (stateFiles d ''presence.json''))) reports)"

definition updatePresence :: "golib \<Rightarrow> bool \<Rightarrow> string \<Rightarrow> int \<Rightarrow> jobject list \<Rightarrow> dashboard \<Rightarrow> dashboard" where
  "updatePresence G ok serverID now reports d =
     (if ok
      then putState ''presence.json'' (JObj (map (\<lambda>(k, e). (k, jentry e)) (updatedPresence G serverID now reports d))) d
      else d)"

definition presenceRecords :: "dashboard \<Rightarrow> presenceEntry list" where
  "presenceRecords d =
     (let (m, ok) = decodePresence (stateFiles d ''presence.json'')
      in if ok then sort_key (\<lambda>e. - peLastSeen e) (map snd m) else [])"

definition onlineAt :: "int \<Rightarrow> dashboard \<Rightarrow> presenceEntry \<Rightarrow> bool" where
  "onlineAt now d e \<longleftrightarrow> wrap64 (now - peLastSeen e) \<le> presenceTTL d"

definition countServer :: "(string \<times> int) list \<Rightarrow> presenceEntry \<Rightarrow> (string \<times> int) list" where
  "countServer m e = AList.update (peServerID e) (timeOf m (peServerID e) + 1) m"

definition presenceSummary :: "int \<Rightarrow> dashboard \<Rightarrow> json" where
  "presenceSummary now d =
     (let online = filter (onlineAt now d) (presenceRecords d)
      in JObj [(''online'', jint (int (length online))), (''tracked'', jint (int (length (presenceRecords d)))),
           (''byServer'', JObj (map (\<lambda>(k, n). (k, jint n)) (foldl countServer [] online))),
           (''ttlSeconds'', jint (presenceTTL d div 1000))])"

definition handlePresence :: handler where
  "handlePresence h r d =
     ((200, JObj [(''records'', JArr (map (\<lambda>e. JObj [(''key'', JStr (peKey e)), (''xuid'', JStr (peXUID e)),
           (''playerName'', JStr (pePlayerName e)), (''serverId'', JStr (peServerID e)), (''address'', JStr (peAddress e)),
           (''subClientId'', JStr (peSubClient e)), (''firstSeen'', jint (peFirstSeen e)), (''lastSeen'', jint (peLastSeen e)),
           (''online'', JBool (onlineAt (clock h 0) d e))]) (presenceRecords d))),
        (''summary'', presenceSummary (clock h 1) d)]), d)"

section \<open>Profiles\<close>

definition presenceProfile :: "golib \<Rightarrow> string \<Rightarrow> int \<Rightarrow> ledger \<Rightarrow> jobject \<Rightarrow> ledger" where
  "presenceProfile G serverID now l record =
     (let xuid = textField G record ''xuid'';
          name = firstNonempty [textField G record ''playerName'', textField G record ''player''] in
      if xuid = [] then l
      else confirmArrival (upsertProfile l xuid name serverID now) xuid serverID now)"

definition recordPresenceProfiles :: "golib \<Rightarrow> string \<Rightarrow> int \<Rightarrow> jobject list \<Rightarrow> dashboard \<Rightarrow> dashboard" where
  "recordPresenceProfiles G serverID now updates d =
     d\<lparr>db := foldl (presenceProfile G serverID now) (db d) updates\<rparr>"

section \<open>Ingest\<close>

definition enrichPacketName :: "golib \<Rightarrow> dashboard \<Rightarrow> jobject \<Rightarrow> jobject" where
  "enrichPacketName G d record =
     (let i = textField G record ''packetId''; name = map_get (packetNames d) i in
      if i = [] \<or> name = [] then record
      else
        let existing = trim_space (textField G record ''packetName'');
            record1 = (if existing \<noteq> [] \<and> \<not> has_prefix existing ''Unknown packet #'' \<and> existing \<noteq> ''Packet #'' @ i \<and> existing \<noteq> name
                       then put_field ''decodedPacketName'' (JStr existing) record else record)
        in put_field ''packetNameSource'' (JStr ''Mojang/bedrock-protocol-docs'') (put_field ''packetName'' (JStr name) record1))"

record ingest =
  inAccepted :: nat
  inMetrics :: "jobject option"
  inUpdates :: "jobject list"

definition logPacket :: "golib \<Rightarrow> host \<Rightarrow> jobject \<Rightarrow> dashboard \<Rightarrow> dashboard" where
  "logPacket G h record d =
     (let named = enrichPacketName G d record;
          complete = (if textField G named ''packetName'' = []
                      then put_field ''packetName'' (JStr (''Packet #'' @ textField G named ''packetId'')) named else named)
      in d\<lparr>gameplayFile := appendJSONL (logFull h ''gameplay-packets.jsonl'') (JObj complete) (gameplayFile d)\<rparr>)"

definition ingestRecord ::
  "golib \<Rightarrow> host \<Rightarrow> string \<Rightarrow> int \<Rightarrow> ingest \<Rightarrow> jobject \<Rightarrow> dashboard \<Rightarrow> ingest \<times> dashboard" where
  "ingestRecord G h server now st record0 d =
     (let record = put_field ''receivedAt'' (jint now) (put_field ''serverId'' (JStr server) record0);
          kind = textField G record ''type'' in
      if kind = ''packet'' then
        let packet = put_field ''layer'' (JStr ''gameplay'') record;
            st1 = (if textField G packet ''xuid'' \<noteq> [] \<or> textField G packet ''playerName'' \<noteq> []
                   then st\<lparr>inUpdates := inUpdates st @ [packet]\<rparr> else st)
        in (st1\<lparr>inAccepted := Suc (inAccepted st1)\<rparr>, logPacket G h packet d)
      else if kind = ''metrics'' then
        (st\<lparr>inMetrics := Some record, inUpdates := inUpdates st @ objects (as_array (field record ''players'')),
            inAccepted := Suc (inAccepted st)\<rparr>, d)
      else if kind = ''event'' \<or> kind = ''alert'' then
        (st\<lparr>inAccepted := Suc (inAccepted st)\<rparr>,
         appendEvent h [(''timestamp'', field record ''timestamp''),
           (''type'', JStr (firstNonempty [textField G record ''eventType'', ''companion.'' @ kind])),
           (''severity'', JStr (firstNonempty [textField G record ''severity'', ''info''])),
           (''message'', JStr (textField G record ''message'')), (''serverId'', JStr server),
           (''player'', JStr (textField G record ''player'')), (''xuid'', JStr (textField G record ''xuid''))] d)
      else (st, d))"

fun ingestLoop ::
  "golib \<Rightarrow> host \<Rightarrow> string \<Rightarrow> nat \<Rightarrow> ingest \<Rightarrow> jobject option list \<Rightarrow> dashboard \<Rightarrow> ingest option \<times> dashboard" where
  "ingestLoop G h server n st [] d = (Some st, d)"
| "ingestLoop G h server n st (None # rs) d = (None, d)"
| "ingestLoop G h server n st (Some record # rs) d =
     (let (st1, d1) = ingestRecord G h server (clock h n) st record d in ingestLoop G h server (Suc n) st1 rs d1)"

text \<open>The state file of the companion, and its copy for the server \<^verbatim>\<open>kingdom\<close>.\<close>

definition saveCompanion :: "host \<Rightarrow> string \<Rightarrow> json \<Rightarrow> dashboard \<Rightarrow> dashboard" where
  "saveCompanion h server state d =
     (let d1 = (if diskOK h 1 then putState (''companion-state-'' @ safeFileID server @ ''.json'') state d else d)
      in if server = ''kingdom'' \<and> diskOK h 2 then putState ''companion-state.json'' state d1 else d1)"

definition finishIngest :: "golib \<Rightarrow> host \<Rightarrow> string \<Rightarrow> nat \<Rightarrow> ingest \<Rightarrow> dashboard \<Rightarrow> reply \<times> dashboard" where
  "finishIngest G h server n st d =
     (let d1 = (if inUpdates st = [] then d
                else recordPresenceProfiles G server (clock h (n + 1)) (inUpdates st)
                  (updatePresence G (diskOK h 0) server (clock h n) (inUpdates st) d));
          d2 = (case inMetrics st of
                  None \<Rightarrow> d1
                | Some metrics \<Rightarrow>
                    saveCompanion h server (JObj [(''timestamp'', jint (clock h (n + 2))), (''serverId'', JStr server),
                      (''metrics'', JObj metrics), (''connected'', JBool True),
                      (''recordsAccepted'', jint (int (inAccepted st)))]) d1)
      in ((200, JObj [(''accepted'', jint (int (inAccepted st))), (''serverId'', JStr server),
            (''receivedAt'', jint (clock h (n + 3))),
            (''secretFingerprint'', JStr (secretFingerprint G (companionSecret d2 server)))]), d2))"

text \<open>The name that the payload gives, or the signed one, which it must equal.\<close>

definition ingestServer :: "http_request \<Rightarrow> string \<Rightarrow> string" where
  "ingestServer r named =
     (let n = normalizeCompanionServerID named
      in if n = [] then normalizeCompanionServerID (header r ''X-NinjOS-Server'') else n)"

definition handleIngest ::
  "golib \<Rightarrow> string option \<Rightarrow> (string \<Rightarrow> (string \<times> jobject option list) option) \<Rightarrow> host \<Rightarrow> http_request \<Rightarrow> dashboard \<Rightarrow>
   reply option \<times> dashboard" where
  "handleIngest G readBody decode h r d =
     (if verb r \<noteq> ''POST'' then (Some (error_reply 405 ''Method not allowed''), d)
      else case readBody of
        None \<Rightarrow> (Some (error_reply 413 ''Request body is too large''), d)
      | Some body \<Rightarrow>
          (case verifySignedBody G (clock h 0) (clock h 1) r body d of
             (Inl err, d1) \<Rightarrow> (Some (error_reply (if err = ''Replay rejected'' then 409 else 401) err), d1)
           | (Inr _, d1) \<Rightarrow>
               (case decode body of
                  None \<Rightarrow> (Some (error_reply 400 ''Invalid JSON''), d1)
                | Some (named, reports) \<Rightarrow>
                    let server = ingestServer r named in
                    if server = [] \<or> server \<noteq> normalizeCompanionServerID (header r ''X-NinjOS-Server'')
                    then (Some (error_reply 401 ''Server identity mismatch''), d1)
                    else case ingestLoop G h server 2 \<lparr>inAccepted = 0, inMetrics = None, inUpdates = []\<rparr> reports d1 of
                      (None, d2) \<Rightarrow> (None, d2)
                    | (Some st, d2) \<Rightarrow> let (rep, d3) = finishIngest G h server (2 + length reports) st d2 in (Some rep, d3))))"

section \<open>Reading back what was written\<close>

lemma field_append: "field (xs @ ys) k = (case map_of xs k of None \<Rightarrow> field ys k | Some v \<Rightarrow> v)"
  by (simp add: field_def map_add_def split: option.splits)

lemma decodeInt_jint: "in_int64 i \<Longrightarrow> decodeInt (jint i) = (i, True)"
  by (simp add: decodeInt_def jint_def)

lemma decode_jentry:
  assumes "in_int64 (peLastSeen e)" and "in_int64 (peFirstSeen e)"
  shows "decodeEntry (jentry e) = (e, True)"
  using assms by (cases e) (simp add: decodeEntry_def jentry_def Let_def field_append field_def decodeText_def decodeInt_jint)

definition entry_times :: "presenceEntry \<Rightarrow> bool" where
  "entry_times e \<longleftrightarrow> in_int64 (peLastSeen e) \<and> in_int64 (peFirstSeen e)"

lemma decoded_times: "(k, e) \<in> set (fst (decodePresence f)) \<Longrightarrow> entry_times e"
proof -
  have "in_int64 (fst (decodeInt v))" for v
    by (auto simp: decodeInt_def in_int64_def min_int64_def max_int64_def split: json.splits)
  moreover have "entry_times zeroPresence" by (simp add: entry_times_def zeroPresence_def in_int64_def min_int64_def max_int64_def)
  ultimately have "entry_times (fst (decodeEntry v))" for v
    by (auto simp: decodeEntry_def entry_times_def Let_def split: json.splits)
  then show "(k, e) \<in> set (fst (decodePresence f)) \<Longrightarrow> entry_times e"
    by (auto simp: decodePresence_def split: json_file.splits json.splits)
qed

lemma presenceStep_times:
  assumes "\<forall>(k, e) \<in> set m. entry_times e" and "in_int64 now"
  shows "\<forall>(k, e) \<in> set (presenceStep G s now m r). entry_times e"
proof -
  have old: "in_int64 (peFirstSeen (case map_of m k of None \<Rightarrow> zeroPresence | Some e \<Rightarrow> e))" for k
    using assms(1) by (auto simp: entry_times_def zeroPresence_def in_int64_def min_int64_def max_int64_def
        split: option.splits dest!: map_of_SomeD)
  obtain k x n where "presenceStep G s now m r = m \<or>
      presenceStep G s now m r = AList.update k (seenEntry G s now r x n k (case map_of m k of None \<Rightarrow> zeroPresence | Some e \<Rightarrow> e)) m"
    unfolding presenceStep_def Let_def by (metis (no_types))
  moreover have "entry_times (seenEntry G s now r x n k (case map_of m k of None \<Rightarrow> zeroPresence | Some e \<Rightarrow> e))"
    using assms(2) old by (simp add: entry_times_def seenEntry_def)
  ultimately show ?thesis
    using assms(1) set_update_subset [of k "seenEntry G s now r x n k (case map_of m k of None \<Rightarrow> zeroPresence | Some e \<Rightarrow> e)" m] by auto
qed

lemma presence_read_back:
  assumes "in_int64 now"
  shows "decodePresence (stateFiles (updatePresence G True s now reports d) ''presence.json'') = (updatedPresence G s now reports d, True)"
proof -
  have "\<forall>(k, e) \<in> set (foldl (presenceStep G s now) m reports). entry_times e" if "\<forall>(k, e) \<in> set m. entry_times e" for m
    by (rule foldl_keeps [where P = "\<lambda>m. \<forall>(k, e) \<in> set m. entry_times e", OF _ that]) (rule presenceStep_times [OF _ assms])
  moreover have "\<forall>(k, e) \<in> set (fst (decodePresence (stateFiles d ''presence.json''))). entry_times e" using decoded_times by blast
  ultimately have "\<forall>(k, e) \<in> set (foldl (presenceStep G s now) (fst (decodePresence (stateFiles d ''presence.json''))) reports). entry_times e"
    by blast
  then have "\<forall>(k, e) \<in> set (updatedPresence G s now reports d). entry_times e"
    unfolding updatedPresence_def by (meson filter_is_subset subsetD)
  then have "map (\<lambda>(k, v). (k, fst (decodeEntry v))) (map (\<lambda>(k, e). (k, jentry e)) (updatedPresence G s now reports d)) = updatedPresence G s now reports d"
    "list_all (\<lambda>(k, v). snd (decodeEntry v)) (map (\<lambda>(k, e). (k, jentry e)) (updatedPresence G s now reports d))"
    using decode_jentry by (auto simp: entry_times_def list_all_iff intro!: map_idI)
  then show ?thesis by (simp add: updatePresence_def putState_def decodePresence_def)
qed

lemma presenceStep_lookup:
  "map_of (presenceStep G s now m r) k = map_of m k \<or> (\<exists>e. map_of (presenceStep G s now m r) k = Some e \<and> peKey e = k \<and> peServerID e = s \<and> peLastSeen e = now)"
  by (auto simp: presenceStep_def seenEntry_def Let_def update_conv')

lemma presenceStep_here:
  "textField G r ''xuid'' = x \<Longrightarrow> x \<noteq> [] \<Longrightarrow> \<exists>e. map_of (presenceStep G s now m r) x = Some e \<and> peKey e = x \<and> peServerID e = s \<and> peLastSeen e = now"
  by (simp add: presenceStep_def seenEntry_def Let_def firstNonempty_def update_conv')

lemma presence_fold:
  assumes "\<exists>r \<in> set reports. textField G r ''xuid'' = x" and "x \<noteq> []"
  shows "\<exists>e. map_of (foldl (presenceStep G s now) m reports) x = Some e \<and> peKey e = x \<and> peServerID e = s \<and> peLastSeen e = now"
proof -
  have keep: "\<exists>e. map_of (foldl (presenceStep G s now) m' rs) x = Some e \<and> peKey e = x \<and> peServerID e = s \<and> peLastSeen e = now"
    if "\<exists>e. map_of m' x = Some e \<and> peKey e = x \<and> peServerID e = s \<and> peLastSeen e = now" for m' rs
    using that
  proof (induction rs arbitrary: m')
    case (Cons r rs)
    have "\<exists>e. map_of (presenceStep G s now m' r) x = Some e \<and> peKey e = x \<and> peServerID e = s \<and> peLastSeen e = now"
      using presenceStep_lookup [of G s now m' r x] Cons.prems by metis
    from Cons.IH [OF this] show ?case by simp
  qed simp
  show ?thesis using assms(1)
  proof (induction reports arbitrary: m)
    case (Cons r rs)
    show ?case
    proof (cases "textField G r ''xuid'' = x")
      case True
      then show ?thesis using keep [OF presenceStep_here [OF True assms(2)]] by simp
    next
      case False
      then show ?thesis using Cons by simp
    qed
  qed simp
qed

text \<open>Presence is current: after an update that is written, the page lists every player the companion reported, on
  that companion's server and seen at the time of the update, and nobody who was not seen for seven days.\<close>

theorem presence_is_current:
  assumes "in_int64 now" and "r \<in> set reports" and "textField G r ''xuid'' \<noteq> []"
  shows "(\<exists>e \<in> set (presenceRecords (updatePresence G True s now reports d)).
      peKey e = textField G r ''xuid'' \<and> peServerID e = s \<and> peLastSeen e = now) \<and>
    (\<forall>e \<in> set (presenceRecords (updatePresence G True s now reports d)). wrap64 (now - peLastSeen e) \<le> presenceWindow)"
proof -
  let ?x = "textField G r ''xuid''"
  note rb = presence_read_back [OF assms(1), of G s reports d]
  have recs: "set (presenceRecords (updatePresence G True s now reports d)) = snd ` set (updatedPresence G s now reports d)"
    by (simp add: presenceRecords_def rb)
  obtain e where e: "map_of (foldl (presenceStep G s now) (fst (decodePresence (stateFiles d ''presence.json''))) reports) ?x = Some e"
    "peKey e = ?x" "peServerID e = s" "peLastSeen e = now"
    using presence_fold assms(2,3) by metis
  have "wrap64 0 \<le> presenceWindow" by (simp add: wrap64_def presenceWindow_def)
  then have "(?x, e) \<in> set (updatedPresence G s now reports d)"
    using map_of_SomeD [OF e(1)] e(4) by (simp add: updatedPresence_def)
  then have "e \<in> set (presenceRecords (updatePresence G True s now reports d))" unfolding recs by force
  moreover have "wrap64 (now - peLastSeen y) \<le> presenceWindow" if "y \<in> set (presenceRecords (updatePresence G True s now reports d))" for y
    using that unfolding recs by (auto simp: updatedPresence_def)
  ultimately show ?thesis using e by blast
qed

theorem presence_is_current_witness:
  "\<exists>e \<in> set (presenceRecords (updatePresence sample_golib True ''zoo'' 1700 [[(''xuid'', JStr ''2535'')]] emptyDashboard)).
     peKey e = ''2535'' \<and> peServerID e = ''zoo'' \<and> peLastSeen e = 1700"
proof -
  have "in_int64 1700" by (simp add: in_int64_def min_int64_def max_int64_def)
  moreover have "textField sample_golib [(''xuid'', JStr ''2535'')] ''xuid'' = ''2535''" by (simp add: textField_def)
  ultimately show ?thesis
    using presence_is_current [of 1700 "[(''xuid'', JStr ''2535'')]" "[[(''xuid'', JStr ''2535'')]]" sample_golib "''zoo''" emptyDashboard] by simp
qed

section \<open>Ingest\<close>

definition logged :: "jsonl \<Rightarrow> json set" where
  "logged f = set (jlCurrent f) \<union> set (jlRotated f)"

lemma logged_append: "logged (appendJSONL full v f) \<subseteq> insert v (logged f)"
  by (auto simp: logged_def appendJSONL_def Let_def)

definition namesServer :: "string \<Rightarrow> json \<Rightarrow> bool" where
  "namesServer s v \<longleftrightarrow> (\<exists>rec. v = JObj rec \<and> field rec ''serverId'' = JStr s)"

lemma field_enrich: "k \<notin> {''decodedPacketName'', ''packetName'', ''packetNameSource''} \<Longrightarrow> field (enrichPacketName G d rec) k = field rec k"
  by (simp add: enrichPacketName_def Let_def)

lemma logPacket_logged:
  assumes "field rec ''serverId'' = JStr s" and "v \<in> logged (gameplayFile (logPacket G h rec d))"
  shows "v \<in> logged (gameplayFile d) \<or> namesServer s v"
proof -
  let ?n = "enrichPacketName G d rec"
  let ?c = "if textField G ?n ''packetName'' = [] then put_field ''packetName'' (JStr (''Packet #'' @ textField G ?n ''packetId'')) ?n else ?n"
  have "field ?c ''serverId'' = JStr s" using assms(1) by (simp add: field_enrich)
  then have "namesServer s (JObj ?c)" unfolding namesServer_def by blast
  moreover have "v = JObj ?c \<or> v \<in> logged (gameplayFile d)"
    using assms(2) logged_append [of "logFull h ''gameplay-packets.jsonl''" "JObj ?c" "gameplayFile d"]
    unfolding logPacket_def Let_def by auto
  ultimately show ?thesis by blast
qed

lemma ingestRecord_logged:
  assumes "ingestRecord G h s now st rec d = (st', d')" and "v \<in> logged (gameplayFile d')"
  shows "v \<in> logged (gameplayFile d) \<or> namesServer s v"
proof -
  let ?r = "put_field ''layer'' (JStr ''gameplay'') (put_field ''receivedAt'' (jint now) (put_field ''serverId'' (JStr s) rec))"
  have "gameplayFile d' = gameplayFile d \<or> d' = logPacket G h ?r d"
    using assms(1) unfolding ingestRecord_def Let_def by (auto simp: appendEvent_def split: if_splits)
  then show ?thesis using assms(2) logPacket_logged [of ?r s v G h d] by auto
qed

lemma ingestLoop_logged:
  "ingestLoop G h s n st rs d = (res, d') \<Longrightarrow> v \<in> logged (gameplayFile d') \<Longrightarrow> v \<in> logged (gameplayFile d) \<or> namesServer s v"
proof (induction G h s n st rs d rule: ingestLoop.induct)
  case (3 G h s n st rec rs d)
  obtain st1 d1 where one: "ingestRecord G h s (clock h n) st rec d = (st1, d1)" by force
  then show ?case using 3 ingestRecord_logged [OF one, of v] by auto
qed auto

lemma ingestLoop_panics: "fst (ingestLoop G h s n st rs d) = None \<longleftrightarrow> None \<in> set rs"
  by (induction G h s n st rs d rule: ingestLoop.induct) (auto split: prod.splits)

lemma saveCompanion_logs: "gameplayFile (saveCompanion h s v d) = gameplayFile d"
  by (simp add: saveCompanion_def putState_def Let_def)

lemma finishIngest_logs: "gameplayFile (snd (finishIngest G h s n st d)) = gameplayFile d"
  by (simp add: finishIngest_def Let_def saveCompanion_logs recordPresenceProfiles_def updatePresence_def putState_def split: option.splits)

lemma verified_state:
  "verifySignedBody G t t' r body d = (res, d1) \<Longrightarrow> d1 = d\<lparr>replaySeen := replaySeen d1\<rparr>"
  by (auto simp: verifySignedBody_def Let_def split: option.splits if_splits prod.splits)

text \<open>C37: Only signed reports are kept, under the name of the server that signed them: a request that changes more than
  the replay window was signed with the secret of the server it names, and each packet record it adds to the
  gameplay log names that server, whatever the body says.\<close>

theorem ingested_records_name_signer:
  assumes "handleIngest G readBody decode h r d = (rep, d')"
  shows "d' = d\<lparr>replaySeen := replaySeen d'\<rparr> \<or>
    (\<exists>content. readBody = Some content \<and>
      header r ''X-NinjOS-Signature'' =
        signature G (companionSecret d (normalizeCompanionServerID (header r ''X-NinjOS-Server''))) (header r ''X-NinjOS-Timestamp'') content \<and>
      (\<forall>v \<in> logged (gameplayFile d'). v \<in> logged (gameplayFile d) \<or> namesServer (normalizeCompanionServerID (header r ''X-NinjOS-Server'')) v))"
proof (cases "verb r = ''POST'' \<and> readBody \<noteq> None")
  case False
  then have "d' = d" using assms by (cases readBody) (auto simp: handleIngest_def split: if_splits)
  then show ?thesis by simp
next
  case True
  then obtain content where c: "readBody = Some content" and post: "\<not> verb r \<noteq> ''POST''" by auto
  let ?server = "normalizeCompanionServerID (header r ''X-NinjOS-Server'')"
  obtain res d1 where v: "verifySignedBody G (clock h 0) (clock h 1) r content d = (res, d1)" by force
  note d1 = verified_state [OF v]
  note m = assms [unfolded handleIngest_def if_not_P [OF post] c option.case v case_prod_conv]
  show ?thesis
  proof (cases "\<exists>named rs. res = Inr () \<and> decode content = Some (named, rs) \<and> ingestServer r named = ?server \<and> ?server \<noteq> []")
    case False
    then have "d' = d1" using m by (cases res; cases "decode content") (auto simp: Let_def split: if_splits)
    then show ?thesis using d1 by simp
  next
    case ok: True
    then obtain named rs where ok: "res = Inr ()" "decode content = Some (named, rs)" "ingestServer r named = ?server" "?server \<noteq> []" by blast
    obtain st d2 where l: "ingestLoop G h ?server 2 \<lparr>inAccepted = 0, inMetrics = None, inUpdates = []\<rparr> rs d1 = (st, d2)" by force
    have "gameplayFile d' = gameplayFile d2"
      using m ok l finishIngest_logs by (cases st) (auto simp: Let_def split: prod.splits, metis snd_conv)
    then have "\<forall>v \<in> logged (gameplayFile d'). v \<in> logged (gameplayFile d1) \<or> namesServer ?server v"
      using ingestLoop_logged [OF l] by simp
    moreover have "gameplayFile d1 = gameplayFile d" by (subst d1) simp
    ultimately show ?thesis using c verifySignedBody_Inr(3) [OF v [unfolded ok(1)]] by auto
  qed
qed

text \<open>A report list with a \<^verbatim>\<open>null\<close> ends the request without a reply, after the records before it were logged; any
  other signed list of records of the right server is answered.\<close>

theorem null_report_ends_request:
  assumes "verb r = ''POST''" and "readBody = Some content" and "verifySignedBody G (clock h 0) (clock h 1) r content d = (Inr (), d1)"
    and "decode content = Some (named, rs)" and "ingestServer r named = normalizeCompanionServerID (header r ''X-NinjOS-Server'')"
    and "ingestServer r named \<noteq> []"
  shows "fst (handleIngest G readBody decode h r d) = None \<longleftrightarrow> None \<in> set rs"
proof -
  let ?st = "\<lparr>inAccepted = 0, inMetrics = None, inUpdates = []\<rparr>"
  obtain st d2 where l: "ingestLoop G h (ingestServer r named) 2 ?st rs d1 = (st, d2)" by force
  have "fst (handleIngest G readBody decode h r d) = None \<longleftrightarrow> st = None"
    using assms l by (cases st) (simp_all add: handleIngest_def Let_def split: prod.splits)
  then show ?thesis using ingestLoop_panics [of G h "ingestServer r named" 2 ?st rs d1] l by simp
qed

section \<open>A signed report\<close>

definition zooReport :: jobject where
  "zooReport = [(''type'', JStr ''packet''), (''serverId'', JStr ''forged''), (''packetId'', JStr ''9''), (''xuid'', JStr ''2535'')]"

lemma zoo_server: "ingestServer signedRequest [] = ''zoo''" "normalizeCompanionServerID (header signedRequest ''X-NinjOS-Server'') = ''zoo''"
proof -
  have "normalizeCompanionServerID ''zoo'' = ''zoo''" "normalizeCompanionServerID [] = []" by code_simp+
  then show "ingestServer signedRequest [] = ''zoo''" "normalizeCompanionServerID (header signedRequest ''X-NinjOS-Server'') = ''zoo''"
    by (simp_all add: ingestServer_def signedRequest_headers Let_def)
qed

lemma zoo_verified: "\<exists>d1. verifySignedBody sample_golib (clock zooHost 0) (clock zooHost 1) signedRequest ''{}'' emptyDashboard = (Inr (), d1)"
  using signedRequest_accepted by (simp add: zooHost_def)

lemma zoo_ingested:
  "\<exists>rep d' v. handleIngest sample_golib (Some ''{}'') (\<lambda>_. Some ([], [Some zooReport])) zooHost signedRequest emptyDashboard = (rep, d') \<and>
     v \<in> logged (gameplayFile d')"
proof -
  obtain d1 where v: "verifySignedBody sample_golib (clock zooHost 0) (clock zooHost 1) signedRequest ''{}'' emptyDashboard = (Inr (), d1)"
    using zoo_verified by blast
  let ?st = "\<lparr>inAccepted = 0, inMetrics = None, inUpdates = []\<rparr> :: ingest"
  obtain st2 d2 where one: "ingestRecord sample_golib zooHost ''zoo'' (clock zooHost 2) ?st zooReport d1 = (st2, d2)" by force
  have "\<exists>v. v \<in> logged (gameplayFile d2)"
    using one by (auto simp: zooReport_def ingestRecord_def textField_def logPacket_def appendJSONL_def logged_def Let_def)
  then obtain x where x: "x \<in> logged (gameplayFile (snd (finishIngest sample_golib zooHost ''zoo'' 3 st2 d2)))"
    by (auto simp: finishIngest_logs)
  have post: "\<not> verb signedRequest \<noteq> ''POST''" by (simp add: signedRequest_def postRequest_def)
  have loop: "ingestLoop sample_golib zooHost ''zoo'' 2 ?st [Some zooReport] d1 = (Some st2, d2)" by (simp add: one)
  have "\<exists>rep. handleIngest sample_golib (Some ''{}'') (\<lambda>_. Some ([], [Some zooReport])) zooHost signedRequest emptyDashboard =
      (rep, snd (finishIngest sample_golib zooHost ''zoo'' 3 st2 d2))"
    unfolding handleIngest_def if_not_P [OF post] option.case v case_prod_conv sum.case Let_def zoo_server loop
    by (simp add: case_prod_beta)
  with x show ?thesis by blast
qed

theorem ingested_records_name_signer_witness:
  "\<exists>d' v. v \<in> logged (gameplayFile d') \<and> namesServer ''zoo'' v \<and>
     (\<exists>rep. handleIngest sample_golib (Some ''{}'') (\<lambda>_. Some ([], [Some zooReport])) zooHost signedRequest emptyDashboard = (rep, d'))"
proof -
  obtain rep d' v where h: "handleIngest sample_golib (Some ''{}'') (\<lambda>_. Some ([], [Some zooReport])) zooHost signedRequest emptyDashboard = (rep, d')"
    and v: "v \<in> logged (gameplayFile d')" using zoo_ingested by blast
  have none: "logged (gameplayFile emptyDashboard) = {}" by (simp add: logged_def emptyDashboard_def)
  have "d' \<noteq> emptyDashboard\<lparr>replaySeen := replaySeen d'\<rparr>"
  proof
    assume "d' = emptyDashboard\<lparr>replaySeen := replaySeen d'\<rparr>"
    then have "gameplayFile d' = gameplayFile (emptyDashboard\<lparr>replaySeen := replaySeen d'\<rparr>)" by (rule arg_cong)
    with v none show False by simp
  qed
  with ingested_records_name_signer [OF h] v none have "namesServer ''zoo'' v" by (auto simp: zoo_server)
  with v h show ?thesis by blast
qed

theorem null_report_ends_request_witness:
  "fst (handleIngest sample_golib (Some ''{}'') (\<lambda>_. Some ([], [Some zooReport, None])) zooHost signedRequest emptyDashboard) = None"
proof -
  obtain d1 where v: "verifySignedBody sample_golib (clock zooHost 0) (clock zooHost 1) signedRequest ''{}'' emptyDashboard = (Inr (), d1)"
    using zoo_verified by blast
  have post: "verb signedRequest = ''POST''" by (simp add: signedRequest_def postRequest_def)
  from null_report_ends_request [OF post refl v, of "\<lambda>_. Some ([], [Some zooReport, None])" "[]" "[Some zooReport, None]"]
  show ?thesis by (simp add: zoo_server)
qed

end
