(* ===== verification/Control.thy ===== *)
theory Control
  imports Presence
begin

text \<open>
  The remaining parts of the control plane (\<^verbatim>\<open>dashboard/control_plane.go\<close>) and the read-only pages of
  \<^verbatim>\<open>dashboard/main.go\<close>: profile access, companion capabilities, the redaction of support bundles, one tick
  of each background loop, and the packet, event and audit pages.  A map is iterated in the order in
  which the model lists it.  Metric values that are not finite, which only a text can denote, are not recorded.
\<close>

section \<open>Pages\<close>

definition envInt64 :: "host \<Rightarrow> string \<Rightarrow> int \<Rightarrow> int" where
  "envInt64 h name fallback = (case atoi (env h name (itoa fallback)) of None \<Rightarrow> fallback | Some i \<Rightarrow> i)"

definition handleEvents :: handler where
  "handleEvents h r d =
     (let n = atoi_value (query r ''limit'');
          n1 = (if n < 1 then 300 else n);
          limit = (if n1 > 2000 then 2000 else n1)
      in ((200, JObj [(''records'', JArr (map JObj (readRotated (nat limit) (eventsFile d))))]), d))"

definition handleAudit :: handler where
  "handleAudit h r d =
     (let n = (case atoi (query r ''limit'') of None \<Rightarrow> envInt64 h ''AUDIT_DEFAULT_LIMIT'' 500 | Some i \<Rightarrow> i);
          n1 = (if n < 1 then 1 else n);
          limit = (if n1 > 5000 then 5000 else n1)
      in ((200, JObj [(''records'', JArr (map JObj (readRotated (nat limit) (auditFile d))))]), d))"

definition containsFold :: "string \<Rightarrow> string \<Rightarrow> bool" where
  "containsFold value needle = contains_str (to_lower value) (to_lower needle)"

definition packetLimit :: "http_request \<Rightarrow> nat" where
  "packetLimit r =
     (let n = atoi_value (query r ''limit''); n1 = (if n < 1 then 500 else n)
      in nat (if n1 > 5000 then 5000 else n1))"

text \<open>The logs of the gateway and of the protocol observer are arguments.\<close>

definition packetSources :: "golib \<Rightarrow> http_request \<Rightarrow> jsonl \<Rightarrow> jsonl list \<Rightarrow> dashboard \<Rightarrow> jobject list" where
  "packetSources G r transport protocol d =
     (let layer = query r ''layer''; limit = packetLimit r;
          wanted = (\<lambda>name. layer = [] \<or> layer = ''all'' \<or> layer = name) in
      sort_key (\<lambda>record. - (case number (field record ''timestamp'') of None \<Rightarrow> 0 | Some t \<Rightarrow> t))
       ((if wanted ''transport'' then readRotated limit transport else []) @
        (if wanted ''gameplay'' then readRotated limit (gameplayFile d) else []) @
        (if wanted ''protocol'' then concat (map (readRotated limit) protocol) else [])))"

definition captureTiers :: "golib \<Rightarrow> jobject \<Rightarrow> string list" where
  "captureTiers G record = map (sprint G) (as_array (field record ''captureTiers''))"

definition packetMatches :: "golib \<Rightarrow> http_request \<Rightarrow> jobject \<Rightarrow> bool" where
  "packetMatches G r record \<longleftrightarrow>
     (let t = textField G record; q = query r in
      (q ''direction'' = [] \<or> t ''direction'' = q ''direction'') \<and>
      (q ''recordId'' = [] \<or> t ''recordId'' = q ''recordId'') \<and>
      (q ''packetId'' = [] \<or> t ''packetId'' = q ''packetId'') \<and>
      (q ''tier'' = [] \<or> q ''tier'' \<in> set (captureTiers G record)) \<and>
      (q ''player'' = [] \<or> containsFold (t ''playerName'' @ '' '' @ t ''xuid'' @ '' '' @ t ''client'' @ '' '' @ t ''ip'') (q ''player'')) \<and>
      (q ''q'' = [] \<or> containsFold (t ''packetName'' @ '' '' @ t ''raknetName'' @ '' '' @ t ''action'' @ '' '' @ t ''backend'') (q ''q'')))"

definition withoutKey :: "jobject \<Rightarrow> string \<Rightarrow> jobject" where
  "withoutKey view key =
     (if map_of view key = None then view
      else filter (\<lambda>(k, v). k \<noteq> key) (put_field ''hasDetails'' (JBool True) view))"

definition packetView :: "golib \<Rightarrow> http_request \<Rightarrow> jobject \<Rightarrow> jobject" where
  "packetView G r record =
     (if query r ''details'' \<noteq> ''1'' \<and> textField G record ''layer'' = ''protocol'' then
        let view = foldl withoutKey record [''decoded'', ''translatedDecoded'', ''decodeError''] in
        (case field view ''wire'' of
           JObj wire \<Rightarrow> put_field ''hasDetails'' (JBool True) (put_field ''wire'' (JObj (filter (\<lambda>(k, v). k \<noteq> ''data'') wire)) view)
         | _ \<Rightarrow> view)
      else record)"

definition countTier :: "(string \<times> int) list \<Rightarrow> string \<Rightarrow> (string \<times> int) list" where
  "countTier m tier = AList.update tier (timeOf m tier + 1) m"

text \<open>The loop stops when the page is full.\<close>

fun packetLoop ::
  "golib \<Rightarrow> http_request \<Rightarrow> dashboard \<Rightarrow> nat \<Rightarrow> jobject list \<Rightarrow> (string \<times> int) list \<Rightarrow> jobject list \<Rightarrow> jobject list \<times> (string \<times> int) list" where
  "packetLoop G r d limit filtered tiers [] = (filtered, tiers)"
| "packetLoop G r d limit filtered tiers (record0 # rest) =
     (let record = enrichPacketName G d record0 in
      if \<not> packetMatches G r record then packetLoop G r d limit filtered tiers rest
      else
        let filtered1 = filtered @ [packetView G r record];
            tiers1 = foldl countTier tiers (captureTiers G record)
        in if length filtered1 \<ge> limit then (filtered1, tiers1) else packetLoop G r d limit filtered1 tiers1 rest)"

definition handlePackets :: "golib \<Rightarrow> json \<Rightarrow> jsonl \<Rightarrow> jsonl list \<Rightarrow> handler" where
  "handlePackets G catalog transport protocol h r d =
     (let (filtered, tiers) = packetLoop G r d (packetLimit r) [] [] (packetSources G r transport protocol d)
      in ((200, JObj [(''records'', JArr (map JObj filtered)), (''count'', jint (int (length filtered))),
           (''tiers'', JObj (map (\<lambda>(k, n). (k, jint n)) tiers)), (''catalog'', catalog)]), d))"

section \<open>Companion capabilities\<close>

definition stringSlice :: "golib \<Rightarrow> json \<Rightarrow> string list" where
  "stringSlice G v = filter (\<lambda>t. t \<noteq> []) (map (\<lambda>x. trim_space (sprint G x)) (as_array v))"

definition requiredCapabilities :: "string list" where
  "requiredCapabilities = [''metrics'', ''presence'', ''transfer'']"

definition fleetCapability :: "golib \<Rightarrow> jobject \<Rightarrow> json" where
  "fleetCapability G state =
     (let metrics = as_object (field state ''metrics'');
          capabilities = stringSlice G (field metrics ''capabilities'');
          missing = filter (\<lambda>c. c \<notin> set capabilities) requiredCapabilities
      in JObj [(''serverId'', JStr (textField G state ''serverId'')), (''version'', JStr (textField G metrics ''companionVersion'')),
           (''capabilities'', JArr (map JStr capabilities)), (''missing'', JArr (map JStr missing)),
           (''compatible'', JBool (missing = []))])"

definition handleCapabilities :: "golib \<Rightarrow> string list \<Rightarrow> handler" where
  "handleCapabilities G paths h r d =
     ((200, JObj [(''required'', JArr (map JStr requiredCapabilities)),
        (''fleet'', JArr (map (fleetCapability G) (companionStates G (clock h 0) paths d)))]), d)"

section \<open>Player profiles\<close>

record profileBody =
  pbXUID :: string
  pbRole :: string
  pbBanned :: bool
  pbAccess :: "(string \<times> bool) list"
  pbNotes :: string

definition profileRoles :: "string list" where
  "profileRoles = [''member'', ''moderator'', ''operator'', ''admin'', ''owner'']"

definition profileRole :: "profileBody \<Rightarrow> string" where
  "profileRole b = to_lower (trim_space (if pbRole b = [] then ''member'' else pbRole b))"

definition handleProfileAccess :: "profileBody option \<Rightarrow> handler" where
  "handleProfileAccess decoded h r d = finish d (
     attempt (check (verb r = ''POST'') (error_reply 405 ''Method not allowed'')) (\<lambda>_.
     attempt (some_or (error_reply 400 ''xuid is required'') decoded) (\<lambda>body.
     attempt (check (trim_space (pbXUID body) \<noteq> []) (error_reply 400 ''xuid is required'')) (\<lambda>_.
     attempt (check (profileRole body \<in> set profileRoles)
       (error_reply 400 ''role must be member, moderator, operator, admin, or owner'')) (\<lambda>_.
     attempt (or_reply 500 (updateProfileAccess (db d) (pbXUID body) (profileRole body) (pbBanned body) (pbAccess body) (pbNotes body))) (\<lambda>l.
     Inr ((200, JObj [(''updated'', JBool True)]),
       appendAudit h (clock h 0) r (principalFromRequest r) ''profile.access.update'' ''success''
         (JObj [(''xuid'', JStr (pbXUID body)), (''role'', JStr (profileRole body)), (''banned'', JBool (pbBanned body)),
            (''access'', JObj (map (\<lambda>(k, b). (k, JBool b)) (pbAccess body))), (''notes'', JStr (pbNotes body))])
         (d\<lparr>db := l\<rparr>))))))))"

section \<open>Pages of the ledger\<close>

text \<open>How \<^verbatim>\<open>ledger.query\<close> returns a row: a column that is null as nil, a flag as a number.\<close>

definition joption :: "('a \<Rightarrow> json) \<Rightarrow> 'a option \<Rightarrow> json" where
  "joption f v = (case v of None \<Rightarrow> JNull | Some x \<Rightarrow> f x)"

definition jtransfer :: "transfer_row \<Rightarrow> json" where
  "jtransfer r =
     JObj [(''id'', JStr (tr_id r)), (''ticket_id'', JStr (tr_ticket_id r)), (''xuid'', JStr (tr_xuid r)),
       (''player_name'', JStr (tr_player_name r)), (''source_server'', JStr (tr_source_server r)),
       (''destination'', JStr (tr_destination r)), (''source_ip'', JStr (tr_source_ip r)), (''proxy_port'', jint (tr_proxy_port r)),
       (''state'', JStr (tr_state r)), (''requested_at'', jint (tr_requested_at r)), (''updated_at'', jint (tr_updated_at r)),
       (''proxy_connected_at'', joption jint (tr_proxy_connected_at r)), (''arrived_at'', joption jint (tr_arrived_at r)),
       (''failure_reason'', joption JStr (tr_failure_reason r))]"

definition jprofile :: "(json \<Rightarrow> string) \<Rightarrow> profile_row \<Rightarrow> json" where
  "jprofile marshal r =
     JObj [(''xuid'', JStr (pr_xuid r)), (''gamertag'', JStr (pr_gamertag r)), (''first_seen'', jint (pr_first_seen r)),
       (''last_seen'', jint (pr_last_seen r)), (''current_server'', JStr (pr_current_server r)),
       (''network_role'', JStr (pr_network_role r)),
       (''access_json'', JStr (marshal (JObj (map (\<lambda>(k, b). (k, JBool b)) (pr_access r))))),
       (''network_banned'', jint (if pr_network_banned r then 1 else 0)), (''notes'', JStr (pr_notes r))]"

definition jmetric :: "metric_row \<Rightarrow> json" where
  "jmetric r =
     JObj [(''ts'', jint (me_ts r)), (''scope'', JStr (me_scope r)), (''server_id'', JStr (me_server_id r)),
       (''name'', JStr (me_name r)), (''value'', JNum (me_value r))]"

text \<open>Alerts are never deleted or resolved, so the row number is the position and \<^verbatim>\<open>resolved_at\<close> is null.\<close>

definition alertPage :: "ledger \<Rightarrow> int \<Rightarrow> (nat \<times> alert_row) list" where
  "alertPage l limit0 =
     (let limit = (if limit0 < 1 then 200 else limit0)
      in query_ignored l (\<lambda>l. take (nat limit) (order_desc (\<lambda>(i, a). al_ts a) (enumerate 1 (alertRows l)))))"

definition jalert :: "nat \<times> alert_row \<Rightarrow> json" where
  "jalert = (\<lambda>(i, a).
     JObj [(''id'', jint (int i)), (''ts'', jint (al_ts a)), (''rule_name'', JStr (al_rule_name a)),
       (''severity'', JStr (al_severity a)), (''server_id'', JStr (al_server_id a)), (''message'', JStr (al_message a)),
       (''state'', JStr (al_state a)), (''resolved_at'', JNull)])"

definition handleProfiles :: "(json \<Rightarrow> string) \<Rightarrow> handler" where
  "handleProfiles marshal h r d =
     ((200, JObj [(''profiles'', JArr (map (jprofile marshal) (profiles (db d) (atoi_value (query r ''limit'')))))]), d)"

definition historyMinutes :: "http_request \<Rightarrow> int" where
  "historyMinutes r =
     (let n = atoi_value (query r ''minutes''); n1 = (if n \<le> 0 then 60 else n)
      in if n1 > 60 * 24 * 30 then 60 * 24 * 30 else n1)"

definition handleMetricHistory :: handler where
  "handleMetricHistory h r d =
     (let name = trim_space (query r ''name'');
          server = trim_space (query r ''server'');
          minutes = historyMinutes r;
          n = atoi_value (query r ''limit'');
          limit = (if n \<le> 0 then 5000 else n)
      in if name = [] then (error_reply 400 ''Metric name is required'', d)
         else ((200, JObj [(''name'', JStr name), (''server'', JStr server), (''minutes'', jint minutes),
            (''samples'', JArr (map jmetric (metricHistory (db d) name server (clock h 0 - minutes * 60000) limit)))]), d))"

definition handleAlerts :: handler where
  "handleAlerts h r d =
     ((200, JObj [(''alerts'', JArr (map jalert (alertPage (db d) (atoi_value (query r ''limit'')))))]), d)"

definition handleTransferTransactions :: handler where
  "handleTransferTransactions h r d =
     ((200, JObj [(''transactions'', JArr (map jtransfer (recentTransfers (db d) (atoi_value (query r ''limit'')))))]), d)"

section \<open>Support bundles\<close>

definition sensitiveText :: "string \<Rightarrow> bool" where
  "sensitiveText s \<longleftrightarrow>
     contains_str (to_lower s) ''token'' \<or> contains_str (to_lower s) ''secret'' \<or>
     contains_str (to_lower s) ''password'' \<or> contains_str (to_lower s) ''webhook''"

definition addressKey :: "string \<Rightarrow> bool" where
  "addressKey k \<longleftrightarrow> to_lower k \<in> set [''ip'', ''client'', ''address'', ''sourceip'']"

fun redactJSON :: "golib \<Rightarrow> json \<Rightarrow> json" where
  "redactJSON G (JObj kvs) =
     JObj (map (\<lambda>(k, v). (k,
       if sensitiveText k then JStr redacted
       else if addressKey k then
         if v = JNull \<or> sprint G v = [] then JStr []
         else JStr (''sha256:'' @ hex_encode (take 6 (sha256 G (sprint G v))))
       else redactJSON G v)) kvs)"
| "redactJSON G (JArr xs) = JArr (map (redactJSON G) xs)"
| "redactJSON G v = v"

text \<open>
  \<^verbatim>\<open>redactJSON\<close> switches on the dynamic type of its argument: a \<^verbatim>\<open>map[string]any\<close>, a \<^verbatim>\<open>[]any\<close> or anything
  else.  \<open>Generic\<close> is a value built of the first two and of scalars, as decoding into \<^verbatim>\<open>any\<close> gives it;
  \<open>Typed\<close> is a value of another type (a slice of maps, of structs or of ledger rows), shown as it is encoded.
\<close>

datatype goAny = Generic json | Typed json

fun redactAny :: "golib \<Rightarrow> goAny \<Rightarrow> json" where
  "redactAny G (Generic v) = redactJSON G v"
| "redactAny G (Typed v) = v"

definition redactedLine :: "string \<Rightarrow> string" where
  "redactedLine l =
     (case split2 (CHR ''='') l of
        [f0, f1] \<Rightarrow> if sensitiveText l then f0 @ ''=[REDACTED]'' else l
      | _ \<Rightarrow> l)"

definition redactedConfigFile :: "string \<Rightarrow> dashboard \<Rightarrow> string" where
  "redactedConfigFile name d = concat (map (\<lambda>l. redactedLine l @ [newline]) (split_on newline (fileText name d)))"

datatype bundleEntry = JsonEntry json | TextEntry string

record systemInfo =
  siVersion :: string
  siGoVersion :: string
  siUptimeSeconds :: rat

definition bundleEntries ::
  "golib \<Rightarrow> (json \<Rightarrow> string) \<Rightarrow> string list \<Rightarrow> systemInfo \<Rightarrow> host \<Rightarrow> dashboard \<Rightarrow> (string \<times> bundleEntry) list" where
  "bundleEntries G marshal paths system h d =
     (let addJSON = (\<lambda>name v. [(name, JsonEntry (redactAny G v))]); addText = (\<lambda>name t. [(name, TextEntry t)]) in
      addJSON ''gateway-state.json'' (Generic (JObj (safeMap ''gateway-state.json'' d))) @
      addJSON ''session-core-state.json'' (Generic (JObj (safeMap ''session-core-state.json'' d))) @
      addJSON ''sessions.json'' (Generic (JArr (safeSlice ''sessions.json'' d))) @
      addJSON ''presence.json'' (Typed (JArr (map jentry (presenceRecords d)))) @
      addJSON ''companions.json'' (Typed (JArr (map JObj (companionStates G (clock h 0) paths d)))) @
      addJSON ''transfers.json'' (Typed (JArr (map jtransfer (recentTransfers (db d) 500)))) @
      addJSON ''alerts.json'' (Typed (JArr (map jalert (alertPage (db d) 500)))) @
      addJSON ''profiles.json'' (Typed (JArr (map (jprofile marshal) (profiles (db d) 1000)))) @
      (case loadINI d of Inl _ \<Rightarrow> [] | Inr document \<Rightarrow> addText ''edge-fabric.ini'' (renderUnifiedConfig (redactUnifiedDocument document))) @
      addJSON ''config-summary.json'' (Generic (JObj (safeMap ''config-summary.json'' d))) @
      addText liveFile (redactedConfigFile liveFile d) @
      addText profilesName (redactedConfigFile profilesName d) @
      addText ''health-actions.properties'' (redactedConfigFile ''health-actions.properties'' d) @
      addJSON ''recent-events.json'' (Typed (JArr (map JObj (readRotated 500 (eventsFile d))))) @
      addJSON ''recent-audit.json'' (Typed (JArr (map JObj (readRotated 500 (auditFile d))))) @
      addJSON ''system.json'' (Generic (JObj [(''version'', JStr (siVersion system)), (''goVersion'', JStr (siGoVersion system)),
        (''timestamp'', jint (clock h 1)), (''uptimeSeconds'', JNum (siUptimeSeconds system))])))"

text \<open>The reply is the archive of the entries, which \<open>archive\<close> packs.\<close>

definition handleSupportBundle ::
  "golib \<Rightarrow> (json \<Rightarrow> string) \<Rightarrow> ((string \<times> bundleEntry) list \<Rightarrow> string) \<Rightarrow> string list \<Rightarrow> systemInfo \<Rightarrow> handler" where
  "handleSupportBundle G marshal archive paths system h r d = finish d (
     attempt (check (verb r = ''POST'') (error_reply 405 ''Method not allowed'')) (\<lambda>_.
     let bundle = archive (bundleEntries G marshal paths system h d)
     in Inr ((200, JStr bundle),
          appendAudit h (clock h 2) r (principalFromRequest r) ''support_bundle.generate'' ''success''
            (JObj [(''bytes'', jint (int (length bundle)))]) d)))"

section \<open>Background loops\<close>

definition gatewayMetrics :: "(string \<times> string) list" where
  "gatewayMetrics = [(''gateway.active_sessions'', ''activeSessions''), (''gateway.tracked_ips'', ''trackedIps'')]"

definition counterMetrics :: "(string \<times> string) list" where
  "counterMetrics = [(''gateway.dropped_packets'', ''droppedPackets''), (''gateway.rate_limited'', ''rateLimited''),
     (''gateway.temporary_bans'', ''temporaryBans'')]"

definition incidentMetrics :: "(string \<times> string) list" where
  "incidentMetrics = [(''gateway.packets_per_second'', ''packetsPerSecond''), (''gateway.drop_ratio'', ''dropRatio'')]"

definition companionMetrics :: "(string \<times> string) list" where
  "companionMetrics = [(''bds.tps'', ''currentTps''), (''bds.mspt'', ''currentMspt''), (''bds.online_players'', ''onlinePlayers''),
     (''bds.cpu_percent'', ''processCpuPercent''), (''bds.memory_bytes'', ''processMemoryBytes''),
     (''companion.queue_depth'', ''queueDepth''), (''companion.upload_failures'', ''uploadFailures'')]"

definition sampleMetrics ::
  "(string \<Rightarrow> go_float \<times> bool) \<Rightarrow> int \<Rightarrow> string \<Rightarrow> string \<Rightarrow> jobject \<Rightarrow> ledger \<Rightarrow> (string \<times> string) list \<Rightarrow> ledger" where
  "sampleMetrics PF now scope server source l wanted =
     foldl (\<lambda>l (name, key).
       case numberValue PF (field source key) of
         (Finite x, True) \<Rightarrow> recordMetric l now scope server name x
       | _ \<Rightarrow> l) l wanted"

definition retentionMillis :: "int \<Rightarrow> int" where
  "retentionMillis days = (let nanos = wrap64 (wrap64 (days * 24) * 3600000000000) in sgn nanos * (\<bar>nanos\<bar> div 1000000))"

definition metricTick :: "golib \<Rightarrow> (string \<Rightarrow> go_float \<times> bool) \<Rightarrow> string list \<Rightarrow> host \<Rightarrow> dashboard \<Rightarrow> dashboard" where
  "metricTick G PF paths h d =
     (let retentionDays = max 1 (envInt64 h ''METRIC_RETENTION_DAYS'' 30);
          now = clock h 0;
          gateway = combinedRuntimeState G d;
          l1 = sampleMetrics PF now ''gateway'' [] gateway (db d) gatewayMetrics;
          l2 = sampleMetrics PF now ''gateway'' [] (as_object (field gateway ''counters'')) l1 counterMetrics;
          l3 = sampleMetrics PF now ''gateway'' [] (as_object (field gateway ''incident'')) l2 incidentMetrics;
          l4 = (case field gateway ''firewall'' of
                  JObj firewall \<Rightarrow>
                    (case field firewall ''topRisk'' of
                       JArr raw \<Rightarrow> firewallSnapshot G l3 now (objects raw)
                     | _ \<Rightarrow> l3)
                | _ \<Rightarrow> l3);
          l5 = foldl (\<lambda>l companion. sampleMetrics PF now ''companion'' (textField G companion ''serverId'')
                 (as_object (field companion ''metrics'')) l companionMetrics) l4 (companionStates G (clock h 1) paths d)
      in d\<lparr>db := pruneMetrics l5 (now - retentionMillis retentionDays)\<rparr>)"

definition hexChar :: "char \<Rightarrow> bool" where
  "hexChar c \<longleftrightarrow> is_digit_char c \<or> c \<in> set ''abcdefABCDEF''"

text \<open>The first submatch of \<^verbatim>\<open>ticket=([a-fA-F0-9]{16,64})\<close> at the leftmost place where it matches.\<close>

fun findTicket :: "string \<Rightarrow> string option" where
  "findTicket [] = None"
| "findTicket (c # cs) =
     (let run = takeWhile hexChar (drop 7 (c # cs))
      in if has_prefix (c # cs) ''ticket='' \<and> length run \<ge> 16 then Some (take 64 run) else findTicket cs)"

definition consumeTicket :: "golib \<Rightarrow> (string \<Rightarrow> go_float \<times> bool) \<Rightarrow> int \<Rightarrow> ledger \<Rightarrow> jobject \<Rightarrow> ledger" where
  "consumeTicket G PF now l record =
     (if textField G record ''type'' \<noteq> ''transfer.ticket_consumed'' then l
      else case findTicket (textField G record ''message'') of
        None \<Rightarrow> l
      | Some ticket \<Rightarrow>
          updateTransfer l now ticket ''proxy_connected'' [] (int_of_float (fst (numberValue PF (field record ''timestamp'')))))"

text \<open>The clock is read at each record (only used when the record has no time) and at the end.\<close>

definition transferTick :: "golib \<Rightarrow> (string \<Rightarrow> go_float \<times> bool) \<Rightarrow> host \<Rightarrow> dashboard \<Rightarrow> dashboard" where
  "transferTick G PF h d =
     (let l = foldl (\<lambda>l (i, record). consumeTicket G PF (clock h i) l record) (db d) (enumerate 1 (readRotated 1000 (eventsFile d)))
      in d\<lparr>db := expireTransfers l (clock h 0)\<rparr>)"

definition sessionTick :: "host \<Rightarrow> dashboard \<Rightarrow> dashboard" where
  "sessionTick h d = d\<lparr>db := cleanupSessions (db d) (clock h 0)\<rparr>"

section \<open>Packet pages\<close>

lemma packetLoop_page:
  assumes "length filtered < limit"
  shows "packetLoop G r d limit filtered tiers xs =
    (let page = take (limit - length filtered) (filter (packetMatches G r) (map (enrichPacketName G d) xs))
     in (filtered @ map (packetView G r) page, foldl countTier tiers (concat (map (captureTiers G) page))))"
  using assms
proof (induction xs arbitrary: filtered tiers)
  case (Cons x xs)
  let ?x = "enrichPacketName G d x"
  show ?case
  proof (cases "packetMatches G r ?x \<and> Suc (length filtered) < limit")
    case True
    then have "limit - length filtered = Suc (limit - Suc (length filtered))" by linarith
    with True Cons.IH [of "filtered @ [packetView G r ?x]" "foldl countTier tiers (captureTiers G ?x)"] show ?thesis
      by (simp add: Let_def)
  next
    case False
    with Cons show ?thesis
    proof (cases "packetMatches G r ?x")
      case True
      with False Cons.prems have "limit - length filtered = 1" by linarith
      with True False show ?thesis by (simp add: Let_def)
    qed (simp add: Let_def)
  qed
qed simp


section \<open>Redaction\<close>

text \<open>What must not be left in a value: a credential, or an address that is neither empty nor hashed.\<close>

fun hiddenAddress :: "json \<Rightarrow> bool" where
  "hiddenAddress (JStr t) \<longleftrightarrow> t = [] \<or> has_prefix t ''sha256:'' \<and> length t \<le> 19"
| "hiddenAddress _ \<longleftrightarrow> False"

fun exposes :: "json \<Rightarrow> bool" where
  "exposes (JObj kvs) \<longleftrightarrow>
     True \<in> set (map (\<lambda>(k, v).
       if sensitiveText k then v \<noteq> JStr redacted else if addressKey k then \<not> hiddenAddress v else exposes v) kvs)"
| "exposes (JArr xs) \<longleftrightarrow> True \<in> set (map exposes xs)"
| "exposes _ \<longleftrightarrow> False"

text \<open>A value without what stands under the names of credentials.\<close>

fun withoutCredentials :: "json \<Rightarrow> json" where
  "withoutCredentials (JObj kvs) =
     JObj (map (\<lambda>(k, v). (k, if sensitiveText k then JNull else if addressKey k then v else withoutCredentials v)) kvs)"
| "withoutCredentials (JArr xs) = JArr (map withoutCredentials xs)"
| "withoutCredentials v = v"

lemma redactJSON_hides: "\<not> exposes (redactJSON G v)"
proof (induction v rule: redactJSON.induct)
  case (1 G kvs)
  have "\<not> (if sensitiveText k then w \<noteq> JStr redacted else if addressKey k then \<not> hiddenAddress w else exposes w)"
    if "(k, w) \<in> set (map (\<lambda>(k, v). (k,
       if sensitiveText k then JStr redacted
       else if addressKey k then
         if v = JNull \<or> sprint G v = [] then JStr []
         else JStr (''sha256:'' @ hex_encode (take 6 (sha256 G (sprint G v))))
       else redactJSON G v)) kvs)" for k w
    using that 1 by (auto simp: has_prefix_def length_hex_encode)
  then show ?case by (fastforce simp del: hiddenAddress.simps)
qed auto

lemma redactJSON_erases: "redactJSON G (withoutCredentials v) = redactJSON G v"
  by (induction v rule: withoutCredentials.induct) (auto simp: case_prod_beta)


text \<open>The logs, the companions and the ledger's rows have types that the redaction does not look into: an event
  with a plain address or credential is in the bundle as it was logged.\<close>

theorem bundle_shows_typed_values:
  assumes "record0 \<in> set (readRotated 500 (eventsFile d))" and "exposes (JObj record0)"
  shows "\<exists>v. (''recent-events.json'', JsonEntry v) \<in> set (bundleEntries G marshal paths system h d) \<and> exposes v"
proof -
  let ?v = "JArr (map JObj (readRotated 500 (eventsFile d)))"
  have "(''recent-events.json'', JsonEntry ?v) \<in> set (bundleEntries G marshal paths system h d)"
    by (simp only: bundleEntries_def Let_def set_append redactAny.simps list.set Un_iff insert_iff simp_thms)
  moreover have "\<exists>x\<in>set (map JObj (readRotated 500 (eventsFile d))). exposes x"
    using assms unfolding set_map by (rule bexI [rotated, OF imageI])
  then have "exposes ?v" unfolding exposes.simps by (force simp del: exposes.simps)
  ultimately show ?thesis by blast
qed

definition leakyDashboard :: dashboard where
  "leakyDashboard = emptyDashboard\<lparr>eventsFile := \<lparr>jlCurrent = [JObj [(''ip'', JStr ''203.0.113.9'')]], jlRotated = []\<rparr>\<rparr>"

theorem bundle_shows_typed_values_witness:
  "\<exists>v. (''recent-events.json'', JsonEntry v) \<in>
     set (bundleEntries sample_golib (\<lambda>_. []) [] \<lparr>siVersion = [], siGoVersion = [], siUptimeSeconds = 0\<rparr> zooHost leakyDashboard) \<and> exposes v"
proof (rule bundle_shows_typed_values)
  show "[(''ip'', JStr ''203.0.113.9'')] \<in> set (readRotated 500 (eventsFile leakyDashboard))"
    by (simp add: leakyDashboard_def readRotated_def tailJSONL_def tailStep_def Let_def)
  show "exposes (JObj [(''ip'', JStr ''203.0.113.9'')])" by code_simp
qed

section \<open>Transfers in the event log\<close>

definition consumedTicket :: "golib \<Rightarrow> jobject \<Rightarrow> string option" where
  "consumedTicket G record0 =
     (if textField G record0 ''type'' = ''transfer.ticket_consumed'' then findTicket (textField G record0 ''message'') else None)"

lemma consumeTicket_eq:
  "consumeTicket G PF now l record0 =
     (case consumedTicket G record0 of
        None \<Rightarrow> l
      | Some ticket \<Rightarrow> updateTransfer l now ticket ''proxy_connected'' []
          (int_of_float (fst (numberValue PF (field record0 ''timestamp'')))))"
  by (simp add: consumeTicket_def consumedTicket_def)

text \<open>No transaction waits for a ticket that the log shows as consumed.\<close>

definition noted :: "string set \<Rightarrow> ledger \<Rightarrow> bool" where
  "noted tickets l \<longleftrightarrow> dbOpen l \<longrightarrow> (\<forall>r\<in>set (transfers l). tr_ticket_id r \<in> tickets \<longrightarrow> tr_state r \<noteq> ''ticketed'')"

lemma noted_empty [simp]: "noted {} l"
  by (simp add: noted_def)

lemma noted_update_where:
  assumes "noted T l" and "\<And>r. tr_ticket_id (f r) = tr_ticket_id r" and "\<And>r. tr_state (f r) \<noteq> ''ticketed''"
  shows "noted T (exec_ignored l (transfers_update (update_where p f)))"
  using assms by (cases "dbOpen l") (auto simp: noted_def exec_ignored_eq update_where_def)

lemma noted_update: "noted T l \<Longrightarrow> noted T (updateTransfer l now tid ''proxy_connected'' failure ts)"
  by (simp add: updateTransfer_def Let_def noted_update_where)

lemma noted_self: "noted {tid} (updateTransfer l now tid ''proxy_connected'' failure ts)"
proof -
  have "noted {tid} (exec_ignored l (transfers_update (update_where (\<lambda>r. tr_ticket_id r = tid \<and> tr_state r = s) f)))"
    if "\<And>r. tr_ticket_id (f r) = tr_ticket_id r" and "\<And>r. tr_state (f r) \<noteq> ''ticketed''" and "s = ''ticketed''" for f s
    using that(1,2) unfolding that(3) [symmetric]
    by (cases "dbOpen l") (auto simp: noted_def exec_ignored_eq update_where_def that(3) [symmetric])
  then show ?thesis by (simp add: updateTransfer_def Let_def)
qed

lemma noted_expire: "noted T l \<Longrightarrow> noted T (expireTransfers l now)"
  by (simp add: expireTransfers_def noted_update_where)

lemma noted_Un: "noted (S \<union> T) l \<longleftrightarrow> noted S l \<and> noted T l"
  by (auto simp: noted_def)

lemma update_noted:
  assumes "noted {tid} l"
  shows "updateTransfer l now tid ''proxy_connected'' failure ts = l"
proof (cases "dbOpen l")
  case True
  with assms have "update_where (\<lambda>r. tr_ticket_id r = tid \<and> tr_state r = ''ticketed'') f (transfers l) = transfers l" for f
    unfolding update_where_def noted_def by (intro map_idI if_not_P) blast
  then show ?thesis by (simp add: ledger_calls Let_def)
qed (simp add: ledger_calls Let_def)

lemma consumeTicket_notes: "noted T l \<Longrightarrow> noted (T \<union> set_option (consumedTicket G x)) (consumeTicket G PF now l x)"
  by (simp add: consumeTicket_eq noted_Un noted_update noted_self split: option.split)

lemma consumeTicket_noted: "noted (set_option (consumedTicket G x)) l \<Longrightarrow> consumeTicket G PF now l x = l"
  by (cases "consumedTicket G x") (simp_all add: consumeTicket_eq update_noted)

definition loggedTickets :: "golib \<Rightarrow> jobject list \<Rightarrow> string set" where
  "loggedTickets G xs = (\<Union>x\<in>set xs. set_option (consumedTicket G x))"

lemma consume_all_notes:
  "noted T l \<Longrightarrow>
   noted (T \<union> loggedTickets G xs) (foldl (\<lambda>l (i, x). consumeTicket G PF (clock (h :: host) i) l x) l (enumerate n xs))"
proof (induction xs arbitrary: l n T)
  case (Cons x xs)
  from Cons.IH [OF consumeTicket_notes [OF Cons.prems]] show ?case
    by (simp add: loggedTickets_def Un_assoc)
qed (simp add: loggedTickets_def)

lemma consume_all_noted:
  "noted (loggedTickets G xs) l \<Longrightarrow> foldl (\<lambda>l (i, x). consumeTicket G PF (clock (h :: host) i) l x) l (enumerate n xs) = l"
  by (induction xs arbitrary: n) (auto simp: loggedTickets_def noted_Un consumeTicket_noted)

lemma transferTick_notes: "noted (loggedTickets G (readRotated 1000 (eventsFile d))) (db (transferTick G PF h d))"
  using consume_all_notes [OF noted_empty] unfolding transferTick_def Let_def
  by (simp del: One_nat_def add: noted_expire)

text \<open>The tick is made of steps of the ledger's transfers, so what holds of these steps holds of it.\<close>

lemma consume_all_steps:
  "transfer_step\<^sup>*\<^sup>* l (foldl (\<lambda>l (i, x). consumeTicket G PF (clock (h :: host) i) l x) l (enumerate n xs))"
proof (induction xs arbitrary: l n)
  case (Cons x xs)
  have "transfer_step\<^sup>*\<^sup>* l (consumeTicket G PF (clock h n) l x)"
    by (auto simp: consumeTicket_eq intro: transfer_step.connected split: option.split)
  with Cons.IH show ?case by (simp add: rtranclp_trans)
qed simp

lemma transferTick_steps: "transfer_step\<^sup>*\<^sup>* (db d) (db (transferTick G PF h d))"
  unfolding transferTick_def Let_def by (simp add: rtranclp.rtrancl_into_rtrancl [OF consume_all_steps transfer_step.expired])

text \<open>The loop reads the same events again every second; the second reading changes no transaction, so all that
  a second tick does is to let transactions expire.\<close>

theorem rescanned_events_change_nothing:
  "transferTick G PF h2 (transferTick G PF h1 d) =
     (transferTick G PF h1 d)\<lparr>db := expireTransfers (db (transferTick G PF h1 d)) (clock h2 0)\<rparr>"
proof -
  have "eventsFile (transferTick G PF h1 d) = eventsFile d" by (simp add: transferTick_def Let_def)
  then show ?thesis
    using consume_all_noted [OF transferTick_notes [of G d PF h1]]
    by (subst transferTick_def) (simp del: One_nat_def)
qed

section \<open>Metric history\<close>

text \<open>What the sampling does to the samples: it appends some, all of the time of the tick.\<close>

definition sampled :: "int \<Rightarrow> ledger \<Rightarrow> ledger \<Rightarrow> bool" where
  "sampled now l l' \<longleftrightarrow> dbOpen l' = dbOpen l \<and>
     (\<exists>new. metricSamples l' = metricSamples l @ new \<and> (\<forall>r\<in>set new. me_ts r = now))"

lemma sampled_refl [simp]: "sampled now l l"
  by (simp add: sampled_def)

lemma sampled_trans: "sampled now l1 l2 \<Longrightarrow> sampled now l2 l3 \<Longrightarrow> sampled now l1 l3"
  by (fastforce simp: sampled_def)

lemma sampled_foldl: "(\<And>l x. sampled now l (f l x)) \<Longrightarrow> sampled now l (foldl f l xs)"
  by (rule foldl_keeps [where P = "sampled now l"]) (auto intro: sampled_trans)

lemma sampled_recordMetric: "sampled now l (recordMetric l now scope server name x)"
  by (simp add: sampled_def recordMetric_def exec_ignored_eq)

lemma sampled_sampleMetrics: "sampled now l (sampleMetrics PF now scope server source l wanted)"
  unfolding sampleMetrics_def
  by (rule sampled_foldl) (simp add: sampled_recordMetric case_prod_beta split: go_float.split bool.split prod.split)

lemma sampled_firewall: "sampled now l (firewallSnapshot G l now rows)"
  by (simp add: sampled_def firewallSnapshot_eq)

definition sampledLedger :: "golib \<Rightarrow> (string \<Rightarrow> go_float \<times> bool) \<Rightarrow> string list \<Rightarrow> host \<Rightarrow> dashboard \<Rightarrow> ledger \<Rightarrow> bool" where
  "sampledLedger G PF paths h d l \<longleftrightarrow> sampled (clock h 0) (db d) l \<and>
     metricTick G PF paths h d =
       d\<lparr>db := pruneMetrics l (clock h 0 - retentionMillis (max 1 (envInt64 h ''METRIC_RETENTION_DAYS'' 30)))\<rparr>"

lemma metricTick_samples: obtains l where "sampledLedger G PF paths h d l"
proof -
  note steps = sampled_trans [OF sampled_trans] sampled_sampleMetrics sampled_firewall
  have s3: "sampled now l (sampleMetrics PF now a b x (sampleMetrics PF now a b y (sampleMetrics PF now a b z l u) v) w)"
    for now l a b x y z u v w
    by (meson sampled_trans sampled_sampleMetrics)
  have fw: "sampled now l2 (case v of JObj fw \<Rightarrow> (case f fw of JArr raw \<Rightarrow> firewallSnapshot G l2 now (g raw) | _ \<Rightarrow> l2) | _ \<Rightarrow> l2)"
    for now l2 v f and g :: "json list \<Rightarrow> jobject list"
    by (simp add: sampled_firewall split: json.split)
  have co: "sampled now l2 (foldl (\<lambda>l companion. sampleMetrics PF now ''companion'' (f companion) (g companion) l w) l2 xs)"
    for now l2 w xs and f :: "jobject \<Rightarrow> string" and g
    by (rule sampled_foldl) (rule sampled_sampleMetrics)
  show ?thesis
    by (rule that) (unfold sampledLedger_def metricTick_def Let_def, rule conjI [OF _ refl], rule sampled_trans [OF sampled_trans [OF s3 fw] co])
qed

lemma pruned: "dbOpen l \<Longrightarrow> set (metricSamples (pruneMetrics l before)) = {r \<in> set (metricSamples l). me_ts r \<ge> before}"
  by (auto simp: pruneMetrics_def exec_ignored_eq delete_where_def)

lemma pruned_all: "dbOpen l \<Longrightarrow> (\<And>s. s \<in> set (metricSamples l) \<Longrightarrow> me_ts s < before) \<Longrightarrow> metricSamples (pruneMetrics l before) = []"
  by (simp add: pruneMetrics_def exec_ignored_eq delete_where_def)

lemma retentionMillis_exact:
  assumes "1 \<le> days" and "days \<le> 106751"
  shows "retentionMillis days = days * 86400000"
proof -
  have i: "in_int64 (days * 24)" "in_int64 (days * 24 * 3600000000000)" using assms by (simp_all add: in_int64_def min_int64_def max_int64_def)
  have "days * 24 * 3600000000000 = (days * 86400000) * 1000000" by simp
  then have "days * 24 * 3600000000000 div 1000000 = days * 86400000" by simp
  moreover have "sgn (days * 24 * 3600000000000) = 1" "\<bar>days * 24 * 3600000000000\<bar> = days * 24 * 3600000000000"
    using assms by auto
  ultimately show ?thesis unfolding retentionMillis_def wrap64_id [OF i(1)] wrap64_id [OF i(2)] Let_def by simp
qed

text \<open>With a retention of up to 106751 days a tick leaves exactly the old samples of the retention period and samples
  of its own time.\<close>

theorem metric_retention:
  assumes "dbOpen (db d)" and "days = max 1 (envInt64 h ''METRIC_RETENTION_DAYS'' 30)" and "days \<le> 106751"
  shows "(\<forall>s\<in>set (metricSamples (db (metricTick G PF paths h d))). me_ts s \<ge> clock h 0 - days * 86400000) \<and>
    {s \<in> set (metricSamples (db (metricTick G PF paths h d))). me_ts s \<noteq> clock h 0} =
    {s \<in> set (metricSamples (db d)). me_ts s \<noteq> clock h 0 \<and> me_ts s \<ge> clock h 0 - days * 86400000}"
proof -
  obtain l where l: "sampledLedger G PF paths h d l" by (rule metricTick_samples)
  have m: "retentionMillis days = days * 86400000" using assms(2,3) by (intro retentionMillis_exact) auto
  with l assms(2) have t: "db (metricTick G PF paths h d) = pruneMetrics l (clock h 0 - days * 86400000)"
    by (simp add: sampledLedger_def)
  from l assms(1) have "dbOpen l" by (simp add: sampledLedger_def sampled_def)
  from pruned [OF this] l show ?thesis unfolding t by (auto simp: sampledLedger_def sampled_def)
qed

lemma retentionMillis_wraps:
  assumes "106752 \<le> days" and "days \<le> 213503"
  shows "retentionMillis days < 0"
proof -
  define n where "n = days * 24 * 3600000000000"
  have i: "in_int64 (days * 24)" using assms by (simp add: in_int64_def min_int64_def max_int64_def)
  have "n \<ge> 106752 * 24 * 3600000000000" "n \<le> 213503 * 24 * 3600000000000" using assms by (auto simp: n_def)
  then have "(n + 2 ^ 63) mod 2 ^ 64 = n + 2 ^ 63 - 2 ^ 64" by (intro int_mod_pos_eq [where q = 1]) auto
  with \<open>n \<le> _\<close> have "wrap64 n \<le> - 1000000" by (simp add: wrap64_def)
  then have "sgn (wrap64 n) = -1" "\<bar>wrap64 n\<bar> div 1000000 \<ge> 1" by (auto simp: sgn_if)
  then show ?thesis by (simp add: retentionMillis_def wrap64_id [OF i] n_def Let_def)
qed

text \<open>A longer retention overflows the duration: from 106752 days on (to twice that) the bound lies in the future,
  and a tick deletes every sample, those it has just taken included.\<close>

theorem long_retention_deletes_samples:
  assumes "dbOpen (db d)" and "106752 \<le> envInt64 h ''METRIC_RETENTION_DAYS'' 30"
    and "envInt64 h ''METRIC_RETENTION_DAYS'' 30 \<le> 213503" and "\<forall>s\<in>set (metricSamples (db d)). me_ts s \<le> clock h 0"
  shows "metricSamples (db (metricTick G PF paths h d)) = []"
proof -
  let ?days = "envInt64 h ''METRIC_RETENTION_DAYS'' 30"
  obtain l where l: "sampledLedger G PF paths h d l" by (rule metricTick_samples)
  have "retentionMillis ?days < 0" using assms(2,3) by (rule retentionMillis_wraps)
  with assms(2) have "clock h 0 < clock h 0 - retentionMillis (max 1 ?days)" by simp
  moreover from l assms(4) have "me_ts s \<le> clock h 0" if "s \<in> set (metricSamples l)" for s
    using that by (auto simp: sampledLedger_def sampled_def)
  moreover from l assms(1) have "dbOpen l" by (simp add: sampledLedger_def sampled_def)
  ultimately have "metricSamples (pruneMetrics l (clock h 0 - retentionMillis (max 1 ?days))) = []"
    by (intro pruned_all) (assumption, erule le_less_trans [rotated], blast)
  then show ?thesis using l by (simp add: sampledLedger_def)
qed

section \<open>Profile updates\<close>

lemma selectProfile_updated:
  assumes "dbOpen l" and "updateProfileAccess l xuid role banned access note = Inr l'"
  shows "selectProfile l' xuid = map_option (\<lambda>r. r\<lparr>pr_network_role := role, pr_network_banned := banned, pr_access := access,
    pr_notes := note\<rparr>) (selectProfile l xuid)"
proof -
  define f where "f = (\<lambda>r :: profile_row. r\<lparr>pr_network_role := role, pr_network_banned := banned, pr_access := access, pr_notes := note\<rparr>)"
  have "filter (\<lambda>r. pr_xuid r = xuid) (update_where (\<lambda>r. pr_xuid r = xuid) f rs) = map f (filter (\<lambda>r. pr_xuid r = xuid) rs)" for rs
    by (induction rs) (auto simp: update_where_def f_def)
  moreover have "l' = profileRows_update (update_where (\<lambda>r. pr_xuid r = xuid) f) l"
    using assms by (simp add: updateProfileAccess_def exec_def f_def)
  ultimately show ?thesis
    using assms(1) by (cases "filter (\<lambda>r. pr_xuid r = xuid) (profileRows l)") (simp_all add: selectProfile_def querySelect_def f_def)
qed

lemma selectProfile_audit: "selectProfile (db (appendAudit h now r who action result details d)) xuid = selectProfile (db d) xuid"
  by (simp add: appendAudit_def recordAudit_def exec_ignored_eq selectProfile_def querySelect_def)


section \<open>Instances\<close>

definition retentionHost :: "int \<Rightarrow> host" where
  "retentionHost days = zooHost\<lparr>getenv := (\<lambda>name. if name = ''METRIC_RETENTION_DAYS'' then itoa days else [])\<rparr>"

lemma retention_days: "in_int64 days \<Longrightarrow> envInt64 (retentionHost days) ''METRIC_RETENTION_DAYS'' 30 = days"
  by (simp add: envInt64_def env_def retentionHost_def)

definition sampledDashboard :: dashboard where
  "sampledDashboard = emptyDashboard\<lparr>db := recordMetric emptyLedger (clock zooHost 0 - 8 * 86400000) ''gateway'' [] ''old'' 1\<rparr>"

lemma sampledDashboard_rows: "dbOpen (db sampledDashboard)"
  "metricSamples (db sampledDashboard) = [\<lparr>me_ts = clock zooHost 0 - 8 * 86400000, me_scope = ''gateway'', me_server_id = [],
     me_name = ''old'', me_value = 1\<rparr>]"
  by (simp_all add: sampledDashboard_def emptyDashboard_def recordMetric_def exec_ignored_eq emptyLedger_def)

theorem metric_retention_witness:
  "\<forall>s\<in>set (metricSamples (db (metricTick sample_golib (\<lambda>_. (NaN, False)) [] (retentionHost 7) sampledDashboard))).
     me_ts s = clock zooHost 0"
proof -
  have c: "clock (retentionHost 7) 0 = clock zooHost 0" by (simp add: retentionHost_def)
  from metric_retention [OF sampledDashboard_rows(1) refl, of "retentionHost 7" sample_golib "\<lambda>_. (NaN, False)" "[]"]
  have "{s \<in> set (metricSamples (db (metricTick sample_golib (\<lambda>_. (NaN, False)) [] (retentionHost 7) sampledDashboard))).
      me_ts s \<noteq> clock zooHost 0} = {}"
    by (simp add: c sampledDashboard_rows retention_days in_int64_def min_int64_def max_int64_def)
  then show ?thesis by blast
qed

theorem long_retention_deletes_samples_witness:
  "metricSamples (db (metricTick sample_golib (\<lambda>_. (NaN, False)) [] (retentionHost 106752) sampledDashboard)) = []"
  by (rule long_retention_deletes_samples) (simp_all add: sampledDashboard_rows retention_days in_int64_def min_int64_def max_int64_def, simp add: retentionHost_def)

definition banRequest :: profileBody where
  "banRequest = \<lparr>pbXUID = ''2535'', pbRole = [], pbBanned = True, pbAccess = [], pbNotes = []\<rparr>"


end
