(* ===== verification/Agent.thy ===== *)
theory Agent
  imports Control
begin

text \<open>
  The host agent of a vanilla server (\<^verbatim>\<open>vanilla-agent/cmd/ninjos-vanilla-agent/main.go\<close>) and its composition with
  the dashboard: a heartbeat, then a signed request for the operators of the server, whose list replaces the
  operators in the server's \<^verbatim>\<open>permissions.json\<close>.  The network is a function of a request and of a world, which in the
  composition is the dashboard; encoding and decoding of JSON texts are the functions of a record.  A URL
  that does not parse counts as a failed request.  The order of the rows written is that of a Go map.
\<close>

section \<open>Configuration\<close>

record agentConfig =
  cServerID :: string
  cDashboardURL :: string
  cSharedSecret :: string
  cPermissionsFile :: string
  cProcessName :: string
  cIntervalSeconds :: int
  cSyncOperators :: bool
  cInsecureHTTP :: bool

record operatorEntry =
  opXUID :: string
  opGamertag :: string
  opPermission :: string
  opRole :: string

record permissionRow =
  rowPermission :: string
  rowXUID :: string

text \<open>
  \<open>decodeOperators\<close> is the \<^verbatim>\<open>operators\<close> field of a decoded snapshot, or nothing when the text is refused;
  \<open>decodeRows\<close> is what \<^verbatim>\<open>existing\<close> holds after decoding, whether or not an error was returned.
\<close>

record wire =
  encode :: "json \<Rightarrow> string"
  decodeOperators :: "string \<Rightarrow> operatorEntry list option"
  decodeRows :: "string \<Rightarrow> permissionRow list"
  encodeRows :: "permissionRow list \<Rightarrow> string"

definition agentVersion :: string where "agentVersion = ''7.3.16''"

definition localPrefixes :: "string list" where
  "localPrefixes = [''127.0.0.1'', ''localhost'', ''10.'', ''192.168.'', ''172.16.'']"

definition validate :: "agentConfig \<Rightarrow> unit result" where
  "validate cfg =
     (if trim_space (cServerID cfg) = [] \<or> cDashboardURL cfg = [] \<or> length (cSharedSecret cfg) < 16
      then Inl ''serverId, dashboardUrl and a sharedSecret of at least 16 characters are required''
      else if has_prefix (to_lower (cDashboardURL cfg)) ''http://'' \<and> \<not> cInsecureHTTP cfg \<and>
        \<not> list_ex (has_prefix (trim_prefix (to_lower (cDashboardURL cfg)) ''http://'')) localPrefixes
      then Inl ''plain HTTP is permitted only for local/private addresses unless insecureHttp is explicitly enabled''
      else Inr ())"

text \<open>The pause between two cycles, in nanoseconds.\<close>

definition agentInterval :: "agentConfig \<Rightarrow> int" where
  "agentInterval cfg =
     (let interval = wrap64 (cIntervalSeconds cfg * 1000000000)
      in if interval < 10 * 1000000000 then 30 * 1000000000 else interval)"

section \<open>Process status\<close>

definition shellWord :: "string \<Rightarrow> string" where
  "shellWord value = filter (\<lambda>c. is_lower_alpha c \<or> is_lower_alpha (char_lower c) \<or> is_digit_char c \<or> c \<in> set ''._-'') value"

definition processName :: "string \<Rightarrow> string" where
  "processName name = (if trim_space name = [] then ''bedrock_server'' else name)"

definition quoteMark :: string where "quoteMark = [CHR 0x27]"

definition statusCommand :: "bool \<Rightarrow> string \<Rightarrow> string list" where
  "statusCommand windows name =
     (if windows
      then [''powershell'', ''-NoProfile'', ''-Command'',
        ''$p=Get-Process -Name '' @ quoteMark @ trim_suffix name ''.exe'' @ quoteMark @
        '' -ErrorAction SilentlyContinue | Select-Object -First 1; if($p){Write-Output ($p.WorkingSet64)}'']
      else [''sh'', ''-c'', ''ps -C '' @ shellWord name @ '' -o rss= 2>/dev/null | head -n1''])"

text \<open>\<open>run\<close> is the output of a command, or nothing when it fails.\<close>

definition processStatus :: "(string list \<Rightarrow> string option) \<Rightarrow> bool \<Rightarrow> string \<Rightarrow> bool \<times> int" where
  "processStatus run windows name =
     (case run (statusCommand windows (processName name)) of
        None \<Rightarrow> (False, 0)
      | Some out \<Rightarrow>
          let v = atoi_value (trim_space out)
          in if windows then (v > 0, v) else (v > 0, wrap64 (v * 1024)))"

section \<open>Signed requests\<close>

record agentRequest =
  aqURL :: string
  aqServer :: string
  aqTimestamp :: string
  aqSignature :: string
  aqBody :: string

type_synonym 'w network = "agentRequest \<Rightarrow> 'w \<Rightarrow> (nat \<times> string) option \<times> 'w"

definition agentPost :: "golib \<Rightarrow> wire \<Rightarrow> int \<Rightarrow> agentConfig \<Rightarrow> string \<Rightarrow> json \<Rightarrow> agentRequest" where
  "agentPost G W now cfg endpoint payload =
     (let body = encode W payload; timestamp = itoa now
      in \<lparr>aqURL = trim_right_set (cDashboardURL cfg) ''/'' @ endpoint,
          aqServer = to_lower (trim_space (cServerID cfg)), aqTimestamp = timestamp,
          aqSignature = hex_encode (hmac_sha256 G (cSharedSecret cfg) (timestamp @ [newline] @ body)), aqBody = body\<rparr>)"

definition responseLimit :: nat where "responseLimit = 2 ^ 20"

definition signedPost ::
  "golib \<Rightarrow> wire \<Rightarrow> 'w network \<Rightarrow> int \<Rightarrow> agentConfig \<Rightarrow> string \<Rightarrow> json \<Rightarrow> 'w \<Rightarrow> string result \<times> 'w" where
  "signedPost G W net now cfg endpoint payload w =
     (case net (agentPost G W now cfg endpoint payload) w of
        (None, w1) \<Rightarrow> (Inl ''request failed'', w1)
      | (Some (status, response), w1) \<Rightarrow>
          let responseBody = take responseLimit response
          in if status < 200 \<or> status \<ge> 300
             then (Inl (''HTTP '' @ itoa (int status) @ '': '' @ trim_space responseBody), w1)
             else (Inr responseBody, w1))"

section \<open>Operators\<close>

definition keptRow :: "(string \<times> permissionRow) list \<Rightarrow> permissionRow \<Rightarrow> (string \<times> permissionRow) list" where
  "keptRow desired row =
     (if rowXUID row \<noteq> [] \<and> rowPermission row \<noteq> ''operator'' then AList.update (rowXUID row) row desired else desired)"

definition operatorRow :: "(string \<times> permissionRow) list \<Rightarrow> operatorEntry \<Rightarrow> (string \<times> permissionRow) list" where
  "operatorRow desired e =
     (if opXUID e \<noteq> [] then AList.update (opXUID e) \<lparr>rowPermission = ''operator'', rowXUID = opXUID e\<rparr> desired else desired)"

definition existingRows :: "wire \<Rightarrow> string option \<Rightarrow> permissionRow list" where
  "existingRows W f =
     (case f of None \<Rightarrow> [] | Some content \<Rightarrow> if trim_space content \<noteq> [] then decodeRows W content else [])"

definition desiredRows :: "wire \<Rightarrow> operatorEntry list \<Rightarrow> string option \<Rightarrow> permissionRow list" where
  "desiredRows W operators f = map snd (foldl operatorRow (foldl keptRow [] (existingRows W f)) operators)"

text \<open>
  The directory, the temporary file and its renaming are the writes \<open>0\<close>, \<open>1\<close> and \<open>2\<close>; creating the current
  directory does not fail.
\<close>

definition updatePermissions :: "wire \<Rightarrow> host \<Rightarrow> operatorEntry list \<Rightarrow> string option \<Rightarrow> unit result \<times> string option" where
  "updatePermissions W h operators f =
     (if \<not> diskOK h 0 then (Inl ''create directory'', f)
      else if \<not> diskOK h 1 then (Inl ''write file'', f)
      else if \<not> diskOK h 2 then (Inl ''rename file'', f)
      else (Inr (), Some (encodeRows W (desiredRows W operators f) @ [newline])))"

section \<open>One cycle\<close>

definition heartbeat :: "string \<Rightarrow> bool \<times> int \<Rightarrow> int \<Rightarrow> agentConfig \<Rightarrow> json" where
  "heartbeat platform status now cfg =
     JObj [(''serverId'', JStr (cServerID cfg)),
       (''records'', JArr [JObj [(''type'', JStr ''metrics''), (''timestamp'', jint now),
          (''companionVersion'', JStr (''vanilla-agent-'' @ agentVersion)), (''serverType'', JStr ''vanilla''),
          (''processRunning'', JBool (fst status)), (''processMemoryBytes'', jint (snd status)),
          (''platform'', JStr platform), (''playersOnline'', jint 0), (''playersMax'', jint 0),
          (''queueDepth'', jint 0), (''uploadFailures'', jint 0)]])]"

definition snapshotOf :: "wire \<Rightarrow> string \<Rightarrow> operatorEntry list result" where
  "snapshotOf W body =
     (if body = [] then Inr [] else case decodeOperators W body of None \<Rightarrow> Inl ''invalid JSON'' | Some es \<Rightarrow> Inr es)"

definition permissionRequest :: "agentConfig \<Rightarrow> json" where
  "permissionRequest cfg = JObj [(''serverId'', JStr (cServerID cfg))]"

definition syncOperators ::
  "golib \<Rightarrow> wire \<Rightarrow> 'w network \<Rightarrow> host \<Rightarrow> agentConfig \<Rightarrow> 'w \<Rightarrow> string option \<Rightarrow> unit result \<times> 'w \<times> string option" where
  "syncOperators G W net h cfg w f =
     (case signedPost G W net (clock h 2) cfg ''/api/bridge/v1/permissions'' (permissionRequest cfg) w of
        (Inl err, w1) \<Rightarrow> (Inl (''permission snapshot failed: '' @ err), w1, f)
      | (Inr body, w1) \<Rightarrow>
          (case snapshotOf W body of
             Inl err \<Rightarrow> (Inl (''permission snapshot failed: '' @ err), w1, f)
           | Inr operators \<Rightarrow>
               (case updatePermissions W h operators f of
                  (Inl err, f1) \<Rightarrow> (Inl (''permissions sync failed: '' @ err), w1, f1)
                | (Inr _, f1) \<Rightarrow> (Inr (), w1, f1))))"

definition cycle ::
  "golib \<Rightarrow> wire \<Rightarrow> 'w network \<Rightarrow> (string list \<Rightarrow> string option) \<Rightarrow> bool \<Rightarrow> string \<Rightarrow> host \<Rightarrow> agentConfig \<Rightarrow> 'w \<Rightarrow> string option \<Rightarrow>
   unit result \<times> 'w \<times> string option" where
  "cycle G W net run windows platform h cfg w f =
     (case signedPost G W net (clock h 1) cfg ''/ingest''
        (heartbeat platform (processStatus run windows (cProcessName cfg)) (clock h 0) cfg) w of
        (Inl err, w1) \<Rightarrow> (Inl (''heartbeat failed: '' @ err), w1, f)
      | (Inr _, w1) \<Rightarrow>
          if cSyncOperators cfg \<and> cPermissionsFile cfg \<noteq> [] then syncOperators G W net h cfg w1 f
          else (Inr (), w1, f))"

text \<open>
  The main loop: a configuration that does not load or is not valid ends the agent; otherwise it runs one
  cycle after another, whatever their results.  \<open>n\<close> is the number of cycles, one with \<^verbatim>\<open>--once\<close>.
\<close>

fun agentCycles ::
  "golib \<Rightarrow> wire \<Rightarrow> 'w network \<Rightarrow> (string list \<Rightarrow> string option) \<Rightarrow> bool \<Rightarrow> string \<Rightarrow> (nat \<Rightarrow> host) \<Rightarrow> agentConfig \<Rightarrow> nat \<Rightarrow>
   'w \<Rightarrow> string option \<Rightarrow> 'w \<times> string option" where
  "agentCycles G W net run windows platform hs cfg 0 w f = (w, f)"
| "agentCycles G W net run windows platform hs cfg (Suc n) w f =
     (case cycle G W net run windows platform (hs n) cfg w f of
        (_, w1, f1) \<Rightarrow> agentCycles G W net run windows platform hs cfg n w1 f1)"

definition agentMain ::
  "golib \<Rightarrow> wire \<Rightarrow> 'w network \<Rightarrow> (string list \<Rightarrow> string option) \<Rightarrow> bool \<Rightarrow> string \<Rightarrow> (nat \<Rightarrow> host) \<Rightarrow> agentConfig result \<Rightarrow> nat \<Rightarrow>
   'w \<Rightarrow> string option \<Rightarrow> ('w \<times> string option) result" where
  "agentMain G W net run windows platform hs loaded n w f =
     attempt loaded (\<lambda>cfg. attempt (validate cfg) (\<lambda>_. Inr (agentCycles G W net run windows platform hs cfg n w f)))"

section \<open>The agent and the dashboard\<close>

text \<open>An agent's request as the dashboard receives it, and the network in which the dashboard answers at once.\<close>

definition received :: "string \<Rightarrow> agentRequest \<Rightarrow> http_request" where
  "received remote q =
     \<lparr>verb = ''POST'',
      header = (\<lambda>k. if k = ''X-NinjOS-Server'' then aqServer q else if k = ''X-NinjOS-Timestamp'' then aqTimestamp q
         else if k = ''X-NinjOS-Signature'' then aqSignature q else []),
      query = (\<lambda>_. []), url_path = [], remote_host = remote, actor = None\<rparr>"

definition dashboardNet ::
  "golib \<Rightarrow> wire \<Rightarrow> (string \<Rightarrow> (string \<times> jobject option list) option) \<Rightarrow> (string \<Rightarrow> string option) \<Rightarrow> host \<Rightarrow> string \<Rightarrow> dashboard network" where
  "dashboardNet G W decodeReport decodeServer srv remote q d =
     (if has_suffix (aqURL q) ''/ingest'' then
        (case handleIngest G (Some (aqBody q)) decodeReport srv (received remote q) d of
           (None, d1) \<Rightarrow> (None, d1)
         | (Some (status, v), d1) \<Rightarrow> (Some (status, encode W v), d1))
      else if has_suffix (aqURL q) ''/api/bridge/v1/permissions'' then
        (case handlePermissionSnapshot G (Some (aqBody q)) decodeServer srv (received remote q) d of
           ((status, v), d1) \<Rightarrow> (Some (status, encode W v), d1))
      else (Some (404, ''404 page not found''), d))"

lemma received_simps [simp]:
  "verb (received remote q) = ''POST''" "header (received remote q) ''X-NinjOS-Server'' = aqServer q"
  "header (received remote q) ''X-NinjOS-Timestamp'' = aqTimestamp q" "header (received remote q) ''X-NinjOS-Signature'' = aqSignature q"
  by (simp_all add: received_def)

lemma normalize_idem: "normalizeCompanionServerID (to_lower (trim_space s)) = normalizeCompanionServerID s"
  using trim_space_id [OF trimmed_to_lower [OF trimmed_trim_space]] by (simp add: normalizeCompanionServerID_def)

lemma agentPost_signed:
  "aqSignature (agentPost G W now cfg endpoint payload) =
     signature G (cSharedSecret cfg) (aqTimestamp (agentPost G W now cfg endpoint payload)) (aqBody (agentPost G W now cfg endpoint payload))"
  by (simp add: agentPost_def signature_def Let_def)

text \<open>The agent and the dashboard share the server's secret and their clocks differ by at most a minute.\<close>

definition paired :: "agentConfig \<Rightarrow> int \<Rightarrow> int \<Rightarrow> dashboard \<Rightarrow> bool" where
  "paired cfg now t d \<longleftrightarrow> validate cfg = Inr () \<and> companionSecret d (normalizeCompanionServerID (cServerID cfg)) = cSharedSecret cfg \<and>
     0 \<le> t \<and> t < 2 ^ 62 \<and> \<bar>t - now\<bar> \<le> 60000"

lemma paired_verified:
  assumes "paired cfg now t d" and "aqSignature q \<notin> fst ` set (replaySeen d)" and "q = agentPost G W now cfg endpoint payload"
  obtains seen where "verifySignedBody G t t' (received remote q) (aqBody q) d = (Inr (), d\<lparr>replaySeen := seen\<rparr>)"
proof -
  have n: "in_int64 now" using assms(1) by (auto simp: paired_def in_int64_def min_int64_def max_int64_def)
  then have a: "atoi (aqTimestamp q) = Some now" by (simp add: assms(3) agentPost_def Let_def)
  have s: "\<not> stale t now" using stale_iff [OF _ _ n, of t] assms(1) by (auto simp: paired_def)
  have i: "normalizeCompanionServerID (aqServer q) = normalizeCompanionServerID (cServerID cfg)"
    by (simp add: assms(3) agentPost_def Let_def normalize_idem)
  have "normalizeCompanionServerID (cServerID cfg) \<noteq> []"
    using assms(1) by (auto simp: paired_def validate_def normalizeCompanionServerID_def to_lower_def split: if_splits)
  moreover have "aqSignature q = signature G (companionSecret d (normalizeCompanionServerID (cServerID cfg))) (aqTimestamp q) (aqBody q)"
    using assms(1) agentPost_signed [of G W now cfg endpoint payload] by (simp add: paired_def assms(3))
  moreover have "fst (acceptReplayKey (aqSignature q) t' (replaySeen d))"
    using assms(2) by (force simp: acceptReplayKey_def Let_def)
  then obtain seen where "acceptReplayKey (aqSignature q) t' (replaySeen d) = (True, seen)"
    by (cases "acceptReplayKey (aqSignature q) t' (replaySeen d)") simp
  ultimately show ?thesis
    by (intro that [of seen]) (simp add: verifySignedBody_def a s i Let_def)
qed

text \<open>A request of a valid agent that shares the secret of its server with the dashboard is accepted the first time it
  arrives within a minute: the two programs compute the same signature over the same bytes.\<close>

theorem agent_request_accepted:
  assumes "validate cfg = Inr ()" and "companionSecret d (normalizeCompanionServerID (cServerID cfg)) = cSharedSecret cfg"
    and "0 \<le> t" and "t < 2 ^ 62" and "\<bar>t - now\<bar> \<le> 60000"
    and "aqSignature (agentPost G W now cfg endpoint payload) \<notin> fst ` set (replaySeen d)"
  shows "fst (verifySignedBody G t t' (received remote (agentPost G W now cfg endpoint payload))
    (encode W payload) d) = Inr ()"
proof -
  let ?q = "agentPost G W now cfg endpoint payload"
  have "aqBody ?q = encode W payload" by (simp add: agentPost_def Let_def)
  moreover have "paired cfg now t d" using assms by (simp add: paired_def)
  from paired_verified [OF this assms(6) refl] obtain seen
    where "verifySignedBody G t t' (received remote ?q) (aqBody ?q) d = (Inr (), d\<lparr>replaySeen := seen\<rparr>)" by blast
  ultimately show ?thesis by simp
qed

section \<open>Rows of the permissions file\<close>

definition permissionOf :: "permissionRow list \<Rightarrow> string \<Rightarrow> string option" where
  "permissionOf rows x = map_option rowPermission (find (\<lambda>r. rowXUID r = x) rows)"

text \<open>The permission that a synchronization leaves to a player who is not an operator: that of the last row.\<close>

definition keptPermission :: "permissionRow list \<Rightarrow> string \<Rightarrow> string option" where
  "keptPermission rows x = map_option rowPermission (find (\<lambda>r. rowXUID r = x \<and> rowPermission r \<noteq> ''operator'') (rev rows))"

lemma find_last: "find p (rev (xs @ [x])) = (if p x then Some x else find p (rev xs))"
  by simp

lemma map_of_keptRows:
  assumes "x \<noteq> []"
  shows "map_of (foldl keptRow [] rows) x = find (\<lambda>r. rowXUID r = x \<and> rowPermission r \<noteq> ''operator'') (rev rows)"
proof (induction rows rule: rev_induct)
  case (snoc r rows)
  have "map_of (keptRow m r) x = (if rowXUID r = x \<and> rowPermission r \<noteq> ''operator'' then Some r else map_of m x)" for m
    using assms by (simp add: keptRow_def update_conv)
  with snoc show ?case by (simp only: foldl_append foldl.simps find_last)
qed simp

lemma map_of_operatorRows:
  "map_of (foldl operatorRow m operators) x =
     (if x \<noteq> [] \<and> x \<in> opXUID ` set operators then Some \<lparr>rowPermission = ''operator'', rowXUID = x\<rparr> else map_of m x)"
  by (induction operators arbitrary: m) (auto simp: operatorRow_def update_conv)

definition keyed :: "(string \<times> permissionRow) list \<Rightarrow> bool" where
  "keyed m \<longleftrightarrow> distinct (map fst m) \<and> (\<forall>k r. map_of m k = Some r \<longrightarrow> rowXUID r = k)"

lemma keyed_update: "keyed m \<Longrightarrow> keyed (AList.update (rowXUID r) r m)"
  by (simp add: keyed_def distinct_update update_conv)

lemma keyed_keptRow: "keyed m \<Longrightarrow> keyed (keptRow m r)"
  by (simp add: keptRow_def keyed_update)

lemma keyed_operatorRow: "keyed m \<Longrightarrow> keyed (operatorRow m e)"
  using keyed_update [of m "\<lparr>rowPermission = ''operator'', rowXUID = opXUID e\<rparr>"] by (simp add: operatorRow_def)

lemma keyed_desired: "keyed (foldl operatorRow (foldl keptRow [] rows) operators)"
proof -
  have "keyed (foldl keptRow [] rows)"
    by (rule foldl_keeps [where P = keyed, OF keyed_keptRow]) (simp_all add: keyed_def)
  then show ?thesis by (rule foldl_keeps [where P = keyed, rotated]) (rule keyed_operatorRow)
qed

lemma keyed_Cons: "keyed ((k, r) # m) \<Longrightarrow> keyed m \<and> rowXUID r = k"
  by (auto simp: keyed_def split: if_splits) (metis fst_conv imageI)

lemma keyed_find: "keyed m \<Longrightarrow> find (\<lambda>r. rowXUID r = x) (map snd m) = map_of m x"
  by (induction m) (auto dest!: keyed_Cons)

lemma keyed_keys: "keyed m \<Longrightarrow> map rowXUID (map snd m) = map fst m"
  by (induction m) (auto dest!: keyed_Cons)

lemma permissionOf_desired:
  assumes "x \<noteq> []"
  shows "permissionOf (desiredRows W operators f) x =
    (if x \<in> opXUID ` set operators then Some ''operator'' else keptPermission (existingRows W f) x)"
  unfolding permissionOf_def desiredRows_def keyed_find [OF keyed_desired]
  using assms by (simp add: map_of_operatorRows map_of_keptRows keptPermission_def)

lemma distinct_desired: "distinct (map rowXUID (desiredRows W operators f))"
  unfolding desiredRows_def keyed_keys [OF keyed_desired] using keyed_desired by (simp add: keyed_def)

lemma keptPermission_none: "(\<And>r. r \<in> set rows \<Longrightarrow> rowXUID r \<noteq> x) \<Longrightarrow> keptPermission rows x = None"
  by (auto simp: keptPermission_def find_None_iff)

lemma keptPermission_Cons:
  "keptPermission (r # rows) x =
     (if keptPermission rows x = None \<and> rowXUID r = x \<and> rowPermission r \<noteq> ''operator'' then Some (rowPermission r) else keptPermission rows x)"
  by (simp add: keptPermission_def find_append split: option.split)

lemma keptPermission_distinct:
  "distinct (map rowXUID rows) \<Longrightarrow>
   keptPermission rows x = (if permissionOf rows x = Some ''operator'' then None else permissionOf rows x)"
proof (induction rows)
  case (Cons r rows)
  show ?case
  proof (cases "rowXUID r = x")
    case True
    then have "keptPermission rows x = None" using Cons.prems by (intro keptPermission_none) (simp, metis image_eqI)
    with True show ?thesis by (simp add: keptPermission_Cons permissionOf_def)
  next
    case False
    then have "permissionOf (r # rows) x = permissionOf rows x" by (simp add: permissionOf_def)
    with False Cons show ?thesis by (simp add: keptPermission_Cons)
  qed
qed (simp add: keptPermission_def permissionOf_def)

lemma keptPermission_not_operator: "keptPermission rows x \<noteq> Some ''operator''"
  by (auto simp: keptPermission_def find_Some_iff)

text \<open>A synchronization leaves one row for a player at most; it makes exactly the listed players operators, leaves every
  other player the permission the file gave, and drops the rows of players who were operators only.  Repeating it with the same
  list changes nothing.\<close>

theorem operators_synchronized:
  assumes "updatePermissions W h operators f = (Inr (), f')"
    and "existingRows W (Some (encodeRows W (desiredRows W operators f) @ [newline])) = desiredRows W operators f" and "x \<noteq> []"
  shows "distinct (map rowXUID (existingRows W f')) \<and>
    permissionOf (existingRows W f') x = (if x \<in> opXUID ` set operators then Some ''operator'' else keptPermission (existingRows W f) x) \<and>
    permissionOf (desiredRows W operators f') x = permissionOf (existingRows W f') x"
proof -
  have "f' = Some (encodeRows W (desiredRows W operators f) @ [newline])"
    using assms(1) by (auto simp: updatePermissions_def split: if_splits)
  then have e: "existingRows W f' = desiredRows W operators f" using assms(2) by simp
  have "keptPermission (desiredRows W operators f) x = (if x \<in> opXUID ` set operators then None else keptPermission (existingRows W f) x)"
    using keptPermission_distinct [OF distinct_desired] keptPermission_not_operator by (simp add: permissionOf_desired [OF assms(3)])
  then show ?thesis unfolding permissionOf_desired [OF assms(3)] e using assms(3)
    by (simp add: distinct_desired permissionOf_desired)
qed

section \<open>Synchronization with the dashboard\<close>

definition entryOf :: "profile_row \<Rightarrow> operatorEntry" where
  "entryOf row = \<lparr>opXUID = pr_xuid row, opGamertag = pr_gamertag row, opPermission = ''operator'', opRole = pr_network_role row\<rparr>"

definition permissionReply :: "ledger \<Rightarrow> string \<Rightarrow> int \<Rightarrow> json" where
  "permissionReply l serverID now =
     JObj [(''serverId'', JStr serverID), (''operators'', JArr (map snapshotEntry (snapshotRows l serverID))), (''generatedAt'', jint now)]"

text \<open>What the programs rely on of the encoding of JSON: the request names the server, the reply its operators, and the rows
  that were written are read back.\<close>

definition carries :: "wire \<Rightarrow> (string \<Rightarrow> string option) \<Rightarrow> agentConfig \<Rightarrow> ledger \<Rightarrow> int \<Rightarrow> string option \<Rightarrow> bool" where
  "carries W decodeServer cfg l now f \<longleftrightarrow>
     (let serverID = normalizeCompanionServerID (cServerID cfg); body = encode W (permissionReply l serverID now);
          operators = map entryOf (snapshotRows l serverID) in
      decodeServer (encode W (permissionRequest cfg)) = Some (cServerID cfg) \<and> body \<noteq> [] \<and> length body \<le> responseLimit \<and>
      decodeOperators W body = Some operators \<and>
      existingRows W (Some (encodeRows W (desiredRows W operators f) @ [newline])) = desiredRows W operators f)"

definition permissionPost :: "golib \<Rightarrow> wire \<Rightarrow> int \<Rightarrow> agentConfig \<Rightarrow> agentRequest" where
  "permissionPost G W now cfg = agentPost G W now cfg ''/api/bridge/v1/permissions'' (permissionRequest cfg)"

lemma permissionPost_route:
  "\<not> has_suffix (aqURL (permissionPost G W now cfg)) ''/ingest''"
  "has_suffix (aqURL (permissionPost G W now cfg)) ''/api/bridge/v1/permissions''"
proof -
  let ?u = "trim_right_set (cDashboardURL cfg) ''/'' @ ''/api/bridge/v1/permissions''"
  have u: "aqURL (permissionPost G W now cfg) = ?u" unfolding permissionPost_def agentPost_def Let_def by (rule agentRequest.select_convs)
  have "last ?u = CHR ''s''" by simp
  moreover have "last (w @ ''/ingest'') = CHR ''t''" for w by simp
  moreover have "CHR ''s'' \<noteq> CHR ''t''" by simp
  ultimately have "last ?u \<noteq> last (w @ ''/ingest'')" for w by (simp only: not_False_eq_True)
  then have "?u \<noteq> w @ ''/ingest''" for w by (rule contrapos_nn) (rule arg_cong [where f = last])
  then show "\<not> has_suffix (aqURL (permissionPost G W now cfg)) ''/ingest''"
    unfolding u has_suffix_def suffix_def by blast
  show "has_suffix (aqURL (permissionPost G W now cfg)) ''/api/bridge/v1/permissions''"
    unfolding u has_suffix_def by (rule suffixI) (rule refl)
qed

lemma snapshot_answered:
  assumes "paired cfg now (clock srv 0) d" and "q = permissionPost G W now cfg" and "aqSignature q \<notin> fst ` set (replaySeen d)"
    and "decodeServer (encode W (permissionRequest cfg)) = Some (cServerID cfg)"
  obtains seen where "dashboardNet G W decodeReport decodeServer srv remote q d =
    (Some (200, encode W (permissionReply (db d) (normalizeCompanionServerID (cServerID cfg)) (clock srv 2))), d\<lparr>replaySeen := seen\<rparr>)"
proof -
  have q: "q = agentPost G W now cfg ''/api/bridge/v1/permissions'' (permissionRequest cfg)" using assms(2) by (simp add: permissionPost_def)
  obtain seen where v: "verifySignedBody G (clock srv 0) (clock srv 1) (received remote q) (aqBody q) d = (Inr (), d\<lparr>replaySeen := seen\<rparr>)"
    by (rule paired_verified [OF assms(1,3) q])
  have b: "aqBody q = encode W (permissionRequest cfg)" by (simp add: q agentPost_def Let_def)
  have "handlePermissionSnapshot G (Some (aqBody q)) decodeServer srv (received remote q) d =
      ((200, permissionReply (db d) (normalizeCompanionServerID (cServerID cfg)) (clock srv 2)), d\<lparr>replaySeen := seen\<rparr>)"
    using v assms(4) by (simp add: handlePermissionSnapshot_def verifyBridgeBody_def b permissionReply_def Let_def)
  then show ?thesis
    by (intro that [of seen]) (simp only: dashboardNet_def assms(2) permissionPost_route if_True if_False prod.case not_False_eq_True)
qed

lemma synchronized:
  assumes "paired cfg (clock h 2) (clock srv 0) d" and "aqSignature (permissionPost G W (clock h 2) cfg) \<notin> fst ` set (replaySeen d)"
    and "carries W decodeServer cfg (db d) (clock srv 2) f" and "diskOK h 0" and "diskOK h 1" and "diskOK h 2"
  obtains d1 f' where "syncOperators G W (dashboardNet G W decodeReport decodeServer srv remote) h cfg d f = (Inr (), d1, f')"
    and "\<And>x. x \<noteq> [] \<Longrightarrow> permissionOf (existingRows W f') x = Some ''operator'' \<longleftrightarrow>
      x \<in> set (map pr_xuid (snapshotRows (db d) (normalizeCompanionServerID (cServerID cfg))))"
proof -
  let ?rows = "snapshotRows (db d) (normalizeCompanionServerID (cServerID cfg))"
  let ?ops = "map entryOf ?rows" and ?f = "Some (encodeRows W (desiredRows W (map entryOf ?rows) f) @ [newline])"
  note c = assms(3) [unfolded carries_def Let_def]
  obtain seen where n: "dashboardNet G W decodeReport decodeServer srv remote (permissionPost G W (clock h 2) cfg) d =
      (Some (200, encode W (permissionReply (db d) (normalizeCompanionServerID (cServerID cfg)) (clock srv 2))), d\<lparr>replaySeen := seen\<rparr>)"
    using snapshot_answered [OF assms(1) refl assms(2)] c by blast
  then have "syncOperators G W (dashboardNet G W decodeReport decodeServer srv remote) h cfg d f = (Inr (), d\<lparr>replaySeen := seen\<rparr>, ?f)"
    using c assms(4-6) by (simp add: syncOperators_def signedPost_def permissionPost_def snapshotOf_def updatePermissions_def Let_def)
  moreover have "permissionOf (existingRows W ?f) x = Some ''operator'' \<longleftrightarrow> x \<in> set (map pr_xuid ?rows)" if "x \<noteq> []" for x
  proof -
    have "opXUID ` set ?ops = set (map pr_xuid ?rows)" by (force simp: entryOf_def)
    then show ?thesis using c keptPermission_not_operator by (simp add: permissionOf_desired [OF that])
  qed
  ultimately show ?thesis using that by blast
qed


text \<open>When the dashboard's database is unavailable the snapshot is answered as an empty list with status 200, and the
  synchronization takes the operator permission from every player.\<close>

theorem ledger_outage_revokes_operators:
  assumes "paired cfg (clock h 2) (clock srv 0) d" and "aqSignature (permissionPost G W (clock h 2) cfg) \<notin> fst ` set (replaySeen d)"
    and "carries W decodeServer cfg (db d) (clock srv 2) f" and "diskOK h 0" and "diskOK h 1" and "diskOK h 2"
    and "\<not> dbOpen (db d)"
  shows "\<exists>d1 f'. syncOperators G W (dashboardNet G W decodeReport decodeServer srv remote) h cfg d f = (Inr (), d1, f') \<and>
    (\<forall>x. x \<noteq> [] \<longrightarrow> permissionOf (existingRows W f') x \<noteq> Some ''operator'')"
proof -
  have "snapshotRows (db d) s = []" for s
    using assms(7) by (simp add: snapshotRows_def profiles_def query_ignored_def querySelect_def Let_def)
  with synchronized [OF assms(1-6)] show ?thesis by (metis list.set(1) list.simps(8) empty_iff)
qed

section \<open>Configuration limits\<close>

lemma agentInterval_bounds: "10 * 1000000000 \<le> agentInterval cfg \<and> agentInterval cfg < 2 ^ 63"
proof -
  have "wrap64 i < 2 ^ 63" for i using pos_mod_bound [of "2 ^ 64" "i + 2 ^ 63"] by (simp add: wrap64_def)
  then show ?thesis by (simp add: agentInterval_def Let_def)
qed

text \<open>The check for local addresses compares the text of the host name: any host whose name begins with
  \<^verbatim>\<open>localhost\<close> or \<^verbatim>\<open>10.\<close> is taken for local, whatever follows, and plain HTTP is used with it.\<close>

theorem plain_http_check_is_textual:
  assumes "trim_space (cServerID cfg) \<noteq> []" and "length (cSharedSecret cfg) \<ge> 16"
  shows "validate (cfg\<lparr>cDashboardURL := ''http://localhost'' @ rest\<rparr>) = Inr () \<and>
    validate (cfg\<lparr>cDashboardURL := ''http://10.'' @ rest\<rparr>) = Inr ()"
proof -
  have split: "to_lower (''http://localhost'' @ rest) = ''http://'' @ ''localhost'' @ to_lower rest"
    "to_lower (''http://10.'' @ rest) = ''http://'' @ ''10.'' @ to_lower rest"
    by (simp_all add: to_lower_def) code_simp+
  have p: "list_ex (has_prefix (''localhost'' @ t)) localPrefixes" "list_ex (has_prefix (''10.'' @ t)) localPrefixes" for t
    unfolding localPrefixes_def by (simp_all only: list_ex_iff list.set insert_iff bex_simps has_prefix_append simp_thms)
  have "validate (cfg\<lparr>cDashboardURL := u\<rparr>) = Inr ()"
    if "u \<noteq> []" and "list_ex (has_prefix (trim_prefix (to_lower u) ''http://'')) localPrefixes" for u
    using that assms unfolding validate_def by simp
  then show ?thesis by (simp only: split trim_prefix_append p append_is_Nil_conv list.distinct simp_thms)
qed

section \<open>An agent and its dashboard\<close>

definition zooAgent :: agentConfig where
  "zooAgent = \<lparr>cServerID = ''zoo'', cDashboardURL = ''https://dash'', cSharedSecret = ''0123456789abcdef'',
     cPermissionsFile = ''permissions.json'', cProcessName = [], cIntervalSeconds = 30, cSyncOperators = True, cInsecureHTTP = False\<rparr>"

definition zooWire :: "ledger \<Rightarrow> wire" where
  "zooWire l = \<lparr>encode = (\<lambda>_. ''{}''), decodeOperators = (\<lambda>_. Some (map entryOf (snapshotRows l ''zoo''))),
     decodeRows = (\<lambda>s. if s = ''old'' then [\<lparr>rowPermission = ''operator'', rowXUID = ''2535''\<rparr>]
        else map snd (foldl operatorRow [] (map entryOf (snapshotRows l ''zoo'')))),
     encodeRows = (\<lambda>_. ''[]'')\<rparr>"

definition zooDash :: "ledger \<Rightarrow> dashboard" where
  "zooDash l = emptyDashboard\<lparr>secret := ''0123456789abcdef'', db := l\<rparr>"

lemma zoo_texts: "trim_space ''old'' \<noteq> []" "trim_space (''[]'' @ [newline]) \<noteq> []" "normalizeCompanionServerID ''zoo'' = ''zoo''"
  "''[]'' @ [newline] \<noteq> ''old''" "validate zooAgent = Inr ()"
  by code_simp+

lemma zoo_paired: "paired zooAgent (clock zooHost 2) (clock zooHost 0) (zooDash l)"
  "replaySeen (zooDash l) = []" "db (zooDash l) = l"
  by (simp_all add: paired_def zoo_texts zooAgent_def [symmetric])
    (simp_all add: zooHost_def zooAgent_def zooDash_def companionSecret_def emptyDashboard_def map_get_def)

lemma zoo_rows: "existingRows (zooWire l) (Some ''old'') = [\<lparr>rowPermission = ''operator'', rowXUID = ''2535''\<rparr>]"
  "existingRows (zooWire l) (Some (''[]'' @ [newline])) = map snd (foldl operatorRow [] (map entryOf (snapshotRows l ''zoo'')))"
  unfolding existingRows_def option.case if_P [OF zoo_texts(1)] if_P [OF zoo_texts(2)]
  by (simp_all only: zooWire_def wire.select_convs zoo_texts(4) if_False if_True simp_thms)

lemma zoo_desired: "desiredRows (zooWire l) operators (Some ''old'') = map snd (foldl operatorRow [] operators)"
  unfolding desiredRows_def zoo_rows by (simp add: keptRow_def)

lemma zoo_carries: "carries (zooWire l) (\<lambda>_. Some ''zoo'') zooAgent l now (Some ''old'')"
proof -
  have "encode (zooWire l) v = ''{}''" "encodeRows (zooWire l) rows = ''[]''"
    "decodeOperators (zooWire l) s = Some (map entryOf (snapshotRows l ''zoo''))" "cServerID zooAgent = ''zoo''" for v rows s
    by (simp_all add: zooWire_def zooAgent_def)
  then show ?thesis unfolding carries_def Let_def zoo_desired zoo_texts(3)
    by (simp only: zoo_rows zoo_texts(3)) (simp add: responseLimit_def)
qed

theorem agent_request_accepted_witness:
  "fst (verifySignedBody sample_golib 1100 1100 (received [] (agentPost sample_golib (zooWire emptyLedger) 1100 zooAgent ''/ingest'' JNull))
    ''{}'' (zooDash emptyLedger)) = Inr ()"
proof -
  have "companionSecret (zooDash emptyLedger) (normalizeCompanionServerID (cServerID zooAgent)) = cSharedSecret zooAgent"
    using zoo_paired(1) [of emptyLedger] by (simp add: paired_def)
  from agent_request_accepted [OF zoo_texts(5) this, of 1100 1100 sample_golib "zooWire emptyLedger" "''/ingest''" JNull 1100 "[]"]
  show ?thesis by (simp add: zoo_paired(2) zooWire_def)
qed

theorem operators_synchronized_witness:
  "permissionOf (existingRows (zooWire emptyLedger) (snd (updatePermissions (zooWire emptyLedger) zooHost [] (Some ''old'')))) ''2535'' = None"
proof -
  have e: "encodeRows (zooWire emptyLedger) rows = ''[]''" for rows by (simp add: zooWire_def)
  have s: "snapshotRows emptyLedger ''zoo'' = []"
    by (simp add: snapshotRows_def profiles_def query_ignored_def querySelect_def emptyLedger_def order_desc_def Let_def)
  have u: "updatePermissions (zooWire emptyLedger) zooHost [] (Some ''old'') = (Inr (), Some (''[]'' @ [newline]))"
    by (simp add: updatePermissions_def sample_hosts e)
  have r: "existingRows (zooWire emptyLedger) (Some (encodeRows (zooWire emptyLedger) (desiredRows (zooWire emptyLedger) [] (Some ''old'')) @ [newline]))
      = desiredRows (zooWire emptyLedger) [] (Some ''old'')"
    unfolding e zoo_rows zoo_desired s by simp
  have k: "keptPermission [\<lparr>rowPermission = ''operator'', rowXUID = ''2535''\<rparr>] ''2535'' = None" by (simp add: keptPermission_def)
  from operators_synchronized [OF u r, of "''2535''"] show ?thesis by (simp add: u zoo_rows(1) k)
qed


theorem ledger_outage_revokes_operators_witness:
  "\<exists>d1 f'. syncOperators sample_golib (zooWire (operatorLedger\<lparr>dbOpen := False\<rparr>))
      (dashboardNet sample_golib (zooWire (operatorLedger\<lparr>dbOpen := False\<rparr>)) (\<lambda>_. None) (\<lambda>_. Some ''zoo'') zooHost []) zooHost zooAgent
      (zooDash (operatorLedger\<lparr>dbOpen := False\<rparr>)) (Some ''old'') = (Inr (), d1, f') \<and>
      permissionOf (existingRows (zooWire (operatorLedger\<lparr>dbOpen := False\<rparr>)) f') ''2535'' \<noteq> Some ''operator''"
proof -
  let ?l = "operatorLedger\<lparr>dbOpen := False\<rparr>"
  have "\<not> dbOpen ?l" by simp
  from ledger_outage_revokes_operators [of zooAgent zooHost zooHost "zooDash ?l" sample_golib "zooWire ?l" "\<lambda>_. Some ''zoo''"
      "Some ''old''" "\<lambda>_. None" "[]", unfolded zoo_paired(2,3), OF zoo_paired(1) _ zoo_carries sample_hosts(4) sample_hosts(4) sample_hosts(4) this]
  show ?thesis by simp blast
qed

theorem plain_http_check_is_textual_witness:
  "validate (zooAgent\<lparr>cDashboardURL := ''http://localhost'' @ ''.example.com''\<rparr>) = Inr ()"
proof -
  have "trim_space (cServerID zooAgent) \<noteq> []" "length (cSharedSecret zooAgent) \<ge> 16" by code_simp+
  from plain_http_check_is_textual [OF this] show ?thesis by blast
qed

end
