(* ===== verification/Companion.thy ===== *)
theory Companion
  imports Control
begin

text \<open>
  The companion manager (\<^verbatim>\<open>dashboard/management.go\<close>): the properties file that a companion on a backend reads, the
  compiled plugin that an administrator uploads, alone or inside nested ZIP archives, and the downloads.  The
  artifact is a file of the runtime directory.  Reading a ZIP archive is the parameter \<open>unzip\<close>, which lists the
  names of its files with their contents or the error of reading them; packing one is the parameter
  \<open>archive\<close>.  What is outside the runtime directory (the source archive, the time of the artifact) is in a record.
\<close>

section \<open>Connection state\<close>

definition companionStateFile :: "string \<Rightarrow> string" where
  "companionStateFile backendID = ''companion-state-'' @ safeFileID backendID @ ''.json''"

definition metricKeys :: "string list" where
  "metricKeys = [''companionVersion'', ''currentTps'', ''currentMspt'', ''uploadFailures'', ''queueDepth'']"

definition summaryOf :: "int \<Rightarrow> jobject \<Rightarrow> jobject \<Rightarrow> jobject" where
  "summaryOf now state summary =
     (let timestamp = (case number (field state ''timestamp'') of None \<Rightarrow> 0 | Some t \<Rightarrow> int_of_float (Finite t));
          age = (if timestamp > 0 then max 0 ((now - timestamp) div 1000) else 0);
          summary1 = put_field ''connected'' (JBool (timestamp > 0 \<and> age \<le> 60))
            (put_field ''ageSeconds'' (jint age) (put_field ''lastSeenAt'' (jint timestamp) summary))
      in case field state ''metrics'' of
           JObj metrics \<Rightarrow> foldl (\<lambda>s key. put_field key (field metrics key) s) summary1 metricKeys
         | _ \<Rightarrow> summary1)"

text \<open>A file that holds \<^verbatim>\<open>null\<close> decodes into a nil map, in which every key is missing.\<close>

definition companionStateSummary :: "int \<Rightarrow> string \<Rightarrow> dashboard \<Rightarrow> jobject" where
  "companionStateSummary now backendID d =
     (let summary = [(''connected'', JBool False), (''lastSeenAt'', jint 0), (''ageSeconds'', jint 0),
            (''stateFile'', JStr (companionStateFile backendID))]
      in case stateFiles d (companionStateFile backendID) of
           Decoded (JObj state) \<Rightarrow> summaryOf now state summary
         | Decoded JNull \<Rightarrow> summaryOf now [] summary
         | _ \<Rightarrow> summary)"

section \<open>The properties of a companion\<close>

definition companionKeys :: "(string \<times> string) list" where
  "companionKeys = [(''capture_mode'', ''metadata''), (''selected_packet_ids'', ''30,77''), (''payload_limit'', ''512''),
     (''redact_packet_ids'', ''1,3,4''), (''queue_capacity'', ''50000''), (''batch_size'', ''200''), (''flush_ms'', ''100''),
     (''movement_sample_rate'', ''20''), (''metrics_interval_ticks'', ''20''), (''reconnect_seconds'', ''3''),
     (''presence_enabled'', ''true''), (''presence_include_address'', ''false''), (''transfer_enabled'', ''true''),
     (''drop_receive_ids'', []), (''drop_send_ids'', [])]"

definition propertiesLines :: "golib \<Rightarrow> string \<Rightarrow> string \<Rightarrow> int \<Rightarrow> string \<Rightarrow> (string \<times> string) list \<Rightarrow> string list" where
  "propertiesLines G backendID publicHost publicPort secretValue settings =
     [''# Generated by Ninj-OS Edge Fabric for '' @ backendID,
      ''# Keep this file private because it contains the companion shared secret.'',
      ''# This is not the dashboard username, password, or browser session token.'',
      ''# Effective secret fingerprint: '' @ secretFingerprint G secretValue, [],
      ''dashboard_host='' @ publicHost, ''dashboard_port='' @ itoa publicPort] @
     [''shared_secret='' @ secretValue] @
     [''server_id='' @ backendID, []] @ map (\<lambda>(key, v). key @ ''='' @ v) settings"

definition linesText :: "string list \<Rightarrow> string" where
  "linesText ls = concat (map (\<lambda>l. l @ [newline]) ls)"

definition companionLines :: "golib \<Rightarrow> host \<Rightarrow> ini \<Rightarrow> string \<Rightarrow> string \<Rightarrow> string list" where
  "companionLines G h doc backendID secretValue =
     propertiesLines G backendID (get doc ''dashboard'' ''public_host'' (get doc ''edge'' ''public_host'' ''127.0.0.1''))
       (getInt doc ''dashboard'' ''port'' 25571 1 65535) secretValue
       (map (\<lambda>(key, fallback). (key, get doc ''companion'' key fallback)) companionKeys)"

definition companionProperties :: "golib \<Rightarrow> host \<Rightarrow> ini \<Rightarrow> string \<Rightarrow> string result" where
  "companionProperties G h doc backendID0 =
     (let backendID = to_lower (trim_space backendID0); secretValue = effectiveCompanionSecret h doc backendID in
      if \<not> hasSection doc (''backend.'' @ backendID) then Inl ''Backend not found''
      else if secretValue = [] then Inl ''No companion secret is configured for this backend''
      else Inr (linesText (companionLines G h doc backendID secretValue)))"

definition maskedLine :: "string \<Rightarrow> string" where
  "maskedLine l = (if has_prefix l ''shared_secret='' then ''shared_secret=[CONFIGURED]'' else l)"

definition preview :: "string \<Rightarrow> string" where
  "preview properties = trim_space (linesText (map maskedLine (split_on newline properties)))"

section \<open>The plugin\<close>

record companionHost =
  chSourcePath :: string
  chSource :: "string option"
  chModified :: int

definition artifactName :: string where
  "artifactName = ''companion-artifacts/ninjos_proxie_companion.so''"

definition pluginName :: string where "pluginName = ''ninjos_proxie_companion.so''"

definition companionArtifactStatus :: "golib \<Rightarrow> companionHost \<Rightarrow> dashboard \<Rightarrow> jobject" where
  "companionArtifactStatus G c d =
     [(''compiledAvailable'', JBool (runtimeFiles d artifactName \<noteq> None)), (''artifactPath'', JStr (pathJoin (runtimeDir d) artifactName)),
      (''sourceAvailable'', JBool (chSource c \<noteq> None)), (''sourcePath'', JStr (chSourcePath c))] @
     (case runtimeFiles d artifactName of
        None \<Rightarrow> []
      | Some plugin \<Rightarrow> [(''compiledBytes'', jint (int (length plugin))), (''compiledUpdatedAt'', jint (chModified c)),
          (''compiledSHA256'', JStr (hex_encode (sha256 G plugin)))])"

text \<open>\<^verbatim>\<open>filepath.Base\<close>.\<close>

definition pathBase :: "string \<Rightarrow> string" where
  "pathBase p =
     (if p = [] then ''.''
      else let q = trim_right_set p ''/'' in if q = [] then ''/'' else last (split_on (CHR ''/'') q))"

type_synonym unzipper = "string \<Rightarrow> (string \<times> string result) list option"

definition isPlugin :: "string \<times> string result \<Rightarrow> bool" where
  "isPlugin entry \<longleftrightarrow> pathBase (fst entry) = pluginName"

definition isArchive :: "string \<times> string result \<Rightarrow> bool" where
  "isArchive entry \<longleftrightarrow> has_suffix (to_lower (fst entry)) ''.zip''"

text \<open>The first nested archive whose search succeeds; the error is that of the search as a whole.\<close>

fun firstFound :: "'a result list \<Rightarrow> 'a result" where
  "firstFound [] = Inl ''ZIP does not contain ninjos_proxie_companion.so''"
| "firstFound (Inr plugin # rest) = Inr plugin"
| "firstFound (Inl err # rest) = firstFound rest"

definition pluginLimit :: nat where "pluginLimit = 100 * 1024 * 1024"

definition archiveLimit :: nat where "archiveLimit = 110 * 1024 * 1024"

definition nestedArchives :: "(string \<times> string result) list \<Rightarrow> string list" where
  "nestedArchives files = concat (map (\<lambda>(name, content). case content of Inl _ \<Rightarrow> [] | Inr data \<Rightarrow> [take archiveLimit data]) (filter isArchive files))"

text \<open>The search recurses on the contents of a file, which need not be smaller than the archive: it ends
  because the depth is limited.\<close>

function extractCompanionSOFromZip :: "unzipper \<Rightarrow> string \<Rightarrow> nat \<Rightarrow> string result" where
  "extractCompanionSOFromZip unzip data depth =
     (if depth > 2 then Inl ''Companion artifact ZIP nesting is too deep''
      else case unzip data of
        None \<Rightarrow> Inl ''Invalid ZIP archive''
      | Some files \<Rightarrow>
          (case find isPlugin files of
             Some (name, content) \<Rightarrow> (case content of Inl err \<Rightarrow> Inl err | Inr plugin \<Rightarrow> Inr (take pluginLimit plugin))
           | None \<Rightarrow> firstFound (map (\<lambda>nested. extractCompanionSOFromZip unzip nested (Suc depth)) (nestedArchives files))))"
  by pat_completeness auto

termination
  by (relation "measure (\<lambda>(unzip, data, depth). 3 - depth)") auto

declare extractCompanionSOFromZip.simps [simp del]

definition extractCompanionSO :: "unzipper \<Rightarrow> string \<Rightarrow> string \<Rightarrow> string result" where
  "extractCompanionSO unzip data filename =
     (if has_suffix (to_lower filename) ''.so'' then Inr data
      else if \<not> has_suffix (to_lower filename) ''.zip''
      then Inl ''Upload a compiled ninjos_proxie_companion.so or GitHub artifact ZIP''
      else extractCompanionSOFromZip unzip data 0)"

text \<open>The machine is a 16-bit number, low byte first.\<close>

definition machineOf :: "string \<Rightarrow> nat" where
  "machineOf data = (byte_val (data ! 18) OR push_bit 8 (byte_val (data ! 19)) mod 2 ^ 16) mod 2 ^ 16"

definition validateCompanionELF :: "string \<Rightarrow> unit result" where
  "validateCompanionELF data =
     (if length data < 20 \<or> byte_val (data ! 0) \<noteq> 127 \<or> take 3 (drop 1 data) \<noteq> ''ELF''
      then Inl ''Companion artifact is not an ELF shared library''
      else if byte_val (data ! 4) \<noteq> 2 \<or> byte_val (data ! 5) \<noteq> 1
      then Inl ''Companion artifact must be a 64-bit little-endian Linux library''
      else if machineOf data \<noteq> 62 then Inl ''Companion artifact must target Linux x86-64''
      else Inr ())"

section \<open>Upload and removal\<close>

datatype uploadForm = BadForm | NoFile | Uploaded string "string result"

text \<open>The directory, the temporary file and its renaming are the writes \<open>0\<close>, \<open>1\<close> and \<open>2\<close>.\<close>

definition handleCompanionArtifactUpload :: "golib \<Rightarrow> unzipper \<Rightarrow> companionHost \<Rightarrow> uploadForm \<Rightarrow> handler" where
  "handleCompanionArtifactUpload G unzip c form h r d =
     (case form of
        BadForm \<Rightarrow> (error_reply 400 ''Invalid companion upload'', d)
      | NoFile \<Rightarrow> (error_reply 400 ''The artifact file is required'', d)
      | Uploaded filename content \<Rightarrow> finish d (
          attempt (or_reply 500 content) (\<lambda>data0.
          attempt (or_reply 400 (extractCompanionSO unzip (take archiveLimit data0) filename)) (\<lambda>plugin.
          attempt (or_reply 400 (validateCompanionELF plugin)) (\<lambda>_.
          attempt (check (diskOK h 0 \<and> diskOK h 1 \<and> diskOK h 2) (error_reply 500 ''write error'')) (\<lambda>_.
          let d1 = appendAudit h (clock h 0) r (principalFromRequest r) ''companion.artifact.upload'' ''success''
                (JObj [(''filename'', JStr (pathBase filename)), (''bytes'', jint (int (length plugin)))]) (putRuntime artifactName plugin d)
          in Inr ((201, JObj (companionArtifactStatus G c d1)), d1)))))))"

text \<open>Removing a file that is not there is no error.\<close>

definition deleteArtifact :: handler where
  "deleteArtifact h r d =
     (if runtimeFiles d artifactName \<noteq> None \<and> \<not> diskOK h 0 then (error_reply 500 ''remove error'', d)
      else ((200, JObj [(''deleted'', JBool True)]),
        appendAudit h (clock h 0) r (principalFromRequest r) ''companion.artifact.delete'' ''success'' JNull
          (d\<lparr>runtimeFiles := (runtimeFiles d)(artifactName := None)\<rparr>)))"

definition managedBackend :: "golib \<Rightarrow> host \<Rightarrow> ini \<Rightarrow> dashboard \<Rightarrow> nat \<Rightarrow> backendDefinition \<Rightarrow> json" where
  "managedBackend G h doc d i b =
     (let properties = companionProperties G h doc (bID b)
      in JObj [(''id'', JStr (bID b)), (''displayName'', JStr (bDisplayName b)),
           (''configured'', JBool (case properties of Inl _ \<Rightarrow> False | Inr _ \<Rightarrow> True)),
           (''secretFingerprint'', JStr (secretFingerprint G (effectiveCompanionSecret h doc (bID b)))),
           (''connection'', JObj (companionStateSummary (clock h i) (bID b) d)),
           (''error'', JStr (case properties of Inl err \<Rightarrow> err | Inr _ \<Rightarrow> [])),
           (''preview'', JStr (case properties of Inl _ \<Rightarrow> [] | Inr content \<Rightarrow> preview content))])"

text \<open>The topology is shown even when it is not valid.\<close>

definition handleCompanionManager :: "golib \<Rightarrow> unzipper \<Rightarrow> companionHost \<Rightarrow> uploadForm \<Rightarrow> handler" where
  "handleCompanionManager G unzip c form h r d =
     (if verb r = ''GET'' then
        (case loadINI d of
           Inl err \<Rightarrow> (error_reply 500 err, d)
         | Inr doc \<Rightarrow>
             ((200, JObj [(''backends'', JArr (map (\<lambda>(i, b). managedBackend G h doc d i b) (enumerate 0 (tBackends (unifiedTopology doc))))),
                (''artifact'', JObj (companionArtifactStatus G c d))]), d))
      else if verb r = ''POST'' then handleCompanionArtifactUpload G unzip c form h r d
      else if verb r = ''DELETE'' then deleteArtifact h r d
      else (error_reply 405 ''Method not allowed'', d))"

section \<open>Downloads\<close>

definition plainNameChar :: "char \<Rightarrow> bool" where
  "plainNameChar c \<longleftrightarrow> is_lower_alpha c \<or> is_digit_char c \<or> c = CHR ''_'' \<or> c = CHR ''-''"

text \<open>Each longest run of other characters becomes one dash.\<close>

fun dashRuns :: "bool \<Rightarrow> string \<Rightarrow> string" where
  "dashRuns inRun [] = []"
| "dashRuns inRun (c # cs) =
     (if plainNameChar c then c # dashRuns False cs else if inRun then dashRuns True cs else CHR ''-'' # dashRuns True cs)"

definition safeDownloadName :: "string \<Rightarrow> string" where
  "safeDownloadName value =
     (let name = trim_set (dashRuns False (to_lower (trim_space value))) ''-'' in if name = [] then ''server'' else name)"

definition installText :: string where
  "installText = ''Extract this ZIP into the Endstone server root while the server is stopped.'' @ [newline] @
     ''Delete any old cached companion copy under plugins/.local/ before starting Endstone.'' @ [newline]"

definition packageFiles :: "golib \<Rightarrow> string \<Rightarrow> string \<Rightarrow> (string \<times> string) list" where
  "packageFiles G plugin properties =
     [(''plugins/ninjos_proxie_companion.so'', plugin),
      (''plugins/ninjos_proxie_companion/companion.properties'', properties), (''INSTALL.txt'', installText),
      (''SHA256SUMS.txt'', hex_encode (sha256 G plugin) @ ''  plugins/ninjos_proxie_companion.so'' @ [newline])]"

text \<open>A download is a file name and its contents, or a reply with an error.\<close>

definition handleCompanionDownload ::
  "golib \<Rightarrow> ((string \<times> string) list \<Rightarrow> string) \<Rightarrow> companionHost \<Rightarrow> host \<Rightarrow> http_request \<Rightarrow> dashboard \<Rightarrow>
   (reply + string \<times> string) \<times> dashboard" where
  "handleCompanionDownload G archive c h r d =
     (let backendID = to_lower (trim_space (query r ''backend''));
          kind0 = to_lower (trim_space (query r ''type''));
          kind = (if kind0 = [] then ''properties'' else kind0);
          audit = (\<lambda>action details. appendAudit h (clock h 0) r (principalFromRequest r) action ''success'' details d);
          named = JObj [(''backend'', JStr backendID)] in
      case loadINI d of
        Inl err \<Rightarrow> (Inl (error_reply 500 err), d)
      | Inr doc \<Rightarrow>
          if kind = ''source'' then
            (case chSource c of
               None \<Rightarrow> (Inl (error_reply 404 ''Companion source archive is not installed in this runtime''), d)
             | Some content \<Rightarrow> (Inr (''NinjOS-Endstone-Companion-v3.7.1-GitHub-Clean.zip'', content), audit ''companion.source.download'' JNull))
          else (case companionProperties G h doc backendID of
            Inl err \<Rightarrow> (Inl (error_reply 400 err), d)
          | Inr properties \<Rightarrow>
              if kind = ''properties'' then
                (Inr (''companion-'' @ safeDownloadName backendID @ ''.properties'', properties), audit ''companion.config.download'' named)
              else if kind \<noteq> ''package'' then (Inl (error_reply 400 ''type must be properties, source, or package''), d)
              else (case runtimeFiles d artifactName of
                 None \<Rightarrow> (Inl (error_reply 409 ''Upload the compiled companion .so or GitHub artifact ZIP before downloading an install-ready package''), d)
               | Some plugin \<Rightarrow>
                   (Inr (''NinjOS-Companion-'' @ safeDownloadName backendID @ ''-Install.zip'', archive (packageFiles G plugin properties)),
                    audit ''companion.package.download'' named))))"

section \<open>Which plugins are stored\<close>

lemma machineOf_eq: "machineOf data = byte_val (data ! 18) + 256 * byte_val (data ! 19)"
proof -
  have b: "byte_val (data ! 18) < 256" "byte_val (data ! 19) < 256" by (rule byte_val_less)+
  have "push_bit 8 (byte_val (data ! 19)) mod 2 ^ 16 = push_bit 8 (byte_val (data ! 19))"
    using b(2) by (simp add: push_bit_eq_mult)
  moreover have "byte_val (data ! 18) OR push_bit 8 (byte_val (data ! 19)) = 256 * byte_val (data ! 19) + byte_val (data ! 18)"
    using or_disjoint_nat [of "byte_val (data ! 18)" 8 "byte_val (data ! 19)"] b(1) by (simp add: or.commute)
  ultimately show ?thesis using b by (simp add: machineOf_def)
qed

lemma validateCompanionELF_Inr:
  "validateCompanionELF data = Inr u \<longleftrightarrow> length data \<ge> 20 \<and> byte_val (data ! 0) = 127 \<and> take 3 (drop 1 data) = ''ELF'' \<and>
     byte_val (data ! 4) = 2 \<and> byte_val (data ! 5) = 1 \<and> byte_val (data ! 18) = 62 \<and> byte_val (data ! 19) = 0"
proof -
  have "machineOf data = 62 \<longleftrightarrow> byte_val (data ! 18) = 62 \<and> byte_val (data ! 19) = 0"
    unfolding machineOf_eq by (cases "byte_val (data ! 19)") auto
  moreover have "(if p then Inl x else if q then Inl y else if s then Inl z else Inr ()) = Inr u \<longleftrightarrow> \<not> p \<and> \<not> q \<and> \<not> s"
    for p q s and x y z :: string by simp
  ultimately show ?thesis unfolding validateCompanionELF_def by (simp only: de_Morgan_disj not_not not_less conj_assoc)
qed

definition artifactOK :: "dashboard \<Rightarrow> bool" where
  "artifactOK d \<longleftrightarrow> (case runtimeFiles d artifactName of None \<Rightarrow> True | Some plugin \<Rightarrow> validateCompanionELF plugin = Inr ())"

lemma upload_cases:
  assumes "handleCompanionArtifactUpload G unzip c form h r d = (rep, d')"
  shows "is_error rep \<and> d' = d \<or>
    fst rep = 201 \<and> (\<exists>filename data0 plugin. form = Uploaded filename (Inr data0) \<and>
      extractCompanionSO unzip (take archiveLimit data0) filename = Inr plugin \<and> validateCompanionELF plugin = Inr () \<and>
      runtimeFiles d' artifactName = Some plugin)"
proof (cases form)
  case (Uploaded filename content)
  note m = assms [unfolded handleCompanionArtifactUpload_def Uploaded uploadForm.case]
  show ?thesis
  proof (cases content)
    case (Inl err)
    with m have "rep = error_reply 500 err" "d' = d" by simp_all
    then show ?thesis by simp
  next
    case data: (Inr data0)
    show ?thesis
    proof (cases "extractCompanionSO unzip (take archiveLimit data0) filename")
      case (Inl err)
      with m data have "rep = error_reply 400 err" "d' = d" by simp_all
      then show ?thesis by simp
    next
      case plugin: (Inr plugin)
      show ?thesis
      proof (cases "validateCompanionELF plugin")
        case (Inl err)
        with m data plugin have "rep = error_reply 400 err" "d' = d" by simp_all
        then show ?thesis by simp
      next
        case valid: (Inr u)
        note m2 = m [unfolded data plugin valid early_return_simps attempt_simps]
        show ?thesis
        proof (cases "diskOK h 0 \<and> diskOK h 1 \<and> diskOK h 2")
          case True
          from m2 [unfolded eqTrueI [OF True] early_return_simps attempt_simps Let_def] Uploaded data plugin valid
          show ?thesis by (auto simp: runtimeFiles_log putRuntime_def)
        next
          case False
          from m2 [unfolded if_not_P [OF False] eq_False [THEN iffD2, OF False] early_return_simps attempt_simps] show ?thesis by auto
        qed
      qed
    qed
  qed
qed (use assms in \<open>auto simp: handleCompanionArtifactUpload_def\<close>)

lemma deleteArtifact_files: "runtimeFiles (snd (deleteArtifact h r d)) artifactName \<in> {None, runtimeFiles d artifactName}"
  by (auto simp: deleteArtifact_def runtimeFiles_log)


section \<open>The search in nested archives\<close>

text \<open>\<open>reaches unzip n data plugin\<close>: the plugin is found below \<open>n\<close> archives inside \<open>data\<close>; an archive that lists the
  plugin itself is not searched further.\<close>

inductive reaches :: "unzipper \<Rightarrow> nat \<Rightarrow> string \<Rightarrow> string \<Rightarrow> bool" for unzip where
  here: "unzip data = Some files \<Longrightarrow> find isPlugin files = Some (name, Inr plugin) \<Longrightarrow> reaches unzip 0 data (take pluginLimit plugin)"
| inside: "unzip data = Some files \<Longrightarrow> find isPlugin files = None \<Longrightarrow> nested \<in> set (nestedArchives files) \<Longrightarrow>
    reaches unzip n nested plugin \<Longrightarrow> reaches unzip (Suc n) data plugin"

inductive_cases reaches_ZeroE: "reaches unzip 0 data plugin"
inductive_cases reaches_SucE: "reaches unzip (Suc n) data plugin"

lemma firstFound_Inr: "firstFound rs = Inr p \<Longrightarrow> Inr p \<in> set rs"
  by (induction rs rule: firstFound.induct) auto

lemma firstFound_ex: "(\<exists>p. firstFound rs = Inr p) \<longleftrightarrow> (\<exists>p. Inr p \<in> set rs)"
  by (induction rs rule: firstFound.induct) auto

lemma extract_sound: "extractCompanionSOFromZip unzip data depth = Inr p \<Longrightarrow> \<exists>n. depth + n \<le> 2 \<and> reaches unzip n data p"
proof (induction unzip data depth arbitrary: p rule: extractCompanionSOFromZip.induct)
  case (1 unzip data depth)
  note eq = 1(2) [unfolded extractCompanionSOFromZip.simps [of unzip data depth]]
  have d: "\<not> depth > 2" using eq by (auto split: if_splits)
  then obtain files where f: "unzip data = Some files" using eq by (auto split: option.splits)
  show ?case
  proof (cases "find isPlugin files")
    case None
    with eq d f have "firstFound (map (\<lambda>nested. extractCompanionSOFromZip unzip nested (Suc depth)) (nestedArchives files)) = Inr p"
      by simp
    from firstFound_Inr [OF this] obtain nested where n: "nested \<in> set (nestedArchives files)"
      and x: "extractCompanionSOFromZip unzip nested (Suc depth) = Inr p" by auto
    from 1(1) [OF d f None n x] obtain m where "Suc depth + m \<le> 2" "reaches unzip m nested p" by blast
    with reaches.inside [of unzip, OF f None n] show ?thesis by (intro exI [of _ "Suc m"]) auto
  next
    case (Some entry)
    with eq d f obtain name plugin where "entry = (name, Inr plugin)" "p = take pluginLimit plugin"
      by (cases entry) (auto split: sum.splits)
    with reaches.here [of unzip, OF f] Some d show ?thesis by (intro exI [of _ 0]) auto
  qed
qed

lemma extract_complete: "reaches unzip n data p \<Longrightarrow> depth + n \<le> 2 \<Longrightarrow> \<exists>q. extractCompanionSOFromZip unzip data depth = Inr q"
proof (induction arbitrary: depth rule: reaches.induct)
  case (here data files name plugin)
  then show ?case by (simp add: extractCompanionSOFromZip.simps [of unzip data depth])
next
  case (inside data files nested n p)
  from inside.IH [of "Suc depth"] inside.prems obtain q where "extractCompanionSOFromZip unzip nested (Suc depth) = Inr q" by auto
  with inside.hyps(3) have "\<exists>q. Inr q \<in> set (map (\<lambda>nested. extractCompanionSOFromZip unzip nested (Suc depth)) (nestedArchives files))"
    by force
  with inside.hyps inside.prems show ?case
    by (simp add: extractCompanionSOFromZip.simps [of unzip data depth] firstFound_ex del: set_map)
qed

text \<open>C39: The search for the plugin ends whatever the archives contain, also when one contains itself, and it is exact:
  it finds a plugin if and only if one is reached below at most two nested archives, and what it finds was reached so.\<close>

theorem plugin_search_is_exact:
  "case extractCompanionSOFromZip unzip data 0 of
     Inr p \<Rightarrow> (\<exists>n. n \<le> 2 \<and> reaches unzip n data p)
   | Inl _ \<Rightarrow> \<not> (\<exists>n p. n \<le> 2 \<and> reaches unzip n data p)"
  using extract_sound [of unzip data 0] extract_complete [of unzip _ data _ 0] by (fastforce split: sum.splits)

section \<open>What the properties carry\<close>

lemma resolveConfigValue_trim: "resolveConfigValue h (trim_space v) = resolveConfigValue h v"
  by (simp add: resolveConfigValue_def)

lemma resolveConfigValue_Nil: "resolveConfigValue h [] = []"
  by (simp add: resolveConfigValue_def has_prefix_def to_lower_def)

lemma effective_is_backendSecret:
  assumes "backendIDPattern (bID b)" and "effectiveCompanionSecret h doc (bID b) \<noteq> []"
  shows "effectiveCompanionSecret h doc (bID b) = backendSecret h doc b"
proof -
  let ?v = "map_get (sectionValues doc (''backend.'' @ bID b)) ''companion_secret''"
  have i: "to_lower (trim_space (bID b)) = bID b" and s: "to_lower (trim_space (''backend.'' @ bID b)) = ''backend.'' @ bID b"
    using backendID_normal [OF assms(1)] backend_section_name [OF assms(1)] by (simp_all add: normalizeCompanionServerID_def)
  note e = assms(2) [unfolded effectiveCompanionSecret_def Let_def i resolveConfigValue_trim]
  have d: "resolveConfigValue h (get doc ''companion'' ''default_secret'' []) = defaultSecret h doc"
    if "resolveConfigValue h (get doc ''companion'' ''default_secret'' []) \<noteq> []"
    using that resolveConfigValue_Nil [of h] by (auto simp: defaultSecret_def get_def Let_def split: option.splits if_splits)
  show ?thesis
    using e d unfolding effectiveCompanionSecret_def backendSecret_def Let_def i s resolveConfigValue_trim
    by (auto split: if_splits)
qed


lemma linesText_append: "linesText (xs @ ys) = linesText xs @ linesText ys"
  by (simp add: linesText_def)


lemma preview_lines:
  assumes "\<forall>l\<in>set ls. newline \<notin> set l"
  shows "preview (linesText ls) = trim_space (linesText (map maskedLine ls @ [[]]))"
proof -
  have "maskedLine [] = []" by (simp add: maskedLine_def has_prefix_def)
  then show ?thesis using split_on_terminated [OF assms] by (simp add: preview_def linesText_def)
qed

text \<open>No line of the properties has a line break when the document was read from a file.\<close>

lemma get_text:
  assumes "ini_text doc" and "newline \<notin> set fallback"
  shows "newline \<notin> set (get doc s k fallback)"
proof (cases "map_of doc (to_lower s)")
  case (Some kvs)
  then have "list_all entry_text kvs" using ini_text_section [OF assms(1)] map_of_SomeD by metis
  then have "\<forall>x\<in>set kvs. newline \<notin> set (snd x)" by (auto simp: entry_text_def list_all_iff)
  then have "newline \<notin> set (map_get kvs (to_lower k))"
    by (cases "map_of kvs (to_lower k)") (auto simp: map_get_def dest!: map_of_SomeD)
  then show ?thesis using Some assms(2) set_trim_space by (auto simp: get_def Let_def)
qed (use assms(2) in \<open>simp add: get_def\<close>)

lemma fingerprint_text: "newline \<notin> set (secretFingerprint G s)"
proof -
  have "list_all (\<lambda>c. char_upper c \<noteq> newline) hex_alphabet" by code_simp
  then have "newline \<notin> set (map char_upper (hex_encode (take 6 (sha256 G s))))"
    using hex_encode_set [of "take 6 (sha256 G s)"] by (force simp: list_all_iff subset_iff)
  then show ?thesis by (auto simp: secretFingerprint_def to_upper_def)
qed

lemma companionKeys_text: "list_all (\<lambda>(key, fallback). newline \<notin> set key \<and> newline \<notin> set fallback) companionKeys"
  by code_simp

lemma propertiesLines_text:
  assumes "newline \<notin> set backendID" and "newline \<notin> set publicHost" and "newline \<notin> set s"
    and "\<forall>(key, v)\<in>set settings. newline \<notin> set key \<and> newline \<notin> set v"
  shows "\<forall>l\<in>set (propertiesLines G backendID publicHost p s settings). newline \<notin> set l"
proof -
  have lit: "newline \<notin> set ''# Generated by Ninj-OS Edge Fabric for ''"
    "newline \<notin> set ''# Keep this file private because it contains the companion shared secret.''"
    "newline \<notin> set ''# This is not the dashboard username, password, or browser session token.''"
    "newline \<notin> set ''# Effective secret fingerprint: ''" "newline \<notin> set ''dashboard_host=''" "newline \<notin> set ''dashboard_port=''"
    "newline \<notin> set ''shared_secret=''" "newline \<notin> set ''server_id=''" "newline \<notin> set ''=''" by code_simp+
  have "newline \<notin> set (key @ ''='' @ v)" if "(key, v) \<in> set settings" for key v
    unfolding set_append Un_iff using that assms(4) lit(9) by blast
  then have "\<forall>l\<in>set (map (\<lambda>(key, v). key @ ''='' @ v) settings). newline \<notin> set l"
    unfolding set_map by (auto simp del: set_append)
  moreover note lit assms(1-3) fingerprint_text [of G s] itoa_no_bar(2)
  ultimately show ?thesis
    unfolding propertiesLines_def set_append list.set ball_Un ball_simps Un_iff empty_iff by simp
qed

lemma companionLines_text:
  assumes "ini_text doc" and "newline \<notin> set backendID" and "newline \<notin> set s"
  shows "\<forall>l\<in>set (companionLines G h doc backendID s). newline \<notin> set l"
proof -
  have "newline \<notin> set ''127.0.0.1''" by code_simp
  then have "newline \<notin> set (get doc ''dashboard'' ''public_host'' (get doc ''edge'' ''public_host'' ''127.0.0.1''))"
    by (intro get_text [OF assms(1)])
  moreover have "\<forall>(key, v)\<in>set (map (\<lambda>(key, fallback). (key, get doc ''companion'' key fallback)) companionKeys). newline \<notin> set key \<and> newline \<notin> set v"
    using companionKeys_text get_text [OF assms(1)] by (fastforce simp: list_all_iff)
  ultimately show ?thesis unfolding companionLines_def by (intro propertiesLines_text assms)
qed

text \<open>The preview that the companion manager shows depends on the secret through its fingerprint only.\<close>

theorem preview_hides_secret:
  assumes "parseINI c = Inr doc" and "newline \<notin> set backendID" and "newline \<notin> set s1" and "newline \<notin> set s2"
    and "secretFingerprint G s1 = secretFingerprint G s2"
  shows "preview (linesText (companionLines G h doc backendID s1)) = preview (linesText (companionLines G h doc backendID s2))"
proof -
  have m: "maskedLine (''shared_secret='' @ s) = ''shared_secret=[CONFIGURED]''" for s
    unfolding maskedLine_def by (rule if_P) (rule has_prefix_append)
  have "map maskedLine (companionLines G h doc backendID s1) = map maskedLine (companionLines G h doc backendID s2)"
    unfolding companionLines_def propertiesLines_def map_append list.map m assms(5) by (rule refl)
  then show ?thesis using companionLines_text [OF parseINI_text [OF assms(1)] assms(2)] assms(3,4) by (simp add: preview_lines)
qed

section \<open>Names of downloads\<close>

lemma dashRuns_plain: "list_all plainNameChar (dashRuns b s)"
  by (induction b s rule: dashRuns.induct) (auto simp: plainNameChar_def)

lemma set_trim_set: "set (trim_set s cs) \<subseteq> set s"
  by (auto simp: trim_set_def trim_right_set_def dest!: set_dropWhileD)

lemma safeDownloadName_plain: "safeDownloadName v \<noteq> [] \<and> list_all plainNameChar (safeDownloadName v)"
proof -
  have "list_all plainNameChar ''server''" by code_simp
  then show ?thesis using dashRuns_plain set_trim_set
    by (auto simp: safeDownloadName_def Let_def list_all_iff subset_eq) blast+
qed

section \<open>A plugin and a package\<close>

definition sampleELF :: string where
  "sampleELF = [CHR 0x7F, CHR ''E'', CHR ''L'', CHR ''F'', CHR 0x02, CHR 0x01] @ replicate 12 (CHR 0x00) @ [CHR ''>'', CHR 0x00]"

lemma sampleELF_valid: "validateCompanionELF sampleELF = Inr ()" "has_suffix (to_lower ''plugin.so'') ''.so''"
proof -
  show "validateCompanionELF sampleELF = Inr ()"
    unfolding validateCompanionELF_Inr by (simp add: sampleELF_def byte_val_def numeral_eq_Suc)
  show "has_suffix (to_lower ''plugin.so'') ''.so''" by code_simp
qed


definition pairedLines :: "string list" where
  "pairedLines = [''[edge]'', ''primary_backend = zoo'', ''[backend.zoo]'', ''host = h'', ''companion_secret = correct-horse-battery'']"

definition pairedText :: string where
  "pairedText = concat (map (\<lambda>l. l @ [newline]) pairedLines)"

definition pairedDocument :: ini where
  "pairedDocument = [(''edge'', [(''primary_backend'', ''zoo'')]), (''backend.zoo'', [(''host'', ''h''), (''companion_secret'', ''correct-horse-battery'')])]"

lemma paired_parsed: "parseINI pairedText = Inr pairedDocument"
proof -
  have "\<forall>x \<in> set pairedLines. newline \<notin> set x \<and> (x = [] \<or> last x \<noteq> carriage_return) \<and> length x < 65536"
    by (auto simp: pairedLines_def newline_def carriage_return_def)
  note scan = scan_lines_printed [OF this]
  have "map_option snd (case iniLoop 1 (''edge'', [(''edge'', [])]) pairedLines of Inl e \<Rightarrow> None | Inr x \<Rightarrow> Some x) = Some pairedDocument"
    by code_simp
  then show ?thesis unfolding parseINI_def pairedText_def scan by (auto split: sum.splits)
qed

lemma paired_topology: "unifiedTopology pairedDocument = smallTopology ''primary'' 19132 0 50"
  by code_simp

lemma paired_valid: "validateUnifiedConfig h pairedDocument = Inr ()"
proof -
  have l: "to_lower ''edge'' = ''edge''" "to_lower ''config_version'' = ''config_version''"
    "to_lower ''transfer'' = ''transfer''" "to_lower ''session_core'' = ''session_core''" by code_simp+
  have g: "get pairedDocument ''edge'' ''config_version'' x = x" "get pairedDocument ''transfer'' k x = x"
    "get pairedDocument ''session_core'' k x = x" for k x
    by (simp_all add: get_def l pairedDocument_def map_get_def)
  have "validateUnifiedSecrets h pairedDocument = Inr ()" by (rule secrets_literal) code_simp
  then show ?thesis using g by (intro validate_short) (simp_all add: paired_topology smallTopology_valid)
qed


theorem preview_hides_secret_witness:
  "preview (linesText (companionLines sample_golib zooHost pairedDocument ''zoo'' ''a'')) =
   preview (linesText (companionLines sample_golib zooHost pairedDocument ''zoo'' ''dl''))"
proof (rule preview_hides_secret [OF paired_parsed])
  show "secretFingerprint sample_golib ''a'' = secretFingerprint sample_golib ''dl''" by code_simp
qed code_simp+

end
