(* ===== verification/Monitor.thy ===== *)
theory Monitor
  imports Control
begin

text \<open>
  Monitoring (\<^verbatim>\<open>dashboard/main.go\<close>): the public health pages, the metrics page, the numbers of the host, and the
  notifier that follows the event log and sends notable events to Discord; and the test of a backend with a RakNet ping
  (\<^verbatim>\<open>dashboard/backends.go\<close>).  The texts of the kernel's files and the answers of the network are arguments.
\<close>

section \<open>The product\<close>

definition productName :: string where "productName = ''Ninj-OS Proxie Edge Fabric''"
definition productVersion :: string where "productVersion = ''7.3.16''"
definition productEngine :: string where "productEngine = ''Ninj-OS Edge Datagram Engine''"
definition productImplementation :: string where "productImplementation = ''Ninj-OS protocol-agnostic transport core''"
definition productReference :: string where "productReference = ''ProxyPass by SculkCatalystMC''"
definition productReferenceURL :: string where "productReferenceURL = ''https://github.com/SculkCatalystMC/ProxyPass''"

section \<open>Health pages\<close>

definition handleHealth :: handler where
  "handleHealth h r d = ((200, JObj [(''ok'', JBool True), (''version'', JStr productVersion), (''timestamp'', jint (clock h 0))]), d)"

definition handleVersion :: handler where
  "handleVersion h r d =
     ((200, JObj [(''name'', JStr productName), (''version'', JStr productVersion), (''engine'', JStr productEngine),
        (''implementation'', JStr productImplementation), (''reference'', JStr productReference),
        (''reference_url'', JStr productReferenceURL)]), d)"

definition handleReady :: handler where
  "handleReady h r d =
     (let gateway = safeMap ''gateway-state.json'' d; ready = length gateway > 0
      in ((if ready then 200 else 503,
           JObj [(''ready'', JBool ready), (''gateway'', field gateway ''timestamp''), (''timestamp'', jint (clock h 0))]), d))"

definition handleBackendHealth :: "golib \<Rightarrow> handler" where
  "handleBackendHealth G h r d =
     ((200, JObj [(''backends'', field (combinedRuntimeState G d) ''backends''), (''timestamp'', jint (clock h 0))]), d)"

definition handleWhoAmI :: handler where
  "handleWhoAmI h r d = ((200, jprincipal (principalFromRequest r)), d)"

section \<open>Metrics\<close>

definition boolNumber :: "json \<Rightarrow> int" where
  "boolNumber v = (if v = JBool True then 1 else 0)"

definition gatewayCounters :: "(string \<times> string) list" where
  "gatewayCounters = [(''droppedPackets'', ''dropped_packets_total''), (''rateLimited'', ''rate_limited_total''),
     (''temporaryBans'', ''temporary_bans_total''), (''adaptiveWarnings'', ''adaptive_warnings_total''),
     (''configReloadFailures'', ''config_reload_failures_total'')]"

definition companionMetricLines :: "golib \<Rightarrow> jobject \<Rightarrow> string list" where
  "companionMetricLines G companion =
     (let metrics = as_object (field companion ''metrics''); server = quoted (textField G companion ''serverId'')
      in [''ninjos_companion_connected{server='' @ server @ ''} '' @ itoa (boolNumber (field companion ''connected'')),
          ''ninjos_bds_tps{server='' @ server @ ''} '' @ sprint G (field metrics ''currentTps''),
          ''ninjos_bds_mspt{server='' @ server @ ''} '' @ sprint G (field metrics ''currentMspt''),
          ''ninjos_bds_online_players{server='' @ server @ ''} '' @ sprint G (field metrics ''onlinePlayers'')])"

text \<open>Go iterates over the map of counters in an order of its own: \<open>counters\<close> is \<open>gatewayCounters\<close> in that order.\<close>

definition metricLines :: "golib \<Rightarrow> (string \<times> string) list \<Rightarrow> int \<Rightarrow> string list \<Rightarrow> dashboard \<Rightarrow> string list" where
  "metricLines G counters now paths d =
     (let gateway = combinedRuntimeState G d; values = as_object (field gateway ''counters'')
      in [''ninjos_gateway_active_sessions '' @ sprint G (field gateway ''activeSessions''),
          ''ninjos_gateway_tracked_ips '' @ sprint G (field gateway ''trackedIps'')] @
         map (\<lambda>(key, name). ''ninjos_gateway_'' @ name @ '' '' @ sprint G (field values key)) counters @
         concat (map (companionMetricLines G) (companionStates G now paths d)))"

text \<open>The page, or the status of a refusal.\<close>

definition handleMetrics ::
  "golib \<Rightarrow> string \<Rightarrow> (string \<times> string) list \<Rightarrow> string list \<Rightarrow> host \<Rightarrow> http_request \<Rightarrow> dashboard \<Rightarrow> nat + string" where
  "handleMetrics G metricsToken counters paths h r d =
     (if metricsToken \<noteq> [] \<and> bearer r \<noteq> metricsToken then Inl 401
      else Inr (concat (map (\<lambda>l. l @ [newline]) (metricLines G counters (clock h 0) paths d))))"

section \<open>The host's numbers\<close>

text \<open>\<^verbatim>\<open>strconv.ParseUint\<close>, with its value when it fails: zero, or the largest number when the text is out of range.\<close>

definition parseUintValue :: "string \<Rightarrow> nat" where
  "parseUintValue s = (case parse_nat s of None \<Rightarrow> 0 | Some n \<Rightarrow> min (2 ^ 64 - 1) n)"

definition usageLine :: "string \<Rightarrow> nat option" where
  "usageLine l = (case Go_Text.fields l of [name, v] \<Rightarrow> if name = ''usage_usec'' then Some (parseUintValue v) else None | _ \<Rightarrow> None)"

definition readCPUUsage :: "string option \<Rightarrow> nat" where
  "readCPUUsage f =
     (case f of
        None \<Rightarrow> 0
      | Some content \<Rightarrow> (case List.map_filter usageLine (split_on newline content) of [] \<Rightarrow> 0 | v # _ \<Rightarrow> v))"

text \<open>The sampler keeps the last reading with its time in nanoseconds.  \<open>fl\<close> rounds a number to a float.\<close>

record cpuState =
  cpuPercent :: rat
  lastCPUUsage :: nat
  lastCPUAt :: int

definition cpuTick :: "(rat \<Rightarrow> rat) \<Rightarrow> int \<Rightarrow> string option \<Rightarrow> cpuState \<Rightarrow> cpuState" where
  "cpuTick fl now f c =
     (let usage = readCPUUsage f; elapsed = (now - lastCPUAt c) div 1000
      in \<lparr>cpuPercent = (if elapsed > 0 \<and> usage \<ge> lastCPUUsage c
            then fl (fl (fl (of_nat (usage - lastCPUUsage c)) / fl (of_int elapsed)) * 100) else cpuPercent c),
          lastCPUUsage = usage, lastCPUAt = now\<rparr>)"

definition readInt :: "string option \<Rightarrow> int \<times> bool" where
  "readInt f =
     (case f of
        None \<Rightarrow> (0, False)
      | Some content \<Rightarrow>
          let v = trim_space content
          in if v = ''max'' then (0, False) else (atoi_value v, atoi v \<noteq> None))"

definition networkLine :: "int \<times> int \<Rightarrow> string \<Rightarrow> int \<times> int" where
  "networkLine totals raw =
     (case split2 (CHR '':'') (trim_space raw) of
        [name, counters] \<Rightarrow>
          let fs = Go_Text.fields counters
          in if trim_space name = ''lo'' \<or> length fs < 9 then totals
             else (wrap64 (fst totals + atoi_value (fs ! 0)), wrap64 (snd totals + atoi_value (fs ! 8)))
      | _ \<Rightarrow> totals)"

definition networkBytes :: "string option \<Rightarrow> int \<times> int" where
  "networkBytes f = (case f of None \<Rightarrow> (0, 0) | Some content \<Rightarrow> foldl networkLine (0, 0) (fst (scan_lines content)))"

record systemFiles =
  sfMemory :: "string option"
  sfMemoryMax :: "string option"
  sfNetwork :: "string option"
  sfLoad :: "string option"
  sfBlocks :: int
  sfAvailable :: int
  sfBlockSize :: int
  sfUptime :: rat
  sfRoutines :: int

text \<open>\<open>PF\<close> is \<^verbatim>\<open>strconv.ParseFloat\<close>; a load that is no finite number cannot be encoded, and is left out of the model.\<close>

definition loadAverage :: "(string \<Rightarrow> rat) \<Rightarrow> string option \<Rightarrow> rat list" where
  "loadAverage PF f =
     (let fs = (case f of None \<Rightarrow> [] | Some content \<Rightarrow> map PF (take 3 (Go_Text.fields content))) in fs @ replicate (3 - length fs) 0)"

definition systemMetrics :: "(string \<Rightarrow> rat) \<Rightarrow> systemFiles \<Rightarrow> cpuState \<Rightarrow> jobject" where
  "systemMetrics PF s c =
     (let (memory, _) = readInt (sfMemory s); (limit, hasLimit) = readInt (sfMemoryMax s);
          diskTotal = wrap64 (sfBlocks s * sfBlockSize s); diskFree = wrap64 (sfAvailable s * sfBlockSize s);
          (rx, tx) = networkBytes (sfNetwork s)
      in [(''cpuPercent'', JNum (cpuPercent c)), (''memoryBytes'', jint memory),
          (''diskUsedBytes'', jint (wrap64 (diskTotal - diskFree))), (''diskTotalBytes'', jint diskTotal),
          (''networkRxBytes'', jint rx), (''networkTxBytes'', jint tx), (''dashboardUptimeSeconds'', JNum (sfUptime s)),
          (''loadAverage'', JArr (map JNum (loadAverage PF (sfLoad s)))), (''goRoutines'', jint (sfRoutines s))] @
         (if hasLimit then [(''memoryLimitBytes'', jint limit)] else []))"

section \<open>Discord\<close>

record discordConfig =
  discordWebhook :: string
  discordBotToken :: string
  discordChannel :: string

definition discordMode :: "discordConfig \<Rightarrow> string" where
  "discordMode c =
     (if discordWebhook c \<noteq> [] then ''webhook''
      else if discordBotToken c \<noteq> [] \<and> discordChannel c \<noteq> [] then ''bot''
      else ''disabled'')"

text \<open>A request that is sent: its URL, its \<^verbatim>\<open>Authorization\<close> header and its payload.\<close>

record discordPost =
  dpURL :: string
  dpAuthorization :: string
  dpPayload :: json

definition discordRequest :: "discordConfig \<Rightarrow> json \<Rightarrow> discordPost" where
  "discordRequest c payload =
     (if discordMode c = ''bot''
      then \<lparr>dpURL = ''https://discord.com/api/v10/channels/'' @ discordChannel c @ ''/messages'',
            dpAuthorization = ''Bot '' @ discordBotToken c, dpPayload = payload\<rparr>
      else \<lparr>dpURL = discordWebhook c, dpAuthorization = [], dpPayload = payload\<rparr>)"

text \<open>\<open>net\<close> is the status of the answer, or the error of building or sending the request.\<close>

definition discordSend :: "(discordPost \<Rightarrow> nat result) \<Rightarrow> discordConfig \<Rightarrow> json \<Rightarrow> discordPost list \<times> unit result" where
  "discordSend net c payload =
     (if discordMode c = ''disabled'' then ([], Inr ())
      else let post = discordRequest c payload
           in ([post], case net post of
                Inl err \<Rightarrow> Inl err
              | Inr status \<Rightarrow> if status < 200 \<or> status \<ge> 300 then Inl ''status'' else Inr ()))"

definition notable :: "golib \<Rightarrow> jobject \<Rightarrow> bool" where
  "notable G event \<longleftrightarrow>
     textField G event ''severity'' = ''warning'' \<or> textField G event ''severity'' = ''error'' \<or>
     has_prefix (textField G event ''type'') ''backend.'' \<or> has_prefix (textField G event ''type'') ''transfer.''"

definition eventPayload :: "golib \<Rightarrow> string \<Rightarrow> jobject \<Rightarrow> json" where
  "eventPayload G stamp event =
     JObj [(''embeds'', JArr [JObj [(''title'', JStr (''Ninj-OS: '' @ textField G event ''type'')),
       (''description'', JStr (textField G event ''message'')),
       (''color'', jint (if textField G event ''severity'' = ''error'' then 15158332 else 16753920)),
       (''timestamp'', JStr stamp)]])]"

text \<open>One line of the log: the offset moves past it, and an event worth a message is sent.  \<open>decode\<close> is
  \<^verbatim>\<open>json.Unmarshal\<close> into a map; \<^verbatim>\<open>null\<close> decodes into a nil map, in which every key is missing.\<close>

definition watchLine :: "golib \<Rightarrow> (string \<Rightarrow> jobject option) \<Rightarrow> int \<times> jobject list \<Rightarrow> string \<Rightarrow> int \<times> jobject list" where
  "watchLine G decode st l =
     (let offset = fst st + int (length l + 1)
      in case decode l of
           None \<Rightarrow> (offset, snd st)
         | Some event \<Rightarrow> (offset, if notable G event then snd st @ [event] else snd st))"

text \<open>A tick on the current text of the log (\<open>None\<close>: it cannot be opened): the new offset and the events sent.\<close>

definition watcherTick :: "golib \<Rightarrow> (string \<Rightarrow> jobject option) \<Rightarrow> string option \<Rightarrow> int \<Rightarrow> int \<times> jobject list" where
  "watcherTick G decode f eventOffset =
     (case f of
        None \<Rightarrow> (eventOffset, [])
      | Some content \<Rightarrow>
          if eventOffset = 0 then (int (length content), [])
          else
            let offset = (if int (length content) < eventOffset then 0 else eventOffset)
            in foldl (watchLine G decode) (offset, []) (fst (scan_lines (drop (nat offset) content))))"

definition nested :: "jobject \<Rightarrow> string list \<Rightarrow> json" where
  "nested v keys =
     (let dash = JStr [CHR 0xE2, CHR 0x80, CHR 0x94] in
      case foldl (\<lambda>current key. Option.bind current (\<lambda>c. case c of JObj object \<Rightarrow> Some (field object key) | _ \<Rightarrow> None)) (Some (JObj v)) keys of
        None \<Rightarrow> dash
      | Some JNull \<Rightarrow> dash
      | Some current \<Rightarrow> current)"

definition summaryText :: "golib \<Rightarrow> dashboard \<Rightarrow> string" where
  "summaryText G d =
     (let gateway = combinedRuntimeState G d; companion = safeMap ''companion-state.json'' d
      in ''Sessions: '' @ sprint G (field gateway ''activeSessions'') @ [newline] @
         ''Routing: '' @ sprint G (field gateway ''routingMode'') @ [newline] @
         ''TPS: '' @ sprint G (nested companion [''metrics'', ''currentTps'']) @ [newline] @
         ''MSPT: '' @ sprint G (nested companion [''metrics'', ''currentMspt'']))"

definition summaryTick :: "golib \<Rightarrow> (discordPost \<Rightarrow> nat result) \<Rightarrow> discordConfig \<Rightarrow> string \<Rightarrow> dashboard \<Rightarrow> discordPost list" where
  "summaryTick G net c stamp d =
     (if discordMode c = ''disabled'' then []
      else fst (discordSend net c (JObj [(''embeds'', JArr [JObj [(''title'', JStr ''Ninj-OS Proxie Metrics''),
        (''description'', JStr (summaryText G d)), (''color'', jint 2619391), (''timestamp'', JStr stamp)]])])))"

section \<open>Testing a backend\<close>

definition raknetMagic :: string where
  "raknetMagic = map char_of [0x00, 0xff, 0xff, 0x00, 0xfe, 0xfe, 0xfe, 0xfe, 0xfd, 0xfd, 0xfd, 0xfd, 0x12, 0x34, 0x56, 0x78 :: nat]"

definition pingPacket :: "int \<Rightarrow> string" where
  "pingPacket now = [CHR 0x01] @ be_bytes 8 (nat (now mod 2 ^ 64)) @ raknetMagic @ be_bytes 8 0x4e696e6a4f535f36"

text \<open>\<open>response\<close> is what one read of at most 4096 bytes returned.\<close>

definition pongText :: "string \<Rightarrow> string result" where
  "pongText response =
     (let len = int (length response) in
      if len < 35 \<or> byte_val (response ! 0) \<noteq> 28 then Inl ''backend responded, but not with a Bedrock RakNet pong''
      else
        let motdLength0 = int (byte_val (response ! 33) * 256 + byte_val (response ! 34));
            motdLength1 = (if 35 + motdLength0 > len then len - 35 else motdLength0);
            motdLength = (if motdLength1 < 0 then 0 else motdLength1)
        in Inr (take (nat motdLength) (drop 35 response)))"

text \<open>\<open>exchange\<close> resolves the address, sends the packet and reads the answer.\<close>

definition pingBedrockBackend :: "(string \<Rightarrow> int \<Rightarrow> string \<Rightarrow> string result) \<Rightarrow> int \<Rightarrow> string \<Rightarrow> int \<Rightarrow> string result" where
  "pingBedrockBackend exchange now hostName portNumber =
     (if hostName = [] \<or> portNumber < 1 \<or> portNumber > 65535 then Inl ''a valid backend host and port are required''
      else attempt (exchange hostName portNumber (pingPacket now)) (\<lambda>response. pongText (take 4096 response)))"

definition handleBackendTest :: "(string \<Rightarrow> int \<Rightarrow> string \<Rightarrow> string result) \<Rightarrow> (string \<times> int) option \<Rightarrow> handler" where
  "handleBackendTest exchange decoded h r d =
     (if verb r \<noteq> ''POST'' then (error_reply 405 ''Method not allowed'', d)
      else case decoded of
        None \<Rightarrow> (error_reply 400 ''Invalid test request'', d)
      | Some (hostName, portNumber) \<Rightarrow>
          let latency = jint (clock h 2 - clock h 0) in
          (case pingBedrockBackend exchange (clock h 1) (trim_space hostName) portNumber of
             Inl err \<Rightarrow> ((200, JObj [(''reachable'', JBool False), (''latencyMs'', latency), (''error'', JStr err)]), d)
           | Inr motd \<Rightarrow> ((200, JObj [(''reachable'', JBool True), (''latencyMs'', latency), (''motd'', JStr motd)]), d)))"

section \<open>The notifier follows the log\<close>

definition plainLine :: "string \<Rightarrow> bool" where
  "plainLine l \<longleftrightarrow> newline \<notin> set l \<and> (l = [] \<or> last l \<noteq> carriage_return) \<and> length l < 65536"

abbreviation logText :: "string list \<Rightarrow> string" where
  "logText ls \<equiv> concat (map (\<lambda>l. l @ [newline]) ls)"

definition eventsOf :: "golib \<Rightarrow> (string \<Rightarrow> jobject option) \<Rightarrow> string list \<Rightarrow> jobject list" where
  "eventsOf G decode ls = filter (notable G) (List.map_filter decode ls)"

lemma eventsOf_append [simp]: "eventsOf G decode (xs @ ys) = eventsOf G decode xs @ eventsOf G decode ys"
  by (simp add: eventsOf_def List.map_filter_def)

lemma eventsOf_Nil [simp]: "eventsOf G decode [] = []"
  by (simp add: eventsOf_def List.map_filter_def)

lemma eventsOf_single: "eventsOf G decode [l] = (case decode l of None \<Rightarrow> [] | Some event \<Rightarrow> if notable G event then [event] else [])"
  by (simp add: eventsOf_def List.map_filter_def split: option.splits)

lemma watchLine_events: "watchLine G decode st l = (fst st + int (length l + 1), snd st @ eventsOf G decode [l])"
  by (simp add: watchLine_def eventsOf_single split: option.splits)

lemma watch_lines:
  "foldl (watchLine G decode) (off, sent) ls = (off + int (length (logText ls)), sent @ eventsOf G decode ls)"
proof (induction ls arbitrary: off sent)
  case (Cons l ls)
  have "foldl (watchLine G decode) (off, sent) (l # ls) =
      foldl (watchLine G decode) (off + int (length l + 1), sent @ eventsOf G decode [l]) ls"
    by (simp add: watchLine_events [of G decode "(off, sent)"])
  then show ?case using eventsOf_append [of G decode "[l]" ls] by (simp add: Cons.IH)
qed simp

lemma scan_log: "list_all plainLine ls \<Longrightarrow> scan_lines (logText ls) = (ls, False)"
  by (rule scan_lines_printed) (simp add: plainLine_def list_all_iff)

lemma tick_reads_rest:
  assumes "list_all plainLine ys" and "xs \<noteq> []"
  shows "watcherTick G decode (Some (logText (xs @ ys))) (int (length (logText xs))) =
    (int (length (logText (xs @ ys))), eventsOf G decode ys)"
proof -
  have "int (length (logText xs)) \<noteq> 0" using assms(2) by (cases xs) auto
  then show ?thesis using scan_log [OF assms(1)] by (simp add: watcherTick_def watch_lines)
qed

text \<open>A run of the notifier: lines are appended to the log, and ticks read it.\<close>

inductive watch_run :: "golib \<Rightarrow> (string \<Rightarrow> jobject option) \<Rightarrow> string list \<Rightarrow> string list \<Rightarrow> int \<Rightarrow> jobject list \<Rightarrow> bool"
  for G decode ls0 where
  first_tick: "watcherTick G decode (Some (logText ls0)) 0 = (off, new) \<Longrightarrow> watch_run G decode ls0 ls0 off new"
| line_written: "watch_run G decode ls0 ls off sent \<Longrightarrow> plainLine l \<Longrightarrow> watch_run G decode ls0 (ls @ [l]) off sent"
| next_tick: "watch_run G decode ls0 ls off sent \<Longrightarrow> watcherTick G decode (Some (logText ls)) off = (off', new) \<Longrightarrow>
    watch_run G decode ls0 ls off' (sent @ new)"

lemma watch_run_inv:
  assumes "watch_run G decode ls0 ls off sent" and "ls0 \<noteq> []"
  shows "\<exists>xs ys. ls = ls0 @ xs @ ys \<and> list_all plainLine (xs @ ys) \<and> off = int (length (logText (ls0 @ xs))) \<and> sent = eventsOf G decode xs"
  using assms
proof (induction rule: watch_run.induct)
  case (first_tick off new)
  then show ?case by (intro exI [of _ "[]"]) (simp add: watcherTick_def)
next
  case (line_written ls off sent l)
  then obtain xs ys where "ls = ls0 @ xs @ ys" "list_all plainLine (xs @ ys)" "off = int (length (logText (ls0 @ xs)))" "sent = eventsOf G decode xs"
    by blast
  then show ?case using line_written.hyps(2) by (intro exI [of _ xs] exI [of _ "ys @ [l]"]) simp
next
  case (next_tick ls off sent off' new)
  then obtain xs ys where i: "ls = ls0 @ xs @ ys" "list_all plainLine (xs @ ys)" "off = int (length (logText (ls0 @ xs)))" "sent = eventsOf G decode xs"
    by blast
  have "watcherTick G decode (Some (logText ((ls0 @ xs) @ ys))) off = (int (length (logText ((ls0 @ xs) @ ys))), eventsOf G decode ys)"
    unfolding i(3) using i(2) next_tick.prems by (intro tick_reads_rest) simp_all
  then have "off' = int (length (logText (ls0 @ xs @ ys)))" "new = eventsOf G decode ys" using next_tick.hyps(2) i(1) by simp_all
  then show ?case using i by (intro exI [of _ "xs @ ys"] exI [of _ "[]"]) simp
qed


text \<open>On a log that is empty at the start the offset stays zero, which stands for a notifier that has not started:
  the events written before the next tick are skipped, and all later ones are sent.\<close>

theorem first_events_are_skipped:
  assumes "list_all plainLine (ls1 @ ls2)" and "ls1 \<noteq> []"
  shows "watcherTick G decode (Some []) 0 = (0, []) \<and>
    (\<exists>off. watcherTick G decode (Some (logText ls1)) 0 = (off, []) \<and>
       snd (watcherTick G decode (Some (logText (ls1 @ ls2))) off) = eventsOf G decode ls2)"
proof -
  have "watcherTick G decode (Some (logText ls1)) 0 = (int (length (logText ls1)), [])" by (simp add: watcherTick_def)
  moreover have "snd (watcherTick G decode (Some (logText (ls1 @ ls2))) (int (length (logText ls1)))) = eventsOf G decode ls2"
    using assms by (subst tick_reads_rest) simp_all
  ultimately show ?thesis by (auto simp: watcherTick_def)
qed

lemma raw_lines_partial:
  assumes "\<forall>x\<in>set ls. newline \<notin> set x" and "newline \<notin> set l" and "l \<noteq> []"
  shows "raw_lines (logText ls @ l) = ls @ [l]"
proof -
  have "split_on newline (logText ls @ l) = ls @ [l]"
    using assms(1,2) by (induction ls) (simp_all add: split_on_append split_on_notin)
  then show ?thesis using assms(3) by (simp add: raw_lines_def)
qed

lemma scan_partial:
  assumes "list_all plainLine (ls @ [l])" and "l \<noteq> []"
  shows "scan_lines (logText ls @ l) = (ls @ [l], False)"
proof -
  have r: "raw_lines (logText ls @ l) = ls @ [l]" using assms by (intro raw_lines_partial) (auto simp: plainLine_def list_all_iff)
  have "drop_cr x = x" and "length x < 65536" if "x \<in> set (ls @ [l])" for x
    using assms(1) that by (auto simp: plainLine_def list_all_iff drop_cr_def)
  then show ?thesis unfolding scan_lines_def r Let_def
    by (auto simp: list_ex_iff map_idI not_le [symmetric] simp del: not_le)
qed

text \<open>A last line that is not terminated is counted with a line break it does not have: the next tick finds the log shorter
  than the offset, takes it for a new file and sends every event of it again.\<close>

theorem unterminated_line_repeats:
  assumes "list_all plainLine (ls @ [l])" and "ls \<noteq> []" and "l \<noteq> []"
  shows "\<exists>off. watcherTick G decode (Some (logText ls @ l)) (int (length (logText ls))) = (off, eventsOf G decode [l]) \<and>
    watcherTick G decode (Some (logText ls @ l)) off = (off, eventsOf G decode (ls @ [l]))"
proof -
  let ?off = "int (length (logText ls)) + int (length (logText [l]))"
  have n: "int (length (logText ls)) \<noteq> 0" using assms(2) by (cases ls) auto
  have s: "scan_lines l = ([l], False)" using scan_partial [of "[]" l] assms(1,3) by simp
  have t: "watcherTick G decode (Some (logText ls @ l)) (int (length (logText ls))) = (?off, eventsOf G decode [l])"
    using n by (simp add: watcherTick_def s watch_lines del: eventsOf_append)
  have "watcherTick G decode (Some (logText ls @ l)) ?off =
      foldl (watchLine G decode) (0, []) (fst (scan_lines (logText ls @ l)))"
    using n by (simp add: watcherTick_def)
  also have "\<dots> = (?off, eventsOf G decode (ls @ [l]))"
    unfolding scan_partial [OF assms(1,3)] fst_conv watch_lines by simp
  finally show ?thesis using t by blast
qed

section \<open>The pong\<close>

lemma pong_round_trip:
  assumes "length before = 32" and "length motd < 65536"
  shows "pongText ([CHR 0x1C] @ before @ be_bytes 2 (length motd) @ motd @ rest) = Inr motd"
proof -
  let ?r = "[CHR 0x1C] @ before @ be_bytes 2 (length motd) @ motd @ rest"
  have b: "be_bytes 2 (length motd) = [char_of (length motd div 256 mod 256), char_of (length motd mod 256)]"
    by (simp add: be_bytes_def upt_rec)
  have "?r ! 33 = char_of (length motd div 256 mod 256)" "?r ! 34 = char_of (length motd mod 256)"
    by (simp_all add: b nth_append assms(1))
  then have n: "byte_val (?r ! 33) * 256 + byte_val (?r ! 34) = length motd"
    using assms(2) by (simp add: byte_val_def)
  have d: "drop 35 ?r = motd @ rest" and l: "length ?r = 35 + length (motd @ rest)" by (simp_all add: b assms(1))
  have h: "byte_val (?r ! 0) = 28" by (simp add: byte_val_def)
  show ?thesis unfolding pongText_def Let_def n d h l by simp
qed

text \<open>Whatever is answered, the text shown is a part of the answer after its header.\<close>

lemma pong_is_part: "pongText response = Inr motd \<Longrightarrow> prefix motd (drop 35 response)"
  by (auto simp: pongText_def Let_def take_is_prefix split: if_splits)

section \<open>An example\<close>

definition sampleDecode :: "string \<Rightarrow> jobject option" where
  "sampleDecode l = (if l = ''w'' then Some [(''severity'', JStr ''warning'')] else None)"


end
