(* ===== verification/Server.thy ===== *)
theory Server
  imports Agent Companion Monitor
begin

text \<open>
  The process as a whole (\<^verbatim>\<open>main\<close> of \<^verbatim>\<open>dashboard/main.go\<close>): starting it from the environment and the files on disk, the
  one-time migration of legacy routes (\<^verbatim>\<open>dashboard/config.go\<close>), the state page, and the table of routes, which
  composes every handler of the library with the role it requires.
\<close>

section \<open>Starting\<close>

definition max64 :: "int \<Rightarrow> int \<Rightarrow> int" where
  "max64 a b = (if a > b then a else b)"

text \<open>The host as later steps see it: its readings are numbered in sequence.\<close>

definition hostAfter :: "nat \<Rightarrow> host \<Rightarrow> host" where
  "hostAfter n h = h\<lparr>clock := (\<lambda>i. clock h (i + n)), random := (\<lambda>i. random h (i + n)), diskOK := (\<lambda>i. diskOK h (i + n))\<rparr>"

text \<open>A \<^verbatim>\<open>time.Duration\<close> of \<open>n\<close> units of \<open>u\<close> nanoseconds, in milliseconds; the product is a 64-bit integer.\<close>

definition durationOf :: "int \<Rightarrow> int \<Rightarrow> int" where
  "durationOf n u = (let nanos = wrap64 (n * u) in sgn nanos * (\<bar>nanos\<bar> div 1000000))"

text \<open>The fields that \<^verbatim>\<open>main\<close> reads from the environment.  The files are those on disk, in the argument.\<close>

definition startDashboard :: "host \<Rightarrow> dashboard \<Rightarrow> dashboard" where
  "startDashboard h disk =
     (let lowest = envInt64 h ''TRANSFER_PORT_START'' 25600; highest = envInt64 h ''TRANSFER_PORT_END'' 25619 in
      disk\<lparr>port := env h ''DASHBOARD_PORT'' ''25571'', token := trim_space (getenv h ''DASHBOARD_TOKEN''),
        secret := env h ''COMPANION_SHARED_SECRET'' ''CHANGE_ME_NOW'',
        recoveryToken := trim_space (getenv h ''DASHBOARD_RECOVERY_TOKEN''), setupCode := [],
        sessionCoreToken := trim_space (getenv h ''SESSION_CORE_TOKEN''),
        sessionTTL := durationOf (max64 15 (envInt64 h ''DASHBOARD_SESSION_MINUTES'' 480)) 60000000000,
        transferHost := env h ''TRANSFER_PUBLIC_HOST'' ''185.83.152.144'',
        transferPortStart := (if highest < lowest then highest else lowest),
        transferPortEnd := (if highest < lowest then lowest else highest),
        transferTTL := durationOf (max64 5 (envInt64 h ''TRANSFER_TICKET_TTL_SECONDS'' 20)) 1000000000,
        transferRequireIP := (env h ''TRANSFER_REQUIRE_SOURCE_IP'' ''1'' \<noteq> ''0''),
        managedPublicPorts := parsePortList (env h ''MANAGED_PUBLIC_UDP_PORTS'' ''25566,25571,25572-25581''),
        presenceTTL := durationOf (max64 30 (envInt64 h ''PRESENCE_TTL_SECONDS'' 120)) 1000000000,
        replaySeen := [], identityGrants := [], scheduled := []\<rparr>)"

text \<open>Log files are created; a log that is missing reads as an empty one, so only the ticket file shows it.\<close>

definition touchFiles :: "dashboard \<Rightarrow> dashboard" where
  "touchFiles d = d\<lparr>ticketsFile := Some (case ticketsFile d of None \<Rightarrow> [] | Some content \<Rightarrow> content)\<rparr>"

definition fileLines :: "string list \<Rightarrow> string" where
  "fileLines ls = concat (map (\<lambda>l. l @ [newline]) ls)"

definition healthActionsFile :: string where
  "healthActionsFile = fileLines [''# Ninj-OS Edge Fabric automated health actions'', ''enabled=true'', ''require_companion=false'',
     ''companion_stale_seconds=45'', ''degraded_after_seconds=30'', ''recovery_seconds=60'', ''minimum_tps=12'', ''maximum_mspt=80'']"

definition protectionProfilesFile :: string where
  "protectionProfilesFile = fileLines [''# profile.key=value'', ''default.max_datagram_size=2048'',
     ''default.max_packets_per_second_per_ip=6000'', ''default.max_handshakes_per_minute=30'', ''default.max_sessions_per_ip=4'',
     ''default.allow_new_sessions_during_incident=false'', [], ''kingdom.max_packets_per_second_per_ip=7000'',
     ''kingdom.max_handshakes_per_minute=35'', ''kingdom.max_sessions_per_ip=5'', [], ''zoo.max_packets_per_second_per_ip=4000'',
     ''zoo.max_handshakes_per_minute=20'', ''zoo.max_sessions_per_ip=3'']"

text \<open>A file that is missing or empty is written, unless the write fails, which is ignored.\<close>

definition ensureText :: "bool \<Rightarrow> string \<Rightarrow> string \<Rightarrow> dashboard \<Rightarrow> dashboard" where
  "ensureText ok name content d =
     (if runtimeFiles d name \<in> {None, Some []} \<and> ok then putText name content d else d)"

text \<open>\<open>ledgerOK\<close> is whether the database opens; \<open>noBytes\<close> whether the state file exists without a byte.\<close>

definition initializeControlPlane :: "bool \<Rightarrow> bool \<Rightarrow> host \<Rightarrow> dashboard \<Rightarrow> dashboard option" where
  "initializeControlPlane ledgerOK noBytes h d =
     (if \<not> ledgerOK then None
      else
        let d1 = d\<lparr>db := (db d)\<lparr>dbOpen := True\<rparr>\<rparr>;
            d2 = ensureText (diskOK h 0) ''health-actions.properties'' healthActionsFile d1;
            d3 = ensureText (diskOK h 1) ''protection-profiles.properties'' protectionProfilesFile d2
        in Some (if (stateFiles d ''health-action-state.json'' = Absent \<or> noBytes) \<and> diskOK h 2
             then putState ''health-action-state.json'' (JObj [(''disabled'', JObj []), (''unhealthyFrom'', JObj []), (''healthyFrom'', JObj [])]) d3
             else d3))"

text \<open>\<open>None\<close> is an exit with \<^verbatim>\<open>log.Fatal\<close>.\<close>

definition startUp :: "golib \<Rightarrow> host \<Rightarrow> bool \<Rightarrow> bool \<Rightarrow> dashboard \<Rightarrow> dashboard option" where
  "startUp G h ledgerOK noBytes disk =
     Option.bind (ensureSecurityFiles G h (touchFiles (startDashboard h disk))) (\<lambda>d1.
     Option.bind (ensureFirstRunSetup (hostAfter 2 h) d1) (\<lambda>d2.
     case ensureUnifiedConfig (diskOK h 4) d2 of
       (Inl _, d3) \<Rightarrow> None
     | (Inr _, d3) \<Rightarrow>
         (case loadTopology (diskOK h 5) d3 of
            (Inl _, d4) \<Rightarrow> None
          | (Inr _, d4) \<Rightarrow> initializeControlPlane ledgerOK noBytes (hostAfter 6 h) d4)))"

section \<open>Migration of legacy routes\<close>

definition quoteChars :: string where "quoteChars = [CHR 0x27, CHR 0x22]"

definition legacyLine :: "(string \<times> string) list \<Rightarrow> string \<Rightarrow> (string \<times> string) list" where
  "legacyLine legacy raw =
     (let line = trim_space raw in
      if line = [] \<or> has_prefix line ''#'' then legacy
      else case split2 (CHR ''='') line of
        [k, v] \<Rightarrow> AList.update (trim_space k) (trim_set (trim_space v) quoteChars) legacy
      | _ \<Rightarrow> legacy)"

definition legacyTopologyText :: "(string \<times> string) list \<Rightarrow> string" where
  "legacyTopologyText legacy = fileLines [''version=1'', ''primary_backend='' @ valueOr legacy ''PRIMARY_BACKEND'' ''kingdom'',
     ''routing_mode='' @ valueOr legacy ''ROUTING_MODE'' ''primary'', ''backends='' @ valueOr legacy ''BACKENDS'' [],
     ''static_routes='' @ valueOr legacy ''STATIC_ROUTES'' []]"

definition legacyKeys :: "(string \<times> string \<times> string) list" where
  "legacyKeys = [(''DASHBOARD_PORT'', ''dashboard'', ''port''), (''DASHBOARD_PUBLIC_HOST'', ''dashboard'', ''public_host''),
     (''TRANSFER_PUBLIC_HOST'', ''transfer'', ''public_host''), (''TRANSFER_PORT_START'', ''transfer'', ''port_start''),
     (''TRANSFER_PORT_END'', ''transfer'', ''port_end'')]"

definition legacyKey :: "(string \<times> string) list \<Rightarrow> ini \<Rightarrow> string \<times> string \<times> string \<Rightarrow> ini" where
  "legacyKey legacy doc k =
     (case k of (name, s, key) \<Rightarrow> if map_get legacy name \<noteq> [] then setKey doc s key (map_get legacy name) else doc)"

text \<open>A legacy topology that is not valid is left out without an error.\<close>

definition migrateLegacyRoutes :: "host \<Rightarrow> string option \<Rightarrow> dashboard \<Rightarrow> unit result \<times> dashboard" where
  "migrateLegacyRoutes h legacyFile d =
     (case ensureUnifiedConfig (diskOK h 0) d of
        (Inl err, d1) \<Rightarrow> (Inl err, d1)
      | (Inr _, d1) \<Rightarrow>
          (case attempt (loadINI d1) (\<lambda>doc. attempt (some_or ''read error'' legacyFile) (\<lambda>content.
             let legacy = foldl legacyLine [] (fst (scan_lines content)) in
             attempt (case parseTopologyProperties (legacyTopologyText legacy) of
                        Inr topology \<Rightarrow> if tBackends topology \<noteq> [] then applyTopologyToUnified doc topology else Inr doc
                      | Inl _ \<Rightarrow> Inr doc) (\<lambda>doc1.
             Inr (foldl (legacyKey legacy) doc1 legacyKeys)))) of
             Inl err \<Rightarrow> (Inl err, d1)
           | Inr doc2 \<Rightarrow> writeUnifiedConfig h 1 doc2 d1))"

text \<open>The command line: the exit status of the two commands that do not serve, and what they leave on disk.\<close>

datatype command = PrepareConfig | MigrateLegacy "string option"

definition runCommand :: "host \<Rightarrow> command \<Rightarrow> dashboard \<Rightarrow> nat \<times> dashboard" where
  "runCommand h c d =
     (let (res, d') = (case c of PrepareConfig \<Rightarrow> prepareUnifiedConfig h 0 d | MigrateLegacy f \<Rightarrow> migrateLegacyRoutes h f d)
      in (case res of Inl _ \<Rightarrow> 1 | Inr _ \<Rightarrow> 0, d'))"

section \<open>The state page\<close>

text \<open>What the pages read besides the state: constants of the process, files of the kernel, library functions.\<close>

record site =
  siteTitle :: string
  siteMetricsToken :: string
  siteSystem :: systemFiles
  siteCPU :: cpuState
  siteDiscord :: discordConfig
  siteStates :: "string list"
  siteCompanion :: companionHost
  siteInfo :: systemInfo
  siteCatalog :: json
  siteTransport :: jsonl
  siteProtocol :: "jsonl list"
  siteCounters :: "(string \<times> string) list"
  parseFloat :: "string \<Rightarrow> go_float \<times> bool"
  parseLoad :: "string \<Rightarrow> rat"
  marshal :: "json \<Rightarrow> string"
  packBundle :: "(string \<times> bundleEntry) list \<Rightarrow> string"
  packFiles :: "(string \<times> string) list \<Rightarrow> string"
  unzip :: unzipper
  exchange :: "string \<Rightarrow> int \<Rightarrow> string \<Rightarrow> string result"

definition mainCompanion :: "golib \<Rightarrow> jobject list \<Rightarrow> jobject" where
  "mainCompanion G companions =
     (let companion = (case find (\<lambda>item. textField G item ''serverId'' = ''kingdom'') companions of None \<Rightarrow> [] | Some item \<Rightarrow> item)
      in if companion = [] \<and> companions \<noteq> [] then hd companions else companion)"

definition managementFlags :: "string list" where
  "managementFlags = [''transferTransactions'', ''historicalMetrics'', ''healthActions'', ''supportBundles'', ''protectionProfiles'',
     ''structuredSettings'', ''secretVault'', ''companionDownloads'', ''companionArtifactStore'']"

definition transferBroker :: "host \<Rightarrow> int \<Rightarrow> dashboard \<Rightarrow> json" where
  "transferBroker h active d =
     (let (start, stop) = transferPoolRange d
      in JObj [(''host'', JStr (transferHost d)), (''portStart'', jint start), (''portEnd'', jint stop),
           (''availablePorts'', JArr (map jint (availableTransferPorts (diskOK h 1) d))), (''ttlSeconds'', jint (transferTTL d div 1000)),
           (''requireSourceIp'', JBool (transferRequireIP d)), (''activeTickets'', jint active)])"

text \<open>Reading the topology creates the configuration file when it is missing.\<close>

definition handleState :: "golib \<Rightarrow> site \<Rightarrow> handler" where
  "handleState G S h r d0 =
     (let gateway = combinedRuntimeState G d0;
          (topology, d) = loadTopology (diskOK h 0) d0;
          companions = companionFleet G (clock h 1) topology gateway (companionStates G (clock h 0) (siteStates S) d0) d;
          active = loadTransferTickets (clock h 2) d;
          mode = discordMode (siteDiscord S)
      in ((200, JObj [(''title'', JStr (siteTitle S)), (''version'', JStr productVersion), (''gateway'', JObj gateway),
            (''companion'', JObj (mainCompanion G companions)), (''companions'', JArr (map JObj companions)),
            (''presence'', presenceSummary (clock h 3) d), (''principal'', jprincipal (principalFromRequest r)),
            (''transferBroker'', transferBroker h (int (length active)) d),
            (''sessions'', JArr (safeSlice ''sessions.json'' d)),
            (''system'', JObj (systemMetrics (parseLoad S) (siteSystem S) (siteCPU S))),
            (''discord'', JObj [(''enabled'', JBool (discordWebhook (siteDiscord S) \<noteq> [] \<or>
               discordBotToken (siteDiscord S) \<noteq> [] \<and> discordChannel (siteDiscord S) \<noteq> [])), (''mode'', JStr mode)]),
            (''security'', JObj [(''passwordLogin'', JBool True), (''setupRequired'', JBool (setupRequired d)),
               (''companionSecretDefault'', JBool (secret d = ''CHANGE_ME_NOW'')), (''rbac'', JBool True),
               (''perServerSecrets'', JBool True), (''sessions'', JBool True), (''totp'', JBool True)]),
            (''management'', JObj ((''sqliteLedger'', JBool True) # map (\<lambda>k. (k, JBool True)) managementFlags))]), d))"

section \<open>Routes\<close>

text \<open>The body of a request as each handler decodes it.\<close>

record message =
  rawBody :: "string option"
  loginOf :: "loginBody option"
  setupOf :: "setupBody option"
  ownerOf :: "ownerBody option"
  userOf :: "dashboardUserRequest option"
  reportOf :: "string \<Rightarrow> (string \<times> jobject option list) option"
  transferOf :: "string \<Rightarrow> transferRequest option"
  operatorTransfer :: "transferRequest option"
  grantOf :: "identityGrant option"
  consumeOf :: "string \<Rightarrow> consumeRequest option"
  serverOf :: "string \<Rightarrow> string option"
  accessOf :: "profileBody option"
  contentOfBody :: "string option"
  settingsOf :: "(string \<times> string) list option"
  secretOf :: "secretRequest option"
  formOf :: uploadForm
  backendOf :: "backendDefinition result"
  topologyOf :: "topologySettings option"
  targetOf :: "(string \<times> int) option"
  controlOf :: "controlBody option"

text \<open>A reply that is not JSON is shown as a string; a request that ends in a panic has no reply, shown as status 0.\<close>

definition serveMetrics :: "golib \<Rightarrow> site \<Rightarrow> handler" where
  "serveMetrics G S h r d =
     (case handleMetrics G (siteMetricsToken S) (siteCounters S) (siteStates S) h r d of
        Inl status \<Rightarrow> ((status, JNull), d)
      | Inr page \<Rightarrow> ((200, JStr page), d))"

definition serveCompanionDownload :: "golib \<Rightarrow> site \<Rightarrow> handler" where
  "serveCompanionDownload G S h r d =
     (case handleCompanionDownload G (packFiles S) (siteCompanion S) h r d of
        (Inl rep, d1) \<Rightarrow> (rep, d1)
      | (Inr (name, content), d1) \<Rightarrow> ((200, JStr content), d1))"

definition serveIngest :: "golib \<Rightarrow> message \<Rightarrow> handler" where
  "serveIngest G m h r d =
     (case handleIngest G (rawBody m) (reportOf m) h r d of
        (None, d1) \<Rightarrow> ((0, JNull), d1)
      | (Some rep, d1) \<Rightarrow> (rep, d1))"

text \<open>Each route with the role that \<^verbatim>\<open>requireRole\<close> asks for, in the order of registration.\<close>

definition publicRoutes :: "golib \<Rightarrow> site \<Rightarrow> message \<Rightarrow> (string \<times> string option \<times> handler) list" where
  "publicRoutes G S m =
     [(''/health'', None, handleHealth), (''/health/live'', None, handleHealth), (''/health/ready'', None, handleReady),
      (''/health/backends'', None, handleBackendHealth G), (''/version'', None, handleVersion), (''/metrics'', None, serveMetrics G S),
      (''/api/setup/status'', None, handleSetupStatus), (''/api/setup'', None, handleOwnerSetup G (setupOf m)),
      (''/api/login'', None, handleLogin G (loginOf m)), (''/api/logout'', None, handleLogout G),
      (''/ingest'', None, serveIngest G m), (''/transfer'', None, handleTransferRequest G (rawBody m) (transferOf m)),
      (''/api/session-core/v1/grants'', None, handleIdentityGrant (grantOf m)),
      (''/api/bridge/v1/join/consume'', None, handleIdentityConsume G (rawBody m) (consumeOf m)),
      (''/api/bridge/v1/permissions'', None, handlePermissionSnapshot G (rawBody m) (serverOf m))]"

definition viewerRoutes :: "golib \<Rightarrow> site \<Rightarrow> message \<Rightarrow> (string \<times> string option \<times> handler) list" where
  "viewerRoutes G S m = map (\<lambda>(path, ep). (path, Some ''viewer'', ep))
     [(''/api/state'', handleState G S), (''/api/whoami'', handleWhoAmI),
      (''/api/packets'', handlePackets G (siteCatalog S) (siteTransport S) (siteProtocol S)), (''/api/events'', handleEvents),
      (''/api/presence'', handlePresence), (''/api/capabilities'', handleCapabilities G (siteStates S)),
      (''/api/profiles'', handleProfiles (marshal S)), (''/api/history'', handleMetricHistory), (''/api/alerts'', handleAlerts),
      (''/api/transfer-transactions'', handleTransferTransactions), (''/api/transfers'', handleTransfersAPI G (operatorTransfer m))]"

definition adminRoutes :: "golib \<Rightarrow> site \<Rightarrow> message \<Rightarrow> (string \<times> string option \<times> handler) list" where
  "adminRoutes G S m = map (\<lambda>(path, ep). (path, Some ''admin'', ep))
     [(''/api/profiles/access'', handleProfileAccess (accessOf m)),
      (''/api/support-bundle'', handleSupportBundle G (marshal S) (packBundle S) (siteStates S) (siteInfo S)),
      (''/api/audit'', handleAudit), (''/api/config'', handleConfig G (parseFloat S) (contentOfBody m)),
      (''/api/unified-config'', handleUnifiedConfig G (contentOfBody m)), (''/api/security-sources'', handleSecuritySources G),
      (''/api/settings'', handleManagedSettings G (settingsOf m)), (''/api/secrets'', handleManagedSecrets G (secretOf m)),
      (''/api/companion-manager'', handleCompanionManager G (unzip S) (siteCompanion S) (formOf m)),
      (''/api/companion-download'', serveCompanionDownload G S), (''/api/backend-registry'', handleBackendRegistry (backendOf m)),
      (''/api/backend-registry/settings'', handleTopologySettings (topologyOf m)),
      (''/api/backend-registry/test'', handleBackendTest (exchange S) (targetOf m)),
      (''/api/protection-profiles'', handleProtectionProfiles (contentOfBody m)),
      (''/api/config/rollback'', handleConfigRollback G (parseFloat S))]"

definition protectedRoutes :: "golib \<Rightarrow> site \<Rightarrow> message \<Rightarrow> (string \<times> string option \<times> handler) list" where
  "protectedRoutes G S m =
     viewerRoutes G S m @ adminRoutes G S m @
     [(''/api/account'', Some ''owner'', handleOwnerAccount G (ownerOf m)), (''/api/users'', Some ''owner'', handleDashboardUsers G (userOf m)),
      (''/api/control'', Some ''operator'', handleControl (controlOf m))]"

definition routes :: "golib \<Rightarrow> site \<Rightarrow> message \<Rightarrow> (string \<times> string option \<times> handler) list" where
  "routes G S m = publicRoutes G S m @ protectedRoutes G S m"

text \<open>Every other path is served from the embedded files; the path is as \<^verbatim>\<open>http.ServeMux\<close> has cleaned it.\<close>

definition serve :: "golib \<Rightarrow> site \<Rightarrow> message \<Rightarrow> (string \<Rightarrow> reply) \<Rightarrow> handler" where
  "serve G S m static h r d =
     (case map_of (routes G S m) (url_path r) of
        None \<Rightarrow> (static (url_path r), d)
      | Some (required, ep) \<Rightarrow> (case required of None \<Rightarrow> ep h r d | Some role \<Rightarrow> requireRole G role ep h r d))"

section \<open>What a role can change\<close>

definition callerRank :: "golib \<Rightarrow> host \<Rightarrow> http_request \<Rightarrow> dashboard \<Rightarrow> int" where
  "callerRank G h r d = (case fst (authenticate G h r d) of None \<Rightarrow> 0 | Some p \<Rightarrow> roleRank (pRole p))"

text \<open>The state without the ledger, the audit trail and the file of live tickets; and without the history of transfers, the
  event log and the commands for the gateway in addition.\<close>

definition withoutTraces :: "dashboard \<Rightarrow> dashboard" where
  "withoutTraces d = d\<lparr>db := emptyLedger, auditFile := \<lparr>jlCurrent = [], jlRotated = []\<rparr>, ticketsFile := None\<rparr>"

definition configurationOf :: "dashboard \<Rightarrow> dashboard" where
  "configurationOf d = (withoutTraces d)\<lparr>transfersFile := \<lparr>jlCurrent = [], jlRotated = []\<rparr>,
     eventsFile := \<lparr>jlCurrent = [], jlRotated = []\<rparr>, commandsLog := []\<rparr>"

definition onlyTraces :: "dashboard \<Rightarrow> dashboard \<Rightarrow> bool" where
  "onlyTraces d d' \<longleftrightarrow> withoutTraces d' = withoutTraces d"

definition sameConfiguration :: "dashboard \<Rightarrow> dashboard \<Rightarrow> bool" where
  "sameConfiguration d d' \<longleftrightarrow> configurationOf d' = configurationOf d"

lemma onlyTraces_refl [simp]: "onlyTraces d d" and sameConfiguration_refl [simp]: "sameConfiguration d d"
  by (simp_all add: onlyTraces_def sameConfiguration_def)

lemma onlyTraces_update [simp]:
  "onlyTraces d (d\<lparr>db := l\<rparr>)" "onlyTraces d (d\<lparr>ticketsFile := t\<rparr>)" "onlyTraces d (appendAudit h ts r who action result details d)"
  by (simp_all add: onlyTraces_def withoutTraces_def appendAudit_def)

lemma onlyTraces_trans: "onlyTraces d d1 \<Longrightarrow> onlyTraces d1 d2 \<Longrightarrow> onlyTraces d d2"
  and sameConfiguration_trans: "sameConfiguration d d1 \<Longrightarrow> sameConfiguration d1 d2 \<Longrightarrow> sameConfiguration d d2"
  by (simp_all add: onlyTraces_def sameConfiguration_def)

lemma onlyTraces_sameConfiguration: "onlyTraces d d' \<Longrightarrow> sameConfiguration d d'"
  by (simp add: onlyTraces_def sameConfiguration_def configurationOf_def)

lemma onlyTraces_unifiedFile: "onlyTraces d d' \<Longrightarrow> unifiedFile d' = unifiedFile d"
  unfolding onlyTraces_def by (drule arg_cong [of _ _ unifiedFile]) (simp add: withoutTraces_def)

lemma authenticate_traces: "authenticate G h r d = (res, d1) \<Longrightarrow> onlyTraces d d1"
  by (auto simp: authenticate_def Let_def split: if_splits prod.splits option.splits)

definition keeps :: "int \<Rightarrow> (dashboard \<Rightarrow> dashboard \<Rightarrow> bool) \<Rightarrow> handler \<Rightarrow> bool" where
  "keeps n R ep \<longleftrightarrow>
     (\<forall>h r d. roleRank (pRole (principalFromRequest r)) < n \<and> unifiedFile d \<noteq> None \<longrightarrow> R d (snd (ep h r d)))"

lemma keeps_unchanged: "(\<And>h r d. unifiedFile d \<noteq> None \<Longrightarrow> snd (ep h r d) = d) \<Longrightarrow> keeps n onlyTraces ep"
  by (simp add: keeps_def)

lemma keeps_configuration: "keeps n onlyTraces ep \<Longrightarrow> keeps n sameConfiguration ep"
  by (simp add: keeps_def onlyTraces_sameConfiguration)

lemma loadTopology_unchanged [simp]: "unifiedFile d \<noteq> None \<Longrightarrow> snd (loadTopology ok d) = d"
  by (auto simp: loadTopology_def)

lemma requireRole_keeps:
  assumes "roleRank role \<ge> n \<or> keeps n R ep" and "callerRank G h r d < n" and "unifiedFile d \<noteq> None"
    and "\<And>d d1 d2. R d d1 \<Longrightarrow> R d1 d2 \<Longrightarrow> R d d2" and "\<And>d d'. onlyTraces d d' \<Longrightarrow> R d d'"
  shows "R d (snd (requireRole G role ep h r d))"
proof -
  obtain res d1 where a: "authenticate G h r d = (res, d1)" by fastforce
  have t: "R d d1" and u: "unifiedFile d1 \<noteq> None"
    using assms(3,5) authenticate_traces [OF a] onlyTraces_unifiedFile by auto
  show ?thesis
  proof (cases res)
    case None
    then show ?thesis using a t by (simp add: requireRole_def)
  next
    case (Some p)
    then have rank: "roleRank (pRole p) < n" using assms(2) a by (simp add: callerRank_def)
    show ?thesis
    proof (cases "roleRank (pRole p) < roleRank role")
      case True
      then show ?thesis using a Some assms(4) [OF t assms(5)] by (simp add: requireRole_def)
    next
      case False
      then have "keeps n R ep" using assms(1) rank by auto
      then have "R d1 (snd (ep (later 1 h) (r\<lparr>actor := Some p\<rparr>) d1))"
        using rank u by (simp add: keeps_def principalFromRequest_def)
      then show ?thesis using a Some False assms(4) [OF t] by (simp add: requireRole_def)
    qed
  qed
qed

lemma handleState_unchanged: "unifiedFile d \<noteq> None \<Longrightarrow> snd (handleState G S h r d) = d"
  using loadTopology_unchanged [of d "diskOK h 0"] by (cases "loadTopology (diskOK h 0) d") (simp add: handleState_def Let_def)

lemmas page_defs = handleWhoAmI_def handlePackets_def handleEvents_def handlePresence_def handleCapabilities_def handleProfiles_def
  handleMetricHistory_def handleAlerts_def handleTransferTransactions_def

lemma pages_keep:
  "keeps n onlyTraces (handleState G S)" "keeps n onlyTraces handleWhoAmI" "keeps n onlyTraces (handlePackets G catalog transport protocol)"
  "keeps n onlyTraces handleEvents" "keeps n onlyTraces handlePresence" "keeps n onlyTraces (handleCapabilities G paths)"
  "keeps n onlyTraces (handleProfiles enc)" "keeps n onlyTraces handleMetricHistory" "keeps n onlyTraces handleAlerts"
  "keeps n onlyTraces handleTransferTransactions"
  by (rule keeps_unchanged, simp add: handleState_unchanged page_defs Let_def split: prod.splits)+

lemma transfers_read_keeps:
  assumes "verb r \<noteq> ''POST''" and "unifiedFile d \<noteq> None"
  shows "onlyTraces d (snd (handleTransfersAPI G decoded h r d))"
proof -
  have w: "onlyTraces d (case writeTransferTickets ok ts d of Inl _ \<Rightarrow> d | Inr d' \<Rightarrow> d')" for ok ts
    by (auto simp: writeTransferTickets_def split: sum.splits)
  show ?thesis unfolding handleTransfersAPI_def if_not_P [OF assms(1)] Let_def
    using w loadTopology_unchanged onlyTraces_unifiedFile [OF w] assms(2) by (simp split: prod.splits)
qed

lemma issueTicket_keeps:
  assumes "unifiedFile d \<noteq> None"
  shows "sameConfiguration d (snd (issueTicket h n request d))"
proof -
  obtain t where t: "loadTopology (diskOK h n) d = (t, d)" using loadTopology_unchanged [OF assms, of "diskOK h n"] by (metis prod.collapse)
  show ?thesis
    by (auto simp: issueTicket_def t Let_def writeTransferTickets_def sameConfiguration_def configurationOf_def withoutTraces_def
        split: option.splits sum.splits if_splits)
qed

lemma transfers_keep: "keeps (roleRank ''operator'') onlyTraces (handleTransfersAPI G decoded)" "keeps n sameConfiguration (handleTransfersAPI G decoded)"
proof -
  show "keeps (roleRank ''operator'') onlyTraces (handleTransfersAPI G decoded)" unfolding keeps_def
  proof (intro allI impI, elim conjE)
    fix h r and d :: dashboard
    assume a: "roleRank (pRole (principalFromRequest r)) < roleRank ''operator''" "unifiedFile d \<noteq> None"
    show "onlyTraces d (snd (handleTransfersAPI G decoded h r d))"
    proof (cases "verb r = ''POST''")
      case True
      then show ?thesis using a(1) by (simp add: handleTransfersAPI_def)
    qed (rule transfers_read_keeps [OF _ a(2)])
  qed
  have "sameConfiguration d (snd (handleTransfersAPI G decoded h r d))" if u: "unifiedFile d \<noteq> None" for h r and d :: dashboard
  proof (cases "verb r = ''POST''")
    case True
    have "sameConfiguration d d'" if "createTransferTicket G h 0 request d = (res, d')" for request res d'
      using that issueTicket_keeps [OF u, of h 0] by (auto simp: createTransferTicket_def Let_def split: prod.splits sum.splits) (metis snd_conv)
    then show ?thesis using True
      by (cases decoded) (auto simp: handleTransfersAPI_def ticketReply_def check_def attempt_def finish_def split: prod.splits sum.splits)
  next
    case False
    then show ?thesis using transfers_read_keeps [OF _ u] onlyTraces_sameConfiguration by blast
  qed
  then show "keeps n sameConfiguration (handleTransfersAPI G decoded)" by (simp add: keeps_def)
qed

lemma control_keeps: "keeps n sameConfiguration (handleControl decoded)"
  by (auto simp: keeps_def handleControl_def queueCommand_def appendEvent_def appendAudit_def sameConfiguration_def configurationOf_def
      withoutTraces_def Let_def split: option.splits sum.splits if_splits)

lemma roleRanks: "roleRank ''owner'' = 50" "roleRank ''admin'' = 40" "roleRank ''operator'' = 30" "roleRank ''viewer'' = 10"
  by code_simp+

definition guarded :: "string \<times> string option \<times> handler \<Rightarrow> bool" where
  "guarded route \<longleftrightarrow> (case route of (path, required, ep) \<Rightarrow>
     (case required of None \<Rightarrow> False
      | Some role \<Rightarrow> (roleRank role \<ge> 30 \<or> keeps 30 onlyTraces ep) \<and> (roleRank role \<ge> 40 \<or> keeps 40 sameConfiguration ep)))"

lemma protected_routes_guarded: "list_all guarded (protectedRoutes G S m)"
proof -
  have v: "list_all guarded (viewerRoutes G S m)"
    unfolding viewerRoutes_def list.map list.pred_inject guarded_def prod.case option.case roleRanks
    by (intro conjI TrueI list.pred_inject(1) disjI2 pages_keep keeps_configuration [OF pages_keep(1)] keeps_configuration [OF pages_keep(2)]
        keeps_configuration [OF pages_keep(3)] keeps_configuration [OF pages_keep(4)] keeps_configuration [OF pages_keep(5)]
        keeps_configuration [OF pages_keep(6)] keeps_configuration [OF pages_keep(7)] keeps_configuration [OF pages_keep(8)]
        keeps_configuration [OF pages_keep(9)] keeps_configuration [OF pages_keep(10)] transfers_keep(1) [unfolded roleRanks] transfers_keep(2))
  have a: "list_all guarded (adminRoutes G S m)"
    unfolding adminRoutes_def list.map list.pred_inject guarded_def prod.case option.case roleRanks by simp
  have o: "guarded (path, Some ''owner'', ep)" "guarded (path, Some ''operator'', handleControl decoded)" for path ep decoded
    by (simp_all add: guarded_def roleRanks control_keeps)
  show ?thesis unfolding protectedRoutes_def list_all_append list.pred_inject by (intro conjI TrueI list.pred_inject(1) v a o)
qed

lemma map_of_skip: "k \<notin> set (map fst xs) \<Longrightarrow> map_of (xs @ ys) k = map_of ys k"
  by (induction xs) auto

lemma map_of_guarded: "list_all guarded xs \<Longrightarrow> map_of xs path = Some y \<Longrightarrow> guarded (path, y)"
  by (auto simp: list_all_iff dest: map_of_SomeD)



section \<open>A started dashboard\<close>

lemma ensureText_frame [simp]:
  "usersFile (ensureText ok name content d) = usersFile d" "setupCode (ensureText ok name content d) = setupCode d"
  "setupCodeFile (ensureText ok name content d) = setupCodeFile d" "unifiedFile (ensureText ok name content d) = unifiedFile d"
  "db (ensureText ok name content d) = db d" "transferPortStart (ensureText ok name content d) = transferPortStart d"
  "transferPortEnd (ensureText ok name content d) = transferPortEnd d" "replaySeen (ensureText ok name content d) = replaySeen d"
  "identityGrants (ensureText ok name content d) = identityGrants d"
  by (simp_all add: ensureText_def putText_def)

lemma initialized:
  assumes "initializeControlPlane ledgerOK noBytes h d = Some d'"
  shows "dbOpen (db d') \<and> usersFile d' = usersFile d \<and> setupCode d' = setupCode d \<and> setupCodeFile d' = setupCodeFile d \<and> unifiedFile d' = unifiedFile d \<and>
    transferPortStart d' = transferPortStart d \<and> transferPortEnd d' = transferPortEnd d \<and> replaySeen d' = replaySeen d \<and> identityGrants d' = identityGrants d"
  using assms by (auto simp: initializeControlPlane_def Let_def putState_def split: if_splits)

lemma first_run:
  assumes "ensureFirstRunSetup h d = Some d'" and "\<And>n b. random h n = Some b \<Longrightarrow> length b = 32"
  shows "\<exists>code f. d' = d\<lparr>setupCode := code, setupCodeFile := f\<rparr> \<and>
    (if setupRequired d then 16 \<le> length code \<and> f \<noteq> None else code = [] \<and> f = None)"
proof -
  have "d' = d\<lparr>setupCode := setupCode d', setupCodeFile := setupCodeFile d'\<rparr> \<and>
    (if setupRequired d then 16 \<le> length (setupCode d') \<and> setupCodeFile d' \<noteq> None else setupCode d' = [] \<and> setupCodeFile d' = None)"
    using assms
    by (auto simp: ensureFirstRunSetup_def Let_def randomSessionToken_def length_hex_encode split: if_splits option.splits)
  then show ?thesis by blast
qed

lemma ensured_config:
  assumes "ensureUnifiedConfig ok d = (Inr u, d')"
  shows "\<exists>content. d' = d\<lparr>unifiedFile := Some content\<rparr>"
proof (cases "unifiedFile d \<noteq> None \<and> unifiedFile d \<noteq> Some []")
  case True
  then obtain content where "unifiedFile d = Some content" by auto
  moreover have "d' = d" using assms True by (simp add: ensureUnifiedConfig_def)
  ultimately have "d' = d\<lparr>unifiedFile := Some content\<rparr>" by simp
  then show ?thesis by (rule exI)
next
  case False
  then show ?thesis using assms unfolding ensureUnifiedConfig_def if_not_P [OF False] by (auto split: if_splits)
qed

lemma setupRequired_frame [simp]:
  "setupRequired (d\<lparr>setupCode := c, setupCodeFile := f\<rparr>) = setupRequired d" "setupRequired (d\<lparr>unifiedFile := g\<rparr>) = setupRequired d"
  by (simp_all add: setupRequired_def loadUsersFile_def)

lemma start_ports: "transferPortStart (startDashboard h disk) \<le> transferPortEnd (startDashboard h disk)"
  "replaySeen (startDashboard h disk) = []" "identityGrants (startDashboard h disk) = []"
  by (simp_all add: startDashboard_def Let_def)


definition startHost :: host where
  "startHost = sampleHost\<lparr>random := (\<lambda>_. Some (replicate 32 (CHR ''x'')))\<rparr>"

definition pairedDisk :: dashboard where
  "pairedDisk = emptyDashboard\<lparr>unifiedFile := Some pairedText\<rparr>"

lemma starts: "\<exists>d. startUp G startHost True False pairedDisk = Some d"
proof -
  have h: "diskOK startHost n" "random startHost n = Some (replicate 32 (CHR ''x''))" for n by (simp_all add: startHost_def sampleHost_def)
  then have h2: "diskOK (hostAfter k startHost) n" "random (hostAfter k startHost) n = Some (replicate 32 (CHR ''x''))" for k n
    by (simp_all add: hostAfter_def)
  let ?d0 = "touchFiles (startDashboard startHost pairedDisk)"
  obtain d1 where d1: "ensureSecurityFiles G startHost ?d0 = Some d1"
    unfolding ensureSecurityFiles_def Let_def saveUsersFile_def if_P [OF h(1)] by simp
  have "ensureFirstRunSetup (hostAfter 2 startHost) d1 \<noteq> None"
    using h2 [of 2 0] by (auto simp: ensureFirstRunSetup_def Let_def randomSessionToken_def split: option.splits if_splits)
  then obtain d2 where d2: "ensureFirstRunSetup (hostAfter 2 startHost) d1 = Some d2" by auto
  have "unifiedFile ?d0 = Some pairedText" by (simp add: touchFiles_def startDashboard_def Let_def pairedDisk_def)
  then have "unifiedFile d1 = Some pairedText" using ensured_files [OF d1] by auto
  moreover have "length b = 32" if "random (hostAfter 2 startHost) n = Some b" for n b using that h2(2) by auto
  ultimately have f: "unifiedFile d2 = Some pairedText" using first_run [OF d2] by fastforce
  have e: "ensureUnifiedConfig (diskOK startHost 4) d2 = (Inr (), d2)"
    using f by (simp add: ensureUnifiedConfig_def pairedText_def pairedLines_def)
  have "topologyFromUnified pairedDocument = Inr (unifiedTopology pairedDocument)"
    using paired_valid [of sampleHost] by (auto simp: validateUnifiedConfig_def attempt_Inr Let_def topologyFromUnified_Inr split: if_splits)
  then have "loadTopology (diskOK startHost 5) d2 = (Inr (unifiedTopology pairedDocument), d2)"
    using f paired_parsed by (simp add: loadTopology_def attempt_def)
  then show ?thesis by (simp add: startUp_def d1 d2 e initializeControlPlane_def Let_def)
qed


section \<open>What migration leaves out\<close>

lemma legacyKey_other:
  assumes "k \<in> set legacyKeys" and "s \<noteq> ''dashboard''" and "s \<noteq> ''transfer''"
  shows "map_of (legacyKey legacy doc k) s = map_of doc s"
proof -
  have n: "to_lower (trim_space ''dashboard'') = ''dashboard''" "to_lower (trim_space ''transfer'') = ''transfer''" by code_simp+
  have "fst (snd k) = ''dashboard'' \<or> fst (snd k) = ''transfer''" using assms(1) by (auto simp: legacyKeys_def)
  then have "map_of (setKey doc (fst (snd k)) key v) s = map_of doc s" for key v
    using assms(2,3) n by (auto simp: setKey_def putKey_def update_conv')
  then show ?thesis by (auto simp: legacyKey_def split: prod.splits)
qed

text \<open>A legacy file whose topology is refused is migrated without its backends, and without an error: the
  document that is written has the backends it had before.\<close>

lemma migration_drops_invalid_topology:
  assumes "unifiedFile d = Some c" and "c \<noteq> []" and "parseINI c = Inr doc" and "legacy = foldl legacyLine [] (fst (scan_lines content))"
    and "parseTopologyProperties (legacyTopologyText legacy) = Inl err"
  shows "\<exists>doc'. migrateLegacyRoutes h (Some content) d = writeUnifiedConfig h 1 doc' d \<and>
    (\<forall>b. map_of doc' (''backend.'' @ b) = map_of doc (''backend.'' @ b))"
proof -
  have "map_of (foldl (legacyKey legacy) doc ks) s = map_of doc s" if "set ks \<subseteq> set legacyKeys" "s \<noteq> ''dashboard''" "s \<noteq> ''transfer''" for ks s
    using that(1) by (induction ks arbitrary: doc) (simp_all add: legacyKey_other [OF _ that(2,3)])
  moreover have "migrateLegacyRoutes h (Some content) d = writeUnifiedConfig h 1 (foldl (legacyKey legacy) doc legacyKeys) d"
    using assms(1-3) assms(5) unfolding assms(4) by (simp add: migrateLegacyRoutes_def ensureUnifiedConfig_def loadINI_def Let_def)
  ultimately show ?thesis by (intro exI conjI allI) (assumption, simp)
qed

end
