(* ===== verification/Spec2Isabelle.thy ===== *)
theory Spec2Isabelle
  imports Server
begin

text \<open>
  A verification library of the Ninj-OS Edge Fabric: the Go dashboard (\<^verbatim>\<open>dashboard/\<close>) that administers a network of
  Minecraft Bedrock servers behind a proxy, and the Go host agent of vanilla servers (\<^verbatim>\<open>vanilla-agent/\<close>).

  \<^bold>\<open>The program.\<close>  The dashboard is one process with an HTTP interface.  It keeps accounts and browser sessions,
  a unified configuration file from which it generates the files of the gateway and of the session core, the topology
  of backends, transfer tickets that let a player move to another backend, one-time identity grants that the session
  core issues and a backend consumes, a SQLite ledger, and what companions on the backends report in signed
  requests.  Loops in the background close unhealthy backends, sample metrics, settle transfers and delete old sessions.  The agent
  sends signed heartbeats and writes the operators that the dashboard knows into a server's
  \<^verbatim>\<open>permissions.json\<close>.  The gateway, the session core, the plugins and the bridges are programs in other languages.

  \<^bold>\<open>How it is modelled.\<close>  Go strings are byte strings, \<^verbatim>\<open>int64\<close> arithmetic is wrapped where the code can overflow
  (\<open>Signing\<close>, \<open>Control\<close>, \<open>Agent\<close>), a Go map is an association list, an \<^verbatim>\<open>error\<close> is the left side of a sum.  The state of
  the dashboard is one record (\<open>Dashboard.dashboard\<close>) that holds the fields of \<^verbatim>\<open>type dashboard struct\<close> and the files the process
  owns.  A handler is a function from the host, the request and the state to a reply and a new state, with one
  branch per early return of the code.  The host record gives the readings of the clock, the draws of random bytes, whether the
  writes to disk succeed, and the environment variables, each indexed by its order in one call, so that every failure
  of a write or of the random source is a case of the theorems.  A handler that takes a body gets the outcome of decoding
  it as an argument.  A loop in the background is the function of one tick; a series of ticks is a relation.  A part that
  holds a mutex is one step, and theorems on interleavings quantify over sequences of such steps.

  \<^bold>\<open>Theories and sources.\<close>
    \<^item> \<open>Go_Prelude\<close>, \<open>Go_Text\<close>, \<open>Go_Codec\<close>, \<open>Go_Runtime\<close>: what the code uses of Go's library: trimming, splitting, decimal numbers,
      line scanning, hexadecimal, base64 and base32, JSON values, requests and replies.  Hash functions, the
      float format and the record \<open>golib\<close> that holds them are parameters.  The locales \<open>codec\<close>, \<open>text_format\<close>,
      \<open>canonical_format\<close> and \<open>invariant_system\<close> are the interfaces that later theories interpret.
    \<^item> \<open>Ledger\<close>, \<open>Sessions\<close>, \<open>Transfers\<close>: \<^verbatim>\<open>dashboard/storage_sqlite.go\<close>.  A table is a list of rows, a statement is its effect
      on them, a closed database fails every statement.  The locale \<open>session_store\<close> states what the session methods promise.
    \<^item> \<open>Credentials\<close>, \<open>Dashboard\<close>, \<open>Accounts\<close>, \<open>Access\<close>: password hashing and TOTP, the state record, the audit trail and command queue,
      the users file, first-run setup and the users API (\<^verbatim>\<open>auth_accounts.go\<close>), authentication, \<^verbatim>\<open>requireRole\<close>, login and logout
      (\<^verbatim>\<open>main.go\<close>, \<^verbatim>\<open>control_plane.go\<close>).
    \<^item> \<open>Signing\<close>, \<open>Identity\<close>: signatures, freshness and replay protection of companion requests (\<^verbatim>\<open>main.go\<close>) and
      \<^verbatim>\<open>identity_bridge.go\<close>.
    \<^item> \<open>Topology\<close>, \<open>Registry\<close>, \<open>Backends\<close>: validation, the properties format, and the registry handlers of \<^verbatim>\<open>backends.go\<close>.
    \<^item> \<open>Ini\<close>, \<open>Vault\<close>, \<open>Unified\<close>, \<open>Prepare\<close>, \<open>Config_Store\<close>: \<^verbatim>\<open>config.go\<close> and the vault of \<^verbatim>\<open>management.go\<close>: the INI document,
      secrets in it, its validation, every generated file, loading and saving the topology with verification and rollback.
    \<^item> \<open>Runtime_State\<close>, \<open>Tickets\<close>: state files, rotated logs, the combined view, and transfer tickets (\<^verbatim>\<open>main.go\<close>).
    \<^item> \<open>Settings\<close>, \<open>Editor\<close>, \<open>Live_Config\<close>: verified writes, managed settings, the configuration editor, the vault's handler, the live
      policy of the gateway and the protection profiles (\<^verbatim>\<open>config.go\<close>, \<^verbatim>\<open>management.go\<close>, \<^verbatim>\<open>main.go\<close>, \<^verbatim>\<open>control_plane.go\<close>).
    \<^item> \<open>Health\<close>, \<open>Presence\<close>, \<open>Control\<close>: the health loop, ingest and presence, packet and ledger pages, redaction and support
      bundles, the remaining loops (\<^verbatim>\<open>control_plane.go\<close>, \<^verbatim>\<open>main.go\<close>).
    \<^item> \<open>Companion\<close>: the companion manager of \<^verbatim>\<open>management.go\<close>.
    \<^item> \<open>Monitor\<close>: health and metrics pages, host numbers and the Discord notifier of \<^verbatim>\<open>main.go\<close>, the backend ping of \<^verbatim>\<open>backends.go\<close>.
    \<^item> \<open>Agent\<close>: \<^verbatim>\<open>vanilla-agent/cmd/ninjos-vanilla-agent/main.go\<close> and its composition with the dashboard's handlers.
    \<^item> \<open>Server\<close>: \<^verbatim>\<open>main\<close>: start-up, the migration command, the state page, and the table of routes, in which every handler
      of the library stands behind the role that \<^verbatim>\<open>requireRole\<close> asks for.

  \<^bold>\<open>What is shown.\<close>  Access: a login opens a session for the account whose credential was given and for no
  other, protected handlers run only for a sufficient role, no request of a caller
  below operator changes more than traces and none below admin touches the configuration (over the whole table of routes), a process that starts is ready, setup happens once, the users API cannot touch the owner or the
  accounts of startup tokens, a changed account is logged out.  Protocols: a signed request is accepted once, an identity grant is used
  once, a transfer never goes back, live tickets have their own ports and are admitted by the gateway's rules.
  Configuration: the printed document and the printed topology read back, validation accepts exactly the well-formed
  topologies, a save that fails restores the old file, the registry refines a map from names to backends, settings change what they name
  and nothing else, the editor keeps credentials.  Operation: the health loop acts on sustained health only and
  does act, reports are attributed to their signer, redaction hides credentials, a page of packets is the filtered log, the search
  for the plugin ends and is exact, what a companion downloads is the secret that the dashboard verifies, and after a
  synchronization the operators of a server are those the dashboard's policy names; the notifier sends each notable event
  once.  Theorems named in the list of findings show
  where the code departs from what it means to do.

  \<^bold>\<open>Bounds and fuel.\<close>  No definition uses fuel: loops over data are structural, the search in nested archives and the scanning functions
  have a measure.  Limits of the code (line lengths of the scanner, page sizes, sizes of archives and bodies, the three
  time steps of TOTP) are in the definitions.

  \<^bold>\<open>Assumptions.\<close>  Lower and upper case is that of ASCII.  A failed write leaves the old file.  Writes of logs whose error the code drops succeed.
  Decoding and encoding JSON text, \<^verbatim>\<open>strconv.ParseFloat\<close>, rounding to floats, ZIP archives, kernel files, commands that the agent runs and the
  network are parameters; what a theorem needs of them is among its hypotheses, and its witness instantiates them.

  \<^bold>\<open>Not modelled.\<close>  The C, C++ and JavaScript programs; the C bindings of SQLite; the HTTP server itself with its static files, fixed
  headers and path cleaning; the scheduling of the background loops (their intervals are constants of the code).
\<close>

end
